(* ===== verification/FH_Prelude.thy ===== *)
theory FH_Prelude
  imports Main "HOL-Library.Word"
begin

text \<open>
  Shared vocabulary of the development: the machine integers of the C code, little-endian
  byte sequences, bounded writes into C arrays, the rounding macros of
  src/src/funchook_internal.h, and byte-addressed memory with block reads and writes.
  Nothing here is specific to one component.
\<close>

unbundle bit_operations_syntax

named_theorems buf_simps \<open>facts about bounded writes into arrays\<close>
named_theorems mem_simps \<open>facts about block reads and writes of memory\<close>

section \<open>Machine integers\<close>

type_synonym u8 = "8 word"
type_synonym u16 = "16 word"
type_synonym u32 = "32 word"
type_synonym u64 = "64 word"

text \<open>Sign extension of a 32-bit field, as the CPU and the casts of the C code do it.\<close>

lemma sint_ucast_32_id:
  fixes d :: u64
  assumes "- (2 ^ 31) \<le> sint d" and "sint d < 2 ^ 31"
  shows "sint (ucast d :: u32) = sint d"
proof -
  have "sint (ucast d :: u32) = signed_take_bit 31 (uint d)"
    by (simp add: sint_uint)
      (simp add: unsigned_ucast_eq signed_take_bit_take_bit take_bit_word_eq_self)
  also have "\<dots> = signed_take_bit 31 (signed_take_bit 63 (uint d))"
    by (simp add: min_def)
  also have "\<dots> = signed_take_bit 31 (sint d)"
    by (simp add: sint_uint)
  also have "\<dots> = sint d"
    using assms by (simp add: signed_take_bit_int_eq_self)
  finally show ?thesis .
qed


section \<open>Little-endian byte sequences\<close>

text \<open>
  What \<open>*(T*)p = v\<close> stores and \<open>*(T*)p\<close> reads on the little-endian targets of the
  library: the \<open>n\<close> low bytes of a word, least significant first.
\<close>

primrec le_bytes :: "nat \<Rightarrow> 'a::len word \<Rightarrow> u8 list" where
  "le_bytes 0 w = []"
| "le_bytes (Suc n) w = ucast w # le_bytes n (drop_bit 8 w)"

primrec of_le_bytes :: "u8 list \<Rightarrow> 'a::len word" where
  "of_le_bytes [] = 0"
| "of_le_bytes (b # bs) = ucast b OR push_bit 8 (of_le_bytes bs)"

lemma length_le_bytes [simp]: "length (le_bytes n w) = n"
  by (induction n arbitrary: w) auto

lemma nth_le_bytes: "i < n \<Longrightarrow> le_bytes n w ! i = ucast (drop_bit (8 * i) w)"
proof (induction n arbitrary: w i)
  case 0
  then show ?case by simp
next
  case (Suc n)
  then show ?case
    by (cases i) (simp_all add: algebra_simps)
qed

lemma bit_of_le_bytes:
  "bit (of_le_bytes bs :: 'a::len word) k \<longleftrightarrow>
     k < LENGTH('a) \<and> k div 8 < length bs \<and> bit (bs ! (k div 8)) (k mod 8)"
proof (induction bs arbitrary: k)
  case Nil
  then show ?case by simp
next
  case (Cons b bs)
  show ?case
  proof (cases "k < 8")
    case True
    then show ?thesis
      by (auto simp: bit_or_iff bit_ucast_iff bit_push_bit_iff)
  next
    case False
    then obtain j where k: "k = j + 8"
      by (metis add.commute le_Suc_ex not_less)
    have "\<not> bit b k"
      using k by (auto dest: bit_imp_le_length)
    moreover have "k div 8 = Suc (j div 8)" "k mod 8 = j mod 8"
      by (simp_all add: k)
    moreover have "bit (of_le_bytes bs :: 'a word) j \<longleftrightarrow>
        j < LENGTH('a) \<and> j div 8 < length bs \<and> bit (bs ! (j div 8)) (j mod 8)"
      by (rule Cons)
    ultimately show ?thesis
      by (auto simp: bit_or_iff bit_ucast_iff bit_push_bit_iff k)
  qed
qed

lemma of_le_bytes_le_bytes:
  fixes w :: "'a::len word"
  assumes "LENGTH('a) \<le> 8 * n"
  shows "of_le_bytes (le_bytes n w) = w"
proof (rule bit_word_eqI)
  fix k assume k: "k < LENGTH('a)"
  with assms have "k div 8 < n" by linarith
  with k show "bit (of_le_bytes (le_bytes n w) :: 'a word) k \<longleftrightarrow> bit w k"
    by (simp add: bit_of_le_bytes nth_le_bytes bit_simps)
qed

lemma of_le_bytes_32 [simp]: "of_le_bytes (le_bytes 4 (w :: u32)) = w"
  by (rule of_le_bytes_le_bytes) simp

lemma of_le_bytes_64 [simp]: "of_le_bytes (le_bytes 8 (w :: u64)) = w"
  by (rule of_le_bytes_le_bytes) simp

lemma le_bytes_inject_32: "le_bytes 4 (v :: u32) = le_bytes 4 w \<longleftrightarrow> v = w"
  by (metis of_le_bytes_32)

section \<open>Bounded writes into C arrays\<close>

text \<open>
  A write of the elements \<open>xs\<close> at index \<open>off\<close> of an array. Writing past the end is
  undefined behaviour in C: the result is \<open>None\<close>, so that the models can say, and the
  theorems can exclude, that it happens.
\<close>

definition buf_write :: "nat \<Rightarrow> 'i list \<Rightarrow> 'i list \<Rightarrow> 'i list option" where
  "buf_write off xs buf =
     (if off + length xs \<le> length buf
      then Some (take off buf @ xs @ drop (off + length xs) buf) else None)"

definition buf_read :: "nat \<Rightarrow> nat \<Rightarrow> 'i list \<Rightarrow> 'i list" where
  "buf_read off n buf = take n (drop off buf)"

lemma buf_write_Some [buf_simps]:
  "buf_write off xs buf = Some buf' \<longleftrightarrow>
     off + length xs \<le> length buf \<and> buf' = take off buf @ xs @ drop (off + length xs) buf"
  by (auto simp: buf_write_def)

lemma buf_write_defined: "(\<exists>b. buf_write off xs buf = Some b) \<longleftrightarrow> off + length xs \<le> length buf"
  by (simp add: buf_write_def)

lemma buf_write_None [buf_simps]: "buf_write off xs buf = None \<longleftrightarrow> length buf < off + length xs"
  by (simp add: buf_write_def not_le)

lemma length_buf_write: "buf_write off xs buf = Some buf' \<Longrightarrow> length buf' = length buf"
  by (auto simp: buf_simps)

lemma nth_buf_write:
  assumes "buf_write off xs buf = Some buf'" and "i < length buf"
  shows "buf' ! i = (if off \<le> i \<and> i < off + length xs then xs ! (i - off) else buf ! i)"
  using assms by (auto simp: buf_simps nth_append min_def)

lemma buf_read_write_same:
  "buf_write off xs buf = Some buf' \<Longrightarrow> buf_read off (length xs) buf' = xs"
  by (auto simp: buf_simps buf_read_def)

lemma buf_read_write_other:
  assumes "buf_write off xs buf = Some buf'" and "i + n \<le> off \<or> off + length xs \<le> i"
  shows "buf_read i n buf' = buf_read i n buf"
proof (rule nth_equalityI)
  show "length (buf_read i n buf') = length (buf_read i n buf)"
    using assms(1) by (simp add: buf_read_def length_buf_write)
next
  fix j assume "j < length (buf_read i n buf')"
  then have j: "j < n" "i + j < length buf"
    using length_buf_write [OF assms(1)] by (auto simp: buf_read_def)
  then show "buf_read i n buf' ! j = buf_read i n buf ! j"
    using nth_buf_write [OF assms(1), of "i + j"] assms(2) length_buf_write [OF assms(1)]
    by (auto simp: buf_read_def)
qed


section \<open>The rounding macros\<close>

definition ROUND_DOWN :: "'a::len word \<Rightarrow> 'a word \<Rightarrow> 'a word" where
  "ROUND_DOWN num unit = num AND NOT (unit - 1)"

definition ROUND_UP :: "'a::len word \<Rightarrow> 'a word \<Rightarrow> 'a word" where
  "ROUND_UP num unit = (num + unit - 1) AND NOT (unit - 1)"

text \<open>The units used with the macros are powers of two (page sizes, allocation units).\<close>

definition pow2_unit :: "'a::len word \<Rightarrow> bool" where
  "pow2_unit u \<longleftrightarrow> (\<exists>k < LENGTH('a). u = 2 ^ k)"

lemma pow2_unitI: "k < LENGTH('a) \<Longrightarrow> pow2_unit (2 ^ k :: 'a::len word)"
  by (auto simp: pow2_unit_def)

lemma and_not_mask_unat:
  fixes w :: "'a::len word"
  shows "unat (w AND NOT (mask k)) = unat w - unat w mod 2 ^ k"
proof -
  have "w AND NOT (mask k) = w - take_bit k w"
  proof -
    have "NOT w AND take_bit k w = 0"
      by (simp add: bit_eq_iff bit_simps)
    then have "w - take_bit k w = w AND NOT (take_bit k w)"
      by (rule disjunctive_diff_eq_and_not)
    also have "\<dots> = w AND NOT (mask k)"
      by (auto simp: bit_eq_iff bit_simps)
    finally show ?thesis by simp
  qed
  moreover have "unat (take_bit k w) = unat w mod 2 ^ k"
    by (subst unsigned_take_bit_eq) (rule take_bit_eq_mod)
  moreover have "take_bit k w \<le> w"
    by (simp add: word_le_nat_alt \<open>unat (take_bit k w) = _\<close>)
  ultimately show ?thesis
    by (simp add: unat_sub)
qed

lemma unat_pow2: "k < LENGTH('a) \<Longrightarrow> unat (2 ^ k :: 'a::len word) = 2 ^ k"
proof -
  assume "k < LENGTH('a)"
  then have "(2 :: nat) ^ k < 2 ^ LENGTH('a)" by simp
  moreover have "(2 ^ k :: 'a word) = of_nat (2 ^ k)" by simp
  ultimately show ?thesis
    by (simp only: unat_of_nat mod_less)
qed

lemma unat_ROUND_DOWN:
  assumes "pow2_unit u"
  shows "unat (ROUND_DOWN w u) = unat w - unat w mod unat u"
proof -
  obtain k where "k < LENGTH('a)" "u = 2 ^ k"
    using assms by (auto simp: pow2_unit_def)
  then show ?thesis
    by (simp add: ROUND_DOWN_def mask_eq_exp_minus_1 [symmetric] and_not_mask_unat unat_pow2)
qed

lemma ROUND_DOWN_le: "pow2_unit u \<Longrightarrow> ROUND_DOWN w u \<le> w"
  by (simp add: word_le_nat_alt unat_ROUND_DOWN)

lemma unat_diff_ROUND_DOWN:
  assumes "pow2_unit u"
  shows "unat (w - ROUND_DOWN w u) = unat w mod unat u"
  using assms by (simp add: unat_sub ROUND_DOWN_le unat_ROUND_DOWN)

lemma pow2_unit_pos: "pow2_unit u \<Longrightarrow> 0 < unat u"
  by (auto simp: pow2_unit_def unat_pow2)

lemma unat_ROUND_UP:
  fixes w u :: "'a::len word"
  assumes "pow2_unit u" and "unat w + unat u - 1 < 2 ^ LENGTH('a)"
  shows "unat (ROUND_UP w u) = (unat w + unat u - 1) div unat u * unat u"
proof -
  have one: "1 \<le> u"
    using pow2_unit_pos [OF assms(1)] by (simp add: word_le_nat_alt Suc_leI)
  have "unat (w + (u - 1)) = unat w + (unat u - 1)"
    using assms(2) pow2_unit_pos [OF assms(1)] one
    by (subst unat_add_lem [THEN iffD1]) (simp_all add: unat_sub)
  moreover have "ROUND_UP w u = ROUND_DOWN (w + (u - 1)) u"
    by (simp add: ROUND_UP_def ROUND_DOWN_def algebra_simps)
  ultimately show ?thesis
    using assms pow2_unit_pos [OF assms(1)]
    by (simp add: unat_ROUND_DOWN minus_mod_eq_div_mult)
qed

lemma ROUND_UP_bounds:
  fixes w u :: "'a::len word"
  assumes "pow2_unit u" and "unat w + unat u - 1 < 2 ^ LENGTH('a)"
  shows "unat w \<le> unat (ROUND_UP w u)" and "unat (ROUND_UP w u) < unat w + unat u"
    and "unat (ROUND_UP w u) mod unat u = 0"
proof -
  let ?n = "unat w + unat u - 1"
  have eq: "unat (ROUND_UP w u) = ?n - ?n mod unat u"
    using unat_ROUND_UP [OF assms] by (simp add: minus_mod_eq_div_mult)
  have "?n mod unat u < unat u"
    using pow2_unit_pos [OF assms(1)] by simp
  then show "unat w \<le> unat (ROUND_UP w u)"
    using eq by linarith
  show "unat (ROUND_UP w u) < unat w + unat u"
    using eq pow2_unit_pos [OF assms(1)] by linarith
  show "unat (ROUND_UP w u) mod unat u = 0"
    using unat_ROUND_UP [OF assms] by simp
qed

section \<open>Byte-addressed memory\<close>

type_synonym 'a mem = "'a word \<Rightarrow> u8"

definition in_region :: "'a::len word \<Rightarrow> nat \<Rightarrow> 'a word \<Rightarrow> bool" where
  "in_region a n x \<longleftrightarrow> unat (x - a) < n"

definition mem_read :: "('a::len) mem \<Rightarrow> 'a word \<Rightarrow> nat \<Rightarrow> u8 list" where
  "mem_read m a n = map (\<lambda>i. m (a + of_nat i)) [0..<n]"

definition mem_write :: "('a::len) mem \<Rightarrow> 'a word \<Rightarrow> u8 list \<Rightarrow> 'a mem" where
  "mem_write m a bs = (\<lambda>x. if unat (x - a) < length bs then bs ! unat (x - a) else m x)"

lemma length_mem_read [simp]: "length (mem_read m a n) = n"
  by (simp add: mem_read_def)

lemma nth_mem_read [mem_simps]: "i < n \<Longrightarrow> mem_read m a n ! i = m (a + of_nat i)"
  by (simp add: mem_read_def)

lemma mem_write_apply [mem_simps]:
  "mem_write m a bs x = (if unat (x - a) < length bs then bs ! unat (x - a) else m x)"
  by (simp add: mem_write_def)

lemma mem_write_other: "\<not> in_region a (length bs) x \<Longrightarrow> mem_write m a bs x = m x"
  by (simp add: mem_simps in_region_def)

lemma mem_write_nth:
  fixes a :: "'a::len word"
  assumes "i < length bs" and "length bs \<le> 2 ^ LENGTH('a)"
  shows "mem_write m a bs (a + of_nat i) = bs ! i"
  using assms by (simp add: mem_simps unat_of_nat)

lemma mem_read_write_same:
  fixes a :: "'a::len word"
  assumes "length bs \<le> 2 ^ LENGTH('a)"
  shows "mem_read (mem_write m a bs) a (length bs) = bs"
  by (rule nth_equalityI) (auto simp: nth_mem_read mem_write_nth assms)

lemma mem_read_cong:
  assumes "\<And>x. in_region a n x \<Longrightarrow> m x = m' x" and "n \<le> 2 ^ LENGTH('a)"
  shows "mem_read m (a :: 'a::len word) n = mem_read m' a n"
proof (rule nth_equalityI)
  show "length (mem_read m a n) = length (mem_read m' a n)" by simp
next
  fix i assume "i < length (mem_read m a n)"
  then have i: "i < n" by simp
  with assms(2) have "in_region a n (a + of_nat i)"
    by (simp add: in_region_def unat_of_nat)
  with i show "mem_read m a n ! i = mem_read m' a n ! i"
    by (simp add: nth_mem_read assms(1))
qed

lemma mem_write_read_id: "mem_write m a (mem_read m a n) = m"
proof
  fix x
  show "mem_write m a (mem_read m a n) x = m x"
    by (simp add: mem_write_def nth_mem_read)
qed


lemma mem_read_append:
  "mem_read m a (n + k) = mem_read m a n @ mem_read m (a + of_nat n) k"
  by (rule nth_equalityI) (auto simp: nth_mem_read nth_append of_nat_diff)

lemma take_mem_read: "k \<le> n \<Longrightarrow> take k (mem_read m a n) = mem_read m a k"
  by (simp add: mem_read_def take_map)

text \<open>Offsets from \<open>a\<close> of the bytes of a block that starts at \<open>b\<close>.\<close>

lemma unat_offset:
  fixes a b :: "'a::len word"
  assumes "unat (b - a) + i < 2 ^ LENGTH('a)"
  shows "unat (b + of_nat i - a) = unat (b - a) + i"
proof -
  have i: "unat (of_nat i :: 'a word) = i"
    using assms by (simp add: unat_of_nat)
  have "unat ((b - a) + of_nat i) = unat (b - a) + i"
    using assms i unat_add_lem [of "b - a" "of_nat i"] by simp
  then show ?thesis by (simp add: algebra_simps)
qed

lemma not_in_region_beyond:
  fixes a b :: "'a::len word"
  assumes "n \<le> unat (b - a)" and "unat (b - a) + i < 2 ^ LENGTH('a)"
  shows "\<not> in_region a n (b + of_nat i)"
  using assms by (simp add: in_region_def unat_offset)

text \<open>The whole pages around a block contain it.\<close>

lemma whole_pages_cover:
  fixes a n psz :: "'a::len word"
  assumes "pow2_unit psz" and "unat a + unat n + unat psz < 2 ^ LENGTH('a)" and "i < unat n"
  shows "in_region (ROUND_DOWN a psz) (unat (ROUND_UP (n + a - ROUND_DOWN a psz) psz)) (a + of_nat i)"
proof -
  let ?d = "ROUND_DOWN a psz"
  let ?off = "unat a mod unat psz"
  have off: "unat (a - ?d) = ?off" by (rule unat_diff_ROUND_DOWN [OF assms(1)])
  have lt: "?off < unat psz" using pow2_unit_pos [OF assms(1)] by simp
  have le: "?off \<le> unat a" by (rule mod_less_eq_dividend)
  have len: "unat (n + a - ?d) = unat n + ?off"
  proof -
    have "unat n + unat (a - ?d) < 2 ^ LENGTH('a)"
      using assms(2) le by (simp only: off)
    then have "unat (n + (a - ?d)) = unat n + unat (a - ?d)"
      by (rule unat_add_lem [THEN iffD1])
    then show ?thesis by (simp add: off algebra_simps)
  qed
  have "unat (n + a - ?d) + unat psz - 1 < 2 ^ LENGTH('a)"
    using assms(2) le by (simp only: len)
  from ROUND_UP_bounds(1) [OF assms(1) this]
  have size: "unat n + ?off \<le> unat (ROUND_UP (n + a - ?d) psz)" by (simp only: len)
  have "unat (a + of_nat i - ?d) = unat (a - ?d) + i"
    using assms(2,3) le by (intro unat_offset) (simp only: off)
  then show ?thesis
    using size assms(3) by (simp add: in_region_def off)
qed

section \<open>Disjoint blocks of memory\<close>

text \<open>Blocks may wrap around the end of the address space, as word arithmetic does.\<close>

definition disjoint_blocks :: "'a::len word \<Rightarrow> nat \<Rightarrow> 'a word \<Rightarrow> nat \<Rightarrow> bool" where
  "disjoint_blocks a n b m \<longleftrightarrow> n \<le> unat (b - a) \<and> m \<le> unat (a - b)"

lemma disjoint_blocks_sym: "disjoint_blocks a n b m \<longleftrightarrow> disjoint_blocks b m a n"
  by (auto simp: disjoint_blocks_def)

lemma disjoint_blocksI:
  assumes "\<And>x. in_region a n x \<Longrightarrow> \<not> in_region b m x" and "0 < n" and "0 < m"
  shows "disjoint_blocks a n b m"
  using assms(1) [of a] assms(1) [of b] assms(2,3)
  by (auto simp: disjoint_blocks_def in_region_def not_less [symmetric])

lemma unat_minus_swap:
  fixes a b :: "'a::len word"
  assumes "a \<noteq> b"
  shows "unat (a - b) + unat (b - a) = 2 ^ LENGTH('a)"
proof -
  define N :: nat where "N = 2 ^ LENGTH('a)"
  have "unat a \<noteq> unat b" using assms by (simp add: word_unat_eq_iff)
  moreover have "unat a < N" "unat b < N"
    unfolding N_def by (rule unsigned_less)+
  ultimately show ?thesis
    unfolding unat_sub_if' N_def [symmetric] by (auto split: if_splits)
qed

lemma disjoint_blocksD:
  fixes a b :: "'a::len word"
  assumes d: "disjoint_blocks a n b m" and x: "in_region a n x"
  shows "\<not> in_region b m x"
proof -
  let ?i = "unat (x - a)"
  have ne: "a \<noteq> b" using d x by (auto simp: disjoint_blocks_def in_region_def)
  have "?i < unat (b - a)" using d x by (simp add: disjoint_blocks_def in_region_def)
  then have "unat (a - b) + ?i < 2 ^ LENGTH('a)"
    using unat_minus_swap [OF ne] by linarith
  from unat_offset [OF this] have "unat (x - b) = unat (a - b) + ?i"
    by simp
  then show ?thesis
    using d by (simp add: disjoint_blocks_def in_region_def)
qed

text \<open>A block inside a block.\<close>

lemma in_region_sub:
  fixes p :: "'a::len word"
  assumes "in_region (p + of_nat off) k x" and "off + k \<le> 2 ^ LENGTH('a)"
  shows "off \<le> unat (x - p)" and "unat (x - p) < off + k"
proof -
  let ?i = "unat (x - (p + of_nat off))"
  have i: "?i < k" using assms(1) by (simp add: in_region_def)
  have "of_nat (off + ?i) = (of_nat off :: 'a word) + (x - (p + of_nat off))"
    by simp
  also have "\<dots> = x - p" by (simp add: algebra_simps)
  finally have "unat (x - p) = (off + ?i) mod 2 ^ LENGTH('a)"
    by (metis unat_of_nat)
  then have "unat (x - p) = off + ?i"
    using i assms(2) by simp
  then show "off \<le> unat (x - p)" "unat (x - p) < off + k"
    using i by simp_all
qed

lemma mem_read_write_disjoint:
  fixes a b :: "'a::len word"
  assumes "disjoint_blocks a n b (length bs)" and "n \<le> 2 ^ LENGTH('a)"
  shows "mem_read (mem_write m b bs) a n = mem_read m a n"
  using disjoint_blocksD [OF assms(1)] assms(2) by (intro mem_read_cong) (simp_all add: mem_write_other)

section \<open>Reading fields of a code sequence in memory\<close>

text \<open>\<open>code_at m a bs\<close>: the bytes \<open>bs\<close> are in memory at \<open>a\<close>.\<close>

definition code_at :: "('a::len word \<Rightarrow> u8) \<Rightarrow> 'a word \<Rightarrow> u8 list \<Rightarrow> bool" where
  "code_at m a bs \<longleftrightarrow> mem_read m a (length bs) = bs"

lemma code_at_nth: "code_at m a bs \<Longrightarrow> i < length bs \<Longrightarrow> m (a + of_nat i) = bs ! i"
  by (metis code_at_def nth_mem_read)

lemma code_at_hd: "code_at m a (b # bs) \<Longrightarrow> m a = b"
  using code_at_nth [of m a "b # bs" 0] by simp

lemma code_at_append:
  "code_at m a (xs @ ys) \<longleftrightarrow> code_at m a xs \<and> code_at m (a + of_nat (length xs)) ys"
  by (auto simp: code_at_def mem_read_append)

lemma code_at_Cons: "code_at m a (x # xs) \<longleftrightarrow> m a = x \<and> code_at m (a + 1) xs"
  using code_at_append [of m a "[x]" xs] by (simp add: code_at_def mem_read_def)

lemma code_at_Nil [simp]: "code_at m a []"
  by (simp add: code_at_def mem_read_def)

lemma code_at_take: "code_at m a bs \<Longrightarrow> code_at m a (take n bs)"
  by (metis append_take_drop_id code_at_append)

lemma code_at_read: "code_at m a bs \<Longrightarrow> n = length bs \<Longrightarrow> mem_read m a n = bs"
  by (simp add: code_at_def)

lemma code_atI: "mem_read m a n = bs \<Longrightarrow> code_at m a bs"
  by (auto simp: code_at_def)

lemma code_at_write:
  fixes a :: "'a::len word"
  shows "length bs \<le> 2 ^ LENGTH('a) \<Longrightarrow> code_at (mem_write m a bs) a bs"
  by (simp add: code_at_def mem_read_write_same)

lemma code_at_write_other:
  fixes a b :: "'a::len word"
  assumes "length bs \<le> unat (b - a)" and "unat (b - a) + length cs \<le> 2 ^ LENGTH('a)"
  shows "code_at (mem_write m a bs) b cs \<longleftrightarrow> code_at m b cs"
proof -
  have "mem_read (mem_write m a bs) b (length cs) = mem_read m b (length cs)"
  proof (rule nth_equalityI)
    fix i assume "i < length (mem_read (mem_write m a bs) b (length cs))"
    then have i: "i < length cs" by simp
    then have "\<not> in_region a (length bs) (b + of_nat i)"
      using assms not_in_region_beyond [of "length bs" b a i] by simp
    with i show "mem_read (mem_write m a bs) b (length cs) ! i = mem_read m b (length cs) ! i"
      by (simp add: nth_mem_read mem_write_other)
  qed simp
  then show ?thesis by (simp add: code_at_def)
qed

end
