(* ===== verification/FH_Base.thy ===== *)
theory FH_Base
  imports FH_Prelude
begin

text \<open>
  The data of the library: error codes (src/include/funchook.h), entries and pages
  (src/src/funchook_internal.h), the state a call works on, and the texts that
  \<open>funchook_set_error_message\<close> leaves in the handle.

  A call returns a value of a sum type: \<open>Inr\<close> for the C return value 0, \<open>Inl (Err e)\<close>
  for an error code and \<open>Inl Crash\<close> where the C program has undefined behaviour (a write
  past the end of an array, a write to memory that is not mapped writable).
\<close>

section \<open>Error codes\<close>

datatype funchook_error =
    ERROR_INTERNAL_ERROR
  | ERROR_OUT_OF_MEMORY
  | ERROR_ALREADY_INSTALLED
  | ERROR_DISASSEMBLY
  | ERROR_IP_RELATIVE_OFFSET
  | ERROR_CANNOT_FIX_IP_RELATIVE
  | ERROR_FOUND_BACK_JUMP
  | ERROR_TOO_SHORT_INSTRUCTIONS
  | ERROR_MEMORY_ALLOCATION
  | ERROR_MEMORY_FUNCTION
  | ERROR_NOT_INSTALLED
  | ERROR_NO_AVAILABLE_REGISTERS
  | ERROR_NO_SPACE_NEAR_TARGET_ADDR

fun error_code :: "funchook_error \<Rightarrow> int" where
  "error_code ERROR_INTERNAL_ERROR = -1"
| "error_code ERROR_OUT_OF_MEMORY = 1"
| "error_code ERROR_ALREADY_INSTALLED = 2"
| "error_code ERROR_DISASSEMBLY = 3"
| "error_code ERROR_IP_RELATIVE_OFFSET = 4"
| "error_code ERROR_CANNOT_FIX_IP_RELATIVE = 5"
| "error_code ERROR_FOUND_BACK_JUMP = 6"
| "error_code ERROR_TOO_SHORT_INSTRUCTIONS = 7"
| "error_code ERROR_MEMORY_ALLOCATION = 8"
| "error_code ERROR_MEMORY_FUNCTION = 9"
| "error_code ERROR_NOT_INSTALLED = 10"
| "error_code ERROR_NO_AVAILABLE_REGISTERS = 11"
| "error_code ERROR_NO_SPACE_NEAR_TARGET_ADDR = 12"

datatype failure = Err funchook_error | Crash

type_synonym 'r result = "failure + 'r"

text \<open>The value the C function returns; \<open>None\<close> when it does not get to return.\<close>

fun return_code :: "'r result \<Rightarrow> int option" where
  "return_code (Inr r) = Some 0"
| "return_code (Inl (Err e)) = Some (error_code e)"
| "return_code (Inl Crash) = None"

lemma error_code_inject: "error_code e = error_code e' \<longleftrightarrow> e = e'"
  by (cases e; cases e') simp_all

lemma error_code_nonzero: "error_code e \<noteq> 0"
  by (cases e) simp_all

lemma return_code_success: "return_code r = Some 0 \<longleftrightarrow> (\<exists>x. r = Inr x)"
  by (cases r rule: return_code.cases) (simp_all add: error_code_nonzero)

section \<open>Sequencing with early return\<close>

text \<open>\<open>rv = f(...); if (rv != 0) return rv;\<close>\<close>

definition then_ok ::
    "'r result \<times> 's \<Rightarrow> ('r \<Rightarrow> 's \<Rightarrow> 'q result \<times> 's) \<Rightarrow> 'q result \<times> 's" where
  "then_ok p k = (case p of (Inl e, s) \<Rightarrow> (Inl e, s) | (Inr r, s) \<Rightarrow> k r s)"

lemma then_ok_Inl [simp]: "then_ok (Inl e, s) k = (Inl e, s)"
  and then_ok_Inr [simp]: "then_ok (Inr r, s) k = k r s"
  by (simp_all add: then_ok_def)

lemma then_ok_eq_Inr:
  "then_ok p k = (Inr q, t) \<longleftrightarrow> (\<exists>r s. p = (Inr r, s) \<and> k r s = (Inr q, t))"
  by (cases p; cases "fst p") (auto simp: then_ok_def)

lemma then_ok_eq_Inl:
  "then_ok p k = (Inl e, t) \<longleftrightarrow>
     p = (Inl e, t) \<or> (\<exists>r s. p = (Inr r, s) \<and> k r s = (Inl e, t))"
  by (cases p; cases "fst p") (auto simp: then_ok_def)

lemma then_okE:
  assumes "then_ok p k = (r, t)"
  obtains (fail) e where "p = (Inl e, t)" "r = Inl e"
  | (ok) x s where "p = (Inr x, s)" "k x s = (r, t)"
  using assms by (cases p; cases "fst p") (auto simp: then_ok_def)

section \<open>Memory protection\<close>

datatype prot = Prot (p_read: bool) (p_write: bool) (p_exec: bool)

definition PROT_RW :: prot where "PROT_RW = Prot True True False"
definition PROT_RX :: prot where "PROT_RX = Prot True False True"
definition PROT_RWX :: prot where "PROT_RWX = Prot True True True"

section \<open>Entries and pages\<close>

record ('ad, 'i) funchook_entry =
  transit :: "'i list"
  original_target_func :: "'ad"
  target_func :: "'ad"
  hook_func :: "'ad"
  prehook :: "'ad"
  user_data :: "'ad"
  eflags :: u32
  patch_code_size :: u32
  trampoline :: "'i list"
  old_code :: "'i list"
  new_code :: "'i list"

text \<open>
  A page in the handle's list: its address, the number of entries in use and the entries
  filled so far (the slots \<open>0 ..< used\<close> of the C array).
\<close>

record ('ad, 'i) funchook_page =
  page_addr :: "'ad"
  used :: nat
  entries :: "('ad, 'i) funchook_entry list"

record 'ad funchook_params =
  p_hook_func :: "'ad"
  p_prehook :: "'ad"
  p_user_data :: "'ad"
  p_flags :: u32

section \<open>The state\<close>

text \<open>
  Addresses are of a type \<open>'ad\<close>, a machine word in every use. The part the operating-system layer works on: memory and its protection (\<open>None\<close> for
  an unmapped byte), a counter of the system calls made (the environment's answers may
  depend on it), the global \<open>page_size\<close>, the handle's error message and the static data
  of the layer (\<open>os_data\<close>).
\<close>

record ('ad, 'p) os_state =
  mem :: "'ad \<Rightarrow> u8"
  mprot :: "'ad \<Rightarrow> prot option"
  now :: nat
  page_size :: "'ad"
  error_message :: string
  os_data :: 'p

record ('ad, 'p, 'i) fh_state = "('ad, 'p) os_state" +
  installed :: bool
  page_list :: "('ad, 'i) funchook_page list"
  num_entries_in_page :: nat

definition writable :: "('a::len word, 'p, 'z) os_state_scheme \<Rightarrow> 'a word \<Rightarrow> nat \<Rightarrow> bool" where
  "writable s a n \<longleftrightarrow>
     list_all (\<lambda>i. case mprot s (a + of_nat i) of None \<Rightarrow> False | Some p \<Rightarrow> p_write p) [0..<n]"

lemma writable_iff:
  "writable s a n \<longleftrightarrow> (\<forall>i < n. \<exists>p. mprot s (a + of_nat i) = Some p \<and> p_write p)"
  by (fastforce simp: writable_def list_all_iff split: option.splits)

text \<open>\<open>memcpy\<close> into memory: it faults unless every byte is mapped writable.\<close>

definition memcpy ::
    "'a::len word \<Rightarrow> u8 list \<Rightarrow> ('a word, 'p, 'z) os_state_scheme \<Rightarrow>
      unit result \<times> ('a word, 'p, 'z) os_state_scheme" where
  "memcpy a bs s =
     (if writable s a (length bs) then (Inr (), s\<lparr>mem := mem_write (mem s) a bs\<rparr>)
      else (Inl Crash, s))"

section \<open>Texts of error messages\<close>

text \<open>The conversions the messages use: \<open>%x\<close>, \<open>%08x\<close>, \<open>%d\<close>, \<open>%p\<close>.\<close>

definition hex_digit :: "nat \<Rightarrow> char" where
  "hex_digit d = (if d < 10 then char_of (48 + d) else char_of (87 + d))"

fun fmt_nat :: "nat \<Rightarrow> nat \<Rightarrow> string" where
  "fmt_nat base n =
     (if n < base \<or> base < 2 then [hex_digit n]
      else fmt_nat base (n div base) @ [hex_digit (n mod base)])"

declare fmt_nat.simps [simp del]

definition fmt_x :: "nat \<Rightarrow> string" where
  "fmt_x n = fmt_nat 16 n"

definition fmt_08x :: "nat \<Rightarrow> string" where
  "fmt_08x n = (let s = fmt_x n in replicate (8 - length s) CHR ''0'' @ s)"

definition fmt_d :: "int \<Rightarrow> string" where
  "fmt_d i = (if i < 0 then CHR ''-'' # fmt_nat 10 (nat (- i)) else fmt_nat 10 (nat i))"

definition fmt_p :: "'a::len word \<Rightarrow> string" where
  "fmt_p w = (if w = 0 then ''(nil)'' else ''0x'' @ fmt_x (unat w))"

abbreviation newline :: string where "newline \<equiv> [CHR 0x0A]"

text \<open>\<open>PATH_MAX\<close>, the size of the buffers for file names and for lines of text.\<close>

definition PATH_MAX :: nat where "PATH_MAX = 4096"

definition FUNCHOOK_MAX_ERROR_MESSAGE_LEN :: nat where
  "FUNCHOOK_MAX_ERROR_MESSAGE_LEN = 200"

text \<open>\<open>vsnprintf\<close> writes at most \<open>FUNCHOOK_MAX_ERROR_MESSAGE_LEN - 1\<close> characters.\<close>

definition funchook_set_error_message ::
    "string \<Rightarrow> ('a::len word, 'p, 'z) os_state_scheme \<Rightarrow> ('a word, 'p, 'z) os_state_scheme" where
  "funchook_set_error_message msg s =
     s\<lparr>error_message := take (FUNCHOOK_MAX_ERROR_MESSAGE_LEN - 1) msg\<rparr>"

lemma set_error_message_frame [simp]:
  "mem (funchook_set_error_message m s) = mem s"
  "mprot (funchook_set_error_message m s) = mprot s"
  "now (funchook_set_error_message m s) = now s"
  "page_size (funchook_set_error_message m s) = page_size s"
  "os_data (funchook_set_error_message m s) = os_data s"
  by (simp_all add: funchook_set_error_message_def)

end
