(* ===== verification/OS_Windows.thy ===== *)
theory OS_Windows
  imports FH_Base
begin

text \<open>
  The operating-system layer for Windows, src/src/os_windows.c: the list of reserved
  allocation units, the search for free memory with \<open>VirtualQuery\<close>, the pages handed out of
  the units, and the changes of memory protection around a patch.

  The system is a parameter, \<open>win_env\<close>: each answer may depend on the number of calls made
  before. What a successful call does to the address space is written out in the \<open>sys_\<close>
  functions. The first page of a unit, which holds its \<open>page_info\<close>, is kept as an element of
  a list and not as bytes of \<open>mem\<close>.
\<close>

section \<open>The data of the layer\<close>

text \<open>
  \<open>page_list_t\<close>: the address of the unit, the count and the flags of its pages. The list is
  circular in C, with \<open>page_list\<close> as its head; here it is the elements from
  \<open>page_list.next\<close> on.
\<close>

record 'ad page_info =
  pi_addr :: "'ad"
  num_used :: int
  pi_used :: "bool list"

record 'ad win_data =
  allocation_unit :: "'ad"
  unit_list :: "'ad page_info list"

record 'ad memory_information =
  base_address :: "'ad"
  region_size :: "'ad"
  is_free :: bool

section \<open>System calls\<close>

record 'ad win_env =
  win_query :: "nat \<Rightarrow> ('ad \<Rightarrow> prot option) \<Rightarrow> 'ad list \<Rightarrow> 'ad \<Rightarrow> 'ad memory_information option"
  win_reserve :: "nat \<Rightarrow> ('ad \<Rightarrow> prot option) \<Rightarrow> 'ad list \<Rightarrow> 'ad \<Rightarrow> 'ad \<Rightarrow> 'ad"
  win_allocate :: "nat \<Rightarrow> ('ad \<Rightarrow> prot option) \<Rightarrow> 'ad list \<Rightarrow> 'ad \<Rightarrow> 'ad"
  win_commit :: "nat \<Rightarrow> 'ad \<Rightarrow> 'ad \<Rightarrow> bool"
  win_decommit :: "nat \<Rightarrow> 'ad \<Rightarrow> 'ad \<Rightarrow> bool"
  win_release :: "nat \<Rightarrow> 'ad \<Rightarrow> bool"
  win_protect :: "nat \<Rightarrow> ('ad \<Rightarrow> prot option) \<Rightarrow> 'ad \<Rightarrow> 'ad \<Rightarrow> prot \<Rightarrow> bool"
  win_last_error :: "nat \<Rightarrow> nat"
  win_format_message :: "nat \<Rightarrow> string"
  win_page_size :: "'ad"
  win_granularity :: "'ad"

text \<open>
  The first argument counts the calls before this one; the second, where there is one, is the
  committed memory, and the list the units the layer has reserved. \<open>VirtualQuery\<close> returns the
  region around an address or fails; \<open>VirtualAlloc\<close> returns an address or 0.
\<close>

definition win_tick :: "('a::len word, 'p, 'z) os_state_scheme \<Rightarrow> ('a word, 'p, 'z) os_state_scheme" where
  "win_tick s = s\<lparr>now := Suc (now s)\<rparr>"

definition set_committed ::
    "'a::len word \<Rightarrow> 'a word \<Rightarrow> prot option \<Rightarrow> ('a word, 'p, 'z) os_state_scheme \<Rightarrow>
      ('a word, 'p, 'z) os_state_scheme" where
  "set_committed a sz p s =
     s\<lparr>mprot := (\<lambda>x. if in_region a (unat sz) x then p else mprot s x)\<rparr>"

definition reserved :: "('a::len word, 'a word win_data, 'z) os_state_scheme \<Rightarrow> 'a word list" where
  "reserved s = map pi_addr (unit_list (os_data s))"

definition set_units ::
    "'a word page_info list \<Rightarrow> ('a::len word, 'a word win_data, 'z) os_state_scheme \<Rightarrow>
      ('a word, 'a word win_data, 'z) os_state_scheme" where
  "set_units us s = s\<lparr>os_data := (os_data s)\<lparr>unit_list := us\<rparr>\<rparr>"

definition sys_query ::
    "'a word win_env \<Rightarrow> 'a::len word \<Rightarrow> ('a word, 'a word win_data, 'z) os_state_scheme \<Rightarrow>
      'a word memory_information option \<times> ('a word, 'a word win_data, 'z) os_state_scheme" where
  "sys_query env hint s = (win_query env (now s) (mprot s) (reserved s) hint, win_tick s)"

definition sys_reserve ::
    "'a word win_env \<Rightarrow> 'a::len word \<Rightarrow> 'a word \<Rightarrow> ('a word, 'a word win_data, 'z) os_state_scheme \<Rightarrow>
      'a word \<times> ('a word, 'a word win_data, 'z) os_state_scheme" where
  "sys_reserve env hint sz s = (win_reserve env (now s) (mprot s) (reserved s) hint sz, win_tick s)"

text \<open>Committing memory clears what was not committed before.\<close>

definition sys_commit ::
    "'a word win_env \<Rightarrow> 'a::len word \<Rightarrow> 'a word \<Rightarrow> ('a word, 'p, 'z) os_state_scheme \<Rightarrow>
      bool \<times> ('a word, 'p, 'z) os_state_scheme" where
  "sys_commit env a sz s =
     (if win_commit env (now s) a sz then
        (True, set_committed a sz (Some PROT_RW) (win_tick
           (s\<lparr>mem := (\<lambda>x. if in_region a (unat sz) x \<and> mprot s x = None then 0 else mem s x)\<rparr>)))
      else (False, win_tick s))"

definition sys_decommit ::
    "'a word win_env \<Rightarrow> 'a::len word \<Rightarrow> 'a word \<Rightarrow> ('a word, 'p, 'z) os_state_scheme \<Rightarrow>
      bool \<times> ('a word, 'p, 'z) os_state_scheme" where
  "sys_decommit env a sz s =
     (if win_decommit env (now s) a sz then (True, set_committed a sz None (win_tick s))
      else (False, win_tick s))"

text \<open>
  \<open>VirtualProtect\<close>: its second result is the protection of the first page before; it fails
  when a page of the region is not committed.
\<close>

definition sys_protect ::
    "'a word win_env \<Rightarrow> 'a::len word \<Rightarrow> 'a word \<Rightarrow> prot \<Rightarrow> ('a word, 'p, 'z) os_state_scheme \<Rightarrow>
      prot option \<times> ('a word, 'p, 'z) os_state_scheme" where
  "sys_protect env a sz p s =
     (if win_protect env (now s) (mprot s) a sz p then
        (case mprot s a of
           Some old \<Rightarrow> (Some old, set_committed a sz (Some p) (win_tick s))
         | None \<Rightarrow> (None, win_tick s))
      else (None, win_tick s))"

section \<open>Texts\<close>

text \<open>The C library prints pointers in upper case, with leading zeros.\<close>

definition upper_hex :: "char \<Rightarrow> char" where
  "upper_hex c = (if 97 \<le> (of_char c :: nat) \<and> (of_char c :: nat) \<le> 102
     then char_of ((of_char c :: nat) - 32) else c)"

definition fmt_win_p :: "'a::len word \<Rightarrow> string" where
  "fmt_win_p w = (let s = map upper_hex (fmt_x (unat w)) in replicate (LENGTH('a) div 4 - length s) CHR ''0'' @ s)"

definition fmt_u :: "'a::len word \<Rightarrow> string" where
  "fmt_u w = fmt_d (int (unat w))"

text \<open>\<open>to_errmsg\<close>: the message without the line ends at its end.\<close>

definition to_errmsg :: "'a word win_env \<Rightarrow> nat \<Rightarrow> nat \<Rightarrow> string" where
  "to_errmsg env err bufsiz =
     (let msg = win_format_message env err; n = length msg in
      if n = 0 then ''Unknown Error''
      else rev (dropWhile (\<lambda>c. c = char_of (13 :: nat) \<or> c = char_of (10 :: nat))
             (rev (take (if bufsiz \<le> n then bufsiz - 1 else n) msg))))"

definition win_error_text :: "'a word win_env \<Rightarrow> nat \<Rightarrow> string" where
  "win_error_text env err = ''error='' @ fmt_d (int err) @ ''('' @ to_errmsg env err 128 @ '')''"

section \<open>Allocation of the handle\<close>

definition funchook_alloc_windows ::
    "'a word win_env \<Rightarrow> 'a::len word \<Rightarrow> ('a word, 'a word win_data, 'z) os_state_scheme \<Rightarrow>
      'a word \<times> ('a word, 'a word win_data, 'z) os_state_scheme" where
  "funchook_alloc_windows env funchook_size s =
     (let s1 = (if page_size s = 0
                then s\<lparr>page_size := win_page_size env,
                       os_data := (os_data s)\<lparr>allocation_unit := win_granularity env\<rparr>\<rparr> else s);
          sz = ROUND_UP funchook_size (page_size s1);
          a = win_allocate env (now s1) (mprot s1) (reserved s1) sz
      in if a = 0 then (0, win_tick s1)
         else (a, set_committed a sz (Some PROT_RW)
                (win_tick (s1\<lparr>mem := mem_write (mem s1) a (replicate (unat sz) 0)\<rparr>))))"

text \<open>\<open>VirtualFree\<close> with \<open>MEM_RELEASE\<close> gives back all the memory that was allocated.\<close>

definition funchook_free_windows ::
    "'a word win_env \<Rightarrow> 'a::len word \<Rightarrow> 'a word \<Rightarrow> ('a word, 'p, 'z) os_state_scheme \<Rightarrow>
      ('a word, 'p, 'z) os_state_scheme" where
  "funchook_free_windows env funchook_size handle s =
     (if win_release env (now s) handle
      then set_committed handle (ROUND_UP funchook_size (page_size s)) None (win_tick s)
      else win_tick s)"

section \<open>Reserving an allocation unit\<close>

text \<open>
  The search of \<open>alloc_page_info\<close> for a free region with room for a unit. \<open>None\<close> stands for
  a search that does not end.
\<close>

partial_function (option) find_hint ::
    "'a word win_env \<Rightarrow> 'a::len word \<Rightarrow> ('a word, 'a word win_data, 'z) os_state_scheme \<Rightarrow>
      ('a word result \<times> ('a word, 'a word win_data, 'z) os_state_scheme) option" where
  "find_hint env hint s =
     (case fst (sys_query env hint s) of
        None \<Rightarrow>
          Some (Inl (Err ERROR_MEMORY_FUNCTION),
            funchook_set_error_message
              (''Failed to execute VirtualQuery (addr='' @ fmt_win_p hint @ '', '' @
               win_error_text env (win_last_error env (now s)) @ '')'') (snd (sys_query env hint s)))
      | Some mbi \<Rightarrow>
          if is_free mbi \<and>
             0 \<le> sint (ROUND_UP (base_address mbi) (allocation_unit (os_data s)) - base_address mbi) \<and>
             allocation_unit (os_data s) \<le>
               region_size mbi - (ROUND_UP (base_address mbi) (allocation_unit (os_data s)) - base_address mbi)
          then Some (Inr (ROUND_UP (base_address mbi) (allocation_unit (os_data s))), snd (sys_query env hint s))
          else find_hint env (base_address mbi + region_size mbi) (snd (sys_query env hint s)))"

text \<open>The rest of \<open>alloc_page_info\<close>; the result is \<open>*pl_out\<close>.\<close>

definition reserve_unit ::
    "'a word win_env \<Rightarrow> 'a::len word \<Rightarrow> ('a word, 'a word win_data, 'z) os_state_scheme \<Rightarrow>
      'a word result \<times> ('a word, 'a word win_data, 'z) os_state_scheme" where
  "reserve_unit env hint s =
     (let au = allocation_unit (os_data s); psz = page_size s in
      case sys_reserve env hint au s of (pl, s1) \<Rightarrow>
        if pl = 0 then
          (Inl (Err ERROR_MEMORY_ALLOCATION),
           funchook_set_error_message
             (''Failed to reserve memory '' @ fmt_win_p pl @ '' (hint='' @ fmt_win_p hint @ '', size='' @ fmt_u au @
              '', errro='' @ fmt_d (int (win_last_error env (now s))) @ ''('' @
              to_errmsg env (win_last_error env (now s)) 128 @ ''))'') s1)
        else if \<not> win_commit env (now s1) pl psz then
          (Inl (Err ERROR_MEMORY_FUNCTION),
           win_tick (funchook_set_error_message
             (''Failed to commit memory '' @ fmt_win_p (0 :: 'a word) @ '' for read-write (hint='' @ fmt_win_p pl @
              '', size='' @ fmt_u psz @ '', '' @ win_error_text env (win_last_error env (now s1)) @ '')'') (win_tick s1)))
        else
          (Inr pl, set_units (\<lparr>pi_addr = pl, num_used = 0, pi_used = replicate (unat (au div psz - 1)) False\<rparr>
                    # unit_list (os_data s1)) (win_tick s1)))"

definition alloc_page_info_64 ::
    "u64 win_env \<Rightarrow> u64 \<Rightarrow> (u64, u64 win_data, 'z) os_state_scheme \<Rightarrow>
      (u64 result \<times> (u64, u64 win_data, 'z) os_state_scheme) option" where
  "alloc_page_info_64 env hint s =
     map_option (\<lambda>q. then_ok q (reserve_unit env)) (find_hint env hint s)"

definition alloc_page_info_32 ::
    "u32 win_env \<Rightarrow> u32 \<Rightarrow> (u32, u32 win_data, 'z) os_state_scheme \<Rightarrow>
      (u32 result \<times> (u32, u32 win_data, 'z) os_state_scheme) option" where
  "alloc_page_info_32 env hint s = Some (reserve_unit env 0 s)"

section \<open>Allocating pages\<close>

text \<open>The address of page \<open>i\<close> of a unit; page 0 follows the control page.\<close>

definition unit_page :: "'a::len word \<Rightarrow> 'a word \<Rightarrow> nat \<Rightarrow> 'a word" where
  "unit_page psz pl i = pl + (of_nat i + 1) * psz"

text \<open>
  The two loops of \<open>funchook_page_alloc\<close>: the first unused page that \<open>funchook_page_avail\<close>
  accepts, as its unit and its index.
\<close>

fun find_unit_page ::
    "('a::len word \<Rightarrow> bool) \<Rightarrow> 'a word \<Rightarrow> nat \<Rightarrow> 'a word page_info list \<Rightarrow> ('a word \<times> nat) option" where
  "find_unit_page avail_at psz max_num_pages [] = None"
| "find_unit_page avail_at psz max_num_pages (pl # pls) =
     (case List.find (\<lambda>i. \<not> pi_used pl ! i \<and> avail_at (unit_page psz (pi_addr pl) i)) [0..<max_num_pages] of
        Some i \<Rightarrow> Some (pi_addr pl, i)
      | None \<Rightarrow> find_unit_page avail_at psz max_num_pages pls)"

definition update_unit ::
    "'a \<Rightarrow> ('a page_info \<Rightarrow> 'a page_info) \<Rightarrow> 'a page_info list \<Rightarrow> 'a page_info list" where
  "update_unit pl f us = map (\<lambda>u. if pi_addr u = pl then f u else u) us"

definition find_unit :: "'a \<Rightarrow> 'a page_info list \<Rightarrow> 'a page_info option" where
  "find_unit pl us = List.find (\<lambda>u. pi_addr u = pl) us"

text \<open>What follows the label \<open>exit_loop\<close>: page \<open>i\<close> of the unit \<open>pl\<close> is committed.\<close>

definition commit_page ::
    "'a word win_env \<Rightarrow> 'a::len word \<Rightarrow> nat \<Rightarrow> ('a word, 'a word win_data, 'z) os_state_scheme \<Rightarrow>
      'a word result \<times> ('a word, 'a word win_data, 'z) os_state_scheme" where
  "commit_page env pl i s =
     (let page = unit_page (page_size s) pl i in
      case find_unit pl (unit_list (os_data s)) of
        None \<Rightarrow> (Inl Crash, s)
      | Some u \<Rightarrow>
          (case sys_commit env page (page_size s) s of
             (False, s1) \<Rightarrow>
               (Inl (Err ERROR_MEMORY_FUNCTION),
                funchook_set_error_message
                  (''Failed to commit page '' @ fmt_win_p page @ '' (base='' @ fmt_win_p pl @ ''(used='' @
                   fmt_d (num_used u) @ ''), idx='' @ fmt_d (int i) @ '', size='' @ fmt_u (page_size s) @ '', '' @
                   win_error_text env (win_last_error env (now s)) @ '')'') s1)
           | (True, s1) \<Rightarrow>
               (Inr page, set_units (update_unit pl
                  (\<lambda>u. u\<lparr>pi_used := (pi_used u)[i := True], num_used := num_used u + 1\<rparr>)
                  (unit_list (os_data s1))) s1)))"

text \<open>
  \<open>funchook_page_alloc\<close>: \<open>avail_at\<close> says whether \<open>funchook_page_avail\<close> accepts a page for
  the function and its displacements, \<open>alloc_info\<close> is one of the two \<open>alloc_page_info\<close>.
\<close>

definition funchook_page_alloc_windows ::
    "('a word \<Rightarrow> ('a word, 'a word win_data, 'z) os_state_scheme \<Rightarrow>
        ('a word result \<times> ('a word, 'a word win_data, 'z) os_state_scheme) option) \<Rightarrow>
      'a word win_env \<Rightarrow> ('a word \<Rightarrow> bool) \<Rightarrow> 'a::len word \<Rightarrow> ('a word, 'a word win_data, 'z) os_state_scheme \<Rightarrow>
      ('a word result \<times> ('a word, 'a word win_data, 'z) os_state_scheme) option" where
  "funchook_page_alloc_windows alloc_info env avail_at func s =
     (let max_num_pages = unat (allocation_unit (os_data s) div page_size s - 1) in
      case find_unit_page avail_at (page_size s) max_num_pages (unit_list (os_data s)) of
        Some (pl, i) \<Rightarrow> Some (commit_page env pl i s)
      | None \<Rightarrow> map_option (\<lambda>q. then_ok q (\<lambda>pl s1. commit_page env pl 0 s1)) (alloc_info func s))"

section \<open>Releasing pages\<close>

text \<open>
  \<open>funchook_page_free\<close>. Its unit is found by clearing the low bits of the address. A page
  that belongs to no unit would make the C code read and write memory that is not a control
  page; that case is \<open>Crash\<close>.
\<close>

definition funchook_page_free_windows ::
    "'a word win_env \<Rightarrow> 'a::len word \<Rightarrow> ('a word, 'a word win_data, 'z) os_state_scheme \<Rightarrow>
      unit result \<times> ('a word, 'a word win_data, 'z) os_state_scheme" where
  "funchook_page_free_windows env page s =
     (let au = allocation_unit (os_data s); psz = page_size s;
          pl = page AND NOT (au - 1);
          idx = (page - pl) div psz - 1
      in case sys_decommit env page psz s of (ok, s1) \<Rightarrow>
           (case find_unit pl (unit_list (os_data s)) of
              None \<Rightarrow> (Inl Crash, s1)
            | Some u \<Rightarrow>
                if \<not> ok then
                  (Inl (Err ERROR_MEMORY_FUNCTION),
                   funchook_set_error_message
                     (''Failed to decommit page '' @ fmt_win_p page @ '' (base='' @ fmt_win_p pl @ ''(used='' @
                      fmt_d (num_used u) @ ''), idx='' @ fmt_u idx @ '', size='' @ fmt_u psz @ '', '' @
                      win_error_text env (win_last_error env (now s)) @ '')'') s1)
                else if length (pi_used u) \<le> unat idx then (Inl Crash, s1)
                else
                  (let u' = u\<lparr>num_used := num_used u - 1, pi_used := (pi_used u)[unat idx := False]\<rparr> in
                   if num_used u' \<noteq> 0 then
                     (Inr (), set_units (update_unit pl (\<lambda>_. u') (unit_list (os_data s1))) s1)
                   else
                     (let s2 = win_tick (set_units (filter (\<lambda>v. pi_addr v \<noteq> pl) (unit_list (os_data s1))) s1) in
                      if win_release env (now s1) pl then (Inr (), s2)
                      else
                        (Inl (Err ERROR_MEMORY_FUNCTION),
                         funchook_set_error_message
                           (''Failed to release memory '' @ fmt_win_p pl @ '' (size='' @ fmt_u au @ '', '' @
                            win_error_text env (win_last_error env (now s1)) @ '')'') s2)))))"

section \<open>Protecting pages\<close>

definition funchook_page_protect_windows ::
    "'a word win_env \<Rightarrow> 'a::len word \<Rightarrow> ('a word, 'p, 'z) os_state_scheme \<Rightarrow>
      unit result \<times> ('a word, 'p, 'z) os_state_scheme" where
  "funchook_page_protect_windows env page s =
     (case sys_protect env page (page_size s) PROT_RX s of
        (Some _, s1) \<Rightarrow> (Inr (), s1)
      | (None, s1) \<Rightarrow>
          (Inl (Err ERROR_MEMORY_FUNCTION),
           funchook_set_error_message
             (''Failed to protect page '' @ fmt_win_p page @ '' (size='' @ fmt_u (page_size s) @ '', prot=read,exec, '' @
              win_error_text env (win_last_error env (now s)) @ '')'') s1))"

definition funchook_page_unprotect_windows ::
    "'a word win_env \<Rightarrow> 'a::len word \<Rightarrow> ('a word, 'p, 'z) os_state_scheme \<Rightarrow>
      unit result \<times> ('a word, 'p, 'z) os_state_scheme" where
  "funchook_page_unprotect_windows env page s =
     (case sys_protect env page (page_size s) PROT_RW s of
        (Some _, s1) \<Rightarrow> (Inr (), s1)
      | (None, s1) \<Rightarrow>
          (Inl (Err ERROR_MEMORY_FUNCTION),
           funchook_set_error_message
             (''Failed to unprotect page '' @ fmt_win_p page @ '' (size='' @ fmt_u (page_size s) @ '', prot=read,write, '' @
              win_error_text env (win_last_error env (now s)) @ '')'') s1))"

text \<open>\<open>mem_state_t\<close>, with the protection to restore, and the whole pages around the code.\<close>

record 'ad win_mem_state =
  wms_addr :: "'ad"
  wms_size :: "'ad"
  wms_protect :: prot

definition code_pages_windows :: "'a::len word \<Rightarrow> 'a word \<Rightarrow> 'a word \<Rightarrow> 'a word \<times> 'a word" where
  "code_pages_windows psz start len =
     (let saddr = ROUND_DOWN start psz in (saddr, ROUND_UP (len + start - saddr) psz))"

definition funchook_unprotect_begin_windows ::
    "'a word win_env \<Rightarrow> 'a::len word \<Rightarrow> 'a word \<Rightarrow> ('a word, 'p, 'z) os_state_scheme \<Rightarrow>
      'a word win_mem_state result \<times> ('a word, 'p, 'z) os_state_scheme" where
  "funchook_unprotect_begin_windows env start len s =
     (case code_pages_windows (page_size s) start len of (addr, sz) \<Rightarrow>
        (case sys_protect env addr sz PROT_RWX s of
           (Some old, s1) \<Rightarrow> (Inr \<lparr>wms_addr = addr, wms_size = sz, wms_protect = old\<rparr>, s1)
         | (None, s1) \<Rightarrow>
             (Inl (Err ERROR_MEMORY_FUNCTION),
              funchook_set_error_message
                (''Failed to unprotect memory '' @ fmt_win_p addr @ '' (size='' @ fmt_u sz @ '') <- '' @
                 fmt_win_p start @ '' (size='' @ fmt_u len @ '', '' @
                 win_error_text env (win_last_error env (now s)) @ '')'') s1)))"

definition funchook_unprotect_end_windows ::
    "'a word win_env \<Rightarrow> 'a::len word win_mem_state \<Rightarrow> ('a word, 'p, 'z) os_state_scheme \<Rightarrow>
      unit result \<times> ('a word, 'p, 'z) os_state_scheme" where
  "funchook_unprotect_end_windows env ms s =
     (case sys_protect env (wms_addr ms) (wms_size ms) (wms_protect ms) s of
        (Some _, s1) \<Rightarrow> (Inr (), s1)
      | (None, s1) \<Rightarrow>
          (Inl (Err ERROR_MEMORY_FUNCTION),
           funchook_set_error_message
             (''Failed to protect memory '' @ fmt_win_p (wms_addr ms) @ '' (size='' @ fmt_u (wms_size ms) @ '', '' @
              win_error_text env (win_last_error env (now s)) @ '')'') s1))"

end
