(* ===== verification/FH_Core.thy ===== *)
theory FH_Core
  imports FH_Base
begin

text \<open>
  The processor- and system-independent part of the library, src/src/funchook.c: handles,
  pages of entries, preparing, installing and uninstalling hooks, and the dispatch of a call
  through a prehook.

  The functions of arch_*.c and os_*.c that the linker supplies are the records
  \<open>arch_ops\<close> and \<open>os_ops\<close>; the theories of the components give the records for the real
  code. Log output is left out: \<open>funchook_log\<close> writes to the debug file only.
\<close>

section \<open>The functions supplied by the other components\<close>

record ('ad, 'i, 'd) arch_ops =
  arch_make_trampoline :: "('ad \<Rightarrow> u8) \<Rightarrow> 'ad \<Rightarrow> (failure \<times> string) + ('d \<times> 'i list \<times> nat)"
  arch_fix_code :: "'ad \<Rightarrow> ('ad, 'i) funchook_entry \<Rightarrow> 'd \<Rightarrow> ('ad, 'i) funchook_entry option"
  arch_page_avail :: "'ad \<Rightarrow> nat \<Rightarrow> 'ad \<Rightarrow> 'd \<Rightarrow> bool"
  arch_entry_address :: "'ad \<Rightarrow> nat \<Rightarrow> 'ad"
  arch_entry_bytes :: "('ad, 'i) funchook_entry \<Rightarrow> u8 list"
  arch_page_header :: "'ad \<Rightarrow> 'ad"
  arch_sizeof_header :: nat
  arch_entry_at_page_boundary :: bool
  arch_offsetof_entries :: nat
  arch_offsetof_trampoline :: nat
  arch_sizeof_entry :: nat
  arch_sizeof_insn :: nat
  arch_insns_bytes :: "'i list \<Rightarrow> u8 list"
  arch_bytes_insns :: "u8 list \<Rightarrow> 'i list"
  arch_transit_code_size :: nat
  arch_zero_insn :: 'i
  arch_max_patch_code_size :: nat

record ('ad, 'd, 'ms, 's) os_ops =
  os_resolve_func :: "'ad \<Rightarrow> 's \<Rightarrow> 'ad"
  os_page_alloc :: "'ad \<Rightarrow> 'd \<Rightarrow> 's \<Rightarrow> 'ad result \<times> 's"
  os_page_free :: "'ad \<Rightarrow> 's \<Rightarrow> unit result \<times> 's"
  os_page_protect :: "'ad \<Rightarrow> 's \<Rightarrow> unit result \<times> 's"
  os_page_unprotect :: "'ad \<Rightarrow> 's \<Rightarrow> unit result \<times> 's"
  os_unprotect_begin :: "'ad \<Rightarrow> 'ad \<Rightarrow> 's \<Rightarrow> 'ms result \<times> 's"
  os_unprotect_end :: "'ms \<Rightarrow> 's \<Rightarrow> unit result \<times> 's"

section \<open>Creating a handle\<close>

text \<open>
  The number of entries that fit behind the header of a page.
\<close>

definition entries_in_page :: "('ad, 'i, 'd) arch_ops \<Rightarrow> 'a::len word \<Rightarrow> nat" where
  "entries_in_page arch psz =
     (if arch_entry_at_page_boundary arch then 1
      else unat (psz - of_nat (arch_offsetof_entries arch)) div arch_sizeof_entry arch)"

text \<open>
  \<open>funchook_create_internal\<close>: the argument \<open>alloc\<close> is \<open>funchook_alloc\<close>, whose pages are
  zero, so a new handle is not installed and has no pages.
\<close>

definition funchook_create_internal ::
    "('a::len word, 'i, 'd) arch_ops \<Rightarrow>
      (('a word, 'p, 'i) fh_state \<Rightarrow> 'a word \<times> ('a word, 'p, 'i) fh_state) \<Rightarrow>
      ('a word, 'p, 'i) fh_state \<Rightarrow> 'a word \<times> ('a word, 'p, 'i) fh_state" where
  "funchook_create_internal arch alloc s =
     (case alloc s of (h, s1) \<Rightarrow>
        if h = 0 then (0, s1)
        else
          let s2 = s1\<lparr>installed := False, page_list := [], error_message := []\<rparr>
          in (h, if num_entries_in_page s2 = 0
                 then s2\<lparr>num_entries_in_page := entries_in_page arch (page_size s2)\<rparr>
                 else s2))"

section \<open>Finding a page for an entry\<close>

fun find_page ::
    "('ad, 'i, 'd) arch_ops \<Rightarrow> nat \<Rightarrow> 'ad \<Rightarrow> 'd \<Rightarrow> ('ad, 'i) funchook_page list \<Rightarrow>
      ('ad, 'i) funchook_page option" where
  "find_page arch num addr disp [] = None"
| "find_page arch num addr disp (page # pages) =
     (if used page < num \<and> arch_page_avail arch (page_addr page) (used page) addr disp
      then Some page else find_page arch num addr disp pages)"

text \<open>
  \<open>get_page\<close> reads and sets the header of a fresh page (\<open>page->used\<close>, \<open>page->next\<close>),
  which faults when the address it got is not mapped.
\<close>

definition get_page ::
    "('a::len word, 'i, 'd) arch_ops \<Rightarrow> ('a word, 'd, 'ms, ('a word, 'p, 'i) fh_state) os_ops \<Rightarrow>
      'a word \<Rightarrow> 'd \<Rightarrow> ('a word, 'p, 'i) fh_state \<Rightarrow>
      ('a word, 'i) funchook_page result \<times> ('a word, 'p, 'i) fh_state" where
  "get_page arch os addr disp s =
     (case find_page arch (num_entries_in_page s) addr disp (page_list s) of
        Some page \<Rightarrow> (Inr page, s)
      | None \<Rightarrow>
          then_ok (os_page_alloc os addr disp s)
            (\<lambda>p s1.
               if \<not> writable s1 (arch_page_header arch p) (arch_sizeof_header arch) then
                 (Inl Crash, s1)
               else if \<not> arch_page_avail arch p 0 addr disp then
                 (Inl (Err ERROR_NO_SPACE_NEAR_TARGET_ADDR),
                  snd (os_page_free os p
                    (funchook_set_error_message
                      (''Could not allocate memory near address '' @ fmt_p addr) s1)))
               else
                 (let page = \<lparr>page_addr = p, used = 0, entries = []\<rparr>
                  in (Inr page, s1\<lparr>page_list := page # page_list s1\<rparr>))))"

section \<open>Preparing a hook\<close>

definition new_entry ::
    "('a::len word, 'i, 'd) arch_ops \<Rightarrow> ('a word \<Rightarrow> u8) \<Rightarrow> 'a word \<Rightarrow> 'a word \<Rightarrow>
      'a word funchook_params \<Rightarrow> 'i list \<Rightarrow> ('a word, 'i) funchook_entry" where
  "new_entry arch m target func params tramp =
     \<lparr>transit = replicate (arch_transit_code_size arch) (arch_zero_insn arch),
      original_target_func = target,
      target_func = func,
      hook_func = p_hook_func params,
      prehook = p_prehook params,
      user_data = p_user_data params,
      eflags = p_flags params,
      patch_code_size = of_nat (arch_max_patch_code_size arch),
      trampoline = tramp,
      old_code = arch_bytes_insns arch
        (mem_read m func (arch_max_patch_code_size arch * arch_sizeof_insn arch)),
      new_code = replicate (arch_max_patch_code_size arch) (arch_zero_insn arch)\<rparr>"

text \<open>Storing the entry in its page and counting it.\<close>

definition add_entry ::
    "'ad \<Rightarrow> ('ad, 'i) funchook_entry \<Rightarrow> ('ad, 'i) funchook_page list \<Rightarrow> ('ad, 'i) funchook_page list" where
  "add_entry p e pages =
     map (\<lambda>page. if page_addr page = p
            then page\<lparr>used := used page + 1, entries := take (used page) (entries page) @ [e]\<rparr>
            else page) pages"

text \<open>
  \<open>funchook_prepare_internal\<close>. The result is the new value of \<open>*target_func\<close>. Filling in
  the entry writes its bytes to the page, which faults when the page is not writable. The
  list of pages keeps the entries as records; the invariant of the handle says that the
  records and the bytes agree.
\<close>

definition funchook_prepare_internal ::
    "('a::len word, 'i, 'd) arch_ops \<Rightarrow> ('a word, 'd, 'ms, ('a word, 'p, 'i) fh_state) os_ops \<Rightarrow>
      'a word \<Rightarrow> 'a word funchook_params \<Rightarrow> ('a word, 'p, 'i) fh_state \<Rightarrow>
      'a word result \<times> ('a word, 'p, 'i) fh_state" where
  "funchook_prepare_internal arch os target params s =
     (if installed s then
        (Inl (Err ERROR_ALREADY_INSTALLED),
         funchook_set_error_message ''Could not modify already-installed funchook handle.'' s)
      else
        (let func = os_resolve_func os target s in
         case arch_make_trampoline arch (mem s) func of
           Inl (f, msg) \<Rightarrow> (Inl f, funchook_set_error_message msg s)
         | Inr (disp, tramp, tramp_size) \<Rightarrow>
             then_ok (get_page arch os func disp s)
               (\<lambda>page s1.
                  let ea = arch_entry_address arch (page_addr page) (used page) in
                  if \<not> writable s1 ea (arch_sizeof_entry arch) then (Inl Crash, s1)
                  else
                    (case arch_fix_code arch ea (new_entry arch (mem s1) target func params tramp) disp of
                       None \<Rightarrow> (Inl Crash, s1)
                     | Some entry \<Rightarrow>
                         (Inr (ea + of_nat (arch_offsetof_trampoline arch)),
                          s1\<lparr>mem := mem_write (mem s1) ea (arch_entry_bytes arch entry),
                             page_list := add_entry (page_addr page) entry (page_list s1)\<rparr>)))))"

text \<open>\<open>funchook_prepare\<close> and \<open>funchook_prepare_with_params\<close> differ in the parameters.\<close>

definition funchook_prepare ::
    "('a::len word, 'i, 'd) arch_ops \<Rightarrow> ('a word, 'd, 'ms, ('a word, 'p, 'i) fh_state) os_ops \<Rightarrow>
      'a word \<Rightarrow> 'a word \<Rightarrow> ('a word, 'p, 'i) fh_state \<Rightarrow>
      'a word result \<times> ('a word, 'p, 'i) fh_state" where
  "funchook_prepare arch os target hook s =
     funchook_prepare_internal arch os target
       \<lparr>p_hook_func = hook, p_prehook = 0, p_user_data = 0, p_flags = 0\<rparr> s"

section \<open>Installing and uninstalling\<close>

text \<open>\<open>memcpy(dst, src, n)\<close> where \<open>src\<close> is an array: reading past its end is undefined.\<close>

definition memcpy_n ::
    "'a::len word \<Rightarrow> u8 list \<Rightarrow> nat \<Rightarrow> ('a word, 'p, 'z) os_state_scheme \<Rightarrow>
      unit result \<times> ('a word, 'p, 'z) os_state_scheme" where
  "memcpy_n a src n s = (if length src < n then (Inl Crash, s) else memcpy a (take n src) s)"

definition patch_code_byte_size ::
    "('ad, 'i, 'd) arch_ops \<Rightarrow> ('ad, 'i) funchook_entry \<Rightarrow> nat" where
  "patch_code_byte_size arch e = unat (patch_code_size e) * arch_sizeof_insn arch"

text \<open>Replaces the code of the function of one entry by \<open>code\<close>.\<close>

definition patch_entry ::
    "('a::len word, 'i, 'd) arch_ops \<Rightarrow> ('a word, 'd, 'ms, ('a word, 'p, 'i) fh_state) os_ops \<Rightarrow>
      'i list \<Rightarrow> ('a word, 'i) funchook_entry \<Rightarrow> ('a word, 'p, 'i) fh_state \<Rightarrow>
      unit result \<times> ('a word, 'p, 'i) fh_state" where
  "patch_entry arch os code e s =
     (let n = patch_code_byte_size arch e in
      then_ok (os_unprotect_begin os (target_func e) (of_nat n) s)
        (\<lambda>ms s1. then_ok (memcpy_n (target_func e) (arch_insns_bytes arch code) n s1)
           (\<lambda>_ s2. os_unprotect_end os ms s2)))"

fun install_entries ::
    "('a::len word, 'i, 'd) arch_ops \<Rightarrow> ('a word, 'd, 'ms, ('a word, 'p, 'i) fh_state) os_ops \<Rightarrow>
      ('a word, 'i) funchook_entry list \<Rightarrow> ('a word, 'p, 'i) fh_state \<Rightarrow>
      unit result \<times> ('a word, 'p, 'i) fh_state" where
  "install_entries arch os [] s = (Inr (), s)"
| "install_entries arch os (e # es) s =
     then_ok (patch_entry arch os (new_code e) e s) (\<lambda>_ s1. install_entries arch os es s1)"

fun install_pages ::
    "('a::len word, 'i, 'd) arch_ops \<Rightarrow> ('a word, 'd, 'ms, ('a word, 'p, 'i) fh_state) os_ops \<Rightarrow>
      ('a word, 'i) funchook_page list \<Rightarrow> ('a word, 'p, 'i) fh_state \<Rightarrow>
      unit result \<times> ('a word, 'p, 'i) fh_state" where
  "install_pages arch os [] s = (Inr (), s)"
| "install_pages arch os (page # pages) s =
     then_ok (os_page_protect os (page_addr page) s)
       (\<lambda>_ s1. then_ok (install_entries arch os (take (used page) (entries page)) s1)
          (\<lambda>_ s2. install_pages arch os pages s2))"

definition funchook_install_internal ::
    "('a::len word, 'i, 'd) arch_ops \<Rightarrow> ('a word, 'd, 'ms, ('a word, 'p, 'i) fh_state) os_ops \<Rightarrow>
      ('a word, 'p, 'i) fh_state \<Rightarrow> unit result \<times> ('a word, 'p, 'i) fh_state" where
  "funchook_install_internal arch os s =
     (if installed s then (Inl (Err ERROR_ALREADY_INSTALLED), s)
      else then_ok (install_pages arch os (page_list s) s)
             (\<lambda>_ s1. (Inr (), s1\<lparr>installed := True\<rparr>)))"

fun uninstall_entries ::
    "('a::len word, 'i, 'd) arch_ops \<Rightarrow> ('a word, 'd, 'ms, ('a word, 'p, 'i) fh_state) os_ops \<Rightarrow>
      ('a word, 'i) funchook_entry list \<Rightarrow> ('a word, 'p, 'i) fh_state \<Rightarrow>
      unit result \<times> ('a word, 'p, 'i) fh_state" where
  "uninstall_entries arch os [] s = (Inr (), s)"
| "uninstall_entries arch os (e # es) s =
     then_ok (patch_entry arch os (old_code e) e s) (\<lambda>_ s1. uninstall_entries arch os es s1)"

text \<open>The result of \<open>funchook_page_unprotect\<close> is not looked at.\<close>

fun uninstall_pages ::
    "('a::len word, 'i, 'd) arch_ops \<Rightarrow> ('a word, 'd, 'ms, ('a word, 'p, 'i) fh_state) os_ops \<Rightarrow>
      ('a word, 'i) funchook_page list \<Rightarrow> ('a word, 'p, 'i) fh_state \<Rightarrow>
      unit result \<times> ('a word, 'p, 'i) fh_state" where
  "uninstall_pages arch os [] s = (Inr (), s)"
| "uninstall_pages arch os (page # pages) s =
     then_ok (uninstall_entries arch os (take (used page) (entries page)) s)
       (\<lambda>_ s1. uninstall_pages arch os pages (snd (os_page_unprotect os (page_addr page) s1)))"

definition funchook_uninstall_internal ::
    "('a::len word, 'i, 'd) arch_ops \<Rightarrow> ('a word, 'd, 'ms, ('a word, 'p, 'i) fh_state) os_ops \<Rightarrow>
      ('a word, 'p, 'i) fh_state \<Rightarrow> unit result \<times> ('a word, 'p, 'i) fh_state" where
  "funchook_uninstall_internal arch os s =
     (if \<not> installed s then (Inl (Err ERROR_NOT_INSTALLED), s)
      else then_ok (uninstall_pages arch os (page_list s) s)
             (\<lambda>_ s1. (Inr (), s1\<lparr>installed := False\<rparr>)))"

section \<open>Destroying a handle\<close>

fun free_pages ::
    "('a::len word, 'd, 'ms, ('a word, 'p, 'i) fh_state) os_ops \<Rightarrow>
      ('a word, 'i) funchook_page list \<Rightarrow> ('a word, 'p, 'i) fh_state \<Rightarrow> ('a word, 'p, 'i) fh_state" where
  "free_pages os [] s = s"
| "free_pages os (page # pages) s = free_pages os pages (snd (os_page_free os (page_addr page) s))"

text \<open>
  \<open>handle\<close> is the pointer given to \<open>funchook_destroy\<close> and \<open>free_handle\<close> is
  \<open>funchook_free\<close>.
\<close>

definition funchook_destroy_internal ::
    "('a::len word, 'd, 'ms, ('a word, 'p, 'i) fh_state) os_ops \<Rightarrow>
      ('a word \<Rightarrow> ('a word, 'p, 'i) fh_state \<Rightarrow> ('a word, 'p, 'i) fh_state) \<Rightarrow>
      'a word \<Rightarrow> ('a word, 'p, 'i) fh_state \<Rightarrow> unit result \<times> ('a word, 'p, 'i) fh_state" where
  "funchook_destroy_internal os free_handle handle s =
     (if handle = 0 then (Inl (Err ERROR_INTERNAL_ERROR), s)
      else if installed s then (Inl (Err ERROR_ALREADY_INSTALLED), s)
      else (Inr (), free_handle handle (free_pages os (page_list s) s)))"

section \<open>Dispatch through a prehook\<close>

text \<open>\<open>funchook_info_t\<close>; \<open>arg_handle\<close> holds the base pointer and the flags.\<close>

record 'ad funchook_info =
  fi_original_target_func :: "'ad"
  fi_target_func :: "'ad"
  fi_trampoline_func :: "'ad"
  fi_hook_func :: "'ad"
  fi_user_data :: "'ad"
  fi_arg_handle :: "'ad \<times> u32"

fun find_entry_from ::
    "('a::len word, 'i, 'd) arch_ops \<Rightarrow> 'a word \<Rightarrow> 'a word \<Rightarrow> nat \<Rightarrow>
      ('a word, 'i) funchook_entry list \<Rightarrow> ('a word, 'i) funchook_entry option" where
  "find_entry_from arch ea p i [] = None"
| "find_entry_from arch ea p i (e # es) =
     (if arch_entry_address arch p i = ea then Some e else find_entry_from arch ea p (Suc i) es)"

text \<open>The entry that lies at an address, among the pages of the handle.\<close>

fun find_entry ::
    "('a::len word, 'i, 'd) arch_ops \<Rightarrow> 'a word \<Rightarrow> ('a word, 'i) funchook_page list \<Rightarrow>
      ('a word, 'i) funchook_entry option" where
  "find_entry arch ea [] = None"
| "find_entry arch ea (page # pages) =
     (case find_entry_from arch ea (page_addr page) 0 (entries page) of
        Some e \<Rightarrow> Some e
      | None \<Rightarrow> find_entry arch ea pages)"

text \<open>
  \<open>funchook_hook_caller\<close>: \<open>call\<close> is the user's prehook function, given its address and
  the information record, which it may change. The transit code is the first member of an
  entry, so its address is that of the entry.
\<close>

definition funchook_hook_caller ::
    "('a::len word, 'i, 'd) arch_ops \<Rightarrow>
      ('a word \<Rightarrow> 'a word funchook_info \<Rightarrow> 'a word funchook_info) \<Rightarrow>
      ('a word, 'i) funchook_page list \<Rightarrow> 'a word \<Rightarrow> 'a word \<Rightarrow> 'a word option" where
  "funchook_hook_caller arch call pages transit_addr base_pointer =
     map_option
       (\<lambda>entry.
          let tramp = transit_addr + of_nat (arch_offsetof_trampoline arch);
              info = call (prehook entry)
                \<lparr>fi_original_target_func = original_target_func entry,
                 fi_target_func = target_func entry,
                 fi_trampoline_func = tramp,
                 fi_hook_func = hook_func entry,
                 fi_user_data = user_data entry,
                 fi_arg_handle = (base_pointer, eflags entry)\<rparr>
          in if fi_hook_func info \<noteq> 0 then fi_hook_func info else tramp)
       (find_entry arch transit_addr pages)"

end
