(* ===== verification/FH_Handle.thy ===== *)
theory FH_Handle
  imports FH_Core
begin

text \<open>
  What funchook.c promises, proved from the contracts of the components it calls: the
  locales \<open>os_layer\<close> (os_*.c) and \<open>code_generator\<close> (arch_*.c). Installing replaces
  exactly the patched bytes, uninstalling puts the saved bytes back, and the invariant of a
  handle is kept by every operation that succeeds.
\<close>

section \<open>The contract of the operating-system layer\<close>

text \<open>What an operation leaves alone of the handle.\<close>

definition same_handle :: "('a::len word, 'p, 'i) fh_state \<Rightarrow> ('a word, 'p, 'i) fh_state \<Rightarrow> bool" where
  "same_handle s s' \<longleftrightarrow> installed s' = installed s \<and> page_list s' = page_list s \<and>
     num_entries_in_page s' = num_entries_in_page s \<and> page_size s' = page_size s"

definition same_mapping :: "('a::len word, 'p, 'i) fh_state \<Rightarrow> ('a word, 'p, 'i) fh_state \<Rightarrow> bool" where
  "same_mapping s s' \<longleftrightarrow> (\<forall>x. mprot s' x = None \<longleftrightarrow> mprot s x = None)"

text \<open>An operation that changes protections only.\<close>

definition calm :: "('a::len word, 'p, 'i) fh_state \<Rightarrow> ('a word, 'p, 'i) fh_state \<Rightarrow> bool" where
  "calm s s' \<longleftrightarrow> same_handle s s' \<and> same_mapping s s' \<and> mem s' = mem s"

text \<open>Memory mapped before an operation keeps its contents and protection.\<close>

definition keeps_mapped :: "('a::len word, 'p, 'i) fh_state \<Rightarrow> ('a word, 'p, 'i) fh_state \<Rightarrow> bool" where
  "keeps_mapped s s' \<longleftrightarrow> (\<forall>x. mprot s x \<noteq> None \<longrightarrow> mem s' x = mem s x \<and> mprot s' x = mprot s x)"

lemma keeps_mapped_trans: "keeps_mapped s t \<Longrightarrow> keeps_mapped t u \<Longrightarrow> keeps_mapped s u"
  by (auto simp: keeps_mapped_def)

lemma calm_refl: "calm s s"
  by (simp add: calm_def same_handle_def same_mapping_def)

lemma calm_trans: "calm s t \<Longrightarrow> calm t u \<Longrightarrow> calm s u"
  by (simp add: calm_def same_handle_def same_mapping_def)

lemma same_handle_refl [simp]: "same_handle s s"
  by (simp add: same_handle_def)

lemma same_handle_trans: "same_handle s t \<Longrightarrow> same_handle t u \<Longrightarrow> same_handle s u"
  by (simp add: same_handle_def)

lemma same_handle_message [simp]: "same_handle s (funchook_set_error_message m s)"
  by (simp add: same_handle_def funchook_set_error_message_def)

lemma calm_message [simp]: "calm s (funchook_set_error_message m s')  \<longleftrightarrow> calm s s'"
  by (auto simp: calm_def same_handle_def same_mapping_def funchook_set_error_message_def)

locale os_layer =
  fixes os :: "('a::len word, 'd, 'ms, ('a word, 'p, 'i) fh_state) os_ops"
    and os_ok :: "('a word, 'p, 'i) fh_state \<Rightarrow> bool"
  assumes os_ok_cong:
      "os_ok s \<Longrightarrow> mprot s' = mprot s \<Longrightarrow> page_size s' = page_size s \<Longrightarrow>
        os_data s' = os_data s \<Longrightarrow> os_ok s'"
    and protect: "os_ok s \<Longrightarrow> os_page_protect os p s = (r, s') \<Longrightarrow>
      calm s s' \<and> os_ok s' \<and> r \<noteq> Inl Crash"
    and unprotect: "os_ok s \<Longrightarrow> os_page_unprotect os p s = (r, s') \<Longrightarrow>
      calm s s' \<and> os_ok s' \<and> r \<noteq> Inl Crash"
    and begin_calm: "os_ok s \<Longrightarrow> os_unprotect_begin os a n s = (q, s') \<Longrightarrow>
      calm s s' \<and> os_ok s' \<and> q \<noteq> Inl Crash"
    and begin_writable: "os_ok s \<Longrightarrow> os_unprotect_begin os a n s = (Inr ms, s') \<Longrightarrow>
      unat a + unat n + unat (page_size s) < 2 ^ LENGTH('a) \<Longrightarrow> writable s' a (unat n)"
    and end_calm: "os_ok s \<Longrightarrow> os_unprotect_end os ms s = (r, s') \<Longrightarrow>
      calm s s' \<and> os_ok s' \<and> r \<noteq> Inl Crash"
    and alloc: "os_ok s \<Longrightarrow> os_page_alloc os f d s = (pr, s') \<Longrightarrow>
      same_handle s s' \<and> os_ok s' \<and> pr \<noteq> Inl Crash \<and> keeps_mapped s s'"
    and alloc_fresh: "os_ok s \<Longrightarrow> os_page_alloc os f d s = (Inr p, s') \<Longrightarrow>
      in_region p (unat (page_size s)) y \<Longrightarrow> mprot s' y \<noteq> None \<Longrightarrow>
      in_region p (unat (page_size s)) x \<Longrightarrow> mprot s x = None \<and> mprot s' x \<noteq> None"
    and give_back: "os_ok s \<Longrightarrow> os_page_alloc os f d s = (Inr p, s1) \<Longrightarrow>
      os_page_free os p (funchook_set_error_message msg s1) = (r, s') \<Longrightarrow>
      same_handle s1 s' \<and> os_ok s' \<and> mem s' = mem s1 \<and>
      (\<forall>x. \<not> in_region p (unat (page_size s)) x \<longrightarrow> mprot s' x = mprot s1 x)"
begin

lemma memcpy_ok:
  "memcpy a bs s = (Inr u, s') \<Longrightarrow> os_ok s \<Longrightarrow>
     os_ok s' \<and> same_handle s s' \<and> same_mapping s s' \<and> mem s' = mem_write (mem s) a bs"
  using os_ok_cong [of s s']
  by (auto simp: memcpy_def same_handle_def same_mapping_def split: if_splits)

end

section \<open>Patching\<close>

text \<open>The patch of an entry: the first bytes of \<open>new_code\<close> or \<open>old_code\<close>.\<close>

definition patch_bytes :: "('a::len word, 'i, 'd) arch_ops \<Rightarrow> 'i list \<Rightarrow> ('a word, 'i) funchook_entry \<Rightarrow> u8 list" where
  "patch_bytes arch code e = take (patch_code_byte_size arch e) (arch_insns_bytes arch code)"

text \<open>Memory after the patches of a list of entries; \<open>sel\<close> is \<open>new_code\<close> or \<open>old_code\<close>.\<close>

definition patched ::
    "('a::len word, 'i, 'd) arch_ops \<Rightarrow> (('a word, 'i) funchook_entry \<Rightarrow> 'i list) \<Rightarrow>
      ('a word, 'i) funchook_entry list \<Rightarrow> ('a word \<Rightarrow> u8) \<Rightarrow> 'a word \<Rightarrow> u8" where
  "patched arch sel es m = fold (\<lambda>e m. mem_write m (target_func e) (patch_bytes arch (sel e) e)) es m"

definition entries_of :: "('ad, 'i) funchook_page list \<Rightarrow> ('ad, 'i) funchook_entry list" where
  "entries_of pages = concat (map (\<lambda>page. take (used page) (entries page)) pages)"

lemma entries_of_simps [simp]:
  "entries_of [] = []" "entries_of (p # ps) = take (used p) (entries p) @ entries_of ps"
  by (simp_all add: entries_of_def)

lemma patched_simps [simp]:
  "patched arch sel [] m = m"
  "patched arch sel (e # es) m = patched arch sel es (mem_write m (target_func e) (patch_bytes arch (sel e) e))"
  "patched arch sel (es @ es') m = patched arch sel es' (patched arch sel es m)"
  by (simp_all add: patched_def)

text \<open>A state after patches: nothing but memory and protections has changed.\<close>

definition after_patch ::
    "('a::len word, 'p, 'i) fh_state \<Rightarrow> ('a word \<Rightarrow> u8) \<Rightarrow> ('a word, 'p, 'i) fh_state \<Rightarrow> bool" where
  "after_patch s m s' \<longleftrightarrow> same_handle s s' \<and> same_mapping s s' \<and> mem s' = m"

lemma calm_after_patch: "calm s s' \<longleftrightarrow> after_patch s (mem s) s'"
  by (simp add: calm_def after_patch_def)

lemma after_patch_trans:
  "after_patch s m t \<Longrightarrow> after_patch t m' u \<Longrightarrow> after_patch s m' u"
  by (simp add: after_patch_def same_handle_def same_mapping_def)

text \<open>Room for the patch code and no wrap-around of the address space.\<close>

definition patchable ::
    "('a::len word, 'i, 'd) arch_ops \<Rightarrow> ('a word, 'p, 'i) fh_state \<Rightarrow> ('a word, 'i) funchook_entry \<Rightarrow> bool" where
  "patchable arch s e \<longleftrightarrow>
     patch_code_byte_size arch e \<le> length (arch_insns_bytes arch (new_code e)) \<and>
     patch_code_byte_size arch e \<le> length (arch_insns_bytes arch (old_code e)) \<and>
     unat (target_func e) + patch_code_byte_size arch e + unat (page_size s) < 2 ^ LENGTH('a)"

context os_layer
begin

lemma patch_entry_ok:
  assumes "os_ok s" and "patch_entry arch os code e s = (Inr u, s')"
  shows "os_ok s'" and "after_patch s (mem_write (mem s) (target_func e) (patch_bytes arch code e)) s'"
    and "patch_code_byte_size arch e \<le> length (arch_insns_bytes arch code)"
proof -
  let ?n = "patch_code_byte_size arch e" and ?bs = "arch_insns_bytes arch code"
  obtain ms s1 u2 s2 where b: "os_unprotect_begin os (target_func e) (of_nat ?n) s = (Inr ms, s1)"
    and w: "memcpy_n (target_func e) ?bs ?n s1 = (Inr u2, s2)"
    and en: "os_unprotect_end os ms s2 = (Inr u, s')"
    using assms(2) by (auto simp: patch_entry_def Let_def then_ok_eq_Inr)
  have m: "?n \<le> length ?bs" "memcpy (target_func e) (take ?n ?bs) s1 = (Inr u2, s2)"
    using w by (auto simp: memcpy_n_def split: if_splits)
  have c1: "after_patch s (mem s) s1" "os_ok s1"
    using begin_calm [OF assms(1) b] by (simp_all add: calm_after_patch)
  have c2: "after_patch s1 (mem_write (mem s) (target_func e) (patch_bytes arch code e)) s2" "os_ok s2"
    using memcpy_ok [OF m(2) c1(2)] c1(1) by (simp_all add: after_patch_def patch_bytes_def)
  have c3: "after_patch s2 (mem s2) s'" "os_ok s'"
    using end_calm [OF c2(2) en] by (simp_all add: calm_after_patch)
  show "os_ok s'" "?n \<le> length ?bs"
    by (fact c3(2), fact m(1))
  have "mem s2 = mem_write (mem s) (target_func e) (patch_bytes arch code e)"
    using c2(1) by (simp add: after_patch_def)
  with c3(1) c1(1) c2(1)
  show "after_patch s (mem_write (mem s) (target_func e) (patch_bytes arch code e)) s'"
    using after_patch_trans by metis
qed

lemma patch_entry_no_crash:
  assumes "os_ok s" and "patch_code_byte_size arch e \<le> length (arch_insns_bytes arch code)"
    and "unat (target_func e) + patch_code_byte_size arch e + unat (page_size s) < 2 ^ LENGTH('a)"
  shows "fst (patch_entry arch os code e s) \<noteq> Inl Crash"
proof
  assume "fst (patch_entry arch os code e s) = Inl Crash"
  then obtain s' where "patch_entry arch os code e s = (Inl Crash, s')" by (metis prod.collapse)
  moreover let ?n = "patch_code_byte_size arch e"
  have n: "unat (of_nat ?n :: 'a word) = ?n"
    using assms(3) by (simp add: unat_of_nat)
  ultimately consider (b) "os_unprotect_begin os (target_func e) (of_nat ?n) s = (Inl Crash, s')"
    | (w) ms s1 where "os_unprotect_begin os (target_func e) (of_nat ?n) s = (Inr ms, s1)"
        "memcpy_n (target_func e) (arch_insns_bytes arch code) ?n s1 = (Inl Crash, s')"
    | (e) ms s1 s2 u where "os_unprotect_begin os (target_func e) (of_nat ?n) s = (Inr ms, s1)"
        "memcpy_n (target_func e) (arch_insns_bytes arch code) ?n s1 = (Inr u, s2)"
        "os_unprotect_end os ms s2 = (Inl Crash, s')"
    by (auto simp: patch_entry_def Let_def then_ok_eq_Inl)
  then show False
  proof cases
    case b
    then show False using begin_calm [OF assms(1) b] by simp
  next
    case w
    have "writable s1 (target_func e) ?n"
      using begin_writable [OF assms(1) w(1)] assms(3) by (simp add: n)
    with w(2) assms(2) show False
      by (simp add: memcpy_n_def memcpy_def)
  next
    case e
    have "os_ok s1" using begin_calm [OF assms(1) e(1)] by simp
    then have "os_ok s2"
      using memcpy_ok [of "target_func e" "take ?n (arch_insns_bytes arch code)" s1 u s2] e(2)
      by (auto simp: memcpy_n_def split: if_splits)
    then show False using end_calm [OF _ e(3)] by simp
  qed
qed

text \<open>The loops over the entries of a page, with either selector.\<close>

lemma install_entries_ok:
  "os_ok s \<Longrightarrow> install_entries arch os es s = (Inr u, s') \<Longrightarrow>
     os_ok s' \<and> after_patch s (patched arch new_code es (mem s)) s'"
proof (induction es arbitrary: s)
  case Nil
  then show ?case by (simp add: after_patch_def same_handle_def same_mapping_def)
next
  case (Cons e es)
  then obtain u1 s1 where p: "patch_entry arch os (new_code e) e s = (Inr u1, s1)"
    and r: "install_entries arch os es s1 = (Inr u, s')"
    by (auto simp: then_ok_eq_Inr)
  note p' = patch_entry_ok [OF Cons.prems(1) p]
  have "mem s1 = mem_write (mem s) (target_func e) (patch_bytes arch (new_code e) e)"
    using p'(2) by (simp add: after_patch_def)
  with Cons.IH [OF p'(1) r] p'(2) show ?case
    by (simp, metis after_patch_trans)
qed

lemma uninstall_entries_ok:
  "os_ok s \<Longrightarrow> uninstall_entries arch os es s = (Inr u, s') \<Longrightarrow>
     os_ok s' \<and> after_patch s (patched arch old_code es (mem s)) s'"
proof (induction es arbitrary: s)
  case Nil
  then show ?case by (simp add: after_patch_def same_handle_def same_mapping_def)
next
  case (Cons e es)
  then obtain u1 s1 where p: "patch_entry arch os (old_code e) e s = (Inr u1, s1)"
    and r: "uninstall_entries arch os es s1 = (Inr u, s')"
    by (auto simp: then_ok_eq_Inr)
  note p' = patch_entry_ok [OF Cons.prems(1) p]
  have "mem s1 = mem_write (mem s) (target_func e) (patch_bytes arch (old_code e) e)"
    using p'(2) by (simp add: after_patch_def)
  with Cons.IH [OF p'(1) r] p'(2) show ?case
    by (simp, metis after_patch_trans)
qed

end

context os_layer
begin

lemma install_pages_ok:
  "os_ok s \<Longrightarrow> install_pages arch os pages s = (Inr u, s') \<Longrightarrow>
     os_ok s' \<and> after_patch s (patched arch new_code (entries_of pages) (mem s)) s'"
proof (induction pages arbitrary: s)
  case Nil
  then show ?case by (simp add: after_patch_def same_handle_def same_mapping_def)
next
  case (Cons page pages)
  let ?es = "take (used page) (entries page)"
  obtain u1 s1 u2 s2 where p: "os_page_protect os (page_addr page) s = (Inr u1, s1)"
    and e: "install_entries arch os ?es s1 = (Inr u2, s2)"
    and r: "install_pages arch os pages s2 = (Inr u, s')"
    using Cons.prems(2) by (auto simp: then_ok_eq_Inr)
  have c: "os_ok s1" "after_patch s (mem s) s1"
    using protect [OF Cons.prems(1) p] by (simp_all add: calm_after_patch)
  note e' = install_entries_ok [OF c(1) e]
  have "mem s1 = mem s" "mem s2 = patched arch new_code ?es (mem s)"
    using c e' by (simp_all add: after_patch_def)
  with Cons.IH [OF _ r] e' c show ?case
    by (simp, metis after_patch_trans)
qed

lemma uninstall_pages_ok:
  "os_ok s \<Longrightarrow> uninstall_pages arch os pages s = (Inr u, s') \<Longrightarrow>
     os_ok s' \<and> after_patch s (patched arch old_code (entries_of pages) (mem s)) s'"
proof (induction pages arbitrary: s)
  case Nil
  then show ?case by (simp add: after_patch_def same_handle_def same_mapping_def)
next
  case (Cons page pages)
  let ?es = "take (used page) (entries page)"
  obtain u1 s1 where e: "uninstall_entries arch os ?es s = (Inr u1, s1)"
    and r: "uninstall_pages arch os pages (snd (os_page_unprotect os (page_addr page) s1)) = (Inr u, s')"
    using Cons.prems(2) by (auto simp: then_ok_eq_Inr)
  note e' = uninstall_entries_ok [OF Cons.prems(1) e]
  obtain q s2 where q: "os_page_unprotect os (page_addr page) s1 = (q, s2)"
    by (cases "os_page_unprotect os (page_addr page) s1")
  have c: "os_ok s2" "after_patch s1 (mem s1) s2"
    using unprotect [OF conjunct1 [OF e'] q] by (simp_all add: calm_after_patch)
  have "mem s2 = patched arch old_code ?es (mem s)"
    using c e' by (simp add: after_patch_def)
  with Cons.IH [OF c(1)] r q e' c show ?case
    by (simp, metis after_patch_trans)
qed

text \<open>\<open>funchook_install\<close> and \<open>funchook_uninstall\<close> when they return 0.\<close>

lemma install_ok:
  assumes "os_ok s" and "funchook_install_internal arch os s = (Inr u, s')"
  shows "\<not> installed s" and "installed s'" and "page_list s' = page_list s"
    and "mem s' = patched arch new_code (entries_of (page_list s)) (mem s)" and "os_ok s'"
    and "same_mapping s s'" and "page_size s' = page_size s"
    and "num_entries_in_page s' = num_entries_in_page s"
proof -
  obtain u1 s1 where i: "\<not> installed s" and p: "install_pages arch os (page_list s) s = (Inr u1, s1)"
    and s': "s' = s1\<lparr>installed := True\<rparr>"
    using assms(2) by (auto simp: funchook_install_internal_def then_ok_eq_Inr split: if_splits)
  note p' = install_pages_ok [OF assms(1) p]
  from i p' s' show "\<not> installed s" "installed s'" "page_list s' = page_list s"
    "mem s' = patched arch new_code (entries_of (page_list s)) (mem s)"
    "same_mapping s s'" "page_size s' = page_size s" "num_entries_in_page s' = num_entries_in_page s"
    by (simp_all add: after_patch_def same_handle_def same_mapping_def)
  show "os_ok s'"
    using os_ok_cong [of s1 s'] p' s' by simp
qed

lemma uninstall_ok:
  assumes "os_ok s" and "funchook_uninstall_internal arch os s = (Inr u, s')"
  shows "installed s" and "\<not> installed s'" and "page_list s' = page_list s"
    and "mem s' = patched arch old_code (entries_of (page_list s)) (mem s)" and "os_ok s'"
    and "same_mapping s s'" and "page_size s' = page_size s"
    and "num_entries_in_page s' = num_entries_in_page s"
proof -
  obtain u1 s1 where i: "installed s" and p: "uninstall_pages arch os (page_list s) s = (Inr u1, s1)"
    and s': "s' = s1\<lparr>installed := False\<rparr>"
    using assms(2) by (auto simp: funchook_uninstall_internal_def then_ok_eq_Inr split: if_splits)
  note p' = uninstall_pages_ok [OF assms(1) p]
  from i p' s' show "installed s" "\<not> installed s'" "page_list s' = page_list s"
    "mem s' = patched arch old_code (entries_of (page_list s)) (mem s)"
    "same_mapping s s'" "page_size s' = page_size s" "num_entries_in_page s' = num_entries_in_page s"
    by (simp_all add: after_patch_def same_handle_def same_mapping_def)
  show "os_ok s'"
    using os_ok_cong [of s1 s'] p' s' by simp
qed

text \<open>No undefined behaviour while patching entries whose patch code fits.\<close>

lemma install_entries_no_crash:
  "os_ok s \<Longrightarrow> list_all (patchable arch s) es \<Longrightarrow> fst (install_entries arch os es s) \<noteq> Inl Crash"
proof (induction es arbitrary: s)
  case Nil
  then show ?case by simp
next
  case (Cons e es)
  obtain r s1 where p: "patch_entry arch os (new_code e) e s = (r, s1)"
    by (cases "patch_entry arch os (new_code e) e s")
  have nc: "r \<noteq> Inl Crash"
    using patch_entry_no_crash [OF Cons.prems(1), of arch e "new_code e"] Cons.prems(2) p
    by (simp add: patchable_def)
  show ?case
  proof (cases r)
    case (Inr u)
    with p have p': "patch_entry arch os (new_code e) e s = (Inr u, s1)" by simp
    have "page_size s1 = page_size s" "os_ok s1"
      using patch_entry_ok [OF Cons.prems(1) p'] by (auto simp: after_patch_def same_handle_def)
    with Cons p' show ?thesis by (auto simp: patchable_def list_all_iff)
  next
    case (Inl x)
    with p nc show ?thesis by simp
  qed
qed

lemma install_pages_no_crash:
  "os_ok s \<Longrightarrow> list_all (patchable arch s) (entries_of pages) \<Longrightarrow>
     fst (install_pages arch os pages s) \<noteq> Inl Crash"
proof (induction pages arbitrary: s)
  case Nil
  then show ?case by simp
next
  case (Cons page pages)
  let ?es = "take (used page) (entries page)"
  obtain r1 s1 where p: "os_page_protect os (page_addr page) s = (r1, s1)"
    by (cases "os_page_protect os (page_addr page) s")
  have c: "os_ok s1" "calm s s1" "r1 \<noteq> Inl Crash" using protect [OF Cons.prems(1) p] by auto
  then have pa: "patchable arch s1 = patchable arch s"
    by (simp add: patchable_def calm_def same_handle_def fun_eq_iff)
  obtain r2 s2 where e: "install_entries arch os ?es s1 = (r2, s2)"
    by (cases "install_entries arch os ?es s1")
  have nc: "r2 \<noteq> Inl Crash"
    using install_entries_no_crash [OF c(1), of arch ?es] e Cons.prems(2) pa by simp
  show ?case
  proof (cases r2)
    case (Inl x)
    with nc c p e show ?thesis by (cases r1) auto
  next
    case (Inr u)
    with e have e': "install_entries arch os ?es s1 = (Inr u, s2)" by simp
    note e'' = install_entries_ok [OF c(1) e']
    then have "patchable arch s2 = patchable arch s"
      using pa by (simp add: patchable_def after_patch_def same_handle_def fun_eq_iff)
    with Cons.IH [of s2] Cons.prems(2) e'' e' p c(3) show ?thesis by (cases r1) auto
  qed
qed

lemma install_no_crash:
  assumes "os_ok s" and "list_all (patchable arch s) (entries_of (page_list s))"
  shows "fst (funchook_install_internal arch os s) \<noteq> Inl Crash"
  using install_pages_no_crash [OF assms]
  by (cases "install_pages arch os (page_list s) s")
    (auto simp: funchook_install_internal_def then_ok_def split: sum.splits)

end

section \<open>What patching does to memory\<close>

definition in_patch ::
    "('a::len word, 'i, 'd) arch_ops \<Rightarrow> ('a word, 'i) funchook_entry list \<Rightarrow> 'a word \<Rightarrow> bool" where
  "in_patch arch es x \<longleftrightarrow> list_ex (\<lambda>e. in_region (target_func e) (patch_code_byte_size arch e) x) es"

lemma in_patch_simps [simp]:
  "in_patch arch [] x \<longleftrightarrow> False"
  "in_patch arch (e # es) x \<longleftrightarrow>
     in_region (target_func e) (patch_code_byte_size arch e) x \<or> in_patch arch es x"
  by (simp_all add: in_patch_def)

lemma length_patch_bytes:
  "patch_code_byte_size arch e \<le> length (arch_insns_bytes arch code) \<Longrightarrow>
     length (patch_bytes arch code e) = patch_code_byte_size arch e"
  by (simp add: patch_bytes_def)

lemma length_patch_bytes_le: "length (patch_bytes arch code e) \<le> patch_code_byte_size arch e"
  by (simp add: patch_bytes_def)

lemma patched_outside:
  "\<not> in_patch arch es x \<Longrightarrow> patched arch sel es m x = m x"
proof (induction es arbitrary: m)
  case Nil
  then show ?case by simp
next
  case (Cons e es)
  have "\<not> in_region (target_func e) (length (patch_bytes arch (sel e) e)) x"
    using Cons.prems length_patch_bytes_le [of arch "sel e" e] by (auto simp: in_region_def)
  with Cons show ?case by (simp add: mem_write_other)
qed

text \<open>The saved code of an entry is what the function held in the memory \<open>m\<close>.\<close>

definition entry_saved ::
    "('a::len word, 'i, 'd) arch_ops \<Rightarrow> ('a word \<Rightarrow> u8) \<Rightarrow> ('a word, 'i) funchook_entry \<Rightarrow> bool" where
  "entry_saved arch m e \<longleftrightarrow>
     patch_bytes arch (old_code e) e = mem_read m (target_func e) (patch_code_byte_size arch e)"

lemma mem_write_saved:
  "mem_write m a (mem_read m0 a n) x = (if in_region a n x then m0 x else m x)"
  by (simp add: mem_write_def in_region_def nth_mem_read)

lemma patched_old_code:
  "list_all (entry_saved arch m0) es \<Longrightarrow>
     patched arch old_code es m x = (if in_patch arch es x then m0 x else m x)"
  by (induction es arbitrary: m) (auto simp: entry_saved_def mem_write_saved)

text \<open>Installing and then restoring the saved bytes gives the original memory.\<close>

lemma patched_restored:
  assumes "list_all (entry_saved arch m) es"
  shows "patched arch old_code es (patched arch sel es m) = m"
  using patched_old_code [OF assms] by (auto simp: fun_eq_iff patched_outside)

text \<open>
  The last patch that covers a byte wins: the code of an entry is in memory when no later
  patch overlaps it.
\<close>

lemma patched_entry_code:
  assumes "es = es1 @ e # es2" and "patch_code_byte_size arch e \<le> length (arch_insns_bytes arch (sel e))"
    and "patch_code_byte_size arch e \<le> 2 ^ LENGTH('a)"
    and "\<And>x. in_region (target_func e) (patch_code_byte_size arch e) x \<Longrightarrow> \<not> in_patch arch es2 x"
  shows "mem_read (patched arch sel es m) (target_func (e :: ('a::len word, 'i) funchook_entry))
      (patch_code_byte_size arch e) = patch_bytes arch (sel e) e"
proof -
  let ?n = "patch_code_byte_size arch e" and ?m = "patched arch sel es1 m"
  have "mem_read (patched arch sel es m) (target_func e) ?n =
      mem_read (mem_write ?m (target_func e) (patch_bytes arch (sel e) e)) (target_func e) ?n"
    using assms(4) by (intro mem_read_cong) (simp_all add: assms(1,3) patched_outside)
  also have "\<dots> = patch_bytes arch (sel e) e"
    using mem_read_write_same [of "patch_bytes arch (sel e) e" ?m "target_func e"] assms(2,3)
    by (simp add: length_patch_bytes)
  finally show ?thesis .
qed

section \<open>When the operating system grants every request\<close>

text \<open>
  \<open>can_patch s a n\<close> and \<open>can_protect s p\<close> say that the system will allow the changes of
  protection for the code at \<open>a\<close> and for the page \<open>p\<close>; they depend on what is mapped only.
\<close>

locale granting_os = os_layer os os_ok
  for os :: "('a::len word, 'd, 'ms, ('a word, 'p, 'i) fh_state) os_ops" and os_ok +
  fixes can_patch :: "('a word, 'p, 'i) fh_state \<Rightarrow> 'a word \<Rightarrow> 'a word \<Rightarrow> bool"
    and can_protect :: "('a word, 'p, 'i) fh_state \<Rightarrow> 'a word \<Rightarrow> bool"
  assumes grants_cong: "same_mapping s s' \<Longrightarrow> page_size s' = page_size s \<Longrightarrow>
      can_patch s' = can_patch s \<and> can_protect s' = can_protect s"
    and begin_grants: "os_ok s \<Longrightarrow> can_patch s a n \<Longrightarrow> \<exists>ms s'. os_unprotect_begin os a n s = (Inr ms, s')"
    and end_grants: "os_ok s \<Longrightarrow> can_patch s a n \<Longrightarrow> os_unprotect_begin os a n s = (Inr ms, s') \<Longrightarrow>
      os_ok t \<Longrightarrow> same_mapping s t \<Longrightarrow> \<exists>t'. os_unprotect_end os ms t = (Inr (), t')"
    and protect_grants: "os_ok s \<Longrightarrow> can_protect s p \<Longrightarrow> \<exists>s'. os_page_protect os p s = (Inr (), s')"
begin

definition ready ::
    "('a word, 'i, 'd2) arch_ops \<Rightarrow> ('a word, 'p, 'i) fh_state \<Rightarrow> ('a word, 'i) funchook_entry \<Rightarrow> bool" where
  "ready arch s e \<longleftrightarrow> patchable arch s e \<and> can_patch s (target_func e) (of_nat (patch_code_byte_size arch e))"

lemma ready_cong: "after_patch s m s' \<Longrightarrow> ready arch s' = ready arch s"
  using grants_cong [of s s'] by (auto simp: ready_def after_patch_def same_handle_def patchable_def fun_eq_iff)

lemma patch_entry_succeeds:
  assumes ok: "os_ok s" and r: "ready arch s e"
    and len: "patch_code_byte_size arch e \<le> length (arch_insns_bytes arch code)"
  shows "\<exists>s'. patch_entry arch os code e s = (Inr (), s')"
proof -
  let ?n = "patch_code_byte_size arch e" and ?bs = "arch_insns_bytes arch code"
  have sp: "unat (target_func e) + ?n + unat (page_size s) < 2 ^ LENGTH('a)"
    using r by (simp add: ready_def patchable_def)
  then have n: "unat (of_nat ?n :: 'a word) = ?n" by (simp add: unat_of_nat)
  have cp: "can_patch s (target_func e) (of_nat ?n)" using r by (simp add: ready_def)
  obtain ms s1 where b: "os_unprotect_begin os (target_func e) (of_nat ?n) s = (Inr ms, s1)"
    using begin_grants [OF ok cp] by blast
  have "writable s1 (target_func e) ?n"
    using begin_writable [OF ok b] sp by (simp add: n)
  then have w: "memcpy_n (target_func e) ?bs ?n s1 =
      (Inr (), s1\<lparr>mem := mem_write (mem s1) (target_func e) (take ?n ?bs)\<rparr>)" (is "_ = (_, ?s2)")
    using len by (simp add: memcpy_n_def memcpy_def)
  have c: "calm s s1" "os_ok s1" using begin_calm [OF ok b] by auto
  have "os_ok ?s2" using os_ok_cong [OF c(2)] by simp
  moreover have "same_mapping s ?s2" using c(1) by (simp add: calm_def same_mapping_def)
  ultimately obtain t where "os_unprotect_end os ms ?s2 = (Inr (), t)"
    using end_grants [OF ok cp b] by blast
  with b w show ?thesis by (simp add: patch_entry_def Let_def)
qed

lemma install_entries_succeeds:
  "os_ok s \<Longrightarrow> list_all (ready arch s) es \<Longrightarrow> \<exists>s'. install_entries arch os es s = (Inr (), s')"
proof (induction es arbitrary: s)
  case Nil
  then show ?case by simp
next
  case (Cons e es)
  have len: "patch_code_byte_size arch e \<le> length (arch_insns_bytes arch (new_code e))"
    and r: "ready arch s e"
    using Cons.prems(2) by (simp_all add: ready_def patchable_def)
  obtain s1 where p: "patch_entry arch os (new_code e) e s = (Inr (), s1)"
    using patch_entry_succeeds [OF Cons.prems(1) r len] by blast
  note p' = patch_entry_ok [OF Cons.prems(1) p]
  have "list_all (ready arch s1) es" using Cons.prems(2) by (simp add: ready_cong [OF p'(2)])
  with Cons.IH [OF p'(1)] p show ?case by simp
qed

lemma uninstall_entries_succeeds:
  "os_ok s \<Longrightarrow> list_all (ready arch s) es \<Longrightarrow> \<exists>s'. uninstall_entries arch os es s = (Inr (), s')"
proof (induction es arbitrary: s)
  case Nil
  then show ?case by simp
next
  case (Cons e es)
  have len: "patch_code_byte_size arch e \<le> length (arch_insns_bytes arch (old_code e))"
    and r: "ready arch s e"
    using Cons.prems(2) by (simp_all add: ready_def patchable_def)
  obtain s1 where p: "patch_entry arch os (old_code e) e s = (Inr (), s1)"
    using patch_entry_succeeds [OF Cons.prems(1) r len] by blast
  note p' = patch_entry_ok [OF Cons.prems(1) p]
  have "list_all (ready arch s1) es" using Cons.prems(2) by (simp add: ready_cong [OF p'(2)])
  with Cons.IH [OF p'(1)] p show ?case by simp
qed

lemma install_pages_succeeds:
  "os_ok s \<Longrightarrow> list_all (ready arch s) (entries_of pages) \<Longrightarrow>
     list_all (\<lambda>page. can_protect s (page_addr page)) pages \<Longrightarrow>
     \<exists>s'. install_pages arch os pages s = (Inr (), s')"
proof (induction pages arbitrary: s)
  case Nil
  then show ?case by simp
next
  case (Cons page pages)
  let ?es = "take (used page) (entries page)"
  obtain s1 where p: "os_page_protect os (page_addr page) s = (Inr (), s1)"
    using protect_grants [OF Cons.prems(1)] Cons.prems(3) by auto
  have c: "os_ok s1" "after_patch s (mem s) s1"
    using protect [OF Cons.prems(1) p] by (simp_all add: calm_after_patch)
  have r1: "ready arch s1 = ready arch s" by (rule ready_cong [OF c(2)])
  obtain s2 where e: "install_entries arch os ?es s1 = (Inr (), s2)"
    using install_entries_succeeds [OF c(1), of arch ?es] Cons.prems(2) r1 by auto
  note e' = install_entries_ok [OF c(1) e]
  have a2: "after_patch s (mem s2) s2"
    using after_patch_trans [OF c(2)] e' by (auto simp: after_patch_def)
  have "list_all (ready arch s2) (entries_of pages)"
    using Cons.prems(2) by (simp add: ready_cong [OF a2])
  moreover have "can_protect s2 = can_protect s"
    using grants_cong [of s s2] a2 by (simp add: after_patch_def same_handle_def)
  ultimately show ?case
    using Cons.IH [of s2] e' e p Cons.prems(3) by simp
qed

lemma uninstall_pages_succeeds:
  "os_ok s \<Longrightarrow> list_all (ready arch s) (entries_of pages) \<Longrightarrow>
     \<exists>s'. uninstall_pages arch os pages s = (Inr (), s')"
proof (induction pages arbitrary: s)
  case Nil
  then show ?case by simp
next
  case (Cons page pages)
  let ?es = "take (used page) (entries page)"
  obtain s1 where e: "uninstall_entries arch os ?es s = (Inr (), s1)"
    using uninstall_entries_succeeds [OF Cons.prems(1), of arch ?es] Cons.prems(2) by auto
  note e' = uninstall_entries_ok [OF Cons.prems(1) e]
  obtain q s2 where q: "os_page_unprotect os (page_addr page) s1 = (q, s2)"
    by (cases "os_page_unprotect os (page_addr page) s1")
  have c: "os_ok s2" "after_patch s1 (mem s1) s2"
    using unprotect [OF conjunct1 [OF e'] q] by (simp_all add: calm_after_patch)
  have "list_all (ready arch s2) (entries_of pages)"
    using Cons.prems(2) by (simp add: ready_cong [OF conjunct2 [OF e']] ready_cong [OF c(2)])
  with Cons.IH [OF c(1)] e q show ?case by simp
qed

lemma install_succeeds:
  assumes "os_ok s" and "\<not> installed s" and "list_all (ready arch s) (entries_of (page_list s))"
    and "list_all (\<lambda>page. can_protect s (page_addr page)) (page_list s)"
  shows "\<exists>s'. funchook_install_internal arch os s = (Inr (), s')"
  using install_pages_succeeds [OF assms(1,3,4)] assms(2) by (auto simp: funchook_install_internal_def)

lemma uninstall_succeeds:
  assumes "os_ok s" and "installed s" and "list_all (ready arch s) (entries_of (page_list s))"
  shows "\<exists>s'. funchook_uninstall_internal arch os s = (Inr (), s')"
  using uninstall_pages_succeeds [OF assms(1,3)] assms(2) by (auto simp: funchook_uninstall_internal_def)

lemma ready_after_install:
  assumes "os_ok s" and "funchook_install_internal arch os s = (Inr u, s')"
  shows "ready arch s' = ready arch s"
proof -
  let ?t = "s\<lparr>installed := True\<rparr>"
  note i = install_ok [OF assms]
  have "after_patch ?t (mem s') s'"
    using i(2,3,6,7,8) by (simp add: after_patch_def same_handle_def same_mapping_def)
  then have "ready arch s' = ready arch ?t" by (rule ready_cong)
  also have "\<dots> = ready arch s"
    using grants_cong [of s ?t] by (simp add: fun_eq_iff ready_def patchable_def same_mapping_def)
  finally show ?thesis .
qed

text \<open>Installing writes the patches, and uninstalling puts back all of memory.\<close>

lemma install_uninstall_succeed:
  assumes "os_ok s" and "\<not> installed s" and "list_all (ready arch s) (entries_of (page_list s))"
    and "list_all (\<lambda>page. can_protect s (page_addr page)) (page_list s)"
    and "list_all (entry_saved arch (mem s)) (entries_of (page_list s))"
  shows "\<exists>s1 s2. funchook_install_internal arch os s = (Inr (), s1) \<and>
    installed s1 \<and> mem s1 = patched arch new_code (entries_of (page_list s)) (mem s) \<and>
    funchook_uninstall_internal arch os s1 = (Inr (), s2) \<and>
    \<not> installed s2 \<and> page_list s2 = page_list s \<and> mem s2 = mem s"
proof -
  obtain s1 where i: "funchook_install_internal arch os s = (Inr (), s1)"
    using install_succeeds [OF assms(1-4)] by blast
  note io = install_ok [OF assms(1) i]
  have "list_all (ready arch s1) (entries_of (page_list s1))"
    using assms(3) by (simp add: ready_after_install [OF assms(1) i] io(3))
  from uninstall_succeeds [OF io(5,2) this] obtain s2 where
    u: "funchook_uninstall_internal arch os s1 = (Inr (), s2)" by blast
  note uo = uninstall_ok [OF io(5) u]
  have "mem s2 = mem s"
    using uo(4) io(3,4) patched_restored [OF assms(5)] by simp
  with i u io uo show ?thesis by auto
qed

end

section \<open>When installing fails\<close>

text \<open>The bytes that the patches of a list of entries write.\<close>

definition written ::
    "('a::len word, 'i, 'd) arch_ops \<Rightarrow> (('a word, 'i) funchook_entry \<Rightarrow> 'i list) \<Rightarrow>
      ('a word, 'i) funchook_entry list \<Rightarrow> 'a word \<Rightarrow> bool" where
  "written arch sel es x \<longleftrightarrow>
     list_ex (\<lambda>e. in_region (target_func e) (length (patch_bytes arch (sel e) e)) x) es"

lemma patched_not_written: "\<not> written arch sel es x \<Longrightarrow> patched arch sel es m x = m x"
  by (induction es arbitrary: m) (simp_all add: written_def mem_write_other)

lemma patched_written: "written arch sel es x \<Longrightarrow> patched arch sel es m x = patched arch sel es m' x"
proof (induction es arbitrary: m m')
  case Nil
  then show ?case by (simp add: written_def)
next
  case (Cons e es)
  show ?case
  proof (cases "written arch sel es x")
    case True
    with Cons.IH show ?thesis by simp
  next
    case False
    with Cons.prems have "in_region (target_func e) (length (patch_bytes arch (sel e) e)) x"
      by (simp add: written_def)
    then show ?thesis
      using False by (simp add: patched_not_written mem_write_def in_region_def)
  qed
qed

text \<open>Patching again after only some of the patches were made.\<close>

lemma patched_again: "patched arch sel es (patched arch sel (take k es) m) = patched arch sel es m"
proof
  fix x
  show "patched arch sel es (patched arch sel (take k es) m) x = patched arch sel es m x"
  proof (cases "written arch sel es x")
    case True
    then show ?thesis by (rule patched_written)
  next
    case False
    then have "\<not> written arch sel (take k es) x"
      by (auto simp: written_def list_ex_iff dest: in_set_takeD)
    with False show ?thesis by (simp add: patched_not_written)
  qed
qed

context os_layer
begin

lemma patch_entry_any:
  assumes "os_ok s" and "patch_entry arch os code e s = (r, s')"
  obtains (unpatched) f where "r = Inl f" "os_ok s'" "after_patch s (mem s) s'"
  | (patched) "os_ok s'" "after_patch s (mem_write (mem s) (target_func e) (patch_bytes arch code e)) s'"
proof -
  let ?n = "patch_code_byte_size arch e" and ?bs = "arch_insns_bytes arch code"
  from assms(2) [unfolded patch_entry_def Let_def] show ?thesis
  proof (cases rule: then_okE)
    case (fail f)
    then show ?thesis
      using unpatched begin_calm [OF assms(1) fail(1)] by (simp add: calm_after_patch)
  next
    case (ok ms s1)
    have c1: "after_patch s (mem s) s1" "os_ok s1"
      using begin_calm [OF assms(1) ok(1)] by (simp_all add: calm_after_patch)
    from ok(2) show ?thesis
    proof (cases rule: then_okE)
      case (fail f)
      then have "s' = s1" by (auto simp: memcpy_n_def memcpy_def split: if_splits)
      with c1 fail unpatched show ?thesis by simp
    next
      case (ok u s2)
      then have m: "memcpy (target_func e) (take ?n ?bs) s1 = (Inr u, s2)"
        by (auto simp: memcpy_n_def split: if_splits)
      have c2: "after_patch s1 (mem_write (mem s) (target_func e) (patch_bytes arch code e)) s2" "os_ok s2"
        using memcpy_ok [OF m c1(2)] c1(1) by (simp_all add: after_patch_def patch_bytes_def)
      have c3: "after_patch s2 (mem s2) s'" "os_ok s'"
        using end_calm [OF c2(2) ok(2)] by (simp_all add: calm_after_patch)
      have "mem s2 = mem_write (mem s) (target_func e) (patch_bytes arch code e)"
        using c2(1) by (simp add: after_patch_def)
      with c3 c1(1) c2(1) patched show ?thesis by (metis after_patch_trans)
    qed
  qed
qed

lemma install_entries_any:
  "os_ok s \<Longrightarrow> install_entries arch os es s = (r, s') \<Longrightarrow>
     os_ok s' \<and> (\<exists>k \<le> length es. after_patch s (patched arch new_code (take k es) (mem s)) s')"
proof (induction es arbitrary: s)
  case Nil
  then show ?case by (simp add: after_patch_def same_handle_def same_mapping_def)
next
  case (Cons e es)
  obtain q s1 where p: "patch_entry arch os (new_code e) e s = (q, s1)"
    by (cases "patch_entry arch os (new_code e) e s")
  let ?m = "mem_write (mem s) (target_func e) (patch_bytes arch (new_code e) e)"
  from Cons.prems(1) p show ?case
  proof (cases rule: patch_entry_any)
    case (unpatched f)
    then show ?thesis using Cons.prems(2) p by (intro conjI exI [of _ 0]) simp_all
  next
    case patched
    show ?thesis
    proof (cases q)
      case (Inl f)
      then show ?thesis
        using Cons.prems(2) p patched by (intro conjI exI [of _ 1]) simp_all
    next
      case (Inr u)
      then have r: "install_entries arch os es s1 = (r, s')" using Cons.prems(2) p by simp
      from Cons.IH [OF patched(1) r] obtain k where k: "os_ok s'" "k \<le> length es"
        "after_patch s1 (patched arch new_code (take k es) (mem s1)) s'" by blast
      moreover have "mem s1 = ?m" using patched(2) by (simp add: after_patch_def)
      ultimately have "after_patch s (patched arch new_code (take (Suc k) (e # es)) (mem s)) s'"
        using after_patch_trans [OF patched(2)] by simp
      with k(1,2) show ?thesis by (intro conjI exI [of _ "Suc k"]) simp_all
    qed
  qed
qed

lemma take_length_plus: "take (length xs + j) (xs @ ys) = xs @ take j ys"
  by simp

lemma install_pages_any:
  "os_ok s \<Longrightarrow> install_pages arch os pages s = (r, s') \<Longrightarrow>
     os_ok s' \<and> (\<exists>k \<le> length (entries_of pages).
       after_patch s (patched arch new_code (take k (entries_of pages)) (mem s)) s')"
proof (induction pages arbitrary: s)
  case Nil
  then show ?case by (simp add: after_patch_def same_handle_def same_mapping_def)
next
  case (Cons page pages)
  let ?es = "take (used page) (entries page)"
  obtain q s1 where p: "os_page_protect os (page_addr page) s = (q, s1)"
    by (cases "os_page_protect os (page_addr page) s")
  have c: "os_ok s1" "after_patch s (mem s) s1"
    using protect [OF Cons.prems(1) p] by (simp_all add: calm_after_patch)
  show ?case
  proof (cases q)
    case (Inl f)
    then show ?thesis using Cons.prems(2) p c by (intro conjI exI [of _ 0]) simp_all
  next
    case (Inr u)
    obtain q2 s2 where e: "install_entries arch os ?es s1 = (q2, s2)"
      by (cases "install_entries arch os ?es s1")
    have ms1: "mem s1 = mem s" using c(2) by (simp add: after_patch_def)
    from install_entries_any [OF c(1) e] obtain k where k: "os_ok s2" "k \<le> length ?es"
      "after_patch s (patched arch new_code (take k ?es) (mem s)) s2"
      using after_patch_trans [OF c(2)] ms1 by auto
    show ?thesis
    proof (cases q2)
      case (Inl f)
      have "k \<le> length (entries_of (page # pages))" using k(2) by simp linarith
      with Inl show ?thesis using Cons.prems(2) p \<open>q = Inr u\<close> e k by (intro conjI exI [of _ k]) simp_all
    next
      case (Inr u2)
      note i = install_entries_ok [OF c(1) e [unfolded Inr]]
      have s2: "after_patch s (patched arch new_code ?es (mem s)) s2"
        using after_patch_trans [OF c(2)] i ms1 by auto
      have r: "install_pages arch os pages s2 = (r, s')"
        using Cons.prems(2) p \<open>q = Inr u\<close> e Inr by simp
      from Cons.IH [OF k(1) r] obtain j where j: "os_ok s'" "j \<le> length (entries_of pages)"
        "after_patch s2 (patched arch new_code (take j (entries_of pages)) (mem s2)) s'" by blast
      have "mem s2 = patched arch new_code ?es (mem s)" using s2 by (simp add: after_patch_def)
      with j(3) after_patch_trans [OF s2]
      have "after_patch s (patched arch new_code (?es @ take j (entries_of pages)) (mem s)) s'"
        by simp
      then have "after_patch s (patched arch new_code (take (length ?es + j) (entries_of (page # pages))) (mem s)) s'"
        by (simp only: entries_of_simps take_length_plus)
      with j(1,2) show ?thesis by (intro conjI exI [of _ "length ?es + j"]) simp_all
    qed
  qed
qed

text \<open>A failed call leaves the handle not installed and the patches of a prefix of the entries.\<close>

lemma install_error:
  assumes "os_ok s" and "\<not> installed s" and "funchook_install_internal arch os s = (Inl f, s')"
  shows "os_ok s'"
    and "\<exists>k \<le> length (entries_of (page_list s)).
      after_patch s (patched arch new_code (take k (entries_of (page_list s))) (mem s)) s'"
proof -
  have "install_pages arch os (page_list s) s = (Inl f, s')"
    using assms(2,3) by (auto simp: funchook_install_internal_def then_ok_eq_Inl)
  from install_pages_any [OF assms(1) this] show "os_ok s'"
    and "\<exists>k \<le> length (entries_of (page_list s)).
      after_patch s (patched arch new_code (take k (entries_of (page_list s))) (mem s)) s'"
    by simp_all
qed

end

end
