(* ===== verification/FH_Invariant.thy ===== *)
theory FH_Invariant
  imports FH_Handle
begin

text \<open>
  The invariant of a handle and the calls that keep it: pages do not overlap, the records of
  the page list are what the pages hold, every saved code is what the function held before
  it was patched, and no patch touches a page of the handle.
\<close>

section \<open>The geometry of pages\<close>

text \<open>The bytes of a function that a patch may replace.\<close>

definition window :: "('ad, 'i, 'd) arch_ops \<Rightarrow> nat" where
  "window arch = arch_max_patch_code_size arch * arch_sizeof_insn arch"

text \<open>
  At least one entry fits into a page, and the entries end within the page, and so does
  the header when it follows them.
\<close>

definition layout_ok :: "('a::len word, 'i, 'd) arch_ops \<Rightarrow> 'a word \<Rightarrow> nat \<Rightarrow> bool" where
  "layout_ok arch psz num \<longleftrightarrow> 0 < num \<and> 0 < arch_sizeof_entry arch \<and>
     arch_offsetof_entries arch + num * arch_sizeof_entry arch \<le> unat psz \<and>
     (arch_entry_at_page_boundary arch \<longrightarrow>
       arch_offsetof_entries arch + num * arch_sizeof_entry arch + arch_sizeof_header arch \<le> unat psz) \<and>
     0 < window arch \<and> window arch \<le> 2 ^ LENGTH('a)"

section \<open>The contract of the code generator\<close>

text \<open>
  \<open>fits func (disp, trampoline, size)\<close> says that a trampoline for \<open>func\<close> is complete.
\<close>

locale code_generator =
  fixes arch :: "('a::len word, 'i, 'd) arch_ops"
    and fits :: "'a word \<Rightarrow> 'd \<times> 'i list \<times> nat \<Rightarrow> bool"
  assumes fix_code_keeps: "arch_fix_code arch ea e d = Some e' \<Longrightarrow>
      length (new_code e) = arch_max_patch_code_size arch \<Longrightarrow>
      original_target_func e' = original_target_func e \<and> target_func e' = target_func e \<and>
      hook_func e' = hook_func e \<and> prehook e' = prehook e \<and> user_data e' = user_data e \<and>
      eflags e' = eflags e \<and> old_code e' = old_code e \<and>
      length (new_code e') = arch_max_patch_code_size arch"
    and fix_code_fits: "fits func (d, tramp, n) \<Longrightarrow>
      arch_fix_code arch ea (new_entry arch m target func params tramp) d = Some e' \<Longrightarrow>
      unat (patch_code_size e') \<le> arch_max_patch_code_size arch \<and>
      length (arch_entry_bytes arch e') = arch_sizeof_entry arch"
    and fix_code_total: "fits func (d, tramp, n) \<Longrightarrow>
      arch_fix_code arch ea (new_entry arch m target func params tramp) d \<noteq> None"
    and slot: "arch_entry_address arch p i =
      p + of_nat (arch_offsetof_entries arch + i * arch_sizeof_entry arch)"
    and bytes_insns: "length bs = k * arch_sizeof_insn arch \<Longrightarrow>
      arch_insns_bytes arch (arch_bytes_insns arch bs) = bs"
    and insns_bytes_length: "length (arch_insns_bytes arch is) = length is * arch_sizeof_insn arch"
    and header: "layout_ok arch psz num \<Longrightarrow>
      in_region p (unat psz) (arch_page_header arch p) \<and> 0 < arch_sizeof_header arch"

section \<open>The invariant\<close>

definition mapped :: "('a::len word, 'p, 'i) fh_state \<Rightarrow> 'a word \<Rightarrow> nat \<Rightarrow> bool" where
  "mapped s a n \<longleftrightarrow> (\<forall>x. in_region a n x \<longrightarrow> mprot s x \<noteq> None)"

definition page_ok ::
    "('a::len word, 'i, 'd) arch_ops \<Rightarrow> ('a word, 'p, 'i) fh_state \<Rightarrow> ('a word, 'i) funchook_page \<Rightarrow> bool" where
  "page_ok arch s page \<longleftrightarrow>
     used page = length (entries page) \<and> used page \<le> num_entries_in_page s \<and>
     mapped s (page_addr page) (unat (page_size s)) \<and>
     (\<forall>i < used page.
        mem_read (mem s) (arch_entry_address arch (page_addr page) i) (arch_sizeof_entry arch) =
        arch_entry_bytes arch (entries page ! i))"

text \<open>A function is apart from the pages of a handle, and mapped.\<close>

definition apart ::
    "('a::len word, 'i, 'd) arch_ops \<Rightarrow> ('a word, 'p, 'i) fh_state \<Rightarrow> 'a word \<Rightarrow> bool" where
  "apart arch s func \<longleftrightarrow> mapped s func (window arch) \<and>
     list_all (\<lambda>page. disjoint_blocks func (window arch) (page_addr page) (unat (page_size s))) (page_list s)"

definition entry_ok ::
    "('a::len word, 'i, 'd) arch_ops \<Rightarrow> ('a word, 'p, 'i) fh_state \<Rightarrow> ('a word, 'i) funchook_entry \<Rightarrow> bool" where
  "entry_ok arch s e \<longleftrightarrow>
     patch_code_byte_size arch e \<le> window arch \<and>
     length (arch_insns_bytes arch (new_code e)) = window arch \<and>
     arch_insns_bytes arch (old_code e) = mem_read (mem s) (target_func e) (window arch) \<and>
     apart arch s (target_func e)"

definition handle_inv ::
    "('a::len word, 'i, 'd) arch_ops \<Rightarrow> ('a word, 'p, 'i) fh_state \<Rightarrow> bool" where
  "handle_inv arch s \<longleftrightarrow>
     layout_ok arch (page_size s) (num_entries_in_page s) \<and>
     list_all (page_ok arch s) (page_list s) \<and>
     sorted_wrt (\<lambda>p q. disjoint_blocks (page_addr p) (unat (page_size s))
                       (page_addr q) (unat (page_size s))) (page_list s) \<and>
     list_all (entry_ok arch s) (entries_of (page_list s))"

lemma mapped_same: "same_mapping s s' \<Longrightarrow> mapped s' a n \<longleftrightarrow> mapped s a n"
  by (simp add: mapped_def same_mapping_def)

lemma entry_ok_saved:
  assumes "entry_ok arch s e"
  shows "entry_saved arch (mem s) e"
  using assms take_mem_read [of "patch_code_byte_size arch e" "window arch" "mem s" "target_func e"]
  by (simp add: entry_ok_def entry_saved_def patch_bytes_def)

lemma handle_inv_saved:
  "handle_inv arch s \<Longrightarrow> list_all (entry_saved arch (mem s)) (entries_of (page_list s))"
  by (auto simp: handle_inv_def list_all_iff entry_ok_saved)

text \<open>What the invariant looks at.\<close>

lemma handle_inv_cong:
  assumes "handle_inv arch s" and "page_list s' = page_list s"
    and "num_entries_in_page s' = num_entries_in_page s" and "page_size s' = page_size s"
    and "same_mapping s s'" and "mem s' = mem s"
  shows "handle_inv arch s'"
proof -
  have "page_ok arch s' page = page_ok arch s page" "entry_ok arch s' e = entry_ok arch s e" for page e
    using assms(2-6) by (simp_all add: page_ok_def entry_ok_def apart_def mapped_same)
  then have "page_ok arch s' = page_ok arch s" "entry_ok arch s' = entry_ok arch s"
    by blast+
  with assms show ?thesis by (simp add: handle_inv_def)
qed

text \<open>A slot lies inside its page, and different slots are disjoint.\<close>

context code_generator
begin

lemma slot_in_page:
  assumes "layout_ok arch psz num" and "i < num"
    and "in_region (arch_entry_address arch p i) (arch_sizeof_entry arch) x"
  shows "in_region p (unat psz) x"
    and "arch_offsetof_entries arch + i * arch_sizeof_entry arch \<le> unat (x - p)"
    and "unat (x - p) < arch_offsetof_entries arch + Suc i * arch_sizeof_entry arch"
proof -
  let ?off = "arch_offsetof_entries arch + i * arch_sizeof_entry arch"
  have "Suc i * arch_sizeof_entry arch \<le> num * arch_sizeof_entry arch"
    using assms(2) by (intro mult_le_mono1) simp
  then have le: "?off + arch_sizeof_entry arch \<le> unat psz"
    using assms(1) by (simp add: layout_ok_def)
  also have "unat psz < 2 ^ LENGTH('a)"
    by (rule unsigned_less)
  finally have "?off + arch_sizeof_entry arch \<le> 2 ^ LENGTH('a)"
    by simp
  note r = in_region_sub [OF assms(3) [unfolded slot] this]
  from r(1) show "?off \<le> unat (x - p)" .
  from r(2) show "unat (x - p) < arch_offsetof_entries arch + Suc i * arch_sizeof_entry arch"
    by simp
  with r le show "in_region p (unat psz) x" by (simp add: in_region_def)
qed

lemma slots_disjoint:
  assumes "layout_ok arch psz num" and "i < num" and "j < num" and "i \<noteq> j"
    and "in_region (arch_entry_address arch p i) (arch_sizeof_entry arch) x"
  shows "\<not> in_region (arch_entry_address arch p j) (arch_sizeof_entry arch) x"
proof
  assume "in_region (arch_entry_address arch p j) (arch_sizeof_entry arch) x"
  note si = slot_in_page(2,3) [OF assms(1,2,5)] and sj = slot_in_page(2,3) [OF assms(1,3) this]
  have "Suc i * arch_sizeof_entry arch \<le> j * arch_sizeof_entry arch \<or>
      Suc j * arch_sizeof_entry arch \<le> i * arch_sizeof_entry arch"
    using assms(4) by (metis Suc_leI mult_le_mono1 nat_neq_iff)
  then show False using si sj by linarith
qed

end

section \<open>Preparing keeps the invariant\<close>

lemma find_page_Some:
  "find_page arch num addr disp pages = Some page \<Longrightarrow>
     page \<in> set pages \<and> used page < num \<and> arch_page_avail arch (page_addr page) (used page) addr disp"
  by (induction arch num addr disp pages rule: find_page.induct) (auto split: if_splits)

lemma keeps_mapped_read:
  assumes "keeps_mapped s s'" and "mapped s a n" and "n \<le> 2 ^ LENGTH('a)"
  shows "mem_read (mem s') (a :: 'a::len word) n = mem_read (mem s) a n"
  using assms by (intro mem_read_cong) (auto simp: keeps_mapped_def mapped_def)

lemma keeps_mapped_mapped: "keeps_mapped s s' \<Longrightarrow> mapped s a n \<Longrightarrow> mapped s' a n"
  by (auto simp: keeps_mapped_def mapped_def)

lemma layout_sizes:
  fixes psz :: "'a::len word"
  assumes "layout_ok arch psz num"
  shows "arch_sizeof_entry arch \<le> unat psz" and "0 < unat psz" and "arch_sizeof_entry arch \<le> 2 ^ LENGTH('a)"
proof -
  obtain k where "num = Suc k"
    using assms gr0_implies_Suc by (auto simp: layout_ok_def)
  then show le: "arch_sizeof_entry arch \<le> unat psz"
    using assms by (simp add: layout_ok_def)
  then show "0 < unat psz"
    using assms by (simp add: layout_ok_def)
  note le
  also have "unat psz < 2 ^ LENGTH('a)"
    by (rule unsigned_less)
  finally show "arch_sizeof_entry arch \<le> 2 ^ LENGTH('a)" by simp
qed

context code_generator
begin

lemma mapped_slot:
  assumes "layout_ok arch (page_size s) (num_entries_in_page s)" and "i < num_entries_in_page s"
    and "mapped s p (unat (page_size s))"
  shows "mapped s (arch_entry_address arch p i) (arch_sizeof_entry arch)"
  using slot_in_page(1) [OF assms(1,2)] assms(3) by (auto simp: mapped_def)

text \<open>An operation that only uses fresh memory keeps the invariant.\<close>

lemma handle_inv_keeps:
  assumes inv: "handle_inv arch s" and "same_handle s s'" and k: "keeps_mapped s s'"
  shows "handle_inv arch s'"
proof -
  have l: "layout_ok arch (page_size s) (num_entries_in_page s)"
    using inv by (simp add: handle_inv_def)
  have "page_ok arch s' page" if "page_ok arch s page" for page
  proof -
    have "mem_read (mem s') (arch_entry_address arch (page_addr page) i) (arch_sizeof_entry arch) =
        mem_read (mem s) (arch_entry_address arch (page_addr page) i) (arch_sizeof_entry arch)"
      if "i < used page" for i
      using that \<open>page_ok arch s page\<close>
      by (intro keeps_mapped_read [OF k] mapped_slot [OF l] layout_sizes(3) [OF l])
        (auto simp: page_ok_def)
    with that assms(2) show ?thesis
      by (auto simp: page_ok_def same_handle_def keeps_mapped_mapped [OF k])
  qed
  moreover have "entry_ok arch s' e" if "entry_ok arch s e" for e
    using that assms(2) l
    by (auto simp: entry_ok_def apart_def same_handle_def keeps_mapped_mapped [OF k]
        keeps_mapped_read [OF k] layout_ok_def)
  ultimately show ?thesis
    using assms(1,2) by (auto simp: handle_inv_def same_handle_def list_all_iff)
qed

lemma apart_keeps:
  assumes "apart arch s f" and "same_handle s s'" and "keeps_mapped s s'"
  shows "apart arch s' f"
  using assms by (auto simp: apart_def same_handle_def keeps_mapped_mapped)

end

locale handle_library =
  os_layer os os_ok + code_generator arch fits
  for os :: "('a::len word, 'd, 'ms, ('a word, 'p, 'i) fh_state) os_ops" and os_ok
    and arch :: "('a word, 'i, 'd) arch_ops" and fits
begin

text \<open>A new page joins the list.\<close>

lemma handle_inv_add_page:
  assumes inv: "handle_inv arch s" and "same_handle s s1" and k: "keeps_mapped s s1"
    and fresh: "\<And>x. in_region p (unat (page_size s)) x \<Longrightarrow> mprot s x = None \<and> mprot s1 x \<noteq> None"
  shows "handle_inv arch (s1\<lparr>page_list := \<lparr>page_addr = p, used = 0, entries = []\<rparr> # page_list s1\<rparr>)"
    and "apart arch s f \<Longrightarrow>
      apart arch (s1\<lparr>page_list := \<lparr>page_addr = p, used = 0, entries = []\<rparr> # page_list s1\<rparr>) f"
proof -
  let ?psz = "unat (page_size s)"
  let ?s2 = "s1\<lparr>page_list := \<lparr>page_addr = p, used = 0, entries = []\<rparr> # page_list s1\<rparr>"
  have l: "layout_ok arch (page_size s) (num_entries_in_page s)"
    using inv by (simp add: handle_inv_def)
  have psz: "0 < ?psz" "0 < window arch"
    using layout_sizes(2) [OF l] l by (simp_all add: layout_ok_def)
  have sh: "page_size s1 = page_size s" "page_list s1 = page_list s"
      "num_entries_in_page s1 = num_entries_in_page s"
    using assms(2) by (simp_all add: same_handle_def)
  have new: "disjoint_blocks a n p ?psz" if "mapped s a n" "0 < n" for a n
    using that fresh psz by (intro disjoint_blocksI) (auto simp: mapped_def)
  note inv1 = handle_inv_keeps [OF inv assms(2) k]
  have pages: "list_all (page_ok arch ?s2) (page_list s1)"
    using inv1 by (auto simp: handle_inv_def page_ok_def list_all_iff mapped_def)
  have page: "page_ok arch ?s2 \<lparr>page_addr = p, used = 0, entries = []\<rparr>"
    using fresh by (simp add: page_ok_def mapped_def sh)
  have entries: "entry_ok arch ?s2 e" if "entry_ok arch s1 e" "entry_ok arch s e" for e
    using that new psz by (auto simp: entry_ok_def apart_def mapped_def sh)
  have "list_all (entry_ok arch s) (entries_of (page_list s1))"
    using inv by (simp add: handle_inv_def sh)
  then have es: "list_all (entry_ok arch ?s2) (entries_of (page_list s1))"
    using inv1 entries by (auto simp: handle_inv_def list_all_iff)
  have "list_all (\<lambda>q. disjoint_blocks p ?psz (page_addr q) ?psz) (page_list s1)"
    using inv psz disjoint_blocks_sym [of p ?psz, THEN iffD2, OF new]
    by (auto simp: handle_inv_def list_all_iff page_ok_def sh)
  then show "handle_inv arch ?s2"
    using inv1 pages page es l by (auto simp: handle_inv_def sh list_all_iff)
  show "apart arch ?s2 f" if "apart arch s f"
    using that apart_keeps [OF that assms(2) k] new psz
    by (auto simp: apart_def mapped_def sh)
qed

text \<open>
  The invariant may hold of another memory \<open>m\<close> instead, which differs from the memory of the
  state where patches stand in it. An operation that keeps mapped memory carries \<open>m\<close> along.
\<close>

definition carried ::
    "('a word, 'p, 'i) fh_state \<Rightarrow> ('a word \<Rightarrow> u8) \<Rightarrow> ('a word, 'p, 'i) fh_state \<Rightarrow> 'a word \<Rightarrow> u8" where
  "carried s m s1 x = (if mprot s x = None then mem s1 x else m x)"

lemma handle_inv_mem: "handle_inv arch (s\<lparr>mem := mem s\<rparr>) = handle_inv arch s"
  by simp

lemma apart_mem [simp]: "apart arch (s\<lparr>mem := m\<rparr>) f = apart arch s f"
  by (simp add: apart_def mapped_def)

lemma carried_mapped: "keeps_mapped s s1 \<Longrightarrow> keeps_mapped (s\<lparr>mem := m\<rparr>) (s1\<lparr>mem := carried s m s1\<rparr>)"
  by (simp add: keeps_mapped_def carried_def)

lemma carried_own: "keeps_mapped s s1 \<Longrightarrow> m x = mem s x \<Longrightarrow> carried s m s1 x = mem s1 x"
  by (simp add: keeps_mapped_def carried_def)

lemma same_handle_mem: "same_handle (s\<lparr>mem := m\<rparr>) (s1\<lparr>mem := m1\<rparr>) = same_handle s s1"
  by (simp add: same_handle_def)

lemma get_page_carried:
  assumes ok: "os_ok s" and inv: "handle_inv arch (s\<lparr>mem := m\<rparr>)"
    and g: "get_page arch os f d s = (Inr page, s1)"
  shows "os_ok s1" and "handle_inv arch (s1\<lparr>mem := carried s m s1\<rparr>)" and "page \<in> set (page_list s1)"
    and "used page < num_entries_in_page s1"
    and "arch_page_avail arch (page_addr page) (used page) f d"
    and "keeps_mapped s s1" and "apart arch s f' \<Longrightarrow> apart arch s1 f'"
    and "entries_of (page_list s1) = entries_of (page_list s)"
    and "installed s1 = installed s" and "page_size s1 = page_size s"
    and "num_entries_in_page s1 = num_entries_in_page s"
    and "page \<in> set (page_list s) \<or>
      (\<forall>x. in_region (page_addr page) (unat (page_size s)) x \<longrightarrow> mprot s x = None)"
    and "page_addr ` set (page_list s1) \<subseteq> insert (page_addr page) (page_addr ` set (page_list s))"
proof -
  have "os_ok s1 \<and> handle_inv arch (s1\<lparr>mem := carried s m s1\<rparr>) \<and> page \<in> set (page_list s1) \<and>
    used page < num_entries_in_page s1 \<and> arch_page_avail arch (page_addr page) (used page) f d \<and>
    keeps_mapped s s1 \<and> (apart arch s f' \<longrightarrow> apart arch s1 f') \<and>
    entries_of (page_list s1) = entries_of (page_list s) \<and> installed s1 = installed s \<and>
    page_size s1 = page_size s \<and> num_entries_in_page s1 = num_entries_in_page s \<and>
    (page \<in> set (page_list s) \<or>
      (\<forall>x. in_region (page_addr page) (unat (page_size s)) x \<longrightarrow> mprot s x = None)) \<and>
    page_addr ` set (page_list s1) \<subseteq> insert (page_addr page) (page_addr ` set (page_list s))"
  proof (cases "find_page arch (num_entries_in_page s) f d (page_list s)")
    case (Some q)
    with g have "s1 = s" "page = q" by (auto simp: get_page_def)
    moreover have "keeps_mapped s s" by (simp add: keeps_mapped_def)
    moreover from this have "handle_inv arch (s\<lparr>mem := carried s m s\<rparr>)"
      using handle_inv_keeps [OF inv _ carried_mapped] by (simp add: same_handle_mem)
    ultimately show ?thesis using ok find_page_Some [OF Some] by auto
  next
    case None
    from g None obtain p s' where a: "os_page_alloc os f d s = (Inr p, s')"
      and w: "writable s' (arch_page_header arch p) (arch_sizeof_header arch)"
      and av: "arch_page_avail arch p 0 f d"
      and page: "page = \<lparr>page_addr = p, used = 0, entries = []\<rparr>"
      and s1: "s1 = s'\<lparr>page_list := page # page_list s'\<rparr>"
      by (auto simp: get_page_def then_ok_eq_Inr Let_def split: if_splits)
    have al: "same_handle s s'" "os_ok s'" "keeps_mapped s s'"
      using alloc [OF ok a] by auto
    have l: "layout_ok arch (page_size s) (num_entries_in_page s)"
      using inv by (simp add: handle_inv_def)
    have h: "in_region p (unat (page_size s)) (arch_page_header arch p)" "0 < arch_sizeof_header arch"
      using header [OF l] by simp_all
    let ?c = "carried s m s'"
    from h have "mprot s' (arch_page_header arch p) \<noteq> None"
      using w by (fastforce simp: writable_iff)
    note fresh = alloc_fresh [OF ok a h(1) this]
    have "same_handle (s\<lparr>mem := m\<rparr>) (s'\<lparr>mem := ?c\<rparr>)" using al(1) by (simp add: same_handle_mem)
    note add = handle_inv_add_page [OF inv this carried_mapped [OF al(3)], of p]
    have "carried s m s1 = ?c" by (simp add: fun_eq_iff carried_def s1)
    then have "handle_inv arch (s1\<lparr>mem := carried s m s1\<rparr>)"
      by (intro handle_inv_cong [OF add(1)]) (simp_all add: fresh s1 page same_mapping_def)
    moreover have "apart arch s f' \<longrightarrow> apart arch s1 f'"
      using add(2) [of f'] fresh by (simp add: s1 page apart_def mapped_def)
    moreover
    have "os_ok s1" using os_ok_cong [OF al(2)] by (simp add: s1)
    moreover have "keeps_mapped s s1" using al(3) by (simp add: keeps_mapped_def s1)
    moreover have "0 < num_entries_in_page s" using l by (simp add: layout_ok_def)
    ultimately show ?thesis
      using al(1) av fresh by (auto simp: s1 page same_handle_def)
  qed
  then show "os_ok s1" "handle_inv arch (s1\<lparr>mem := carried s m s1\<rparr>)" "page \<in> set (page_list s1)"
    "used page < num_entries_in_page s1" "arch_page_avail arch (page_addr page) (used page) f d"
    "keeps_mapped s s1" "apart arch s f' \<Longrightarrow> apart arch s1 f'"
    "entries_of (page_list s1) = entries_of (page_list s)" "installed s1 = installed s"
    "page_size s1 = page_size s" "num_entries_in_page s1 = num_entries_in_page s"
    "page \<in> set (page_list s) \<or>
      (\<forall>x. in_region (page_addr page) (unat (page_size s)) x \<longrightarrow> mprot s x = None)"
    "page_addr ` set (page_list s1) \<subseteq> insert (page_addr page) (page_addr ` set (page_list s))"
    by simp_all
qed

end

context handle_library
begin

lemma get_page_ok:
  assumes ok: "os_ok s" and inv: "handle_inv arch s"
    and g: "get_page arch os f d s = (Inr page, s1)"
  shows "os_ok s1" and "handle_inv arch s1" and "page \<in> set (page_list s1)"
    and "used page < num_entries_in_page s1"
    and "arch_page_avail arch (page_addr page) (used page) f d"
    and "keeps_mapped s s1" and "apart arch s f' \<Longrightarrow> apart arch s1 f'"
    and "entries_of (page_list s1) = entries_of (page_list s)"
    and "installed s1 = installed s" and "page_size s1 = page_size s"
    and "num_entries_in_page s1 = num_entries_in_page s"
    and "page \<in> set (page_list s) \<or>
      (\<forall>x. in_region (page_addr page) (unat (page_size s)) x \<longrightarrow> mprot s x = None)"
    and "page_addr ` set (page_list s1) \<subseteq> insert (page_addr page) (page_addr ` set (page_list s))"
proof -
  have "handle_inv arch (s\<lparr>mem := mem s\<rparr>)" using inv by simp
  note c = get_page_carried [OF ok this g]
  have "carried s (mem s) s1 = mem s1" using carried_own [OF c(6)] by (simp add: fun_eq_iff)
  with c show "os_ok s1" "handle_inv arch s1" "page \<in> set (page_list s1)"
    "used page < num_entries_in_page s1" "arch_page_avail arch (page_addr page) (used page) f d"
    "keeps_mapped s s1" "apart arch s f' \<Longrightarrow> apart arch s1 f'"
    "entries_of (page_list s1) = entries_of (page_list s)" "installed s1 = installed s"
    "page_size s1 = page_size s" "num_entries_in_page s1 = num_entries_in_page s"
    "page \<in> set (page_list s) \<or>
      (\<forall>x. in_region (page_addr page) (unat (page_size s)) x \<longrightarrow> mprot s x = None)"
    "page_addr ` set (page_list s1) \<subseteq> insert (page_addr page) (page_addr ` set (page_list s))"
    by simp_all
qed

end

section \<open>Adding an entry\<close>

lemma add_entry_addrs: "map page_addr (add_entry p e pages) = map page_addr pages"
  by (simp add: add_entry_def)

lemma in_add_entry:
  "q \<in> set (add_entry p e pages) \<Longrightarrow>
     \<exists>r \<in> set pages. q = (if page_addr r = p
       then r\<lparr>used := used r + 1, entries := take (used r) (entries r) @ [e]\<rparr> else r)"
  by (simp only: add_entry_def set_map image_iff)

lemma list_all_add_entry:
  "list_all (\<lambda>q. P (page_addr q)) (add_entry p e pages) \<longleftrightarrow> list_all (\<lambda>q. P (page_addr q)) pages"
  by (induction pages) (simp_all add: add_entry_def)

lemma entries_of_add_entry:
  "x \<in> set (entries_of (add_entry p e pages)) \<Longrightarrow> x = e \<or> x \<in> set (entries_of pages)"
proof -
  assume "x \<in> set (entries_of (add_entry p e pages))"
  then obtain q where q: "q \<in> set pages"
    and x: "if page_addr q = p then x \<in> set (take (used q + 1) (take (used q) (entries q) @ [e]))
            else x \<in> set (take (used q) (entries q))"
    by (auto simp: add_entry_def entries_of_def split: if_splits)
  then have "x = e \<or> x \<in> set (take (used q) (entries q))"
    by (cases "page_addr q = p") (auto dest!: in_set_takeD [of _ "used q + 1"])
  with q show ?thesis by (auto simp: entries_of_def)
qed

context handle_library
begin

lemma handle_inv_add_entry:
  assumes inv: "handle_inv arch s" and page: "page \<in> set (page_list s)"
    and room: "used page < num_entries_in_page s"
    and ea: "ea = arch_entry_address arch (page_addr page) (used page)"
    and len: "length (arch_entry_bytes arch e) = arch_sizeof_entry arch"
    and e: "entry_ok arch s e"
  shows "handle_inv arch (s\<lparr>mem := mem_write (mem s) ea (arch_entry_bytes arch e),
      page_list := add_entry (page_addr page) e (page_list s)\<rparr>)"
    and "\<And>x. \<not> in_region (page_addr page) (unat (page_size s)) x \<Longrightarrow>
      mem_write (mem s) ea (arch_entry_bytes arch e) x = mem s x"
proof -
  let ?bs = "arch_entry_bytes arch e" and ?psz = "unat (page_size s)"
  let ?m = "mem_write (mem s) ea ?bs"
  let ?s' = "s\<lparr>mem := ?m, page_list := add_entry (page_addr page) e (page_list s)\<rparr>"
  let ?disj = "\<lambda>p q. disjoint_blocks p ?psz q ?psz"
  have l: "layout_ok arch (page_size s) (num_entries_in_page s)" using inv by (simp add: handle_inv_def)
  note sz = layout_sizes [OF l]
  have pok: "page_ok arch s q" if "q \<in> set (page_list s)" for q
    using inv that by (simp add: handle_inv_def list_all_iff)
  have "in_region (page_addr page) ?psz x" if "in_region ea (arch_sizeof_entry arch) x" for x
    using slot_in_page(1) [OF l room] that ea by simp
  then show outside: "?m x = mem s x" if "\<not> in_region (page_addr page) ?psz x" for x
    using that len by (metis mem_write_other)
  have sorted: "sorted_wrt ?disj (map page_addr (page_list s))"
    using inv by (simp add: handle_inv_def sorted_wrt_map)
  have other: "q = page \<or> ?disj (page_addr q) (page_addr page)" if q: "q \<in> set (page_list s)" for q
  proof (cases "q = page")
    case False
    obtain i where i: "i < length (page_list s)" "page_list s ! i = q"
      using q by (auto simp: in_set_conv_nth)
    obtain j where j: "j < length (page_list s)" "page_list s ! j = page"
      using page by (auto simp: in_set_conv_nth)
    note ij = i j
    have "i \<noteq> j" using i j False by auto
    then consider "i < j" | "j < i" by linarith
    then show ?thesis
    proof cases
      case 1
      with sorted_wrt_nth_less [OF sorted 1] ij show ?thesis by simp
    next
      case 2
      with sorted_wrt_nth_less [OF sorted 2] ij
      have "?disj (page_addr page) (page_addr q)" by simp
      then show ?thesis by (simp only: disjoint_blocks_sym simp_thms)
    qed
  qed simp
  have ne: "page_addr q \<noteq> page_addr page" if "q \<in> set (page_list s)" "q \<noteq> page" for q
    using other [OF that(1)] that(2) sz(2) by (auto simp: disjoint_blocks_def)
  have win: "mem_read ?m f (window arch) = mem_read (mem s) f (window arch)" if "apart arch s f" for f
  proof (rule mem_read_cong)
    have "disjoint_blocks f (window arch) (page_addr page) ?psz"
      using that page by (simp add: apart_def list_all_iff)
    then show "?m x = mem s x" if "in_region f (window arch) x" for x
      using that disjoint_blocksD outside by blast
    show "window arch \<le> 2 ^ LENGTH('a)"
      using l by (simp add: layout_ok_def)
  qed
  have entries: "entry_ok arch ?s' x" if "entry_ok arch s x" for x
  proof -
    have "apart arch ?s' (target_func x)"
      using that
      by (simp add: entry_ok_def apart_def mapped_def list_all_add_entry
          [where P = "\<lambda>a. disjoint_blocks (target_func x) (window arch) a ?psz"])
    with that win show ?thesis by (simp add: entry_ok_def)
  qed
  have slots: "mem_read ?m (arch_entry_address arch (page_addr q) i) (arch_sizeof_entry arch) =
      mem_read (mem s) (arch_entry_address arch (page_addr q) i) (arch_sizeof_entry arch)"
    if q: "q \<in> set (page_list s)" and i: "i < num_entries_in_page s" and ni: "q = page \<Longrightarrow> i \<noteq> used page"
    for q i
  proof (rule mem_read_cong [OF _ sz(3)])
    fix x assume x: "in_region (arch_entry_address arch (page_addr q) i) (arch_sizeof_entry arch) x"
    show "?m x = mem s x"
    proof (cases "q = page")
      case True
      then have "\<not> in_region ea (length ?bs) x"
        using slots_disjoint [OF l i room ni [OF True]] x ea len by simp
      then show ?thesis by (rule mem_write_other)
    next
      case False
      then show ?thesis
        using other [OF q] disjoint_blocksD slot_in_page(1) [OF l i x] by (intro outside) blast
    qed
  qed
  have pages: "page_ok arch ?s' (if page_addr q = page_addr page
      then q\<lparr>used := used q + 1, entries := take (used q) (entries q) @ [e]\<rparr> else q)"
    if q: "q \<in> set (page_list s)" for q
  proof (cases "q = page")
    case False
    then have addr: "page_addr q \<noteq> page_addr page" by (rule ne [OF q])
    have "mem_read ?m (arch_entry_address arch (page_addr q) i) (arch_sizeof_entry arch) =
        arch_entry_bytes arch (entries q ! i)" if "i < used q" for i
      using slots [OF q, of i] pok [OF q] that False by (simp add: page_ok_def)
    then show ?thesis
      using pok [OF q] addr by (simp add: page_ok_def mapped_def)
  next
    case True
    have "mem_read ?m ea (arch_sizeof_entry arch) = ?bs"
      using mem_read_write_same [of ?bs "mem s" ea] sz(3) len by simp
    moreover have "used page = length (entries page)"
      using pok [OF page] by (simp add: page_ok_def)
    moreover have "mem_read ?m (arch_entry_address arch (page_addr page) i) (arch_sizeof_entry arch) =
        arch_entry_bytes arch (entries page ! i)" if "i < used page" for i
      using slots [OF page, of i] pok [OF page] that by (simp add: page_ok_def)
    ultimately show ?thesis
      using pok [OF page] True room ea
      by (simp add: page_ok_def mapped_def nth_append less_Suc_eq)
  qed
  have "page_ok arch ?s' q" if "q \<in> set (add_entry (page_addr page) e (page_list s))" for q
    using in_add_entry [OF that]
    by (elim bexE) (erule ssubst, rule pages)
  then have "list_all (page_ok arch ?s') (add_entry (page_addr page) e (page_list s))"
    unfolding list_all_iff by (rule ballI)
  moreover have "sorted_wrt ?disj (map page_addr (add_entry (page_addr page) e (page_list s)))"
    using sorted by (simp only: add_entry_addrs)
  then have "sorted_wrt (\<lambda>p q. ?disj (page_addr p) (page_addr q))
      (add_entry (page_addr page) e (page_list s))"
    by (simp only: sorted_wrt_map)
  moreover have "entry_ok arch ?s' x"
    if "x \<in> set (entries_of (add_entry (page_addr page) e (page_list s)))" for x
    using entries_of_add_entry [OF that] entries [OF e] entries inv
    by (auto simp: handle_inv_def list_all_iff)
  then have "list_all (entry_ok arch ?s') (entries_of (add_entry (page_addr page) e (page_list s)))"
    unfolding list_all_iff by (rule ballI)
  ultimately show "handle_inv arch ?s'"
    using l by (simp add: handle_inv_def)
qed

end

section \<open>Preparing a hook\<close>

text \<open>What a successful \<open>funchook_prepare\<close> has put together.\<close>

definition prepared ::
    "('a::len word, 'i, 'd) arch_ops \<Rightarrow> 'a word \<Rightarrow> 'a word \<Rightarrow> 'a word funchook_params \<Rightarrow>
      ('a word, 'p, 'i) fh_state \<Rightarrow> 'a word \<Rightarrow> ('a word, 'p, 'i) fh_state \<Rightarrow>
      'a word \<Rightarrow> nat \<Rightarrow> ('a word, 'i) funchook_entry \<Rightarrow> 'd \<times> 'i list \<times> nat \<Rightarrow> bool" where
  "prepared arch target func params s t s' p i e r \<longleftrightarrow>
     (case r of (d, tramp, n) \<Rightarrow>
        arch_make_trampoline arch (mem s) func = Inr (d, tramp, n) \<and>
        arch_page_avail arch p i func d \<and>
        (\<exists>m. arch_fix_code arch (arch_entry_address arch p i) (new_entry arch m target func params tramp) d = Some e) \<and>
        mem_read (mem s') (arch_entry_address arch p i) (arch_sizeof_entry arch) = arch_entry_bytes arch e \<and>
        e \<in> set (entries_of (page_list s')) \<and>
        set (entries_of (page_list s')) \<subseteq> insert e (set (entries_of (page_list s))) \<and>
        p \<in> page_addr ` set (page_list s') \<and> i < num_entries_in_page s' \<and>
        target_func e = func \<and>
        t = arch_entry_address arch p i + of_nat (arch_offsetof_trampoline arch))"

lemma entries_of_add_entry_old:
  assumes "list_all (\<lambda>page. used page = length (entries page)) pages"
  shows "set (entries_of pages) \<subseteq> set (entries_of (add_entry p e pages))"
  using assms by (induction pages) (auto simp: add_entry_def)

lemma entries_of_add_entry_new:
  assumes "page \<in> set pages" and "used page = length (entries page)"
  shows "e \<in> set (entries_of (add_entry (page_addr page) e pages))"
  using assms by (force simp: entries_of_def add_entry_def)

context handle_library
begin

lemma prepare_carried:
  assumes ok: "os_ok s" and inv: "handle_inv arch (s\<lparr>mem := m\<rparr>)"
    and func: "func = os_resolve_func os target s" and ap: "apart arch s func"
    and fit: "\<And>r. arch_make_trampoline arch (mem s) func = Inr r \<Longrightarrow> fits func r"
    and own: "\<And>x. in_region func (window arch) x \<Longrightarrow> m x = mem s x"
    and p: "funchook_prepare_internal arch os target params s = (Inr t, s')"
  shows "\<exists>m'. handle_inv arch (s'\<lparr>mem := m'\<rparr>) \<and> (\<forall>x. m x = mem s x \<longrightarrow> m' x = mem s' x) \<and>
      (\<forall>x. mprot s x \<noteq> None \<longrightarrow>
        list_all (\<lambda>page. \<not> in_region (page_addr page) (unat (page_size s)) x) (page_list s) \<longrightarrow> m' x = m x)"
    and "os_ok s'" and "\<not> installed s" and "\<not> installed s'"
    and "mprot s x \<noteq> None \<Longrightarrow>
      list_all (\<lambda>page. \<not> in_region (page_addr page) (unat (page_size s)) x) (page_list s) \<Longrightarrow>
      mem s' x = mem s x"
    and "page_size s' = page_size s" and "num_entries_in_page s' = num_entries_in_page s"
    and "\<exists>pa i e r. prepared arch target func params s t s' pa i e r"
    and "apart arch s f' \<Longrightarrow> apart arch s' f'"
    and "mprot s y \<noteq> None \<Longrightarrow> mprot s' y \<noteq> None"
    and "page \<in> set (page_list s') \<Longrightarrow> page_addr page \<in> page_addr ` set (page_list s) \<or>
      (\<forall>x. in_region (page_addr page) (unat (page_size s)) x \<longrightarrow> mprot s x = None)"
    and "set (entries_of (page_list s)) \<subseteq> set (entries_of (page_list s'))"
proof -
  obtain d tramp n page s1 e where ni: "\<not> installed s"
    and mt: "arch_make_trampoline arch (mem s) func = Inr (d, tramp, n)"
    and g: "get_page arch os func d s = (Inr page, s1)"
    and fc: "arch_fix_code arch (arch_entry_address arch (page_addr page) (used page))
      (new_entry arch (mem s1) target func params tramp) d = Some e"
    and t: "t = arch_entry_address arch (page_addr page) (used page) + of_nat (arch_offsetof_trampoline arch)"
    and s': "s' = s1\<lparr>mem := mem_write (mem s1) (arch_entry_address arch (page_addr page) (used page))
          (arch_entry_bytes arch e),
        page_list := add_entry (page_addr page) e (page_list s1)\<rparr>"
    using p by (auto simp: funchook_prepare_internal_def Let_def func then_ok_eq_Inr
        split: if_splits sum.splits option.splits)
  note gp = get_page_carried [OF ok inv g]
  let ?c = "carried s m s1" and ?t = "s1\<lparr>mem := carried s m s1\<rparr>"
  note ft = fit [OF mt]
  have "length (new_code (new_entry arch (mem s1) target func params tramp)) = arch_max_patch_code_size arch"
    by (simp add: new_entry_def)
  note keep = fix_code_keeps [OF fc this] and fits = fix_code_fits [OF ft fc]
  let ?psz = "unat (page_size s)"
  have ap1: "apart arch s1 func" by (rule gp(7) [OF ap])
  have "arch_insns_bytes arch (old_code e) = mem_read (mem s1) func (window arch)"
    using keep bytes_insns [of "mem_read (mem s1) func (window arch)" "arch_max_patch_code_size arch"]
    by (simp add: new_entry_def window_def)
  moreover have "window arch \<le> 2 ^ LENGTH('a)"
    using inv by (simp add: handle_inv_def layout_ok_def)
  then have "mem_read (mem s1) func (window arch) = mem_read ?c func (window arch)"
    using carried_own [OF gp(6)] own by (intro mem_read_cong) simp_all
  moreover have "patch_code_byte_size arch e \<le> window arch"
    using fits by (simp add: patch_code_byte_size_def window_def)
  ultimately have eok: "entry_ok arch ?t e"
    using ap1 keep by (simp add: entry_ok_def insns_bytes_length window_def new_entry_def)
  have in_t: "page \<in> set (page_list ?t)" "used page < num_entries_in_page ?t"
    using gp(3,4) by simp_all
  note add = handle_inv_add_entry [OF gp(2) in_t refl conjunct2 [OF fits] eok]
  let ?ea = "arch_entry_address arch (page_addr page) (used page)" and ?bs = "arch_entry_bytes arch e"
  have l: "layout_ok arch (page_size s1) (num_entries_in_page s1)"
    using gp(2) by (simp add: handle_inv_def)
  have off: "\<not> in_region ?ea (length ?bs) x" if "mprot s x \<noteq> None"
      "list_all (\<lambda>page. \<not> in_region (page_addr page) (unat (page_size s)) x) (page_list s)" for x
    using slot_in_page(1) [OF l gp(4) [folded gp(11)], of "page_addr page" x] gp(10,12) that fits
    by (auto simp: list_all_iff)
  let ?m' = "mem_write ?c ?ea ?bs"
  have "handle_inv arch (s'\<lparr>mem := ?m'\<rparr>)"
    by (rule handle_inv_cong [OF add(1)]) (simp_all add: s' same_mapping_def)
  moreover have "?m' x = mem s' x" if "m x = mem s x" for x
    using carried_own [OF gp(6), of m x] that by (simp add: s' mem_write_def)
  moreover have "?m' x = m x" if "mprot s x \<noteq> None"
      "list_all (\<lambda>page. \<not> in_region (page_addr page) (unat (page_size s)) x) (page_list s)" for x
    using that by (auto simp: mem_write_other [OF off [OF that]] carried_def)
  ultimately show "\<exists>m'. handle_inv arch (s'\<lparr>mem := m'\<rparr>) \<and> (\<forall>x. m x = mem s x \<longrightarrow> m' x = mem s' x) \<and>
      (\<forall>x. mprot s x \<noteq> None \<longrightarrow>
        list_all (\<lambda>page. \<not> in_region (page_addr page) (unat (page_size s)) x) (page_list s) \<longrightarrow> m' x = m x)"
    by blast
  show "os_ok s'" using os_ok_cong [OF gp(1)] by (simp add: s')
  show "\<not> installed s" "\<not> installed s'" "page_size s' = page_size s"
    "num_entries_in_page s' = num_entries_in_page s"
    using ni gp(9,10,11) by (simp_all add: s')
  show "apart arch s' f'" if "apart arch s f'"
    using gp(7) [OF that]
    by (simp add: apart_def mapped_def s' list_all_add_entry
        [where P = "\<lambda>a. disjoint_blocks f' (window arch) a (unat (page_size s1))"])
  have pl: "page_list s' = add_entry (page_addr page) e (page_list s1)"
    by (simp add: s')
  show "mprot s' y \<noteq> None" if "mprot s y \<noteq> None"
    using gp(6) that by (simp add: s' keeps_mapped_def)
  show "page_addr q \<in> page_addr ` set (page_list s) \<or>
      (\<forall>x. in_region (page_addr q) (unat (page_size s)) x \<longrightarrow> mprot s x = None)"
    if "q \<in> set (page_list s')" for q
  proof -
    have "page_addr q \<in> set (map page_addr (page_list s1))"
      using that add_entry_addrs [of "page_addr page" e "page_list s1"]
      by (metis image_eqI list.set_map pl)
    then have "page_addr q = page_addr page \<or> page_addr q \<in> page_addr ` set (page_list s)"
      using gp(13) by auto
    then show ?thesis
      using gp(12) by auto
  qed
  have used: "list_all (\<lambda>page. used page = length (entries page)) (page_list s1)"
    using gp(2) by (auto simp: handle_inv_def list_all_iff page_ok_def)
  then show "set (entries_of (page_list s)) \<subseteq> set (entries_of (page_list s'))"
    using entries_of_add_entry_old [of "page_list s1" "page_addr page" e] gp(8) by (simp add: pl)
  have "e \<in> set (entries_of (page_list s'))"
    using entries_of_add_entry_new [OF gp(3), of e] used gp(3) by (simp add: s' list_all_iff)
  moreover have "mem_read (mem s') (arch_entry_address arch (page_addr page) (used page))
      (arch_sizeof_entry arch) = arch_entry_bytes arch e"
    using mem_read_write_same [of "arch_entry_bytes arch e" "mem s1"] conjunct2 [OF fits]
      layout_sizes(3) [of arch "page_size s" "num_entries_in_page s"] inv
    by (simp add: s' handle_inv_def)
  moreover have "page_addr page \<in> page_addr ` set (page_list s')"
    using gp(3) add_entry_addrs [of "page_addr page" e "page_list s1"]
    by (metis image_eqI list.set_map pl)
  moreover have "set (entries_of (page_list s')) \<subseteq> insert e (set (entries_of (page_list s)))"
    using entries_of_add_entry [of _ "page_addr page" e "page_list s1"] gp(8) by (auto simp: s')
  moreover have "used page < num_entries_in_page s'"
    using gp(4) by (simp add: s')
  moreover have "target_func e = func"
    using keep by (simp add: new_entry_def)
  ultimately have "prepared arch target func params s t s' (page_addr page) (used page) e (d, tramp, n)"
    using mt gp(5) fc t by (auto simp: prepared_def)
  then show "\<exists>pa i e r. prepared arch target func params s t s' pa i e r" by blast
  show "mem s' x = mem s x" if mp: "mprot s x \<noteq> None"
    and out: "list_all (\<lambda>page. \<not> in_region (page_addr page) ?psz x) (page_list s)"
    using mem_write_other [OF off [OF mp out]] gp(6) mp by (simp add: s' keeps_mapped_def)
qed

lemma prepare_ok:
  assumes ok: "os_ok s" and inv: "handle_inv arch s"
    and func: "func = os_resolve_func os target s" and ap: "apart arch s func"
    and fit: "\<And>r. arch_make_trampoline arch (mem s) func = Inr r \<Longrightarrow> fits func r"
    and p: "funchook_prepare_internal arch os target params s = (Inr t, s')"
  shows "handle_inv arch s'" and "os_ok s'" and "\<not> installed s" and "\<not> installed s'"
    and "mprot s x \<noteq> None \<Longrightarrow>
      list_all (\<lambda>page. \<not> in_region (page_addr page) (unat (page_size s)) x) (page_list s) \<Longrightarrow>
      mem s' x = mem s x"
    and "page_size s' = page_size s" and "num_entries_in_page s' = num_entries_in_page s"
    and "\<exists>pa i e r. prepared arch target func params s t s' pa i e r"
    and "apart arch s f' \<Longrightarrow> apart arch s' f'"
    and "mprot s y \<noteq> None \<Longrightarrow> mprot s' y \<noteq> None"
    and "page \<in> set (page_list s') \<Longrightarrow> page_addr page \<in> page_addr ` set (page_list s) \<or>
      (\<forall>x. in_region (page_addr page) (unat (page_size s)) x \<longrightarrow> mprot s x = None)"
proof -
  have "handle_inv arch (s\<lparr>mem := mem s\<rparr>)" using inv by simp
  note c = prepare_carried [OF ok this func ap fit _ p]
  obtain m' where "handle_inv arch (s'\<lparr>mem := m'\<rparr>)" "\<forall>x. m' x = mem s' x"
    using c(1) by auto
  moreover from this have "m' = mem s'" by (simp add: fun_eq_iff)
  ultimately show "handle_inv arch s'" by simp
  show "os_ok s'" "\<not> installed s" "\<not> installed s'"
    "page_size s' = page_size s" "num_entries_in_page s' = num_entries_in_page s"
    "\<exists>pa i e r. prepared arch target func params s t s' pa i e r"
    using c(2-4,6-8) by simp_all
  show "mem s' x = mem s x" if "mprot s x \<noteq> None"
      "list_all (\<lambda>page. \<not> in_region (page_addr page) (unat (page_size s)) x) (page_list s)"
    using c(5) that by simp
  show "apart arch s' f'" if "apart arch s f'" using c(9) that by simp
  show "mprot s' y \<noteq> None" if "mprot s y \<noteq> None" using c(10) that by simp
  show "page_addr page \<in> page_addr ` set (page_list s) \<or>
      (\<forall>x. in_region (page_addr page) (unat (page_size s)) x \<longrightarrow> mprot s x = None)"
    if "page \<in> set (page_list s')"
    using c(11) that by simp
qed

end

section \<open>When preparing fails\<close>

lemma funchook_set_error_message_same:
  "same_handle s (funchook_set_error_message m s)" "keeps_mapped s (funchook_set_error_message m s)"
  by (simp_all add: same_handle_def keeps_mapped_def funchook_set_error_message_def)

context handle_library
begin

lemma os_ok_error_message: "os_ok s \<Longrightarrow> os_ok (funchook_set_error_message m s)"
  by (rule os_ok_cong) simp_all

lemma get_page_error:
  assumes ok: "os_ok s" and l: "layout_ok arch (page_size s) (num_entries_in_page s)"
    and g: "get_page arch os f d s = (Inl (Err c), s')"
  shows "os_ok s' \<and> same_handle s s' \<and> keeps_mapped s s'"
proof -
  have n: "find_page arch (num_entries_in_page s) f d (page_list s) = None"
    using g by (auto simp: get_page_def split: option.splits)
  let ?msg = "''Could not allocate memory near address '' @ fmt_p f"
  from g n consider (a) "os_page_alloc os f d s = (Inl (Err c), s')"
    | (b) p s1 where "os_page_alloc os f d s = (Inr p, s1)"
        "writable s1 (arch_page_header arch p) (arch_sizeof_header arch)"
        "s' = snd (os_page_free os p (funchook_set_error_message ?msg s1))"
    by (auto simp: get_page_def then_ok_eq_Inl Let_def split: if_splits)
  then show ?thesis
  proof cases
    case a
    then show ?thesis using alloc [OF ok a] by simp
  next
    case b
    note al = alloc [OF ok b(1)]
    have h: "in_region p (unat (page_size s)) (arch_page_header arch p)" "0 < arch_sizeof_header arch"
      using header [OF l] by simp_all
    then have "mprot s1 (arch_page_header arch p) \<noteq> None"
      using b(2) by (fastforce simp: writable_iff)
    note fresh = alloc_fresh [OF ok b(1) h(1) this]
    let ?t = "funchook_set_error_message ?msg s1"
    obtain r where r: "os_page_free os p ?t = (r, s')"
      using b(3) by (cases "os_page_free os p ?t") simp
    note fr = give_back [OF ok b(1) r]
    have "mprot s' x = mprot s x" "mem s' x = mem s x" if "mprot s x \<noteq> None" for x
    proof -
      have "\<not> in_region p (unat (page_size s)) x" using fresh [of x] that by auto
      with fr have "mprot s' x = mprot s1 x" "mem s' x = mem s1 x" by simp_all
      then show "mprot s' x = mprot s x" "mem s' x = mem s x"
        using al that by (simp_all add: keeps_mapped_def)
    qed
    with fr al show ?thesis by (auto simp: keeps_mapped_def same_handle_def)
  qed
qed

text \<open>
  A call that returns an error code leaves the handle, the memory the program uses and its
  protection as they were.
\<close>

lemma prepare_error_keeps_mapped:
  assumes ok: "os_ok s" and l: "layout_ok arch (page_size s) (num_entries_in_page s)"
    and p: "funchook_prepare_internal arch os target params s = (Inl (Err c), s')"
  shows "os_ok s'" and "same_handle s s'" and "keeps_mapped s s'"
proof -
  have "os_ok s' \<and> same_handle s s' \<and> keeps_mapped s s'"
  proof (cases "\<exists>m. s' = funchook_set_error_message m s")
    case True
    then show ?thesis using os_ok_error_message [OF ok] funchook_set_error_message_same by blast
  next
    case False
    with p obtain f d where "get_page arch os f d s = (Inl (Err c), s')"
      by (auto simp: funchook_prepare_internal_def Let_def then_ok_eq_Inl
          split: if_splits sum.splits option.splits)
    then show ?thesis by (rule get_page_error [OF ok l])
  qed
  then show "os_ok s'" "same_handle s s'" "keeps_mapped s s'" by simp_all
qed

lemma prepare_error:
  assumes ok: "os_ok s" and inv: "handle_inv arch s"
    and p: "funchook_prepare_internal arch os target params s = (Inl (Err c), s')"
  shows "os_ok s'" and "same_handle s s'" and "keeps_mapped s s'" and "handle_inv arch s'"
proof -
  have "layout_ok arch (page_size s) (num_entries_in_page s)"
    using inv by (simp add: handle_inv_def)
  from prepare_error_keeps_mapped [OF ok this p]
  show "os_ok s'" "same_handle s s'" "keeps_mapped s s'" by simp_all
  then show "handle_inv arch s'" using handle_inv_keeps [OF inv] by blast
qed

end

section \<open>Sequences of calls\<close>

text \<open>
  Memory as it would be with every patch taken back, and the invariant of a handle that may
  be installed.
\<close>

definition unpatched_mem ::
    "('a::len word, 'i, 'd) arch_ops \<Rightarrow> ('a word, 'p, 'i) fh_state \<Rightarrow> 'a word \<Rightarrow> u8" where
  "unpatched_mem arch s =
     (if installed s then patched arch old_code (entries_of (page_list s)) (mem s) else mem s)"

lemma unpatched_outside:
  "\<not> installed s \<or> \<not> in_patch arch (entries_of (page_list s)) x \<Longrightarrow> unpatched_mem arch s x = mem s x"
  by (auto simp: unpatched_mem_def patched_outside)

definition library_inv ::
    "('a::len word, 'i, 'd) arch_ops \<Rightarrow> ('a word, 'p, 'i) fh_state \<Rightarrow> bool" where
  "library_inv arch s \<longleftrightarrow> handle_inv arch (s\<lparr>mem := unpatched_mem arch s\<rparr>) \<and>
     (installed s \<longrightarrow>
        mem s = patched arch new_code (entries_of (page_list s)) (unpatched_mem arch s))"

text \<open>
  The states a program can bring a handle to with calls that return 0 and with calls of
  \<open>funchook_prepare\<close> that return an error code. Functions to be hooked are mapped, apart from
  the pages of the handle, and have a complete trampoline.
\<close>

inductive reachable ::
    "('a::len word, 'i, 'd) arch_ops \<Rightarrow> ('a word, 'd, 'ms, ('a word, 'p, 'i) fh_state) os_ops \<Rightarrow>
      ('a word \<Rightarrow> 'd \<times> 'i list \<times> nat \<Rightarrow> bool) \<Rightarrow> ('a word, 'p, 'i) fh_state \<Rightarrow>
      ('a word, 'p, 'i) fh_state \<Rightarrow> bool"
  for arch os fits s0 where
  start: "reachable arch os fits s0 s0"
| prepare: "reachable arch os fits s0 s \<Longrightarrow> apart arch s (os_resolve_func os target s) \<Longrightarrow>
    (\<And>r. arch_make_trampoline arch (mem s) (os_resolve_func os target s) = Inr r \<Longrightarrow>
        fits (os_resolve_func os target s) r) \<Longrightarrow>
    funchook_prepare_internal arch os target params s = (Inr t, s') \<Longrightarrow>
    reachable arch os fits s0 s'"
| install: "reachable arch os fits s0 s \<Longrightarrow> funchook_install_internal arch os s = (Inr u, s') \<Longrightarrow>
    reachable arch os fits s0 s'"
| uninstall: "reachable arch os fits s0 s \<Longrightarrow> funchook_uninstall_internal arch os s = (Inr u, s') \<Longrightarrow>
    reachable arch os fits s0 s'"
| refused: "reachable arch os fits s0 s \<Longrightarrow> installed s \<Longrightarrow>
    funchook_prepare_internal arch os target params s = (r, s') \<Longrightarrow> reachable arch os fits s0 s'"
| failed: "reachable arch os fits s0 s \<Longrightarrow> \<not> installed s \<Longrightarrow>
    funchook_prepare_internal arch os target params s = (Inl (Err c), s') \<Longrightarrow> reachable arch os fits s0 s'"

text \<open>A handle as \<open>funchook_create\<close> leaves it.\<close>

definition fresh_handle :: "('a::len word, 'i, 'd) arch_ops \<Rightarrow> ('a word, 'p, 'i) fh_state \<Rightarrow> bool" where
  "fresh_handle arch s \<longleftrightarrow> \<not> installed s \<and> page_list s = [] \<and>
     layout_ok arch (page_size s) (num_entries_in_page s)"

lemma fresh_handle_inv: "fresh_handle arch s \<Longrightarrow> library_inv arch s"
  by (simp add: fresh_handle_def library_inv_def handle_inv_def)

text \<open>The pages of a handle lie where nothing was mapped at the start.\<close>

definition pages_new :: "('a::len word, 'p, 'i) fh_state \<Rightarrow> ('a word, 'p, 'i) fh_state \<Rightarrow> bool" where
  "pages_new s0 s \<longleftrightarrow> list_all (\<lambda>page. \<forall>x. in_region (page_addr page) (unat (page_size s)) x \<longrightarrow>
     mprot s0 x = None) (page_list s)"

lemma unpatched_installed:
  assumes "library_inv arch s" and "installed s"
  shows "patched arch old_code (entries_of (page_list s)) (mem s) = unpatched_mem arch s"
  using assms(2) by (simp add: unpatched_mem_def)

context handle_library
begin

lemma library_inv_install:
  assumes "os_ok s" and "library_inv arch s" and "funchook_install_internal arch os s = (Inr u, s')"
  shows "library_inv arch s'" and "unpatched_mem arch s' = unpatched_mem arch s"
proof -
  note i = install_ok [OF assms(1,3)]
  have um: "unpatched_mem arch s = mem s"
    using i(1) by (simp add: unpatched_mem_def)
  then have inv: "handle_inv arch s"
    using assms(2) by (simp add: library_inv_def)
  have um': "unpatched_mem arch s' = mem s"
    using patched_restored [OF handle_inv_saved [OF inv]] i(2,3,4)
    by (simp add: unpatched_mem_def)
  then show "unpatched_mem arch s' = unpatched_mem arch s" by (simp add: um)
  have "handle_inv arch (s'\<lparr>mem := mem s\<rparr>)"
    by (rule handle_inv_cong [OF inv]) (simp_all add: i(3,7,8), use i(6) in \<open>simp add: same_mapping_def\<close>)
  then show "library_inv arch s'"
    using i(3,4) by (simp add: library_inv_def um')
qed

lemma library_inv_uninstall:
  assumes "os_ok s" and "library_inv arch s" and "funchook_uninstall_internal arch os s = (Inr u, s')"
  shows "library_inv arch s'" and "unpatched_mem arch s' = unpatched_mem arch s"
    and "mem s' = unpatched_mem arch s"
proof -
  note i = uninstall_ok [OF assms(1,3)]
  show m: "mem s' = unpatched_mem arch s"
    using i(1,4) by (simp add: unpatched_mem_def)
  then show um: "unpatched_mem arch s' = unpatched_mem arch s"
    using i(2) by (simp add: unpatched_mem_def)
  have inv: "handle_inv arch (s\<lparr>mem := unpatched_mem arch s\<rparr>)"
    using assms(2) by (simp add: library_inv_def)
  have "handle_inv arch (s'\<lparr>mem := unpatched_mem arch s\<rparr>)"
    by (rule handle_inv_cong [OF inv]) (simp_all add: i(3,7,8), use i(6) in \<open>simp add: same_mapping_def\<close>)
  then show "library_inv arch s'"
    using i(2) by (simp add: library_inv_def um)
qed

text \<open>Every reachable state satisfies the invariant, and no original byte is lost.\<close>

lemma reachable_inv:
  assumes "reachable arch os fits s0 s" and "fresh_handle arch s0" and "os_ok s0"
  shows "library_inv arch s \<and> os_ok s \<and> page_size s = page_size s0 \<and> pages_new s0 s \<and>
    (\<forall>x. mprot s0 x \<noteq> None \<longrightarrow> mprot s x \<noteq> None \<and> unpatched_mem arch s x = mem s0 x)"
  using assms
proof (induction rule: reachable.induct)
  case start
  then show ?case
    by (simp add: fresh_handle_inv pages_new_def, simp add: unpatched_mem_def fresh_handle_def)
next
  case (install s u s')
  then have inv: "library_inv arch s" "os_ok s" by simp_all
  note i = install_ok [OF inv(2) install.hyps(2)] and l = library_inv_install [OF inv(2,1) install.hyps(2)]
  show ?case
    using install.IH [OF install.prems] i(3,5,6,7) l
    by (auto simp: pages_new_def same_mapping_def)
next
  case (uninstall s u s')
  then have inv: "library_inv arch s" "os_ok s" by simp_all
  note i = uninstall_ok [OF inv(2) uninstall.hyps(2)]
    and l = library_inv_uninstall [OF inv(2,1) uninstall.hyps(2)]
  show ?case
    using uninstall.IH [OF uninstall.prems] i(3,5,6,7) l
    by (auto simp: pages_new_def same_mapping_def)
next
  case (refused s target params r s')
  have s': "s' = funchook_set_error_message ''Could not modify already-installed funchook handle.'' s"
    using refused.hyps(2,3) by (simp add: funchook_prepare_internal_def)
  have f: "installed s' = installed s" "page_list s' = page_list s" "mem s' = mem s"
      "num_entries_in_page s' = num_entries_in_page s" "page_size s' = page_size s" "mprot s' = mprot s"
      "os_data s' = os_data s"
    by (simp_all add: s' funchook_set_error_message_def)
  then have um: "unpatched_mem arch s' = unpatched_mem arch s"
    by (simp add: unpatched_mem_def)
  have inv: "library_inv arch s" "os_ok s"
    using refused.IH [OF refused.prems] by simp_all
  have hi: "handle_inv arch (s\<lparr>mem := unpatched_mem arch s\<rparr>)"
    using inv(1) by (simp add: library_inv_def)
  have "handle_inv arch (s'\<lparr>mem := unpatched_mem arch s\<rparr>)"
    by (rule handle_inv_cong [OF hi]) (simp_all add: f same_mapping_def)
  then have "library_inv arch s'"
    using inv(1) f by (simp add: library_inv_def um)
  moreover have "os_ok s'"
    by (rule os_ok_cong [OF inv(2)]) (simp_all add: f)
  moreover have "pages_new s0 s' = pages_new s0 s"
    by (simp add: pages_new_def f)
  ultimately show ?case
    using refused.IH [OF refused.prems] by (simp add: f um)
next
  case (failed s target params c s')
  have inv: "library_inv arch s" "os_ok s"
    using failed.IH [OF failed.prems] by simp_all
  then have h: "handle_inv arch s" and um: "unpatched_mem arch s = mem s"
    using failed.hyps(2) by (simp_all add: library_inv_def unpatched_mem_def)
  note e = prepare_error [OF inv(2) h failed.hyps(3)]
  have ni: "\<not> installed s'" using e(2) failed.hyps(2) by (simp add: same_handle_def)
  then have um': "unpatched_mem arch s' = mem s'" by (simp add: unpatched_mem_def)
  then have "library_inv arch s'" using e(4) ni by (simp add: library_inv_def)
  moreover have "pages_new s0 s' = pages_new s0 s" "page_size s' = page_size s"
    using e(2) by (simp_all add: pages_new_def same_handle_def)
  moreover have "mprot s' x \<noteq> None \<and> mem s' x = mem s x" if "mprot s x \<noteq> None" for x
    using e(3) that by (simp add: keeps_mapped_def)
  ultimately show ?case
    using failed.IH [OF failed.prems] e(1) um um' by simp
next
  case (prepare s target params t s')
  have ih: "library_inv arch s" "os_ok s" "page_size s = page_size s0" "pages_new s0 s"
      "mprot s0 x \<noteq> None \<Longrightarrow> mprot s x \<noteq> None \<and> unpatched_mem arch s x = mem s0 x" for x
    using prepare.IH [OF prepare.prems] by simp_all
  have ni: "\<not> installed s"
    using prepare.hyps(4) by (auto simp: funchook_prepare_internal_def)
  then have inv: "handle_inv arch s" and um: "unpatched_mem arch s = mem s"
    using ih(1) by (simp_all add: library_inv_def unpatched_mem_def)
  note p = prepare_ok [OF ih(2) inv refl prepare.hyps(2,3,4)]
  have um': "unpatched_mem arch s' = mem s'"
    using p(4) by (simp add: unpatched_mem_def)
  have "library_inv arch s'"
    using p(1,4) by (simp add: library_inv_def um')
  moreover have "mprot s' x \<noteq> None \<and> mem s' x = mem s0 x" if "mprot s0 x \<noteq> None" for x
  proof
    have "list_all (\<lambda>page. \<not> in_region (page_addr page) (unat (page_size s)) x) (page_list s)"
      using ih(4) that by (auto simp: pages_new_def list_all_iff)
    then show "mem s' x = mem s0 x"
      using p(5) ih(5) [OF that] um by simp
    show "mprot s' x \<noteq> None"
      using p(10) ih(5) [OF that] by simp
  qed
  moreover have "pages_new s0 s'"
    using p(6,11) ih(4,5) by (fastforce simp: pages_new_def list_all_iff)
  ultimately show ?case
    using p(2,6) ih(3) um' by simp
qed

end

section \<open>Finding the entry of a transit address\<close>

lemma find_entry_from_None:
  "(\<And>j. j < length es \<Longrightarrow> arch_entry_address arch p (k + j) \<noteq> ea) \<Longrightarrow> find_entry_from arch ea p k es = None"
proof (induction es arbitrary: k)
  case (Cons e es)
  have "arch_entry_address arch p (Suc k + j) \<noteq> ea" if "j < length es" for j
    using Cons.prems [of "Suc j"] that by simp
  with Cons show ?case using Cons.prems [of 0] by simp
qed simp

lemma find_entry_from_Some:
  assumes "i < length es" and "arch_entry_address arch p (k + i) = ea"
    and "\<And>j. j < i \<Longrightarrow> arch_entry_address arch p (k + j) \<noteq> ea"
  shows "find_entry_from arch ea p k es = Some (es ! i)"
  using assms
proof (induction es arbitrary: k i)
  case (Cons e es)
  show ?case
  proof (cases i)
    case (Suc i')
    have "arch_entry_address arch p (Suc k + j) \<noteq> ea" if "j < i'" for j
      using Cons.prems(3) [of "Suc j"] that Suc by simp
    then show ?thesis
      using Cons.IH [of i' "Suc k"] Cons.prems(1,2) Cons.prems(3) [of 0] Suc by simp
  qed (use Cons.prems in simp)
qed simp

context code_generator
begin

lemma slot_address_in:
  assumes "layout_ok arch psz num" and "i < num"
  shows "in_region (arch_entry_address arch p i) (arch_sizeof_entry arch) (arch_entry_address arch p i)"
    and "in_region p (unat psz) (arch_entry_address arch p i)"
proof -
  show *: "in_region (arch_entry_address arch p i) (arch_sizeof_entry arch) (arch_entry_address arch p i)"
    using assms(1) by (simp add: in_region_def layout_ok_def)
  show "in_region p (unat psz) (arch_entry_address arch p i)"
    by (rule slot_in_page(1) [OF assms *])
qed

lemma slot_address_inj:
  assumes "layout_ok arch psz num" and "i < num" and "j < num" and "i \<noteq> j"
  shows "arch_entry_address arch p i \<noteq> arch_entry_address arch p j"
  using slots_disjoint [OF assms] slot_address_in(1) [OF assms(1,2), of p]
    slot_address_in(1) [OF assms(1,3), of p] by metis

lemma find_entry_slot:
  assumes l: "layout_ok arch psz num"
  shows "sorted_wrt (\<lambda>p q. disjoint_blocks (page_addr p) (unat psz) (page_addr q) (unat psz)) pages \<Longrightarrow>
    list_all (\<lambda>q. length (entries q) \<le> num) pages \<Longrightarrow> page \<in> set pages \<Longrightarrow> i < length (entries page) \<Longrightarrow>
    find_entry arch (arch_entry_address arch (page_addr page) i) pages = Some (entries page ! i)"
proof (induction pages)
  case (Cons q pages)
  let ?ea = "arch_entry_address arch (page_addr page) i"
  show ?case
  proof (cases "page = q")
    case True
    have "arch_entry_address arch (page_addr page) (0 + j) \<noteq> ?ea" if "j < i" for j
      using slot_address_inj [OF l, of j i] Cons.prems(2,4) that True by simp
    from find_entry_from_Some [OF Cons.prems(4) _ this] True show ?thesis by simp
  next
    case False
    then have page: "page \<in> set pages" using Cons.prems(3) by simp
    have i: "i < num" using Cons.prems(2,4) page by (auto simp: list_all_iff)
    have d: "disjoint_blocks (page_addr q) (unat psz) (page_addr page) (unat psz)"
      using Cons.prems(1) page by simp
    have "arch_entry_address arch (page_addr q) (0 + j) \<noteq> ?ea" if "j < length (entries q)" for j
    proof -
      have "j < num" using that Cons.prems(2) by simp
      from slot_address_in(2) [OF l this, of "page_addr q"] slot_address_in(2) [OF l i, of "page_addr page"]
        disjoint_blocksD [OF d]
      show ?thesis by auto
    qed
    then have "find_entry_from arch ?ea (page_addr q) 0 (entries q) = None"
      by (rule find_entry_from_None)
    with Cons page show ?thesis by simp
  qed
qed simp

lemma find_entry_ok:
  assumes "handle_inv arch s" and "page \<in> set (page_list s)" and "i < used page"
  shows "find_entry arch (arch_entry_address arch (page_addr page) i) (page_list s) = Some (entries page ! i)"
proof (rule find_entry_slot)
  show "layout_ok arch (page_size s) (num_entries_in_page s)"
    and "sorted_wrt (\<lambda>p q. disjoint_blocks (page_addr p) (unat (page_size s))
      (page_addr q) (unat (page_size s))) (page_list s)"
    and "list_all (\<lambda>q. length (entries q) \<le> num_entries_in_page s) (page_list s)"
    and "i < length (entries page)"
    using assms by (auto simp: handle_inv_def page_ok_def list_all_iff)
qed (fact assms(2))

end

section \<open>Releasing the pages\<close>

text \<open>A layer that can release any page, whoever allocated it.\<close>

locale freeing_os = os_layer os os_ok
  for os :: "('a::len word, 'd, 'ms, ('a word, 'p, 'i) fh_state) os_ops" and os_ok +
  assumes free_any: "os_ok s \<Longrightarrow> os_page_free os p s = (r, s') \<Longrightarrow>
      same_handle s s' \<and> os_ok s' \<and> mem s' = mem s \<and>
      (\<forall>x. \<not> in_region p (unat (page_size s)) x \<longrightarrow> mprot s' x = mprot s x) \<and>
      (r = Inr () \<longrightarrow> (\<forall>x. in_region p (unat (page_size s)) x \<longrightarrow> mprot s' x = None))"
begin

text \<open>
  \<open>funchook_destroy\<close> unmaps nothing but pages of the handle, and unmaps every page that the
  system agrees to unmap.
\<close>

lemma free_pages_keeps:
  "os_ok s \<Longrightarrow> s' = free_pages os pages s \<Longrightarrow>
     os_ok s' \<and> same_handle s s' \<and> mem s' = mem s \<and>
     (\<forall>x. list_all (\<lambda>page. \<not> in_region (page_addr page) (unat (page_size s)) x) pages \<longrightarrow> mprot s' x = mprot s x)"
proof (induction pages arbitrary: s)
  case Nil
  then show ?case by (simp add: same_handle_def)
next
  case (Cons page pages)
  obtain r s1 where f: "os_page_free os (page_addr page) s = (r, s1)"
    by (cases "os_page_free os (page_addr page) s")
  note fr = free_any [OF Cons.prems(1) f]
  have "s' = free_pages os pages s1" using Cons.prems(2) f by simp
  from Cons.IH [OF _ this] fr show ?case by (auto simp: same_handle_def)
qed

lemma free_pages_unmaps:
  assumes yes: "\<And>t p. os_ok t \<Longrightarrow> fst (os_page_free os p t) = Inr ()"
  shows "os_ok s \<Longrightarrow> list_ex (\<lambda>page. in_region (page_addr page) (unat (page_size s)) x) pages \<Longrightarrow>
    mprot (free_pages os pages s) x = None"
proof (induction pages arbitrary: s)
  case (Cons q pages)
  obtain s1 where f: "os_page_free os (page_addr q) s = (Inr (), s1)"
    using yes [OF Cons.prems(1), of "page_addr q"] by (metis prod.collapse)
  note fr = free_any [OF Cons.prems(1) f]
  have ps: "page_size s1 = page_size s" using fr by (simp add: same_handle_def)
  show ?case
  proof (cases "list_ex (\<lambda>page. in_region (page_addr page) (unat (page_size s)) x) pages")
    case True
    with Cons.IH [of s1] fr f ps show ?thesis by simp
  next
    case False
    with Cons.prems(2) fr have "mprot s1 x = None" by simp
    with False free_pages_keeps [of s1 "free_pages os pages s1" pages] fr f ps
    show ?thesis by (simp add: list_ex_iff list_all_iff)
  qed
qed simp

end

end
