(* ===== verification/FH_Installed.thy ===== *)
theory FH_Installed
  imports FH_Invariant
begin

text \<open>
  From \<open>funchook_prepare\<close> to \<open>funchook_install\<close>, for every processor and operating system
  that keep their contracts: the bytes of the patched function and of the entry it leads to
  after both have returned 0.
\<close>

section \<open>Patches and pages\<close>

text \<open>Patches never reach into the pages of the handle.\<close>

lemma patch_outside_pages:
  assumes "handle_inv arch s" and "page \<in> set (page_list s)"
    and "in_region (page_addr page) (unat (page_size s)) x"
  shows "\<not> in_patch arch (entries_of (page_list s)) x"
proof
  assume "in_patch arch (entries_of (page_list s)) x"
  then obtain e where e: "e \<in> set (entries_of (page_list s))"
    and x: "in_region (target_func e) (patch_code_byte_size arch e) x"
    by (auto simp: in_patch_def list_ex_iff)
  have "entry_ok arch s e"
    using assms(1) e by (simp add: handle_inv_def list_all_iff)
  then have "disjoint_blocks (target_func e) (window arch) (page_addr page) (unat (page_size s))"
    and "in_region (target_func e) (window arch) x"
    using assms(2) x by (auto simp: entry_ok_def apart_def list_all_iff in_region_def)
  with disjoint_blocksD assms(3) show False by blast
qed

lemma apart_entries_split:
  assumes "e \<in> set es"
    and "list_all (\<lambda>e'. e' = e \<or> disjoint_blocks (target_func e) n (target_func e') n) es"
    and "0 < n"
  obtains es1 es2 where "es = es1 @ e # es2"
    and "list_all (\<lambda>e'. disjoint_blocks (target_func e) n (target_func e') n) es2"
proof -
  obtain es1 es2 where es: "es = es1 @ e # es2" "e \<notin> set es2"
    using split_list_last [OF assms(1)] by blast
  then have "list_all (\<lambda>e'. disjoint_blocks (target_func e) n (target_func e') n) es2"
    using assms(2) by (auto simp: list_all_iff)
  with es(1) show ?thesis by (rule that)
qed

text \<open>After installing, the function starts with the patch of its entry.\<close>

lemma installed_patch:
  assumes inv: "handle_inv arch s" and e: "e \<in> set (entries_of (page_list s))"
    and d: "list_all (\<lambda>e'. e' = e \<or> disjoint_blocks (target_func e) (window arch) (target_func e') (window arch))
      (entries_of (page_list s))"
    and m: "m = patched arch new_code (entries_of (page_list s)) (mem s)"
  shows "mem_read m (target_func (e :: ('a::len word, 'i) funchook_entry)) (patch_code_byte_size arch e) =
    patch_bytes arch (new_code e) e"
proof -
  have ok: "entry_ok arch s e'" if "e' \<in> set (entries_of (page_list s))" for e'
    using inv that by (simp add: handle_inv_def list_all_iff)
  have w: "0 < window arch" "window arch \<le> 2 ^ LENGTH('a)"
    using inv by (simp_all add: handle_inv_def layout_ok_def)
  obtain es1 es2 where es: "entries_of (page_list s) = es1 @ e # es2"
    and d2: "list_all (\<lambda>e'. disjoint_blocks (target_func e) (window arch) (target_func e') (window arch)) es2"
    using apart_entries_split [OF e d w(1)] .
  show ?thesis
    unfolding m
  proof (rule patched_entry_code [OF es])
    show "patch_code_byte_size arch e \<le> length (arch_insns_bytes arch (new_code e))"
      and "patch_code_byte_size arch e \<le> 2 ^ LENGTH('a)"
      using ok [OF e] w(2) by (simp_all add: entry_ok_def)
    fix x assume x: "in_region (target_func e) (patch_code_byte_size arch e) x"
    show "\<not> in_patch arch es2 x"
    proof
      assume "in_patch arch es2 x"
      then obtain e' where e': "e' \<in> set es2" "in_region (target_func e') (patch_code_byte_size arch e') x"
        by (auto simp: in_patch_def list_ex_iff)
      have "in_region (target_func e) (window arch) x" "in_region (target_func e') (window arch) x"
        using x e'(2) ok [OF e] ok [of e'] e'(1) es by (auto simp: entry_ok_def in_region_def)
      moreover have "disjoint_blocks (target_func e) (window arch) (target_func e') (window arch)"
        using d2 e'(1) by (simp add: list_all_iff)
      ultimately show False using disjoint_blocksD by blast
    qed
  qed
qed

section \<open>Preparing and installing\<close>

text \<open>The address \<open>prepare\<close> returns lies in a page of the list or in a fresh one.\<close>

lemma prepare_in_new_page:
  assumes "funchook_prepare_internal arch os target params s = (Inr t, s')"
    and "func = os_resolve_func os target s"
    and "\<And>d. find_page arch (num_entries_in_page s) func d (page_list s) = None"
  obtains d p s1 where "os_page_alloc os func d s = (Inr p, s1)"
    and "writable s1 (arch_page_header arch p) (arch_sizeof_header arch)"
    and "t = arch_entry_address arch p 0 + of_nat (arch_offsetof_trampoline arch)"
proof -
  obtain d page s1 where "get_page arch os func d s = (Inr page, s1)"
    and t: "t = arch_entry_address arch (page_addr page) (used page) + of_nat (arch_offsetof_trampoline arch)"
    using assms(1) by (auto simp: funchook_prepare_internal_def Let_def assms(2) then_ok_eq_Inr
        split: if_splits sum.splits option.splits)
  then obtain p s1 where "os_page_alloc os func d s = (Inr p, s1)"
    and "writable s1 (arch_page_header arch p) (arch_sizeof_header arch)"
    and "page = \<lparr>page_addr = p, used = 0, entries = []\<rparr>"
    using assms(3) [of d] by (auto simp: get_page_def Let_def then_ok_eq_Inr split: if_splits)
  with t show ?thesis by (intro that) simp_all
qed

context handle_library
begin

lemma prepared_installed:
  assumes ok: "os_ok s" and inv: "handle_inv arch s"
    and func: "func = os_resolve_func os target s" and ap: "apart arch s func"
    and fit: "\<And>r. arch_make_trampoline arch (mem s) func = Inr r \<Longrightarrow> fits func r"
    and others: "list_all (\<lambda>e. disjoint_blocks func (window arch) (target_func e) (window arch))
      (entries_of (page_list s))"
    and p: "funchook_prepare_internal arch os target params s = (Inr t, s1)"
    and i: "funchook_install_internal arch os s1 = (Inr u, s2)"
  obtains pa idx e d tramp n m where
    "arch_make_trampoline arch (mem s) func = Inr (d, tramp, n)"
    and "arch_page_avail arch pa idx func d" and "idx < num_entries_in_page s"
    and "arch_fix_code arch (arch_entry_address arch pa idx)
      (new_entry arch m target func params tramp) d = Some e"
    and "t = arch_entry_address arch pa idx + of_nat (arch_offsetof_trampoline arch)"
    and "code_at (mem s2) (arch_entry_address arch pa idx) (arch_entry_bytes arch e)"
    and "mem_read (mem s2) func (patch_code_byte_size arch e) = patch_bytes arch (new_code e) e"
proof -
  note po = prepare_ok [OF ok inv func ap fit p]
  note io = install_ok [OF po(2) i]
  obtain pa idx e d tramp n where pr: "prepared arch target func params s t s1 pa idx e (d, tramp, n)"
    using po(8) by (metis prod_cases3)
  then obtain m where q: "arch_make_trampoline arch (mem s) func = Inr (d, tramp, n)"
    "arch_page_avail arch pa idx func d"
    "arch_fix_code arch (arch_entry_address arch pa idx) (new_entry arch m target func params tramp) d = Some e"
    "t = arch_entry_address arch pa idx + of_nat (arch_offsetof_trampoline arch)"
    and rd: "mem_read (mem s1) (arch_entry_address arch pa idx) (arch_sizeof_entry arch) = arch_entry_bytes arch e"
    and es: "e \<in> set (entries_of (page_list s1))"
    and sub: "set (entries_of (page_list s1)) \<subseteq> insert e (set (entries_of (page_list s)))"
    and tf: "target_func e = func" and pg: "pa \<in> page_addr ` set (page_list s1)"
    and idx: "idx < num_entries_in_page s1"
    unfolding prepared_def prod.case by blast
  have l: "layout_ok arch (page_size s1) (num_entries_in_page s1)"
    using po(1) by (simp add: handle_inv_def)
  have "list_all (\<lambda>e'. e' = e \<or> disjoint_blocks (target_func e) (window arch) (target_func e') (window arch))
      (entries_of (page_list s1))"
    using others sub by (auto simp: list_all_iff tf)
  from installed_patch [OF po(1) es this io(4)]
  have pc: "mem_read (mem s2) func (patch_code_byte_size arch e) = patch_bytes arch (new_code e) e"
    by (simp add: tf)
  have "mem s2 x = mem s1 x" if "in_region (arch_entry_address arch pa idx) (arch_sizeof_entry arch) x" for x
  proof -
    have "in_region pa (unat (page_size s1)) x"
      by (rule slot_in_page(1) [OF l idx that])
    with pg have "\<not> in_patch arch (entries_of (page_list s1)) x"
      using patch_outside_pages [OF po(1)] by auto
    then have "patched arch new_code (entries_of (page_list s1)) (mem s1) x = mem s1 x"
      by (rule patched_outside)
    with io(4) show ?thesis by (simp only:)
  qed
  then have "mem_read (mem s2) (arch_entry_address arch pa idx) (arch_sizeof_entry arch) =
      mem_read (mem s1) (arch_entry_address arch pa idx) (arch_sizeof_entry arch)"
    by (rule mem_read_cong) (simp_all add: layout_sizes(3) [OF l])
  with rd have "code_at (mem s2) (arch_entry_address arch pa idx) (arch_entry_bytes arch e)"
    by (intro code_atI) simp
  with q pc idx po(7) show ?thesis by (intro that) simp_all
qed

text \<open>The hook caller finds the entry a call of \<open>funchook_prepare\<close> has made.\<close>

lemma prepared_entry_found:
  assumes ok: "os_ok s" and inv: "handle_inv arch s"
    and func: "func = os_resolve_func os target s" and ap: "apart arch s func"
    and fit: "\<And>r. arch_make_trampoline arch (mem s) func = Inr r \<Longrightarrow> fits func r"
    and p: "funchook_prepare_internal arch os target params s = (Inr t, s')"
  shows "\<exists>e. find_entry arch (t - of_nat (arch_offsetof_trampoline arch)) (page_list s') = Some e \<and>
    original_target_func e = target \<and> target_func e = func \<and> hook_func e = p_hook_func params \<and>
    prehook e = p_prehook params \<and> user_data e = p_user_data params \<and> eflags e = p_flags params"
proof -
  obtain d tramp n page s1 e where
    g: "get_page arch os func d s = (Inr page, s1)"
    and fc: "arch_fix_code arch (arch_entry_address arch (page_addr page) (used page))
      (new_entry arch (mem s1) target func params tramp) d = Some e"
    and t: "t = arch_entry_address arch (page_addr page) (used page) + of_nat (arch_offsetof_trampoline arch)"
    and pl: "page_list s' = add_entry (page_addr page) e (page_list s1)"
    using p by (auto simp: funchook_prepare_internal_def Let_def func then_ok_eq_Inr
        split: if_splits sum.splits option.splits)
  note gp = get_page_ok [OF ok inv g]
  have "used page = length (entries page)"
    using gp(2,3) by (auto simp: handle_inv_def list_all_iff page_ok_def)
  moreover have "page\<lparr>used := used page + 1, entries := take (used page) (entries page) @ [e]\<rparr> \<in> set (page_list s')"
    using gp(3) by (force simp: pl add_entry_def)
  ultimately have "find_entry arch (t - of_nat (arch_offsetof_trampoline arch)) (page_list s') = Some e"
    using find_entry_ok [OF prepare_ok(1) [OF ok inv func ap fit p], of _ "used page"] by (fastforce simp: t)
  moreover have "length (new_code (new_entry arch (mem s1) target func params tramp)) = arch_max_patch_code_size arch"
    by (simp add: new_entry_def)
  from fix_code_keeps [OF fc this]
  have "original_target_func e = target \<and> target_func e = func \<and> hook_func e = p_hook_func params \<and>
    prehook e = p_prehook params \<and> user_data e = p_user_data params \<and> eflags e = p_flags params"
    by (simp add: new_entry_def)
  ultimately show ?thesis by blast
qed

text \<open>
  The hook caller, entered with the address of that entry in any later state with the same
  pages, calls the prehook with what the call of \<open>funchook_prepare\<close> was given.
\<close>

lemma prepared_hook_caller:
  assumes "os_ok s" and "handle_inv arch s"
    and "func = os_resolve_func os target s" and "apart arch s func"
    and "\<And>r. arch_make_trampoline arch (mem s) func = Inr r \<Longrightarrow> fits func r"
    and "funchook_prepare_internal arch os target params s = (Inr t, s1)"
    and "funchook_install_internal arch os s1 = (Inr u, s2)"
  shows "funchook_hook_caller arch call (page_list s2) (t - of_nat (arch_offsetof_trampoline arch)) base =
    (let info = call (p_prehook params)
       \<lparr>fi_original_target_func = target, fi_target_func = func, fi_trampoline_func = t,
        fi_hook_func = p_hook_func params, fi_user_data = p_user_data params,
        fi_arg_handle = (base, p_flags params)\<rparr>
     in Some (if fi_hook_func info \<noteq> 0 then fi_hook_func info else t))"
proof -
  have "page_list s2 = page_list s1"
    by (rule install_ok(3) [OF prepare_ok(2) [OF assms(1-6)] assms(7)])
  with prepared_entry_found [OF assms(1-6)] show ?thesis
    by (auto simp: funchook_hook_caller_def Let_def)
qed

text \<open>
  In every reachable state, installed or not, each slot of a page holds the bytes of its
  record, and each record is one that \<open>funchook_fix_code\<close> has made.
\<close>

lemma reachable_entry_bytes:
  assumes "reachable arch os fits s0 s" and "fresh_handle arch s0" and "os_ok s0"
    and page: "page \<in> set (page_list s)"
  shows "used page = length (entries page)" and "used page \<le> num_entries_in_page s"
    and "i < used page \<Longrightarrow> mem_read (mem s) (arch_entry_address arch (page_addr page) i) (arch_sizeof_entry arch) =
      arch_entry_bytes arch (entries page ! i)"
proof -
  let ?t = "s\<lparr>mem := unpatched_mem arch s\<rparr>"
  have inv: "handle_inv arch ?t"
    using reachable_inv [OF assms(1-3)] by (simp add: library_inv_def)
  have ok: "page_ok arch ?t page" and l: "layout_ok arch (page_size s) (num_entries_in_page s)"
    using inv page by (simp_all add: handle_inv_def list_all_iff)
  then show "used page = length (entries page)" and u: "used page \<le> num_entries_in_page s"
    by (simp_all add: page_ok_def)
  assume i: "i < used page"
  have "unpatched_mem arch s x = mem s x"
    if "in_region (arch_entry_address arch (page_addr page) i) (arch_sizeof_entry arch) x" for x
  proof -
    have "in_region (page_addr page) (unat (page_size s)) x"
      by (rule slot_in_page(1) [OF l order.strict_trans2 [OF i u] that])
    then have "\<not> in_patch arch (entries_of (page_list s)) x"
      using patch_outside_pages [OF inv, of page x] page by simp
    then show ?thesis by (intro unpatched_outside) simp
  qed
  then have "mem_read (mem s) (arch_entry_address arch (page_addr page) i) (arch_sizeof_entry arch) =
      mem_read (unpatched_mem arch s) (arch_entry_address arch (page_addr page) i) (arch_sizeof_entry arch)"
    by (intro mem_read_cong) (simp_all add: layout_sizes(3) [OF l])
  also have "\<dots> = arch_entry_bytes arch (entries page ! i)"
    using ok i by (simp add: page_ok_def)
  finally show "mem_read (mem s) (arch_entry_address arch (page_addr page) i) (arch_sizeof_entry arch) =
      arch_entry_bytes arch (entries page ! i)" .
qed

lemma reachable_entries:
  assumes "reachable arch os fits s0 s" and "fresh_handle arch s0" and "os_ok s0"
    and made: "\<And>ea m target func params d tramp n e. fits func (d, tramp, n) \<Longrightarrow>
      arch_fix_code arch ea (new_entry arch m target func params tramp) d = Some e \<Longrightarrow> P e"
  shows "\<forall>e \<in> set (entries_of (page_list s)). P e"
  using assms(1)
proof induction
  case start
  then show ?case using assms(2) by (simp add: fresh_handle_def)
next
  case (prepare s target params t s')
  have "library_inv arch s" and ok: "os_ok s"
    using reachable_inv [OF prepare.hyps(1) assms(2,3)] by simp_all
  moreover have "\<not> installed s"
    using prepare.hyps(4) by (auto simp: funchook_prepare_internal_def)
  ultimately have inv: "handle_inv arch s" by (simp add: library_inv_def unpatched_mem_def)
  obtain pa i e d tramp n where
    "prepared arch target (os_resolve_func os target s) params s t s' pa i e (d, tramp, n)"
    using prepare_ok(8) [OF ok inv refl prepare.hyps(2-4)] by (metis prod_cases3)
  then obtain m where "arch_make_trampoline arch (mem s) (os_resolve_func os target s) = Inr (d, tramp, n)"
    and "arch_fix_code arch (arch_entry_address arch pa i)
      (new_entry arch m target (os_resolve_func os target s) params tramp) d = Some e"
    and "set (entries_of (page_list s')) \<subseteq> insert e (set (entries_of (page_list s)))"
    unfolding prepared_def by auto
  with prepare.hyps(3) made prepare.IH show ?case by blast
next
  case (install s u s')
  then show ?case using install_ok(3) reachable_inv [OF install.hyps(1) assms(2,3)] by metis
next
  case (uninstall s u s')
  then show ?case using uninstall_ok(3) reachable_inv [OF uninstall.hyps(1) assms(2,3)] by metis
next
  case (refused s target params r s')
  then have "page_list s' = page_list s"
    by (simp add: funchook_prepare_internal_def funchook_set_error_message_def split: prod.splits)
      (auto simp: funchook_set_error_message_def)
  with refused.IH show ?case by simp
next
  case (failed s target params c s')
  have "library_inv arch s" "os_ok s"
    using reachable_inv [OF failed.hyps(1) assms(2,3)] by simp_all
  with failed.hyps(2) have "same_handle s s'"
    using prepare_error(2) [OF _ _ failed.hyps(3)] by (simp add: library_inv_def unpatched_mem_def)
  with failed.IH show ?case by (simp add: same_handle_def)
qed

end

end
