(* ===== verification/FH_Calls.thy ===== *)
theory FH_Calls
  imports FH_Installed
begin

text \<open>
  The states of a handle after calls of \<open>funchook_prepare\<close>, \<open>funchook_install\<close> and
  \<open>funchook_uninstall\<close> with any outcome: \<open>called\<close> contains \<open>reachable\<close>, and also goes on from a
  \<open>funchook_install\<close> or \<open>funchook_uninstall\<close> that has returned an error code with some of the
  patches in memory. The invariant speaks of the memory with all patches taken back.
\<close>

section \<open>Calls and their outcomes\<close>

text \<open>
  The function to be hooked holds its own code: where patches of the handle lie over it, the
  saved bytes are in memory. After a failed call a function may hold a patch still.
\<close>

definition own_code ::
    "('a::len word, 'i, 'd) arch_ops \<Rightarrow> ('a word, 'p, 'i) fh_state \<Rightarrow> 'a word \<Rightarrow> bool" where
  "own_code arch s func \<longleftrightarrow> (\<forall>x. in_region func (window arch) x \<longrightarrow>
     patched arch old_code (entries_of (page_list s)) (mem s) x = mem s x)"

text \<open>
  A call that ends in undefined behaviour has no outcome. A function for which
  \<open>funchook_prepare\<close> succeeds is mapped, apart from the pages of the handle, holds its own code
  and has a complete trampoline.
\<close>

inductive called ::
    "('a::len word, 'i, 'd) arch_ops \<Rightarrow> ('a word, 'd, 'ms, ('a word, 'p, 'i) fh_state) os_ops \<Rightarrow>
      ('a word \<Rightarrow> 'd \<times> 'i list \<times> nat \<Rightarrow> bool) \<Rightarrow> ('a word, 'p, 'i) fh_state \<Rightarrow>
      ('a word, 'p, 'i) fh_state \<Rightarrow> bool"
  for arch os fits s0 where
  called_start: "called arch os fits s0 s0"
| called_prepare: "called arch os fits s0 s \<Longrightarrow> apart arch s (os_resolve_func os target s) \<Longrightarrow>
    own_code arch s (os_resolve_func os target s) \<Longrightarrow>
    (\<And>r. arch_make_trampoline arch (mem s) (os_resolve_func os target s) = Inr r \<Longrightarrow>
        fits (os_resolve_func os target s) r) \<Longrightarrow>
    funchook_prepare_internal arch os target params s = (Inr t, s') \<Longrightarrow>
    called arch os fits s0 s'"
| called_prepare_error: "called arch os fits s0 s \<Longrightarrow>
    funchook_prepare_internal arch os target params s = (Inl (Err c), s') \<Longrightarrow> called arch os fits s0 s'"
| called_install: "called arch os fits s0 s \<Longrightarrow> funchook_install_internal arch os s = (r, s') \<Longrightarrow>
    r \<noteq> Inl Crash \<Longrightarrow> called arch os fits s0 s'"
| called_uninstall: "called arch os fits s0 s \<Longrightarrow> funchook_uninstall_internal arch os s = (r, s') \<Longrightarrow>
    r \<noteq> Inl Crash \<Longrightarrow> called arch os fits s0 s'"

section \<open>Calls that only touch patches\<close>

definition touches ::
    "('a::len word, 'i, 'd) arch_ops \<Rightarrow> ('a word, 'i) funchook_entry list \<Rightarrow>
      ('a word, 'p, 'i) fh_state \<Rightarrow> ('a word, 'p, 'i) fh_state \<Rightarrow> bool" where
  "touches arch es s s' \<longleftrightarrow> same_handle s s' \<and> same_mapping s s' \<and>
     (\<forall>x. \<not> in_patch arch es x \<longrightarrow> mem s' x = mem s x)"

lemma touches_trans: "touches arch es s t \<Longrightarrow> touches arch es t u \<Longrightarrow> touches arch es s u"
  by (simp add: touches_def same_handle_def same_mapping_def)

lemma touches_more: "touches arch es s t \<Longrightarrow> set es \<subseteq> set es' \<Longrightarrow> touches arch es' s t"
  by (auto simp: touches_def in_patch_def list_ex_iff)

lemma touches_patched:
  "after_patch s (patched arch sel es' (mem s)) s' \<Longrightarrow> set es' \<subseteq> set es \<Longrightarrow> touches arch es s s'"
  using patched_outside [of arch es' _ sel "mem s"]
  by (auto simp: touches_def after_patch_def in_patch_def list_ex_iff)

lemma calm_touches: "calm s s' \<Longrightarrow> touches arch es s s'"
  by (simp add: calm_def touches_def)

context os_layer
begin

lemma patch_entry_touches:
  assumes "os_ok s" and "patch_entry arch os code e s = (r, s')"
  shows "os_ok s' \<and> touches arch (e # es) s s'"
  using assms
proof (cases rule: patch_entry_any)
  case (unpatched f)
  then show ?thesis by (simp add: touches_def after_patch_def)
next
  case patched
  have "mem_write (mem s) (target_func e) (patch_bytes arch code e) x = mem s x"
    if "\<not> in_region (target_func e) (patch_code_byte_size arch e) x" for x
    using that length_patch_bytes_le [of arch code e]
    by (intro mem_write_other) (auto simp: in_region_def)
  with patched show ?thesis by (simp add: touches_def after_patch_def)
qed

lemma uninstall_entries_touches:
  "os_ok s \<Longrightarrow> uninstall_entries arch os es s = (r, s') \<Longrightarrow> os_ok s' \<and> touches arch es s s'"
proof (induction es arbitrary: s)
  case Nil
  then show ?case by (simp add: touches_def same_mapping_def)
next
  case (Cons e es)
  obtain q s1 where p: "patch_entry arch os (old_code e) e s = (q, s1)"
    by (cases "patch_entry arch os (old_code e) e s")
  note t = patch_entry_touches [OF Cons.prems(1) p, of es]
  show ?case
  proof (cases q)
    case (Inl f)
    then show ?thesis using Cons.prems(2) p t by simp
  next
    case (Inr u)
    then have "uninstall_entries arch os es s1 = (r, s')" using Cons.prems(2) p by simp
    from Cons.IH [OF conjunct1 [OF t] this] have "os_ok s'" "touches arch (e # es) s1 s'"
      using touches_more [of arch es s1 s' "e # es"] by auto
    then show ?thesis using t touches_trans by blast
  qed
qed

lemma uninstall_pages_touches:
  "os_ok s \<Longrightarrow> uninstall_pages arch os pages s = (r, s') \<Longrightarrow> os_ok s' \<and> touches arch (entries_of pages) s s'"
proof (induction pages arbitrary: s)
  case Nil
  then show ?case by (simp add: touches_def same_mapping_def)
next
  case (Cons page pages)
  let ?es = "take (used page) (entries page)" and ?all = "entries_of (page # pages)"
  obtain q s1 where e: "uninstall_entries arch os ?es s = (q, s1)"
    by (cases "uninstall_entries arch os ?es s")
  have t: "os_ok s1" "touches arch ?all s s1"
    using uninstall_entries_touches [OF Cons.prems(1) e] touches_more [of arch ?es s s1 ?all] by simp_all
  show ?case
  proof (cases q)
    case (Inl f)
    then show ?thesis using Cons.prems(2) e t by simp
  next
    case (Inr u)
    obtain q2 s2 where p: "os_page_unprotect os (page_addr page) s1 = (q2, s2)"
      by (cases "os_page_unprotect os (page_addr page) s1")
    have c: "os_ok s2" "touches arch ?all s1 s2"
      using unprotect [OF t(1) p] calm_touches [of s1 s2 arch ?all] by simp_all
    have "uninstall_pages arch os pages s2 = (r, s')" using Cons.prems(2) Inr e p by simp
    from Cons.IH [OF c(1) this] have "os_ok s'" "touches arch ?all s2 s'"
      using touches_more [of arch "entries_of pages" s2 s' ?all] by simp_all
    then show ?thesis using t(2) c(2) touches_trans by blast
  qed
qed

text \<open>What every outcome of the two calls keeps.\<close>

definition patches_only ::
    "('a word, 'i, 'd2) arch_ops \<Rightarrow> ('a word, 'p, 'i) fh_state \<Rightarrow> ('a word, 'p, 'i) fh_state \<Rightarrow> bool" where
  "patches_only arch s s' \<longleftrightarrow> os_ok s' \<and> page_list s' = page_list s \<and>
     num_entries_in_page s' = num_entries_in_page s \<and> page_size s' = page_size s \<and> same_mapping s s' \<and>
     (\<forall>x. \<not> in_patch arch (entries_of (page_list s)) x \<longrightarrow> mem s' x = mem s x)"

lemma touches_patches_only:
  assumes "os_ok t" and "touches arch (entries_of (page_list s)) s t" and "s' = t\<lparr>installed := b\<rparr>"
  shows "patches_only arch s s'"
  using assms os_ok_cong [of t s']
  by (simp add: patches_only_def touches_def same_handle_def same_mapping_def)

lemma install_patches_only:
  assumes "os_ok s" and "funchook_install_internal arch os s = (r, s')"
  shows "patches_only arch s s'"
proof (cases "installed s")
  case True
  then show ?thesis
    using assms by (simp add: funchook_install_internal_def patches_only_def same_mapping_def)
next
  case False
  obtain q t where p: "install_pages arch os (page_list s) s = (q, t)"
    by (cases "install_pages arch os (page_list s) s")
  obtain b where s': "s' = t\<lparr>installed := b\<rparr>"
    using assms(2) False p that [of "installed t"] that [of True]
    by (cases q) (auto simp: funchook_install_internal_def)
  note a = install_pages_any [OF assms(1) p]
  then obtain k where "after_patch s (patched arch new_code (take k (entries_of (page_list s))) (mem s)) t"
    by blast
  then have "touches arch (entries_of (page_list s)) s t"
    by (rule touches_patched) (rule set_take_subset)
  with a s' show ?thesis by (intro touches_patches_only) simp_all
qed

lemma uninstall_patches_only:
  assumes "os_ok s" and "funchook_uninstall_internal arch os s = (r, s')"
  shows "patches_only arch s s'"
proof (cases "installed s")
  case False
  then show ?thesis
    using assms by (simp add: funchook_uninstall_internal_def patches_only_def same_mapping_def)
next
  case True
  obtain q t where p: "uninstall_pages arch os (page_list s) s = (q, t)"
    by (cases "uninstall_pages arch os (page_list s) s")
  obtain b where s': "s' = t\<lparr>installed := b\<rparr>"
    using assms(2) True p that [of "installed t"] that [of False]
    by (cases q) (auto simp: funchook_uninstall_internal_def)
  note a = uninstall_pages_touches [OF assms(1) p]
  with s' show ?thesis by (intro touches_patches_only) simp_all
qed

end

section \<open>The original code is never lost\<close>

text \<open>
  \<open>m\<close> is the memory with every patch of the handle taken back: the saved code of each entry is
  what \<open>m\<close> holds, and outside patches it is the memory of the state.
\<close>

definition original ::
    "('a::len word, 'i, 'd) arch_ops \<Rightarrow> ('a word, 'p, 'i) fh_state \<Rightarrow> ('a word \<Rightarrow> u8) \<Rightarrow> bool" where
  "original arch s m \<longleftrightarrow> handle_inv arch (s\<lparr>mem := m\<rparr>) \<and>
     (\<forall>x. \<not> in_patch arch (entries_of (page_list s)) x \<longrightarrow> m x = mem s x)"

lemma original_unpatched:
  assumes "original arch s m"
  shows "patched arch old_code (entries_of (page_list s)) (mem s) = m"
proof -
  have "list_all (entry_saved arch m) (entries_of (page_list s))"
    using handle_inv_saved [of arch "s\<lparr>mem := m\<rparr>"] assms by (simp add: original_def)
  from patched_old_code [OF this] assms show ?thesis
    by (auto simp: fun_eq_iff original_def)
qed

lemma in_patch_mono: "in_patch arch es x \<Longrightarrow> set es \<subseteq> set es' \<Longrightarrow> in_patch arch es' x"
  by (auto simp: in_patch_def list_ex_iff)

definition keeps_original ::
    "('a::len word, 'i, 'd) arch_ops \<Rightarrow> ('a word, 'p, 'i) fh_state \<Rightarrow> ('a word, 'p, 'i) fh_state \<Rightarrow>
      ('a word \<Rightarrow> u8) \<Rightarrow> bool" where
  "keeps_original arch s0 s m \<longleftrightarrow> original arch s m \<and> page_size s = page_size s0 \<and> pages_new s0 s \<and>
     (\<forall>x. mprot s0 x \<noteq> None \<longrightarrow> mprot s x \<noteq> None \<and> m x = mem s0 x)"

context handle_library
begin

lemma original_patches_only:
  assumes "keeps_original arch s0 s m" and "patches_only arch s s'"
  shows "keeps_original arch s0 s' m"
proof -
  have o: "handle_inv arch (s\<lparr>mem := m\<rparr>)" "\<And>x. \<not> in_patch arch (entries_of (page_list s)) x \<Longrightarrow> m x = mem s x"
    using assms(1) by (simp_all add: keeps_original_def original_def)
  have "handle_inv arch (s'\<lparr>mem := m\<rparr>)"
    using assms(2)
    by (intro handle_inv_cong [OF o(1)]) (simp_all add: patches_only_def same_mapping_def)
  moreover have "pages_new s0 s' = pages_new s0 s"
    using assms(2) by (simp add: patches_only_def pages_new_def)
  ultimately show ?thesis
    using assms o(2) by (simp add: keeps_original_def original_def patches_only_def same_mapping_def)
qed

lemma original_prepare:
  assumes k: "keeps_original arch s0 s m" and ok: "os_ok s"
    and ap: "apart arch s (os_resolve_func os target s)" and own: "own_code arch s (os_resolve_func os target s)"
    and fit: "\<And>r. arch_make_trampoline arch (mem s) (os_resolve_func os target s) = Inr r \<Longrightarrow>
        fits (os_resolve_func os target s) r"
    and p: "funchook_prepare_internal arch os target params s = (Inr t, s')"
  shows "os_ok s' \<and> (\<exists>m'. keeps_original arch s0 s' m')"
proof -
  let ?off = "\<lambda>x. list_all (\<lambda>page. \<not> in_region (page_addr page) (unat (page_size s)) x) (page_list s)"
  have o: "original arch s m" and new: "pages_new s0 s" and old: "\<And>x. mprot s0 x \<noteq> None \<Longrightarrow> mprot s x \<noteq> None \<and> m x = mem s0 x"
    using k by (simp_all add: keeps_original_def)
  then have inv: "handle_inv arch (s\<lparr>mem := m\<rparr>)" by (simp add: original_def)
  have "m x = mem s x" if "in_region (os_resolve_func os target s) (window arch) x" for x
    using own that by (simp add: own_code_def original_unpatched [OF o])
  note c = prepare_carried [OF ok inv refl ap fit this p]
  obtain m' where m': "handle_inv arch (s'\<lparr>mem := m'\<rparr>)" "\<And>x. m x = mem s x \<Longrightarrow> m' x = mem s' x"
    "\<And>x. mprot s x \<noteq> None \<Longrightarrow> ?off x \<Longrightarrow> m' x = m x"
    using c(1) by blast
  have "m' x = mem s' x" if "\<not> in_patch arch (entries_of (page_list s')) x" for x
    using m'(2) that in_patch_mono [OF _ c(12)] o by (auto simp: original_def)
  with m'(1) have "original arch s' m'" by (simp add: original_def)
  moreover have "page_size s' = page_size s0" using c(6) k by (simp add: keeps_original_def)
  moreover have "pages_new s0 s'"
    using c(6,11) new old by (fastforce simp: pages_new_def list_all_iff)
  moreover have "mprot s' x \<noteq> None \<and> m' x = mem s0 x" if x: "mprot s0 x \<noteq> None" for x
  proof -
    have "?off x" using new x by (auto simp: pages_new_def list_all_iff)
    then show ?thesis using m'(3) old [OF x] c(10) by simp
  qed
  ultimately show ?thesis using c(2) by (auto simp: keeps_original_def)
qed

lemma original_prepare_error:
  assumes k: "keeps_original arch s0 s m" and ok: "os_ok s"
    and p: "funchook_prepare_internal arch os target params s = (Inl (Err c), s')"
  shows "os_ok s' \<and> (\<exists>m'. keeps_original arch s0 s' m')"
proof -
  have inv: "handle_inv arch (s\<lparr>mem := m\<rparr>)" and o: "original arch s m"
    using k by (simp_all add: keeps_original_def original_def)
  then have "layout_ok arch (page_size s) (num_entries_in_page s)"
    by (simp add: handle_inv_def)
  note e = prepare_error_keeps_mapped [OF ok this p]
  let ?m = "carried s m s'"
  have "handle_inv arch (s'\<lparr>mem := ?m\<rparr>)"
    using handle_inv_keeps [OF inv _ carried_mapped [OF e(3)]] e(2) by (simp add: same_handle_mem)
  moreover have "?m x = mem s' x" if "\<not> in_patch arch (entries_of (page_list s')) x" for x
    using carried_own [OF e(3), of m x] that o e(2) by (simp add: original_def same_handle_def)
  moreover have "mprot s' x \<noteq> None \<and> ?m x = mem s0 x" if "mprot s0 x \<noteq> None" for x
    using k e(3) that by (auto simp: keeps_original_def keeps_mapped_def carried_def)
  moreover have "pages_new s0 s' = pages_new s0 s" "page_size s' = page_size s"
    using e(2) by (simp_all add: same_handle_def pages_new_def)
  ultimately have "keeps_original arch s0 s' ?m"
    using k by (simp add: keeps_original_def original_def)
  with e(1) show ?thesis by blast
qed

lemma called_inv:
  assumes "called arch os fits s0 s" and "fresh_handle arch s0" and "os_ok s0"
  shows "os_ok s \<and> (\<exists>m. keeps_original arch s0 s m)"
  using assms(1)
proof induction
  case called_start
  have "handle_inv arch (s0\<lparr>mem := mem s0\<rparr>)"
    using assms(2) by (simp add: fresh_handle_def handle_inv_def)
  then have "keeps_original arch s0 s0 (mem s0)"
    using assms(2) by (simp add: keeps_original_def original_def pages_new_def fresh_handle_def)
  with assms(3) show ?case by blast
next
  case (called_prepare s target params t s')
  then show ?case using original_prepare by blast
next
  case (called_prepare_error s target params c s')
  then show ?case using original_prepare_error by blast
next
  case (called_install s r s')
  then have po: "patches_only arch s s'" using install_patches_only by blast
  then have "os_ok s'" by (simp add: patches_only_def)
  with called_install.IH original_patches_only [OF _ po] show ?case by blast
next
  case (called_uninstall s r s')
  then have po: "patches_only arch s s'" using uninstall_patches_only by blast
  then have "os_ok s'" by (simp add: patches_only_def)
  with called_uninstall.IH original_patches_only [OF _ po] show ?case by blast
qed

text \<open>Calls that succeed lead to called states, too.\<close>

lemma reachable_called:
  assumes "reachable arch os fits s0 s" and "fresh_handle arch s0" and "os_ok s0"
  shows "called arch os fits s0 s"
  using assms(1)
proof induction
  case (prepare s target params t s')
  have "library_inv arch s" and "\<not> installed s"
    using reachable_inv [OF prepare.hyps(1) assms(2,3)] prepare.hyps(4)
    by (auto simp: funchook_prepare_internal_def)
  then have "list_all (entry_saved arch (mem s)) (entries_of (page_list s))"
    using handle_inv_saved by (auto simp: library_inv_def unpatched_mem_def)
  from patched_old_code [OF this, of "mem s"] have "own_code arch s (os_resolve_func os target s)"
    by (simp add: own_code_def)
  from called_prepare [OF prepare.IH prepare.hyps(2) this prepare.hyps(3,4)] show ?case by blast
next
  case (refused s target params r s')
  then have "r = Inl (Err ERROR_ALREADY_INSTALLED)" by (simp add: funchook_prepare_internal_def)
  with refused show ?case using called_prepare_error by blast
next
  case start
  show ?case by (rule called_start)
next
  case (install s u s')
  then show ?case using called_install [OF install.IH install.hyps(2)] by simp
next
  case (uninstall s u s')
  then show ?case using called_uninstall [OF uninstall.IH uninstall.hyps(2)] by simp
next
  case (failed s target params c s')
  then show ?case using called_prepare_error by blast
qed

text \<open>
  After any calls: outside the patches of the handle's entries the memory mapped at the start is
  as it was, a call of \<open>funchook_uninstall\<close> that returns 0 brings all of it back, and installing
  has no undefined behaviour.
\<close>

lemma called_memory:
  assumes "called arch os fits s0 s" and "fresh_handle arch s0" and "os_ok s0" and "mprot s0 x \<noteq> None"
  shows "mprot s x \<noteq> None"
    and "\<not> in_patch arch (entries_of (page_list s)) x \<Longrightarrow> mem s x = mem s0 x"
    and "funchook_uninstall_internal arch os s = (Inr u, s') \<Longrightarrow> mem s' x = mem s0 x"
    and "reachable arch os fits s0 s \<Longrightarrow> \<not> installed s \<Longrightarrow> mem s x = mem s0 x"
    and "list_all (\<lambda>page. \<not> in_region (page_addr page) (unat (page_size s)) x) (page_list s)"
proof -
  obtain m where k: "keeps_original arch s0 s m" and ok: "os_ok s"
    using called_inv [OF assms(1-3)] by blast
  then have o: "original arch s m" and x: "mprot s x \<noteq> None" "m x = mem s0 x" and new: "pages_new s0 s"
    using assms(4) by (simp_all add: keeps_original_def)
  show "mprot s x \<noteq> None" by (rule x(1))
  show "mem s x = mem s0 x" if "\<not> in_patch arch (entries_of (page_list s)) x"
    using o that x(2) by (simp add: original_def)
  show "mem s' x = mem s0 x" if "funchook_uninstall_internal arch os s = (Inr u, s')"
    using uninstall_ok(4) [OF ok that] original_unpatched [OF o] x(2) by simp
  show "mem s x = mem s0 x" if "reachable arch os fits s0 s" "\<not> installed s"
    using reachable_inv [OF that(1) assms(2,3)] that(2) assms(4) by (simp add: unpatched_mem_def)
  show "list_all (\<lambda>page. \<not> in_region (page_addr page) (unat (page_size s)) x) (page_list s)"
    using new assms(4) by (auto simp: pages_new_def list_all_iff)
qed

lemma called_patchable:
  assumes "called arch os fits s0 s" and "fresh_handle arch s0" and "os_ok s0"
    and "list_all (\<lambda>e. unat (target_func e) + window arch + unat (page_size s) < 2 ^ LENGTH('a))
      (entries_of (page_list s))"
  shows "list_all (patchable arch s) (entries_of (page_list s))"
proof -
  obtain m where "handle_inv arch (s\<lparr>mem := m\<rparr>)"
    using called_inv [OF assms(1-3)] by (auto simp: keeps_original_def original_def)
  then have "entry_ok arch (s\<lparr>mem := m\<rparr>) e" if "e \<in> set (entries_of (page_list s))" for e
    using that by (simp add: handle_inv_def list_all_iff)
  then have "patch_code_byte_size arch e \<le> window arch \<and>
      length (arch_insns_bytes arch (new_code e)) = window arch \<and> length (arch_insns_bytes arch (old_code e)) = window arch"
    if "e \<in> set (entries_of (page_list s))" for e
    using that by (auto simp: entry_ok_def)
  with assms(4) show ?thesis by (fastforce simp: list_all_iff patchable_def)
qed

lemma called_install_returns:
  assumes "called arch os fits s0 s" and "fresh_handle arch s0" and "os_ok s0"
    and "list_all (\<lambda>e. unat (target_func e) + window arch + unat (page_size s) < 2 ^ LENGTH('a))
      (entries_of (page_list s))"
  shows "fst (funchook_install_internal arch os s) \<noteq> Inl Crash"
  using install_no_crash called_inv [OF assms(1-3)] called_patchable [OF assms] by blast

end

end
