(* ===== verification/OS_Windows_Contract.thy ===== *)
theory OS_Windows_Contract
  imports OS_Windows FH_Calls
begin

text \<open>
  The functions of src/src/os_windows.c as the operating-system layer of funchook.c, and the
  proof that they keep its contract. The invariant of the list of allocation units says that
  the flags and the count of a unit agree, and that a page whose flag is clear is not committed.
\<close>

section \<open>Pages of an allocation unit\<close>

text \<open>Units start at multiples of the allocation granularity and do not wrap around.\<close>

definition unit_at :: "'a::len word \<Rightarrow> 'a word \<Rightarrow> bool" where
  "unit_at au pl \<longleftrightarrow> ROUND_DOWN pl au = pl \<and> unat pl + unat au \<le> 2 ^ LENGTH('a)"

definition max_pages :: "'a::len word \<Rightarrow> 'a word \<Rightarrow> nat" where
  "max_pages au psz = unat (au div psz - 1)"

definition page_sizes :: "'a::len word \<Rightarrow> 'a word \<Rightarrow> bool" where
  "page_sizes au psz \<longleftrightarrow> pow2_unit au \<and> pow2_unit psz \<and> 2 * unat psz \<le> unat au"

lemma pow2_unit_dvd:
  fixes a b :: "'a::len word"
  assumes "pow2_unit a" and "pow2_unit b" and "unat a \<le> unat b"
  shows "unat a dvd unat b"
proof -
  obtain j k where "a = 2 ^ j" "j < LENGTH('a)" "b = 2 ^ k" "k < LENGTH('a)"
    using assms(1,2) by (auto simp: pow2_unit_def)
  then show ?thesis
    using assms(3) by (simp add: unat_pow2 le_imp_power_dvd)
qed

lemma max_pages_size:
  assumes "page_sizes au psz"
  shows "Suc (max_pages au psz) * unat psz = unat au" and "0 < max_pages au psz"
proof -
  have d: "unat psz dvd unat au"
    using assms pow2_unit_dvd [of psz au] by (simp add: page_sizes_def)
  have p: "0 < unat psz" using assms pow2_unit_pos by (auto simp: page_sizes_def)
  have two: "2 \<le> unat au div unat psz"
    using assms p by (simp add: page_sizes_def less_eq_div_iff_mult_less_eq)
  have "unat (au div psz) = unat au div unat psz" by (simp add: unat_div)
  moreover from this two have "1 \<le> au div psz" by (simp add: word_le_nat_alt)
  ultimately have "max_pages au psz = unat au div unat psz - 1"
    by (simp add: max_pages_def unat_sub)
  with d two show "Suc (max_pages au psz) * unat psz = unat au" "0 < max_pages au psz"
    by simp_all
qed

lemma unit_offset_bound:
  assumes "page_sizes au psz" and "i < max_pages au psz" and "k < unat psz"
  shows "Suc i * unat psz + k < unat au"
proof -
  have "Suc i * unat psz + k < Suc (Suc i) * unat psz" using assms(3) by simp
  also have "\<dots> \<le> Suc (max_pages au psz) * unat psz"
    using assms(2) by (intro mult_le_mono1) simp
  finally show ?thesis by (simp only: max_pages_size(1) [OF assms(1)])
qed

lemma unat_unit_page:
  fixes pl :: "'a::len word"
  assumes "page_sizes au psz" and "unit_at au pl" and "i < max_pages au psz" and "k < unat psz"
  shows "unat (unit_page psz pl i + of_nat k) = unat pl + (Suc i * unat psz + k)"
proof -
  let ?n = "Suc i * unat psz + k"
  have "unit_page psz pl i + of_nat k = pl + of_nat ?n"
    by (simp add: unit_page_def algebra_simps)
  moreover have "unat pl + ?n < 2 ^ LENGTH('a)"
    using unit_offset_bound [OF assms(1,3,4)] assms(2) by (simp add: unit_at_def)
  then have "unat (pl + of_nat ?n) = unat pl + ?n"
    using unat_offset [where a = 0 and b = pl and i = ?n] by (simp only: diff_zero)
  ultimately show ?thesis by (simp only:)
qed

text \<open>The unit and the index can be read off an address in a page.\<close>

lemma unit_page_region:
  fixes pl :: "'a::len word"
  assumes s: "page_sizes au psz" and u: "unit_at au pl" and i: "i < max_pages au psz"
    and x: "in_region (unit_page psz pl i) (unat psz) x"
  shows "ROUND_DOWN x au = pl" and "unat (x - pl) div unat psz = Suc i"
proof -
  let ?k = "unat (x - unit_page psz pl i)" and ?n = "Suc i * unat psz + unat (x - unit_page psz pl i)"
  have k: "?k < unat psz" using x by (simp add: in_region_def)
  have "unit_page psz pl i + of_nat ?k = x" by simp
  then have ux: "unat x = unat pl + ?n"
    using unat_unit_page [OF s u i k] by simp
  have n: "?n < unat au" by (rule unit_offset_bound [OF s i k])
  have p2: "pow2_unit au" using s by (simp add: page_sizes_def)
  have "unat pl mod unat au = 0"
  proof -
    have "unat pl - unat pl mod unat au = unat pl"
      using unat_ROUND_DOWN [OF p2, of pl] u by (simp add: unit_at_def)
    then show ?thesis using mod_less_eq_dividend [of "unat pl" "unat au"] by linarith
  qed
  then have "unat x mod unat au = ?n"
    using n unfolding ux by (metis mod_less add.commute mod_add_self2 mod_add_left_eq add_0)
  then have "unat (ROUND_DOWN x au) = unat pl"
    using unat_ROUND_DOWN [OF p2, of x] ux by simp
  then show "ROUND_DOWN x au = pl" by (simp only: word_unat_eq_iff)
  have "x - pl = unit_page psz pl i - pl + of_nat ?k" by simp
  also have "\<dots> = of_nat ?n" by (simp add: unit_page_def algebra_simps)
  finally have "x - pl = of_nat ?n" .
  moreover have "?n < 2 ^ LENGTH('a)" using n unsigned_less [of au, where 'a = nat] by linarith
  ultimately have "unat (x - pl) = ?n" by (simp only: unat_of_nat mod_less)
  then show "unat (x - pl) div unat psz = Suc i"
    using k by (intro div_nat_eqI) (simp_all add: algebra_simps)
qed

section \<open>The operations\<close>

definition windows_ops ::
    "('a word \<Rightarrow> ('a word, 'a word win_data, 'i) fh_state \<Rightarrow>
        ('a word result \<times> ('a word, 'a word win_data, 'i) fh_state) option) \<Rightarrow>
      ('a word \<Rightarrow> 'a word \<Rightarrow> 'd \<Rightarrow> bool) \<Rightarrow> 'a word win_env \<Rightarrow>
      ('a word \<Rightarrow> ('a word, 'a word win_data, 'i) fh_state \<Rightarrow> 'a word) \<Rightarrow>
      ('a::len word, 'd, 'a word win_mem_state, ('a word, 'a word win_data, 'i) fh_state) os_ops" where
  "windows_ops alloc_info avail env resolve =
     \<lparr>os_resolve_func = resolve,
      os_page_alloc = (\<lambda>func disp s.
        case funchook_page_alloc_windows alloc_info env (\<lambda>p. avail p func disp) func s of
          Some q \<Rightarrow> q | None \<Rightarrow> (Inl Crash, s)),
      os_page_free = funchook_page_free_windows env,
      os_page_protect = funchook_page_protect_windows env,
      os_page_unprotect = funchook_page_unprotect_windows env,
      os_unprotect_begin = funchook_unprotect_begin_windows env,
      os_unprotect_end = funchook_unprotect_end_windows env\<rparr>"

text \<open>
  An allocation that never returns counts as \<open>Crash\<close> here; \<open>find_hint_ends\<close> shows that the
  search ends.

  What the library relies on of the system: \<open>VirtualAlloc\<close> reserves new units at multiples
  of the granularity where nothing is committed, \<open>VirtualProtect\<close> succeeds on committed memory
  only, and \<open>VirtualQuery\<close> fails or returns a region that contains the address it was given.
\<close>

definition windows_kernel :: "('a::len word) win_env \<Rightarrow> bool" where
  "windows_kernel env \<longleftrightarrow>
     (\<forall>n pr us hint. let r = win_reserve env n pr us hint (win_granularity env) in r \<noteq> 0 \<longrightarrow>
        unit_at (win_granularity env) r \<and> r \<notin> set us \<and>
        (\<forall>x. in_region r (unat (win_granularity env)) x \<longrightarrow> pr x = None)) \<and>
     (\<forall>n pr a sz p. win_protect env n pr a sz p \<longrightarrow> (\<forall>x. in_region a (unat sz) x \<longrightarrow> pr x \<noteq> None)) \<and>
     (\<forall>n pr us hint mbi. win_query env n pr us hint = Some mbi \<longrightarrow>
        base_address mbi \<le> hint \<and> unat hint < unat (base_address mbi) + unat (region_size mbi) \<and>
        unat (base_address mbi) + unat (region_size mbi) < 2 ^ LENGTH('a))"

definition unit_ok ::
    "'a::len word \<Rightarrow> 'a word \<Rightarrow> ('a word \<Rightarrow> prot option) \<Rightarrow> 'a word page_info \<Rightarrow> bool" where
  "unit_ok au psz pr u \<longleftrightarrow> unit_at au (pi_addr u) \<and> pi_addr u \<noteq> 0 \<and>
     length (pi_used u) = max_pages au psz \<and> num_used u = int (count_list (pi_used u) True) \<and>
     (\<forall>i < max_pages au psz. \<not> pi_used u ! i \<longrightarrow>
        (\<forall>x. in_region (unit_page psz (pi_addr u) i) (unat psz) x \<longrightarrow> pr x = None))"

definition units_ok ::
    "'a::len word \<Rightarrow> 'a word \<Rightarrow> ('a word \<Rightarrow> prot option) \<Rightarrow> 'a word page_info list \<Rightarrow> bool" where
  "units_ok au psz pr us \<longleftrightarrow> distinct (map pi_addr us) \<and> (\<forall>u \<in> set us. unit_ok au psz pr u)"

definition win_ok ::
    "'a word win_env \<Rightarrow> ('a::len word, 'a word win_data, 'i) fh_state \<Rightarrow> bool" where
  "win_ok env s \<longleftrightarrow> windows_kernel env \<and> page_sizes (win_granularity env) (win_page_size env) \<and>
     page_size s = win_page_size env \<and> allocation_unit (os_data s) = win_granularity env \<and>
     units_ok (win_granularity env) (win_page_size env) (mprot s) (unit_list (os_data s))"

lemma windows_kernelD:
  fixes env :: "'a::len word win_env"
  assumes "windows_kernel env"
  shows "win_reserve env n pr us hint (win_granularity env) \<noteq> 0 \<Longrightarrow>
      unit_at (win_granularity env) (win_reserve env n pr us hint (win_granularity env)) \<and>
      win_reserve env n pr us hint (win_granularity env) \<notin> set us \<and>
      (\<forall>x. in_region (win_reserve env n pr us hint (win_granularity env)) (unat (win_granularity env)) x \<longrightarrow>
        pr x = None)"
    and "win_protect env n pr a sz p \<Longrightarrow> in_region a (unat sz) x \<Longrightarrow> pr x \<noteq> None"
    and "win_query env n pr us hint = Some mbi \<Longrightarrow> base_address mbi \<le> hint \<and>
      unat hint < unat (base_address mbi) + unat (region_size mbi) \<and>
      unat (base_address mbi) + unat (region_size mbi) < 2 ^ LENGTH('a)"
  using assms unfolding windows_kernel_def Let_def by blast+

text \<open>The invariant only looks at which memory is committed.\<close>

lemma units_ok_mapping:
  "units_ok au psz pr us \<Longrightarrow> (\<And>x. pr x = None \<Longrightarrow> pr' x = None) \<Longrightarrow> units_ok au psz pr' us"
  by (fastforce simp: units_ok_def unit_ok_def)

lemma win_ok_mapping:
  "win_ok env s \<Longrightarrow> (\<And>x. mprot s x = None \<Longrightarrow> mprot s' x = None) \<Longrightarrow> page_size s' = page_size s \<Longrightarrow>
     os_data s' = os_data s \<Longrightarrow> win_ok env s'"
  using units_ok_mapping [of _ _ "mprot s" _ "mprot s'"] by (simp add: win_ok_def)

lemma win_ok_cong:
  "win_ok env s \<Longrightarrow> mprot s' = mprot s \<Longrightarrow> page_size s' = page_size s \<Longrightarrow> os_data s' = os_data s \<Longrightarrow>
     win_ok env s'"
  by (erule win_ok_mapping) simp_all

lemma win_ok_message [simp]: "win_ok env (funchook_set_error_message m s) \<longleftrightarrow> win_ok env s"
  by (simp add: win_ok_def)

lemma win_tick_frame [simp]:
  "mem (win_tick s) = mem s" "mprot (win_tick s) = mprot s" "page_size (win_tick s) = page_size s"
  "os_data (win_tick s) = os_data s"
  by (simp_all add: win_tick_def)

lemma win_ok_tick [simp]: "win_ok env (win_tick s) \<longleftrightarrow> win_ok env s"
  by (simp add: win_ok_def)

lemma set_committed_frame [simp]:
  "mem (set_committed a sz p s) = mem s" "page_size (set_committed a sz p s) = page_size s"
  "os_data (set_committed a sz p s) = os_data s"
  "mprot (set_committed a sz p s) x = (if in_region a (unat sz) x then p else mprot s x)"
  by (simp_all add: set_committed_def)

lemma set_units_frame [simp]:
  "mem (set_units us s) = mem s" "mprot (set_units us s) = mprot s" "page_size (set_units us s) = page_size s"
  "allocation_unit (os_data (set_units us s)) = allocation_unit (os_data s)"
  "unit_list (os_data (set_units us s)) = us"
  by (simp_all add: set_units_def)

lemma same_handle_windows [simp]:
  "same_handle s (win_tick s)" "same_handle s (set_committed a sz p s)" "same_handle s (set_units us s)"
  by (simp_all add: same_handle_def win_tick_def set_committed_def set_units_def)

section \<open>Changes of protection\<close>

lemma win_protect_calm:
  assumes "win_ok env s" and "sys_protect env a sz p s = (r, s')"
  shows "calm s s'" and "win_ok env s'"
    and "r \<noteq> None \<Longrightarrow> in_region a (unat sz) x \<Longrightarrow> mprot s' x = Some p"
proof -
  have k: "mprot s x \<noteq> None" if "win_protect env (now s) (mprot s) a sz p" "in_region a (unat sz) x" for x
    using assms(1) that windows_kernelD(2) [of env] unfolding win_ok_def by blast
  have "r = None \<and> s' = win_tick s \<or>
      r \<noteq> None \<and> s' = set_committed a sz (Some p) (win_tick s) \<and> win_protect env (now s) (mprot s) a sz p"
    using assms(2) unfolding sys_protect_def by (auto split: if_splits option.splits)
  then consider (fail) "r = None" "s' = win_tick s"
    | (ok) "r \<noteq> None" "s' = set_committed a sz (Some p) (win_tick s)" "win_protect env (now s) (mprot s) a sz p"
    by blast
  then have "calm s s' \<and> win_ok env s' \<and> (r \<noteq> None \<longrightarrow> in_region a (unat sz) x \<longrightarrow> mprot s' x = Some p)"
  proof cases
    case fail
    with assms(1) show ?thesis by (simp add: calm_def same_mapping_def)
  next
    case ok
    have m: "mprot s' x = None \<longleftrightarrow> mprot s x = None" for x
      using k [OF ok(3)] by (simp add: ok(2))
    have "same_handle s s'" by (simp add: ok(2) same_handle_def set_committed_def win_tick_def)
    moreover have "win_ok env s'" by (rule win_ok_mapping [OF assms(1)]) (simp_all add: m, simp_all add: ok(2))
    ultimately show ?thesis using m by (simp add: calm_def same_mapping_def) (simp add: ok(2))
  qed
  then show "calm s s'" "win_ok env s'" "r \<noteq> None \<Longrightarrow> in_region a (unat sz) x \<Longrightarrow> mprot s' x = Some p"
    by simp_all
qed

lemma page_protect_windows_calm:
  "win_ok env s \<Longrightarrow> funchook_page_protect_windows env p s = (r, s') \<Longrightarrow> calm s s' \<and> win_ok env s' \<and> r \<noteq> Inl Crash"
  using win_protect_calm [of env s p "page_size s" PROT_RX]
  by (auto simp: funchook_page_protect_windows_def split: prod.splits option.splits)

lemma page_unprotect_windows_calm:
  "win_ok env s \<Longrightarrow> funchook_page_unprotect_windows env p s = (r, s') \<Longrightarrow> calm s s' \<and> win_ok env s' \<and> r \<noteq> Inl Crash"
  using win_protect_calm [of env s p "page_size s" PROT_RW]
  by (auto simp: funchook_page_unprotect_windows_def split: prod.splits option.splits)

lemma unprotect_end_windows_calm:
  "win_ok env s \<Longrightarrow> funchook_unprotect_end_windows env ms s = (r, s') \<Longrightarrow> calm s s' \<and> win_ok env s' \<and> r \<noteq> Inl Crash"
  using win_protect_calm [of env s "wms_addr ms" "wms_size ms" "wms_protect ms"]
  by (auto simp: funchook_unprotect_end_windows_def split: prod.splits option.splits)

lemma unprotect_begin_windows_calm:
  assumes "win_ok env s" and "funchook_unprotect_begin_windows env a n s = (r, s')"
  shows "calm s s' \<and> win_ok env s' \<and> r \<noteq> Inl Crash \<and>
    (\<forall>ms. r = Inr ms \<longrightarrow> (wms_addr ms, wms_size ms) = code_pages_windows (page_size s) a n \<and>
      mprot s (wms_addr ms) = Some (wms_protect ms) \<and>
      (\<forall>x. in_region (wms_addr ms) (unat (wms_size ms)) x \<longrightarrow> mprot s' x = Some PROT_RWX))"
proof -
  obtain ad sz where c: "code_pages_windows (page_size s) a n = (ad, sz)"
    by (cases "code_pages_windows (page_size s) a n")
  obtain q s1 where m: "sys_protect env ad sz PROT_RWX s = (q, s1)"
    by (cases "sys_protect env ad sz PROT_RWX s")
  note w = win_protect_calm [OF assms(1) m]
  have "q = Some old \<Longrightarrow> mprot s ad = Some old" for old
    using m by (auto simp: sys_protect_def split: if_splits option.splits)
  then show ?thesis
    using assms(2) c m w by (auto simp: funchook_unprotect_begin_windows_def split: option.splits)
qed

lemma unprotect_begin_windows_writable:
  assumes "win_ok env s" and "funchook_unprotect_begin_windows env a n s = (Inr ms, s')"
    and "unat a + unat n + unat (page_size s) < 2 ^ LENGTH('a)"
  shows "writable s' (a :: 'a::len word) (unat n)"
proof -
  have "pow2_unit (page_size s)" using assms(1) by (simp add: win_ok_def page_sizes_def)
  note cover = whole_pages_cover [OF this assms(3)]
  have "mprot s' (a + of_nat i) = Some PROT_RWX" if "i < unat n" for i
    using unprotect_begin_windows_calm [OF assms(1,2)] cover [OF that]
    by (simp add: code_pages_windows_def Let_def)
  then show ?thesis by (simp add: writable_iff PROT_RWX_def)
qed

section \<open>The search for free memory\<close>

text \<open>A search changes nothing but the count of calls and the error message.\<close>

definition quiet :: "('a::len word, 'p, 'i) fh_state \<Rightarrow> ('a word, 'p, 'i) fh_state \<Rightarrow> bool" where
  "quiet s s' \<longleftrightarrow> same_handle s s' \<and> mem s' = mem s \<and> mprot s' = mprot s \<and> os_data s' = os_data s"

lemma quiet_refl [simp]: "quiet s s"
  by (simp add: quiet_def)

lemma quiet_tick [simp]: "quiet s (win_tick s') \<longleftrightarrow> quiet s s'"
  by (simp add: quiet_def same_handle_def win_tick_def)

lemma quiet_message [simp]: "quiet s (funchook_set_error_message m s') \<longleftrightarrow> quiet s s'"
  by (simp add: quiet_def same_handle_def funchook_set_error_message_def)

lemma quiet_trans: "quiet s t \<Longrightarrow> quiet t u \<Longrightarrow> quiet s u"
  by (auto simp: quiet_def same_handle_def)

lemma quiet_ok: "quiet s s' \<Longrightarrow> win_ok env s \<Longrightarrow> win_ok env s'"
  by (rule win_ok_cong [of env s]) (simp_all add: quiet_def same_handle_def)

lemma quiet_keeps: "quiet s s' \<Longrightarrow> keeps_mapped s s'"
  by (simp add: quiet_def keeps_mapped_def)

text \<open>Each round looks at a higher address, so the search ends.\<close>

lemma find_hint_ends:
  "win_ok env s \<Longrightarrow> \<exists>r s'. find_hint env hint s = Some (r, s') \<and> quiet s s' \<and> r \<noteq> Inl Crash"
proof (induction "2 ^ LENGTH('a) - unat hint" arbitrary: hint s rule: less_induct)
  case less
  let ?t = "win_tick s" and ?au = "allocation_unit (os_data s)"
  have q: "sys_query env hint s = (win_query env (now s) (mprot s) (reserved s) hint, ?t)"
    by (simp add: sys_query_def)
  show ?case
  proof (cases "win_query env (now s) (mprot s) (reserved s) hint")
    case None
    then show ?thesis by (subst find_hint.simps) (simp add: q)
  next
    case (Some mbi)
    let ?next = "base_address mbi + region_size mbi"
    have "unat hint < unat (base_address mbi) + unat (region_size mbi)"
      and "unat (base_address mbi) + unat (region_size mbi) < 2 ^ LENGTH('a)"
      using windows_kernelD(3) [of env, OF _ Some] less.prems by (simp_all add: win_ok_def)
    then have "unat hint < unat ?next" by (simp add: unat_word_ariths)
    moreover have "unat ?next < 2 ^ LENGTH('a)" by (rule unsigned_less)
    ultimately have "2 ^ LENGTH('a) - unat ?next < 2 ^ LENGTH('a) - unat hint"
      using unsigned_less [of hint, where 'a = nat] by linarith
    from less.hyps [OF this, of ?t] less.prems
    obtain r s' where "find_hint env ?next ?t = Some (r, s')" "quiet ?t s'" "r \<noteq> Inl Crash"
      by auto
    then show ?thesis
      using quiet_trans [of s ?t] by (subst find_hint.simps) (auto simp: q Some)
  qed
qed

section \<open>Reserving a unit\<close>

lemma find_unit_Some: "find_unit pl us = Some u \<Longrightarrow> u \<in> set us \<and> pi_addr u = pl"
  by (induction us) (auto simp: find_unit_def split: if_splits)

lemma find_unit_mem: "u \<in> set us \<Longrightarrow> distinct (map pi_addr us) \<Longrightarrow> find_unit (pi_addr u) us = Some u"
  by (induction us) (force simp: find_unit_def)+

lemma reserve_unit_ok:
  assumes ok: "win_ok env s" and r: "reserve_unit env hint s = (r, s')"
  shows "same_handle s s' \<and> mem s' = mem s \<and> mprot s' = mprot s \<and> win_ok env s' \<and> r \<noteq> Inl Crash \<and>
    (\<forall>pl. r = Inr pl \<longrightarrow> (\<exists>u. find_unit pl (unit_list (os_data s')) = Some u \<and>
       pi_used u = replicate (max_pages (allocation_unit (os_data s)) (page_size s)) False))"
proof -
  let ?au = "allocation_unit (os_data s)" and ?psz = "page_size s"
  let ?pl = "win_reserve env (now s) (mprot s) (reserved s) hint ?au"
  let ?u = "\<lparr>pi_addr = ?pl, num_used = 0, pi_used = replicate (max_pages ?au ?psz) False\<rparr>"
  have m: "max_pages ?au ?psz = unat (?au div ?psz - 1)" by (simp add: max_pages_def)
  have "quiet s s' \<and> (\<exists>c. r = Inl (Err c)) \<or>
      ?pl \<noteq> 0 \<and> r = Inr ?pl \<and> s' = set_units (?u # unit_list (os_data s)) (win_tick (win_tick s))"
    using r unfolding m by (auto simp: reserve_unit_def Let_def sys_reserve_def split: if_splits)
  then consider (fail) "quiet s s'" "\<exists>c. r = Inl (Err c)"
    | (ok) "?pl \<noteq> 0" "r = Inr ?pl" "s' = set_units (?u # unit_list (os_data s)) (win_tick (win_tick s))"
    by blast
  then show ?thesis
  proof cases
    case fail
    with quiet_ok [OF fail(1) ok] show ?thesis by (auto simp: quiet_def)
  next
    case ok': ok
    have g: "?au = win_granularity env" "?psz = win_page_size env" "windows_kernel env"
      and sz: "page_sizes ?au ?psz" and us: "units_ok ?au ?psz (mprot s) (unit_list (os_data s))"
      using ok by (simp_all add: win_ok_def)
    have k: "unit_at ?au ?pl" "?pl \<notin> set (reserved s)" "\<And>x. in_region ?pl (unat ?au) x \<Longrightarrow> mprot s x = None"
      using windows_kernelD(1) [OF g(3), of "now s" "mprot s" "reserved s" hint] ok'(1) by (simp_all add: g(1))
    have "mprot s x = None" if i: "i < max_pages ?au ?psz" and x: "in_region (unit_page ?psz ?pl i) (unat ?psz) x" for i x
    proof (rule k(3))
      have "unat (x - ?pl) div unat ?psz = Suc i" by (rule unit_page_region(2) [OF sz k(1) i x])
      moreover have "Suc i < Suc (max_pages ?au ?psz)" using i by simp
      ultimately have "unat (x - ?pl) < Suc (max_pages ?au ?psz) * unat ?psz"
        by (metis div_less_iff_less_mult less_mult_imp_div_less gr0I div_by_0 nat.distinct(1))
      then show "in_region ?pl (unat ?au) x"
        by (simp only: max_pages_size(1) [OF sz] in_region_def)
    qed
    then have "unit_ok ?au ?psz (mprot s) ?u"
      using k(1) ok'(1) by (simp add: unit_ok_def count_list_0_iff)
    then have "win_ok env s'"
      using ok us k(2) by (auto simp: ok'(3) win_ok_def units_ok_def reserved_def)
    moreover have "same_handle s s'"
      by (simp add: ok'(3) same_handle_def set_units_def win_tick_def)
    ultimately show ?thesis by (simp add: ok'(2,3) find_unit_def)
  qed
qed

section \<open>Committing a page\<close>

lemma count_list_update_True:
  "i < length xs \<Longrightarrow> count_list (xs[i := True]) True = count_list xs True + (if xs ! i then 0 else 1)"
  by (induction xs arbitrary: i) (auto simp: nth_Cons split: nat.splits)

lemma count_list_update_False:
  "i < length xs \<Longrightarrow> count_list (xs[i := False]) True + (if xs ! i then 1 else 0) = count_list xs True"
proof (induction xs arbitrary: i)
  case (Cons x xs)
  then show ?case
  proof (cases i)
    case (Suc j)
    with Cons.IH [of j] Cons.prems show ?thesis by (auto split: if_splits)
  qed simp
qed simp

text \<open>Different pages of units have no address in common.\<close>

lemma unit_pages_disjoint:
  assumes "page_sizes au psz" and "unit_at au p" and "unit_at au q"
    and "i < max_pages au psz" and "j < max_pages au psz"
    and "in_region (unit_page psz p i) (unat psz) x" and "in_region (unit_page psz q j) (unat psz) x"
  shows "p = q \<and> i = j"
proof -
  have "p = q"
    using unit_page_region(1) [OF assms(1,2,4,6)] unit_page_region(1) [OF assms(1,3,5,7)] by simp
  then show ?thesis
    using unit_page_region(2) [OF assms(1,2,4,6)] unit_page_region(2) [OF assms(1,3,5,7)] by simp
qed

text \<open>A flag of a unit changes together with the state of its page.\<close>

definition with_flag :: "nat \<Rightarrow> bool \<Rightarrow> 'a page_info \<Rightarrow> 'a page_info" where
  "with_flag i b u = u\<lparr>pi_used := (pi_used u)[i := b], num_used := int (count_list ((pi_used u)[i := b]) True)\<rparr>"

lemma with_flag_simps [simp]:
  "pi_addr (with_flag i b u) = pi_addr u" "pi_used (with_flag i b u) = (pi_used u)[i := b]"
  "num_used (with_flag i b u) = int (count_list ((pi_used u)[i := b]) True)"
  by (simp_all add: with_flag_def)

lemma update_unit_addrs: "(\<And>u. pi_addr (f u) = pi_addr u) \<Longrightarrow> map pi_addr (update_unit pl f us) = map pi_addr us"
  by (simp add: update_unit_def)

lemma update_unit_same:
  assumes "distinct (map pi_addr us)" and "u \<in> set us" and "f u = g u"
  shows "update_unit (pi_addr u) f us = update_unit (pi_addr u) g us"
proof -
  have "v = u" if "v \<in> set us" "pi_addr v = pi_addr u" for v
    using assms(1,2) that by (metis distinct_map inj_onD)
  then show ?thesis using assms(3) by (auto simp: update_unit_def)
qed

lemma units_ok_set_page:
  assumes sz: "page_sizes au psz" and us: "units_ok au psz pr us" and u: "u \<in> set us" and i: "i < max_pages au psz"
    and out: "\<And>x. \<not> in_region (unit_page psz (pi_addr u) i) (unat psz) x \<Longrightarrow> pr' x = pr x"
    and clear: "\<And>x. \<not> b \<Longrightarrow> in_region (unit_page psz (pi_addr u) i) (unat psz) x \<Longrightarrow> pr' x = None"
  shows "units_ok au psz pr' (update_unit (pi_addr u) (with_flag i b) us)"
proof -
  have d: "distinct (map pi_addr us)" and ok: "\<And>v. v \<in> set us \<Longrightarrow> unit_ok au psz pr v"
    using us by (simp_all add: units_ok_def)
  have at: "unit_at au (pi_addr v)" and len: "length (pi_used v) = max_pages au psz" if "v \<in> set us" for v
    using ok [OF that] by (simp_all add: unit_ok_def)
  have free: "pr' x = None"
    if v: "v \<in> set us" and j: "j < max_pages au psz" "\<not> pi_used v ! j" and ne: "pi_addr v \<noteq> pi_addr u \<or> j \<noteq> i"
      and x: "in_region (unit_page psz (pi_addr v) j) (unat psz) x" for v j x
  proof -
    have "\<not> in_region (unit_page psz (pi_addr u) i) (unat psz) x"
      using unit_pages_disjoint [OF sz at [OF v] at [OF u] j(1) i x] ne by blast
    then have "pr' x = pr x" by (rule out)
    then show ?thesis using ok [OF v] j x by (simp add: unit_ok_def)
  qed
  have "unit_ok au psz pr' w" if "w \<in> set (update_unit (pi_addr u) (with_flag i b) us)" for w
  proof -
    obtain v where v: "v \<in> set us" and w: "w = (if pi_addr v = pi_addr u then with_flag i b v else v)"
      using \<open>w \<in> set _\<close> by (auto simp: update_unit_def)
    show ?thesis
    proof (cases "pi_addr v = pi_addr u")
      case True
      then have "pr' x = None"
        if "j < max_pages au psz" "\<not> (pi_used v)[i := b] ! j" "in_region (unit_page psz (pi_addr v) j) (unat psz) x" for j x
        using that free [OF v that(1) _ _ that(3)] clear [of x] len [OF v] by (cases "j = i") auto
      then show ?thesis
        using ok [OF v] True by (auto simp: w unit_ok_def)
    next
      case False
      then show ?thesis using ok [OF v] free [OF v] by (auto simp: w unit_ok_def)
    qed
  qed
  then show ?thesis
    using d by (simp add: units_ok_def update_unit_addrs)
qed

lemma commit_page_ok:
  fixes pl :: "'a::len word"
  assumes ok: "win_ok env s" and u: "find_unit pl (unit_list (os_data s)) = Some u"
    and i: "i < max_pages (allocation_unit (os_data s)) (page_size s)" and free: "\<not> pi_used u ! i"
    and c: "commit_page env pl i s = (r, s')"
  shows "same_handle s s' \<and> win_ok env s' \<and> keeps_mapped s s' \<and> r \<noteq> Inl Crash \<and>
    (\<forall>p. r = Inr p \<longrightarrow> p = unit_page (page_size s) pl i \<and>
      unit_list (os_data s') = update_unit pl (with_flag i True) (unit_list (os_data s)) \<and>
      (\<forall>x. in_region p (unat (page_size s)) x \<longrightarrow> mprot s x = None \<and> mprot s' x = Some PROT_RW \<and> mem s' x = 0) \<and>
      (\<forall>x. \<not> in_region p (unat (page_size s)) x \<longrightarrow> mprot s' x = mprot s x))"
proof -
  let ?au = "allocation_unit (os_data s)" and ?psz = "page_size s" and ?us = "unit_list (os_data s)"
  let ?page = "unit_page ?psz pl i"
  have sz: "page_sizes ?au ?psz" and us: "units_ok ?au ?psz (mprot s) ?us"
    using ok by (simp_all add: win_ok_def)
  have um: "u \<in> set ?us" and pl: "pi_addr u = pl" using find_unit_Some [OF u] by simp_all
  have uo: "unit_ok ?au ?psz (mprot s) u" using us um by (simp add: units_ok_def)
  then have none: "mprot s x = None" if "in_region ?page (unat ?psz) x" for x
    using that i free by (simp add: unit_ok_def pl)
  let ?s1 = "set_committed ?page ?psz (Some PROT_RW) (win_tick
      (s\<lparr>mem := (\<lambda>x. if in_region ?page (unat ?psz) x \<and> mprot s x = None then 0 else mem s x)\<rparr>))"
  let ?f = "\<lambda>u. u\<lparr>pi_used := (pi_used u)[i := True], num_used := num_used u + 1\<rparr>"
  have "?f u = with_flag i True u"
    using uo i free count_list_update_True [of i "pi_used u"] by (simp add: with_flag_def unit_ok_def)
  then have f: "update_unit pl ?f ?us = update_unit pl (with_flag i True) ?us"
    using update_unit_same [of ?us u ?f "with_flag i True"] us um by (simp add: units_ok_def pl)
  have "quiet s s' \<and> (\<exists>c. r = Inl (Err c)) \<or>
      r = Inr ?page \<and> s' = set_units (update_unit pl (with_flag i True) ?us) ?s1"
    using c unfolding f [symmetric]
    by (auto simp: commit_page_def u Let_def sys_commit_def split: if_splits)
  then consider (fail) "quiet s s'" "\<exists>c. r = Inl (Err c)"
    | (ok) "r = Inr ?page" "s' = set_units (update_unit pl (with_flag i True) ?us) ?s1"
    by blast
  then show ?thesis
  proof cases
    case fail
    with quiet_ok [OF fail(1) ok] quiet_keeps [OF fail(1)] show ?thesis by (auto simp: quiet_def)
  next
    case ok': ok
    have pr: "mprot s' x = (if in_region ?page (unat ?psz) x then Some PROT_RW else mprot s x)"
      and m: "mem s' x = (if in_region ?page (unat ?psz) x \<and> mprot s x = None then 0 else mem s x)" for x
      by (simp_all add: ok'(2))
    have "units_ok ?au ?psz (mprot s') (update_unit (pi_addr u) (with_flag i True) ?us)"
      by (rule units_ok_set_page [OF sz us um i]) (simp_all add: pr pl)
    then have "win_ok env s'"
      using ok by (simp add: win_ok_def ok'(2) pl)
    moreover have "same_handle s s'"
      by (simp add: ok'(2) same_handle_def set_units_def set_committed_def win_tick_def)
    moreover have "keeps_mapped s s'"
      using none by (auto simp: keeps_mapped_def pr m)
    ultimately show ?thesis using none pr m by (simp add: ok'(1)) (simp add: ok'(2))
  qed
qed

section \<open>Allocating a page\<close>

text \<open>What \<open>funchook_page_alloc\<close> relies on of \<open>alloc_page_info\<close>, which both versions keep.\<close>

definition info_ok ::
    "'a word win_env \<Rightarrow> ('a::len word \<Rightarrow> ('a word, 'a word win_data, 'i) fh_state \<Rightarrow>
      ('a word result \<times> ('a word, 'a word win_data, 'i) fh_state) option) \<Rightarrow> bool" where
  "info_ok env alloc_info \<longleftrightarrow> (\<forall>func s. win_ok env s \<longrightarrow> (\<exists>r s'. alloc_info func s = Some (r, s') \<and>
     same_handle s s' \<and> mem s' = mem s \<and> mprot s' = mprot s \<and> win_ok env s' \<and> r \<noteq> Inl Crash \<and>
     (\<forall>pl. r = Inr pl \<longrightarrow> (\<exists>u. find_unit pl (unit_list (os_data s')) = Some u \<and>
       pi_used u = replicate (max_pages (allocation_unit (os_data s)) (page_size s)) False))))"

lemma info_okE:
  assumes "info_ok env alloc_info" and "win_ok env s"
  obtains r s' where "alloc_info func s = Some (r, s')" and "same_handle s s'" and "mem s' = mem s"
    and "mprot s' = mprot s" and "win_ok env s'" and "r \<noteq> Inl Crash"
    and "\<And>pl. r = Inr pl \<Longrightarrow> \<exists>u. find_unit pl (unit_list (os_data s')) = Some u \<and>
       pi_used u = replicate (max_pages (allocation_unit (os_data s)) (page_size s)) False"
  using assms unfolding info_ok_def by blast

lemma info_ok_64: "info_ok env (alloc_page_info_64 env)"
  unfolding info_ok_def
proof (intro allI impI)
  fix func and s :: "(u64, u64 win_data, 'i) fh_state"
  assume ok: "win_ok env s"
  obtain q t where f: "find_hint env func s = Some (q, t)" and t: "quiet s t" and q: "q \<noteq> Inl Crash"
    using find_hint_ends [OF ok] by blast
  have tf: "same_handle s t" "mem t = mem s" "mprot t = mprot s" "os_data t = os_data s" "page_size t = page_size s"
    using t by (simp_all add: quiet_def same_handle_def)
  have okt: "win_ok env t" by (rule quiet_ok [OF t ok])
  show "\<exists>r s'. alloc_page_info_64 env func s = Some (r, s') \<and>
     same_handle s s' \<and> mem s' = mem s \<and> mprot s' = mprot s \<and> win_ok env s' \<and> r \<noteq> Inl Crash \<and>
     (\<forall>pl. r = Inr pl \<longrightarrow> (\<exists>u. find_unit pl (unit_list (os_data s')) = Some u \<and>
       pi_used u = replicate (max_pages (allocation_unit (os_data s)) (page_size s)) False))"
  proof (cases q)
    case (Inl e)
    with f q tf okt show ?thesis by (simp add: alloc_page_info_64_def)
  next
    case (Inr hint)
    obtain r s' where r: "reserve_unit env hint t = (r, s')" by (cases "reserve_unit env hint t")
    note ro = reserve_unit_ok [OF okt r]
    have "alloc_page_info_64 env func s = Some (r, s')"
      by (simp add: alloc_page_info_64_def f Inr r)
    moreover have "same_handle s s'"
      using ro tf(1) same_handle_trans by blast
    ultimately show ?thesis using ro by (simp add: tf)
  qed
qed

lemma info_ok_32: "info_ok env (alloc_page_info_32 env)"
  unfolding info_ok_def
proof (intro allI impI)
  fix func and s :: "(u32, u32 win_data, 'i) fh_state"
  assume ok: "win_ok env s"
  obtain r s' where r: "reserve_unit env 0 s = (r, s')" by (cases "reserve_unit env 0 s")
  from reserve_unit_ok [OF ok r]
  show "\<exists>r s'. alloc_page_info_32 env func s = Some (r, s') \<and>
     same_handle s s' \<and> mem s' = mem s \<and> mprot s' = mprot s \<and> win_ok env s' \<and> r \<noteq> Inl Crash \<and>
     (\<forall>pl. r = Inr pl \<longrightarrow> (\<exists>u. find_unit pl (unit_list (os_data s')) = Some u \<and>
       pi_used u = replicate (max_pages (allocation_unit (os_data s)) (page_size s)) False))"
    by (auto simp: alloc_page_info_32_def r)
qed

lemma find_unit_page_Some:
  "find_unit_page avail_at psz n us = Some (pl, i) \<Longrightarrow>
     \<exists>u \<in> set us. pi_addr u = pl \<and> i < n \<and> \<not> pi_used u ! i \<and> avail_at (unit_page psz pl i)"
proof (induction us)
  case (Cons u us)
  show ?case
  proof (cases "List.find (\<lambda>i. \<not> pi_used u ! i \<and> avail_at (unit_page psz (pi_addr u) i)) [0..<n]")
    case None
    with Cons show ?thesis by auto
  next
    case (Some j)
    with Cons.prems have "pi_addr u = pl" "j = i" by simp_all
    with Some show ?thesis by (auto simp: find_Some_iff)
  qed
qed simp

text \<open>A page in use: its unit is in the list and its flag is set.\<close>

definition in_use :: "'a::len word \<Rightarrow> nat \<Rightarrow> 'a word \<Rightarrow> ('a word, 'a word win_data, 'z) os_state_scheme \<Rightarrow> bool" where
  "in_use pl i p s \<longleftrightarrow> p = unit_page (page_size s) pl i \<and>
     i < max_pages (allocation_unit (os_data s)) (page_size s) \<and>
     (\<exists>u. find_unit pl (unit_list (os_data s)) = Some u \<and> pi_used u ! i)"

lemma find_unit_update:
  assumes "find_unit pl us = Some u" and "\<And>u. pi_addr (f u) = pi_addr u"
  shows "find_unit pl (update_unit pl f us) = Some (f u)"
  using assms by (induction us) (auto simp: find_unit_def update_unit_def)

lemma page_alloc_windows_ok:
  fixes s :: "('a::len word, 'a word win_data, 'i) fh_state"
  assumes ok: "win_ok env s" and ai: "info_ok env alloc_info"
  shows "\<exists>r s'. funchook_page_alloc_windows alloc_info env avail_at func s = Some (r, s') \<and>
    same_handle s s' \<and> win_ok env s' \<and> keeps_mapped s s' \<and> r \<noteq> Inl Crash \<and>
    (\<forall>p. r = Inr p \<longrightarrow> (\<exists>pl i. in_use pl i p s') \<and>
      (\<forall>x. in_region p (unat (page_size s)) x \<longrightarrow> mprot s x = None \<and> mprot s' x = Some PROT_RW \<and> mem s' x = 0) \<and>
      (\<forall>x. \<not> in_region p (unat (page_size s)) x \<longrightarrow> mprot s' x = mprot s x))"
proof -
  let ?au = "allocation_unit (os_data s)" and ?psz = "page_size s"
  let ?n = "max_pages ?au ?psz"
  have sz: "page_sizes ?au ?psz" using ok by (simp add: win_ok_def)
  have m: "unat (?au div ?psz - 1) = ?n" by (simp add: max_pages_def)
  have commit: "\<exists>r s'. commit_page env pl i t = (r, s') \<and>
      same_handle s s' \<and> win_ok env s' \<and> keeps_mapped s s' \<and> r \<noteq> Inl Crash \<and>
      (\<forall>p. r = Inr p \<longrightarrow> (\<exists>pl i. in_use pl i p s') \<and>
        (\<forall>x. in_region p (unat ?psz) x \<longrightarrow> mprot s x = None \<and> mprot s' x = Some PROT_RW \<and> mem s' x = 0) \<and>
        (\<forall>x. \<not> in_region p (unat ?psz) x \<longrightarrow> mprot s' x = mprot s x))"
    if t: "win_ok env t" "same_handle s t" "mem t = mem s" "mprot t = mprot s"
      and u: "find_unit pl (unit_list (os_data t)) = Some u" and i: "i < ?n" and free: "\<not> pi_used u ! i" for t pl u i
  proof -
    have tz: "page_size t = ?psz" "allocation_unit (os_data t) = ?au"
      using t(1,2) ok by (simp_all add: same_handle_def win_ok_def)
    obtain r s' where c: "commit_page env pl i t = (r, s')" by (cases "commit_page env pl i t")
    note co = commit_page_ok [OF t(1) u _ free c, unfolded tz, OF i]
    have "in_use pl i p s'" if "r = Inr p" for p
    proof -
      have sz': "page_size s' = ?psz" "allocation_unit (os_data s') = ?au"
        using co t(2) ok by (simp_all add: same_handle_def win_ok_def)
      have "length (pi_used u) = ?n"
        using find_unit_Some [OF u] t(1) by (auto simp: win_ok_def units_ok_def unit_ok_def tz [symmetric])
      moreover have "find_unit pl (unit_list (os_data s')) = Some (with_flag i True u)"
        using co that find_unit_update [OF u, of "with_flag i True"] by simp
      ultimately show ?thesis
        using co that i by (simp add: in_use_def sz')
    qed
    moreover have "same_handle s s'" using t(2) co same_handle_trans by blast
    moreover have "keeps_mapped s s'" using co t(3,4) by (simp add: keeps_mapped_def)
    ultimately show ?thesis using co t(4) by (intro exI [of _ r] exI [of _ s']) (auto simp: c)
  qed
  show ?thesis
  proof (cases "find_unit_page avail_at ?psz ?n (unit_list (os_data s))")
    case (Some q)
    obtain pl i where q: "q = (pl, i)" by (cases q)
    obtain u where "u \<in> set (unit_list (os_data s))" "pi_addr u = pl" "i < ?n" "\<not> pi_used u ! i"
      using find_unit_page_Some Some q by blast
    moreover from this have "find_unit pl (unit_list (os_data s)) = Some u"
      using find_unit_mem [of u "unit_list (os_data s)"] ok by (simp add: win_ok_def units_ok_def)
    ultimately show ?thesis
      using commit [OF ok same_handle_refl refl refl, of pl u i] Some
      by (auto simp: funchook_page_alloc_windows_def m q)
  next
    case None
    obtain r t where a: "alloc_info func s = Some (r, t)" "same_handle s t" "mem t = mem s" "mprot t = mprot s"
      "win_ok env t" "r \<noteq> Inl Crash"
      and new: "\<And>pl. r = Inr pl \<Longrightarrow> \<exists>u. find_unit pl (unit_list (os_data t)) = Some u \<and> pi_used u = replicate ?n False"
      using info_okE [OF ai ok] by metis
    show ?thesis
    proof (cases r)
      case (Inl e)
      with a None show ?thesis by (simp add: funchook_page_alloc_windows_def m keeps_mapped_def)
    next
      case (Inr pl)
      obtain u where "find_unit pl (unit_list (os_data t)) = Some u" "pi_used u = replicate ?n False"
        using new [OF Inr] by blast
      with commit [OF a(5,2,3,4), of pl u 0] max_pages_size(2) [OF sz] a(1) None Inr show ?thesis
        by (auto simp: funchook_page_alloc_windows_def m)
    qed
  qed
qed

section \<open>Releasing a page\<close>

lemma units_ok_filter:
  "units_ok au psz pr us \<Longrightarrow> units_ok au psz pr (filter P us)"
  by (auto simp: units_ok_def distinct_map_filter)

text \<open>The unit and the index \<open>funchook_page_free\<close> computes.\<close>

lemma free_index:
  fixes pl :: "'a::len word"
  assumes "page_sizes au psz" and "unit_at au pl" and "i < max_pages au psz"
  shows "unit_page psz pl i AND NOT (au - 1) = pl"
    and "unat ((unit_page psz pl i - pl) div psz - 1) = i"
proof -
  have "0 < unat psz" using assms(1) pow2_unit_pos by (auto simp: page_sizes_def)
  then have x: "in_region (unit_page psz pl i) (unat psz) (unit_page psz pl i)"
    by (simp add: in_region_def)
  note r = unit_page_region [OF assms x]
  then show "unit_page psz pl i AND NOT (au - 1) = pl" by (simp add: ROUND_DOWN_def)
  have "unat ((unit_page psz pl i - pl) div psz) = Suc i"
    using r(2) by (simp add: unat_div)
  then have "(unit_page psz pl i - pl) div psz = of_nat (Suc i)"
    by (metis of_nat_unat ucast_id)
  moreover have "unat (of_nat i :: 'a word) = i"
    using less_trans [OF assms(3) [unfolded max_pages_def] unsigned_less [where 'a = nat]]
    by (simp only: unat_of_nat mod_less)
  ultimately show "unat ((unit_page psz pl i - pl) div psz - 1) = i" by simp
qed

lemma page_free_windows_ok:
  fixes p :: "'a::len word"
  assumes ok: "win_ok env s" and use: "in_use pl i p s"
    and f: "funchook_page_free_windows env p s = (r, s')"
  shows "same_handle s s' \<and> win_ok env s' \<and> mem s' = mem s \<and> r \<noteq> Inl Crash \<and>
    (\<forall>x. \<not> in_region p (unat (page_size s)) x \<longrightarrow> mprot s' x = mprot s x) \<and>
    (r = Inr () \<longrightarrow> (\<forall>x. in_region p (unat (page_size s)) x \<longrightarrow> mprot s' x = None) \<and> \<not> in_use pl i p s')"
proof -
  let ?au = "allocation_unit (os_data s)" and ?psz = "page_size s" and ?us = "unit_list (os_data s)"
  let ?n = "max_pages ?au ?psz"
  have sz: "page_sizes ?au ?psz" and us: "units_ok ?au ?psz (mprot s) ?us"
    using ok by (simp_all add: win_ok_def)
  obtain u where p: "p = unit_page ?psz pl i" and i: "i < ?n" and u: "find_unit pl ?us = Some u" "pi_used u ! i"
    using use by (auto simp: in_use_def)
  have um: "u \<in> set ?us" and pl: "pi_addr u = pl" using find_unit_Some [OF u(1)] by simp_all
  have uo: "unit_ok ?au ?psz (mprot s) u" using us um by (simp add: units_ok_def)
  note idx = free_index [OF sz _ i, of pl, folded p]
  have at: "unit_at ?au pl" and len: "length (pi_used u) = ?n" and cnt: "num_used u = int (count_list (pi_used u) True)"
    using uo by (simp_all add: unit_ok_def pl)
  let ?s1 = "set_committed p ?psz None (win_tick s)"
  let ?u' = "u\<lparr>num_used := num_used u - 1, pi_used := (pi_used u)[i := False]\<rparr>"
  let ?us' = "update_unit pl (with_flag i False) ?us" and ?us'' = "filter (\<lambda>v. pi_addr v \<noteq> pl) ?us"
  have u': "?u' = with_flag i False u"
    using count_list_update_False [of i "pi_used u"] u(2) len i cnt by (simp add: with_flag_def)
  then have f1: "update_unit pl (\<lambda>_. ?u') ?us = ?us'"
    using update_unit_same [of ?us u "\<lambda>_. ?u'" "with_flag i False"] us um by (simp add: units_ok_def pl)
  have "quiet s s' \<and> (\<exists>c. r = Inl (Err c)) \<or> r = Inr () \<and> s' = set_units ?us' ?s1 \<or>
      r \<noteq> Inl Crash \<and> (\<exists>t. quiet (set_units ?us'' ?s1) t \<and> s' = t)"
    using f i len unfolding f1 [symmetric]
    by (auto simp: funchook_page_free_windows_def Let_def sys_decommit_def idx [OF at] u(1) split: if_splits)
  then consider (fail) "quiet s s'" "\<exists>c. r = Inl (Err c)"
    | (clear) "r = Inr ()" "s' = set_units ?us' ?s1"
    | (release) "r \<noteq> Inl Crash" "quiet (set_units ?us'' ?s1) s'"
    by blast
  then show ?thesis
  proof cases
    case fail
    with quiet_ok [OF fail(1) ok] show ?thesis by (auto simp: quiet_def)
  next
    case clear
    have pr: "mprot s' x = (if in_region p (unat ?psz) x then None else mprot s x)" for x
      by (simp add: clear(2))
    have "units_ok ?au ?psz (mprot s') (update_unit (pi_addr u) (with_flag i False) ?us)"
      by (rule units_ok_set_page [OF sz us um i]) (simp_all add: pr pl p)
    then have "win_ok env s'"
      using ok by (simp add: win_ok_def clear(2) pl)
    moreover have "same_handle s s'"
      by (simp add: clear(2) same_handle_def set_units_def set_committed_def win_tick_def)
    moreover have "\<not> in_use pl i p s'"
      using find_unit_update [OF u(1), of "with_flag i False"] len i by (auto simp: in_use_def clear(2))
    ultimately show ?thesis by (simp add: clear(1) pr) (simp add: clear(2))
  next
    case release
    let ?t = "set_units ?us'' ?s1"
    have pr: "mprot ?t x = (if in_region p (unat ?psz) x then None else mprot s x)" for x
      by simp
    have "units_ok ?au ?psz (mprot ?t) ?us''"
      by (rule units_ok_mapping [OF units_ok_filter [OF us]]) simp
    then have okt: "win_ok env ?t" using ok by (simp add: win_ok_def)
    have "same_handle s ?t"
      by (simp add: same_handle_def set_units_def set_committed_def win_tick_def)
    then have "same_handle s s'"
      using release(2) same_handle_trans by (auto simp: quiet_def)
    moreover have "find_unit pl ?us'' = None"
      by (auto simp: find_unit_def find_None_iff)
    then have "\<not> in_use pl i p s'"
      using release(2) by (simp add: in_use_def quiet_def)
    ultimately show ?thesis
      using release quiet_ok [OF release(2) okt] by (simp add: quiet_def)
  qed
qed

section \<open>The contract holds\<close>

lemma in_use_message [simp]: "in_use pl i p (funchook_set_error_message m s) = in_use pl i p s"
  by (simp add: in_use_def)

lemma windows_alloc:
  assumes "info_ok env alloc_info" and "win_ok env s"
    and "os_page_alloc (windows_ops alloc_info avail env resolve) f d s = (r, s')"
  shows "same_handle s s' \<and> win_ok env s' \<and> keeps_mapped s s' \<and> r \<noteq> Inl Crash \<and>
    (\<forall>p. r = Inr p \<longrightarrow> (\<exists>pl i. in_use pl i p s') \<and>
      (\<forall>x. in_region p (unat (page_size s)) x \<longrightarrow> mprot s x = None \<and> mprot s' x = Some PROT_RW \<and> mem s' x = 0) \<and>
      (\<forall>x. \<not> in_region p (unat (page_size s)) x \<longrightarrow> mprot s' x = mprot s x))"
  using page_alloc_windows_ok [OF assms(2,1), of "\<lambda>p. avail p f d" f] assms(3)
  by (auto simp: windows_ops_def)

lemma windows_give_back:
  assumes ai: "info_ok env alloc_info" and ok: "win_ok env s"
    and a: "os_page_alloc (windows_ops alloc_info avail env resolve) f d s = (Inr p, s1)"
    and g: "os_page_free (windows_ops alloc_info avail env resolve) p (funchook_set_error_message msg s1) = (r, s')"
  shows "same_handle s1 s' \<and> win_ok env s' \<and> mem s' = mem s1 \<and>
    (\<forall>x. \<not> in_region p (unat (page_size s)) x \<longrightarrow> mprot s' x = mprot s1 x)"
proof -
  note al = windows_alloc [OF ai ok a]
  obtain pl i where "in_use pl i p (funchook_set_error_message msg s1)" using al by auto
  moreover have "win_ok env (funchook_set_error_message msg s1)" using al by simp
  moreover have "funchook_page_free_windows env p (funchook_set_error_message msg s1) = (r, s')"
    using g by (simp add: windows_ops_def)
  ultimately have fr: "same_handle (funchook_set_error_message msg s1) s' \<and> win_ok env s' \<and> mem s' = mem s1 \<and>
      (\<forall>x. \<not> in_region p (unat (page_size s1)) x \<longrightarrow> mprot s' x = mprot s1 x)"
    using page_free_windows_ok [of env "funchook_set_error_message msg s1" pl i p r s'] by simp
  then show ?thesis
    using al same_handle_trans [OF same_handle_message [of s1 msg], of s'] by (simp add: same_handle_def)
qed

interpretation windows64: os_layer "windows_ops (alloc_page_info_64 env) avail env resolve" "win_ok env"
  for env :: "u64 win_env" and avail :: "u64 \<Rightarrow> u64 \<Rightarrow> 'd \<Rightarrow> bool"
    and resolve :: "u64 \<Rightarrow> (u64, u64 win_data, 'i) fh_state \<Rightarrow> u64"
proof (unfold_locales, goal_cases)
  case (1 s s') then show ?case by (rule win_ok_cong)
next
  case (2 s p r s') then show ?case using page_protect_windows_calm [of env s p r s'] by (simp add: windows_ops_def)
next
  case (3 s p r s') then show ?case using page_unprotect_windows_calm [of env s p r s'] by (simp add: windows_ops_def)
next
  case (4 s a n q s') then show ?case using unprotect_begin_windows_calm [of env s a n q s'] by (simp add: windows_ops_def)
next
  case (5 s a n ms s') then show ?case
    by (intro unprotect_begin_windows_writable) (simp_all add: windows_ops_def)
next
  case (6 s ms r s') then show ?case using unprotect_end_windows_calm [of env s ms r s'] by (simp add: windows_ops_def)
next
  case (7 s f d pr s')
  show ?case using windows_alloc [OF info_ok_64 7] by (simp only: simp_thms)
next
  case (8 s f d p s' y x)
  have "mprot s x = None \<and> mprot s' x = Some PROT_RW"
    using windows_alloc [OF info_ok_64 8(1,2)] 8(5) by (simp only: sum.inject)
  then show ?case by (simp only: option.distinct simp_thms)
next
  case (9 s f d p s1 msg r s') then show ?case by (rule windows_give_back [OF info_ok_64])
qed

interpretation windows32: os_layer "windows_ops (alloc_page_info_32 env) avail env resolve" "win_ok env"
  for env :: "u32 win_env" and avail :: "u32 \<Rightarrow> u32 \<Rightarrow> 'd \<Rightarrow> bool"
    and resolve :: "u32 \<Rightarrow> (u32, u32 win_data, 'i) fh_state \<Rightarrow> u32"
proof (unfold_locales, goal_cases)
  case (1 s s') then show ?case by (rule win_ok_cong)
next
  case (2 s p r s') then show ?case using page_protect_windows_calm [of env s p r s'] by (simp add: windows_ops_def)
next
  case (3 s p r s') then show ?case using page_unprotect_windows_calm [of env s p r s'] by (simp add: windows_ops_def)
next
  case (4 s a n q s') then show ?case using unprotect_begin_windows_calm [of env s a n q s'] by (simp add: windows_ops_def)
next
  case (5 s a n ms s') then show ?case
    by (intro unprotect_begin_windows_writable) (simp_all add: windows_ops_def)
next
  case (6 s ms r s') then show ?case using unprotect_end_windows_calm [of env s ms r s'] by (simp add: windows_ops_def)
next
  case (7 s f d pr s')
  show ?case using windows_alloc [OF info_ok_32 7] by (simp only: simp_thms)
next
  case (8 s f d p s' y x)
  have "mprot s x = None \<and> mprot s' x = Some PROT_RW"
    using windows_alloc [OF info_ok_32 8(1,2)] 8(5) by (simp only: sum.inject)
  then show ?case by (simp only: option.distinct simp_thms)
next
  case (9 s f d p s1 msg r s') then show ?case by (rule windows_give_back [OF info_ok_32])
qed

end
