(* ===== verification/FH_Disasm.thy ===== *)
theory FH_Disasm
  imports FH_Base
begin

text \<open>
  What the trampoline builder sees of a disassembler (src/src/disasm.h): a sequence of
  instructions, each with its size, address, branch address and IP-relative fields. The
  disassembler libraries (Capstone, distorm, Zydis) are not under src/: their output is a
  parameter of the model.
\<close>

section \<open>Instructions as the x86 code sees them\<close>

text \<open>\<open>rip_relative_t\<close> of src/src/disasm.h.\<close>

record 'ad rip_relative =
  rr_addr :: "'ad"
  rr_raddr :: "'ad"
  rr_offset :: int
  rr_size :: int

definition no_rip_relative :: "('a::len word) rip_relative" where
  "no_rip_relative = \<lparr>rr_addr = 0, rr_raddr = 0, rr_offset = 0, rr_size = 0\<rparr>"

text \<open>
  The values of \<open>funchook_insn_size\<close>, \<open>funchook_insn_address\<close>,
  \<open>funchook_insn_branch_address\<close> and of the two results of
  \<open>funchook_disasm_x86_rip_relative\<close> for one instruction.
\<close>

record 'ad x86_insn =
  insn_size :: nat
  insn_address :: "'ad"
  insn_branch_address :: "'ad"
  rel_disp :: "'ad rip_relative"
  rel_imm :: "'ad rip_relative"

text \<open>
  Offset of an instruction of a disassembled sequence: the sum of the sizes before it.
\<close>

fun insn_starts :: "nat \<Rightarrow> 'ad x86_insn list \<Rightarrow> nat list" where
  "insn_starts off [] = []"
| "insn_starts off (i # is) = off # insn_starts (off + insn_size i) is"

section \<open>Errors with their texts\<close>

text \<open>
  An error return of the disassembler or of the trampoline builder carries the text it sets in the handle.
\<close>

type_synonym 'r with_message = "(failure \<times> string) + 'r"

definition crash :: "'r with_message" where
  "crash = Inl (Crash, [])"

section \<open>Iterating over instructions\<close>

text \<open>
  \<open>funchook_disasm_next\<close> of each back end steps through the instructions: it gives the
  next one and the advanced state, or reports \<open>FUNCHOOK_ERROR_END_OF_INSTRUCTION\<close>
  (\<open>None\<close>). \<open>drain\<close> is the loop
  \<open>while (funchook_disasm_next(&disasm, &insn) == 0)\<close> with a bound on its rounds.
\<close>

primrec drain :: "('s \<Rightarrow> ('insn \<times> 's) option) \<Rightarrow> nat \<Rightarrow> 's \<Rightarrow> 'insn list option" where
  "drain disasm_next 0 s = None"
| "drain disasm_next (Suc fuel) s =
     (case disasm_next s of None \<Rightarrow> Some []
      | Some (i, s') \<Rightarrow> map_option (Cons i) (drain disasm_next fuel s'))"

text \<open>The contract of an iterator: it enumerates a finite list.\<close>

locale insn_iterator =
  fixes disasm_next :: "'s \<Rightarrow> ('insn \<times> 's) option"
    and rest :: "'s \<Rightarrow> 'insn list"
  assumes next_None: "disasm_next s = None \<longleftrightarrow> rest s = []"
    and next_Some: "disasm_next s = Some (i, s') \<Longrightarrow> rest s = i # rest s'"
begin

lemma drain_rest: "length (rest s) < fuel \<Longrightarrow> drain disasm_next fuel s = Some (rest s)"
proof (induction fuel arbitrary: s)
  case 0
  then show ?case by simp
next
  case (Suc fuel)
  show ?case
  proof (cases "disasm_next s")
    case None
    then have "rest s = []" using next_None by blast
    with None show ?thesis by simp
  next
    case (Some p)
    then obtain i s' where s': "disasm_next s = Some (i, s')" by (cases p) simp
    with next_Some have "rest s = i # rest s'" by blast
    with Suc s' show ?thesis by simp
  qed
qed

lemma drain_Some: "drain disasm_next fuel s = Some is \<Longrightarrow> is = rest s"
proof (induction fuel arbitrary: s "is")
  case 0
  then show ?case by simp
next
  case (Suc fuel)
  then show ?case
    using next_None next_Some by (auto split: option.splits prod.splits)
qed

end

end
