(* ===== verification/Arch_X86.thy ===== *)
theory Arch_X86
  imports FH_Disasm
begin

text \<open>
  The x86 and x86_64 code generator, src/src/arch_x86.c with the constants of
  src/src/arch_x86.h and the transit templates of src/src/template.inc.

  Pointers into the function being hooked and into the trampoline buffer are kept as offsets
  from the start of the function and of the buffer (\<open>ctx.src - func\<close>,
  \<open>ctx.dst - ctx.dst_base\<close>). Definitions with a free address width serve both
  processors; the two preprocessor configurations are the instances at the end.
\<close>

section \<open>Constants\<close>

definition MAX_INSN_LEN :: nat where "MAX_INSN_LEN = 16"
definition MAX_INSN_CHECK_SIZE :: nat where "MAX_INSN_CHECK_SIZE = 256"
definition REL2G_JUMP_SIZE :: nat where "REL2G_JUMP_SIZE = 5"

definition TRAMPOLINE_SIZE :: nat where
  "TRAMPOLINE_SIZE = REL2G_JUMP_SIZE + (MAX_INSN_LEN - 1) + REL2G_JUMP_SIZE"

definition MAX_PATCH_CODE_SIZE :: nat where
  "MAX_PATCH_CODE_SIZE = REL2G_JUMP_SIZE + MAX_INSN_LEN - 1"

definition NOP_INSTRUCTION :: u8 where "NOP_INSTRUCTION = 0x90"

lemmas x86_sizes = MAX_INSN_LEN_def MAX_INSN_CHECK_SIZE_def REL2G_JUMP_SIZE_def
  TRAMPOLINE_SIZE_def MAX_PATCH_CODE_SIZE_def

text \<open>The transit code of src/src/template.inc.\<close>

definition TRANSIT_CODE_TEMPLATE_x86_64 :: "u8 list" where
  "TRANSIT_CODE_TEMPLATE_x86_64 =
    [0x4c, 0x8d, 0x1d, 0xf9, 0xff, 0xff, 0xff,
     0xff, 0x25, 0x00, 0x00, 0x00, 0x00,
     0x0f, 0x1f, 0x40, 0x00,
     0x0f, 0x1f, 0x40, 0x00]"

definition TRANSIT_HOOK_CALLER_ADDR_x86_64 :: nat where
  "TRANSIT_HOOK_CALLER_ADDR_x86_64 = 0xd"

definition TRANSIT_CODE_TEMPLATE_x86 :: "u8 list" where
  "TRANSIT_CODE_TEMPLATE_x86 =
    [0xe8, 0x09, 0x00, 0x00, 0x00,
     0x8d, 0x40, 0xfb,
     0xff, 0xa0, 0x14, 0x00, 0x00, 0x00,
     0x8b, 0x04, 0x24,
     0xc3,
     0x66, 0x90,
     0x0f, 0x1f, 0x40, 0x00]"

definition TRANSIT_HOOK_CALLER_ADDR_x86 :: nat where
  "TRANSIT_HOOK_CALLER_ADDR_x86 = 0x14"

section \<open>Displacements to fix and the context of the builder\<close>

record 'ad ip_displacement_entry =
  dst_addr :: "'ad"
  src_addr_offset :: int
  pos_offset :: int

text \<open>\<open>ip_displacement_t\<close>: the array \<open>disp[2]\<close> as a pair.\<close>

type_synonym 'ad ip_displacement = "'ad ip_displacement_entry \<times> 'ad ip_displacement_entry"

definition no_displacement :: "('a::len word) ip_displacement_entry" where
  "no_displacement = \<lparr>dst_addr = 0, src_addr_offset = 0, pos_offset = 0\<rparr>"

record 'ad make_trampoline_context =
  rip_disp :: "'ad ip_displacement"
  src :: nat
  dst :: nat
  dst_buf :: "u8 list"

definition buf_read_u32 :: "int \<Rightarrow> u8 list \<Rightarrow> u32 option" where
  "buf_read_u32 off buf =
     (if 0 \<le> off \<and> nat off + 4 \<le> length buf
      then Some (of_le_bytes (buf_read (nat off) 4 buf)) else None)"

definition buf_write_u32 :: "int \<Rightarrow> u32 \<Rightarrow> u8 list \<Rightarrow> u8 list option" where
  "buf_write_u32 off w buf = (if 0 \<le> off then buf_write (nat off) (le_bytes 4 w) buf else None)"

section \<open>Fixing IP-relative fields\<close>

definition handle_rip_relative ::
    "('a::len word) make_trampoline_context \<Rightarrow> 'a word rip_relative \<Rightarrow> nat \<Rightarrow>
      'a word make_trampoline_context with_message" where
  "handle_rip_relative ctx rel isize =
     (if rr_size rel = 32 then
        (case buf_read_u32 (int (dst ctx) + rr_offset rel) (dst_buf ctx) of
           None \<Rightarrow> crash
         | Some v \<Rightarrow>
             if v \<noteq> ucast (rr_raddr rel) then
               Inl (Err ERROR_IP_RELATIVE_OFFSET,
                 ''Invalid ip-relative offset '' @ fmt_d (rr_offset rel) @
                 ''. The value at the offset should be '' @
                 fmt_08x (unat (ucast (rr_raddr rel) :: u32)) @ '' but '' @ fmt_08x (unat v))
             else
               Inr (ctx\<lparr>rip_disp :=
                 (fst (rip_disp ctx),
                  \<lparr>dst_addr = rr_addr rel,
                   src_addr_offset = int (dst ctx + isize),
                   pos_offset = int (dst ctx) + rr_offset rel\<rparr>)\<rparr>))
      else if rr_size rel \<noteq> 0 then
        Inl (Err ERROR_CANNOT_FIX_IP_RELATIVE,
          ''Could not fix ip-relative address. The size is not 32.'')
      else Inr ctx)"

section \<open>Position-independent i386 code that reads its own address\<close>

text \<open>
  The results of the two handlers: \<open>Some (True, ctx)\<close> when the sequence was replaced,
  \<open>Some (False, ctx)\<close> when it is not of the special form, \<open>None\<close> for a write past the
  end of the trampoline.
\<close>

type_synonym 'ad pc_handler =
  "('ad \<Rightarrow> u8) \<Rightarrow> 'ad \<Rightarrow> 'ad make_trampoline_context \<Rightarrow> 'ad x86_insn \<Rightarrow>
     (bool \<times> 'ad make_trampoline_context) option"

text \<open>The opcode of \<open>movl imm32, reg\<close> for a thunk \<open>movl (%esp), reg; ret\<close>.\<close>

fun get_pc_thunk_opcode :: "u32 \<Rightarrow> u8 option" where
  "get_pc_thunk_opcode w =
     (if w = 0xc324048b then Some 0xb8
      else if w = 0xc3241c8b then Some 0xbb
      else if w = 0xc3240c8b then Some 0xb9
      else if w = 0xc324148b then Some 0xba
      else if w = 0xc324348b then Some 0xbe
      else if w = 0xc3243c8b then Some 0xbf
      else if w = 0xc3242c8b then Some 0xbd
      else None)"

definition handle_x86_get_pc_thunk :: "(32 word) pc_handler" where
  "handle_x86_get_pc_thunk m func ctx insn =
     (if m (func + of_nat (src ctx)) = 0xe8 then
        (let first_4_bytes = of_le_bytes (mem_read m (insn_branch_address insn) 4);
             eip = insn_address insn + 5
         in case get_pc_thunk_opcode first_4_bytes of
              None \<Rightarrow> Some (False, ctx)
            | Some opc \<Rightarrow>
                map_option
                  (\<lambda>buf. (True, ctx\<lparr>dst_buf := buf, dst := dst ctx + 5, src := src ctx + 5\<rparr>))
                  (buf_write (dst ctx) (opc # le_bytes 4 (eip :: u32)) (dst_buf ctx)))
      else Some (False, ctx))"

text \<open>The opcode of \<open>movl imm32, reg\<close> for \<open>call next; pop reg\<close>.\<close>

fun pop_opcode :: "u8 \<Rightarrow> u8 option" where
  "pop_opcode b =
     (if b = 0x58 then Some 0xb8
      else if b = 0x5b then Some 0xbb
      else if b = 0x59 then Some 0xb9
      else if b = 0x5a then Some 0xba
      else if b = 0x5e then Some 0xbe
      else if b = 0x5f then Some 0xbf
      else if b = 0x5d then Some 0xbd
      else None)"

definition handle_x86_get_pc_by_call_and_pop :: "(32 word) pc_handler" where
  "handle_x86_get_pc_by_call_and_pop m func ctx insn =
     (let s = func + of_nat (src ctx) in
      if m s = 0xe8 \<and> (of_le_bytes (mem_read m (s + 1) 4) :: u32) = 0 then
        (let eip = insn_address insn + 5
         in case pop_opcode (m (s + 5)) of
              None \<Rightarrow> Some (False, ctx)
            | Some opc \<Rightarrow>
                map_option
                  (\<lambda>buf. (True, ctx\<lparr>dst_buf := buf, dst := dst ctx + 5, src := src ctx + 6\<rparr>))
                  (buf_write (dst ctx) (opc # le_bytes 4 (eip :: u32)) (dst_buf ctx)))
      else Some (False, ctx))"

text \<open>Where \<open>__i386\<close> is not defined both handlers are the macro \<open>(0)\<close>.\<close>

definition no_pc_handler :: "'ad pc_handler" where
  "no_pc_handler m func ctx insn = Some (False, ctx)"


section \<open>Building the trampoline\<close>

text \<open>The last branch of the loop body: the instruction is copied and its fields are fixed.\<close>

definition copy_insn ::
    "('a::len word \<Rightarrow> u8) \<Rightarrow> 'a word \<Rightarrow> 'a word make_trampoline_context \<Rightarrow> 'a word x86_insn \<Rightarrow>
      'a word make_trampoline_context with_message" where
  "copy_insn m func ctx insn =
     (case buf_write (dst ctx) (mem_read m (func + of_nat (src ctx)) (insn_size insn)) (dst_buf ctx) of
        None \<Rightarrow> crash
      | Some buf \<Rightarrow>
          (case handle_rip_relative (ctx\<lparr>dst_buf := buf\<rparr>) (rel_disp insn) (insn_size insn) of
             Inl e \<Rightarrow> Inl e
           | Inr ctx1 \<Rightarrow>
               (case handle_rip_relative ctx1 (rel_imm insn) (insn_size insn) of
                  Inl e \<Rightarrow> Inl e
                | Inr ctx2 \<Rightarrow>
                    Inr (ctx2\<lparr>src := src ctx2 + insn_size insn,
                              dst := dst ctx2 + insn_size insn\<rparr>))))"

text \<open>
  One round of the loop up to the length test. The flag says that the handler for
  \<open>call; pop\<close> also took the following instruction.
\<close>

definition translate_insn ::
    "('a::len word) pc_handler \<Rightarrow> 'a word pc_handler \<Rightarrow> ('a word \<Rightarrow> u8) \<Rightarrow> 'a word \<Rightarrow>
      'a word make_trampoline_context \<Rightarrow> 'a word x86_insn \<Rightarrow>
      (bool \<times> 'a word make_trampoline_context) with_message" where
  "translate_insn thunk call_pop m func ctx insn =
     (case thunk m func ctx insn of
        None \<Rightarrow> crash
      | Some (True, ctx') \<Rightarrow> Inr (False, ctx')
      | Some (False, _) \<Rightarrow>
          (case call_pop m func ctx insn of
             None \<Rightarrow> crash
           | Some (True, ctx') \<Rightarrow> Inr (True, ctx')
           | Some (False, _) \<Rightarrow>
               (case copy_insn m func ctx insn of
                  Inl e \<Rightarrow> Inl e
                | Inr ctx' \<Rightarrow> Inr (False, ctx'))))"

text \<open>A branch into the part of the function that the jump to the hook replaces.\<close>

definition jumps_back :: "'a::len word \<Rightarrow> 'a word x86_insn \<Rightarrow> bool" where
  "jumps_back func insn \<longleftrightarrow>
     func < rr_addr (rel_imm insn) \<and> rr_addr (rel_imm insn) < func + of_nat REL2G_JUMP_SIZE"

text \<open>What happens once five bytes have been moved.\<close>

definition finish_trampoline ::
    "'a::len word \<Rightarrow> 'a word x86_insn list \<Rightarrow> 'a word make_trampoline_context \<Rightarrow>
      ('a word make_trampoline_context \<times> nat) with_message" where
  "finish_trampoline func rest ctx =
     (case buf_write (dst ctx) [0xe9] (dst_buf ctx) of
        None \<Rightarrow> crash
      | Some buf \<Rightarrow>
          if list_ex (jumps_back func) rest then
            Inl (Err ERROR_FOUND_BACK_JUMP,
              ''instruction jumping back to the hot-patched region was found'')
          else
            Inr (ctx\<lparr>dst_buf := buf,
                 rip_disp :=
                   (\<lparr>dst_addr = func + of_nat (src ctx),
                     src_addr_offset = int (dst ctx) + 5,
                     pos_offset = int (dst ctx) + 1\<rparr>,
                    snd (rip_disp ctx))\<rparr>,
               dst ctx + 5))"

function mt_loop ::
    "('a::len word) pc_handler \<Rightarrow> 'a word pc_handler \<Rightarrow> ('a word \<Rightarrow> u8) \<Rightarrow> 'a word \<Rightarrow>
      'a word x86_insn list \<Rightarrow> 'a word make_trampoline_context \<Rightarrow>
      ('a word make_trampoline_context \<times> nat) with_message" where
  "mt_loop thunk call_pop m func [] ctx = Inr (ctx, 0)"
| "mt_loop thunk call_pop m func (insn # rest) ctx =
     (case translate_insn thunk call_pop m func ctx insn of
        Inl e \<Rightarrow> Inl e
      | Inr (extra, ctx') \<Rightarrow>
          (let rest' = (if extra then tl rest else rest)
           in if REL2G_JUMP_SIZE \<le> src ctx' then finish_trampoline func rest' ctx'
              else mt_loop thunk call_pop m func rest' ctx'))"
  by pat_completeness auto
termination
  by (relation "measure (\<lambda>(_, _, _, _, is, _). length is)") auto

text \<open>The check for NOP instructions behind a function of fewer than five bytes.\<close>

function skip_nops ::
    "('a::len word \<Rightarrow> u8) \<Rightarrow> 'a word \<Rightarrow> 'a word make_trampoline_context \<Rightarrow>
      'a word make_trampoline_context with_message" where
  "skip_nops m func ctx =
     (if src ctx < REL2G_JUMP_SIZE then
        (if m (func + of_nat (src ctx)) \<noteq> NOP_INSTRUCTION then
           Inl (Err ERROR_TOO_SHORT_INSTRUCTIONS, ''Too short instructions'')
         else skip_nops m func (ctx\<lparr>src := src ctx + 1\<rparr>))
      else Inr ctx)"
  by pat_completeness auto
termination
  by (relation "measure (\<lambda>(_, _, ctx). REL2G_JUMP_SIZE - src ctx)") auto

declare skip_nops.simps [simp del]

text \<open>
  \<open>funchook_make_trampoline\<close>: \<open>disasm\<close> is what the disassembler makes of the
  \<open>MAX_INSN_CHECK_SIZE\<close> bytes at the function, or its error. The result holds
  \<open>*disp\<close>, the trampoline and \<open>*trampoline_size\<close>.
\<close>

definition initial_context :: "('a::len word) make_trampoline_context" where
  "initial_context =
     \<lparr>rip_disp = (no_displacement, no_displacement), src = 0, dst = 0,
      dst_buf = replicate TRAMPOLINE_SIZE NOP_INSTRUCTION\<rparr>"

definition funchook_make_trampoline ::
    "('a::len word) pc_handler \<Rightarrow> 'a word pc_handler \<Rightarrow>
      (('a word \<Rightarrow> u8) \<Rightarrow> 'a word \<Rightarrow> nat \<Rightarrow> 'a word x86_insn list with_message) \<Rightarrow>
      ('a word \<Rightarrow> u8) \<Rightarrow> 'a word \<Rightarrow>
      ('a word ip_displacement \<times> u8 list \<times> nat) with_message" where
  "funchook_make_trampoline thunk call_pop disasm m func =
     (case disasm m func MAX_INSN_CHECK_SIZE of
        Inl e \<Rightarrow> Inl e
      | Inr insns \<Rightarrow>
          (case mt_loop thunk call_pop m func insns initial_context of
             Inl e \<Rightarrow> Inl e
           | Inr (ctx, trampoline_size) \<Rightarrow>
               (case skip_nops m func ctx of
                  Inl e \<Rightarrow> Inl e
                | Inr ctx' \<Rightarrow> Inr (rip_disp ctx', dst_buf ctx', trampoline_size))))"

abbreviation make_trampoline_x86_64 where
  "make_trampoline_x86_64 \<equiv>
     (funchook_make_trampoline no_pc_handler no_pc_handler
        :: _ \<Rightarrow> _ \<Rightarrow> u64 \<Rightarrow> _)"

abbreviation make_trampoline_x86 where
  "make_trampoline_x86 \<equiv>
     funchook_make_trampoline handle_x86_get_pc_thunk handle_x86_get_pc_by_call_and_pop"

section \<open>Writing jumps\<close>

text \<open>The bytes of \<open>jmp rel32\<close> at \<open>src\<close>, written to the start of \<open>out\<close>.\<close>

definition funchook_write_relative_2g_jump ::
    "'a::len word \<Rightarrow> 'a word \<Rightarrow> u8 list \<Rightarrow> u8 list option" where
  "funchook_write_relative_2g_jump s d out =
     buf_write 0 (0xe9 # le_bytes 4 (ucast (d - (s + 5)) :: u32)) out"

text \<open>
  The transit code with the address of \<open>funchook_hook_caller_asm\<close>; the parameters are
  the template of the processor, the position of the address in it and its size.
\<close>

definition funchook_write_jump_with_prehook ::
    "u8 list \<Rightarrow> nat \<Rightarrow> nat \<Rightarrow> 'a::len word \<Rightarrow> ('a word, u8) funchook_entry \<Rightarrow>
      ('a word, u8) funchook_entry option" where
  "funchook_write_jump_with_prehook template pos ptr_size hook_caller_asm entry =
     map_option (\<lambda>t. entry\<lparr>transit := t\<rparr>)
       (buf_write pos (le_bytes ptr_size hook_caller_asm) template)"

definition funchook_write_absolute_jump :: "u8 list \<Rightarrow> u64 \<Rightarrow> u8 list option" where
  "funchook_write_absolute_jump s d =
     buf_write 0 ([0xFF, 0x25, 0x00, 0x00, 0x00, 0x00] @ le_bytes 8 d) s"

definition funchook_within_32bit_relative :: "u64 \<Rightarrow> u64 \<Rightarrow> bool" where
  "funchook_within_32bit_relative s d \<longleftrightarrow>
     (let diff = sint (d - s) in - (2 ^ 31) \<le> diff \<and> diff \<le> 2 ^ 31 - 1)"

definition funchook_relative_2g_jump_avail :: "u64 \<Rightarrow> u64 \<Rightarrow> bool" where
  "funchook_relative_2g_jump_avail s d = funchook_within_32bit_relative (s + 5) d"


section \<open>Layout of entries in a page\<close>

text \<open>
  \<open>struct funchook_entry\<close> as its bytes, with the padding of the two ABIs. The offsets
  used by the code (\<open>entry->trampoline\<close>, \<open>page->entries\<close>, \<open>sizeof\<close>) follow from it;
  the lemmas below tie the constants to the byte sequences.
\<close>

definition entry_bytes_x86_64 :: "(u64, u8) funchook_entry \<Rightarrow> u8 list" where
  "entry_bytes_x86_64 e =
     transit e @ [0, 0, 0] @
     le_bytes 8 (original_target_func e) @ le_bytes 8 (target_func e) @
     le_bytes 8 (hook_func e) @ le_bytes 8 (prehook e) @ le_bytes 8 (user_data e) @
     le_bytes 4 (eflags e) @ le_bytes 4 (patch_code_size e) @
     trampoline e @ old_code e @ new_code e @ [0, 0, 0, 0, 0, 0, 0]"

definition entry_bytes_x86 :: "(u32, u8) funchook_entry \<Rightarrow> u8 list" where
  "entry_bytes_x86 e =
     transit e @
     le_bytes 4 (original_target_func e) @ le_bytes 4 (target_func e) @
     le_bytes 4 (hook_func e) @ le_bytes 4 (prehook e) @ le_bytes 4 (user_data e) @
     le_bytes 4 (eflags e) @ le_bytes 4 (patch_code_size e) @
     trampoline e @ old_code e @ new_code e @ [0, 0, 0]"

text \<open>What differs between the two processors.\<close>

record 'ad x86_cpu =
  transit_template :: "u8 list"
  transit_hook_caller_addr :: nat
  sizeof_pointer :: nat
  offsetof_trampoline :: nat
  sizeof_entry :: nat
  offsetof_entries :: nat
  jump_avail :: "'ad \<Rightarrow> 'ad \<Rightarrow> bool"
  write_absolute_jump :: "u8 list \<Rightarrow> 'ad \<Rightarrow> u8 list option"

definition CPU_X86_64 :: "u64 x86_cpu" where
  "CPU_X86_64 =
     \<lparr>transit_template = TRANSIT_CODE_TEMPLATE_x86_64,
      transit_hook_caller_addr = TRANSIT_HOOK_CALLER_ADDR_x86_64,
      sizeof_pointer = 8, offsetof_trampoline = 72, sizeof_entry = 144, offsetof_entries = 16,
      jump_avail = funchook_relative_2g_jump_avail,
      write_absolute_jump = funchook_write_absolute_jump\<rparr>"

text \<open>On i386 the branch for far targets is not compiled: every target is in reach.\<close>

definition CPU_X86 :: "u32 x86_cpu" where
  "CPU_X86 =
     \<lparr>transit_template = TRANSIT_CODE_TEMPLATE_x86,
      transit_hook_caller_addr = TRANSIT_HOOK_CALLER_ADDR_x86,
      sizeof_pointer = 4, offsetof_trampoline = 52, sizeof_entry = 120, offsetof_entries = 8,
      jump_avail = (\<lambda>_ _. True),
      write_absolute_jump = (\<lambda>s _. Some s)\<rparr>"

text \<open>\<open>&page->entries[idx]\<close>; the transit code is at offset 0 of an entry.\<close>

definition entry_address :: "('a::len word) x86_cpu \<Rightarrow> 'a word \<Rightarrow> nat \<Rightarrow> 'a word" where
  "entry_address cpu page idx = page + of_nat (offsetof_entries cpu + idx * sizeof_entry cpu)"

section \<open>Filling in an entry\<close>

text \<open>Rewrites one 32-bit field of the trampoline for its final address.\<close>

definition fix_displacement ::
    "('a::len word) x86_cpu \<Rightarrow> 'a word \<Rightarrow> 'a word ip_displacement_entry \<Rightarrow> u8 list \<Rightarrow>
      u8 list option" where
  "fix_displacement cpu ea d tramp =
     (let src_addr = ea + of_nat (offsetof_trampoline cpu) + of_int (src_addr_offset d)
      in buf_write_u32 (pos_offset d) (ucast (dst_addr d - src_addr)) tramp)"

text \<open>
  The jump from the target function: directly to the hook, or through the transit code. The
  result is the entry with \<open>new_code\<close> and \<open>transit\<close> set.
\<close>

definition write_entry_jump ::
    "('a::len word) x86_cpu \<Rightarrow> 'a word \<Rightarrow> 'a word \<Rightarrow> ('a word, u8) funchook_entry \<Rightarrow> 'a word \<Rightarrow>
      ('a word, u8) funchook_entry option" where
  "write_entry_jump cpu hook_caller_asm ea entry hook =
     (let nops = replicate MAX_PATCH_CODE_SIZE NOP_INSTRUCTION in
      if prehook entry \<noteq> 0 then
        Option.bind (funchook_write_relative_2g_jump (target_func entry) ea nops)
          (\<lambda>code. funchook_write_jump_with_prehook (transit_template cpu)
             (transit_hook_caller_addr cpu) (sizeof_pointer cpu) hook_caller_asm
             (entry\<lparr>new_code := code\<rparr>))
      else if \<not> jump_avail cpu (target_func entry) hook then
        Option.bind (funchook_write_relative_2g_jump (target_func entry) ea nops)
          (\<lambda>code. map_option (\<lambda>t. entry\<lparr>new_code := code, transit := t\<rparr>)
             (write_absolute_jump cpu (transit entry) hook))
      else
        Option.bind (funchook_write_relative_2g_jump (target_func entry) hook nops)
          (\<lambda>code. map_option (\<lambda>t. entry\<lparr>new_code := code, transit := t\<rparr>)
             (buf_write 0 [0] (transit entry))))"

definition funchook_fix_code ::
    "('a::len word) x86_cpu \<Rightarrow> 'a word \<Rightarrow> 'a word \<Rightarrow> ('a word, u8) funchook_entry \<Rightarrow>
      'a word ip_displacement \<Rightarrow> ('a word, u8) funchook_entry option" where
  "funchook_fix_code cpu hook_caller_asm ea entry disp =
     (let hook = (if hook_func entry \<noteq> 0 then hook_func entry
                  else ea + of_nat (offsetof_trampoline cpu));
          entry1 = entry\<lparr>patch_code_size := ucast (dst_addr (fst disp) - target_func entry)\<rparr>
      in Option.bind (write_entry_jump cpu hook_caller_asm ea entry1 hook)
           (\<lambda>entry2. Option.bind (fix_displacement cpu ea (fst disp) (trampoline entry2))
              (\<lambda>tramp.
                 if dst_addr (snd disp) \<noteq> 0 then
                   map_option (\<lambda>tramp'. entry2\<lparr>trampoline := tramp'\<rparr>)
                     (fix_displacement cpu ea (snd disp) tramp)
                 else Some (entry2\<lparr>trampoline := tramp\<rparr>))))"

text \<open>\<open>funchook_page_avail\<close>, compiled for x86_64 only.\<close>

definition funchook_page_avail ::
    "u64 \<Rightarrow> nat \<Rightarrow> u64 \<Rightarrow> u64 ip_displacement \<Rightarrow> bool" where
  "funchook_page_avail page idx addr disp =
     (let ea = entry_address CPU_X86_64 page idx;
          tramp = ea + of_nat (offsetof_trampoline CPU_X86_64)
      in if \<not> funchook_relative_2g_jump_avail addr ea then False
         else if \<not> funchook_within_32bit_relative
                     (tramp + of_int (src_addr_offset (fst disp))) (dst_addr (fst disp)) then False
         else if dst_addr (snd disp) \<noteq> 0 \<and>
                 \<not> funchook_within_32bit_relative
                     (tramp + of_int (src_addr_offset (snd disp))) (dst_addr (snd disp)) then False
         else True)"

section \<open>Addresses of saved arguments\<close>

text \<open>
  \<open>base_pointer\<close> points to machine words, so an index counts words. The three accessors
  for x86_64 on System V and on Windows, and for i386.
\<close>

definition arg_slot :: "nat \<Rightarrow> 'a::len word \<Rightarrow> int \<Rightarrow> 'a word" where
  "arg_slot word_size base i = base + of_int (int word_size * i)"

definition funchook_arg_get_int_reg_addr_x86_64 :: "bool \<Rightarrow> u64 \<Rightarrow> int \<Rightarrow> u64" where
  "funchook_arg_get_int_reg_addr_x86_64 win32 base pos =
     arg_slot 8 base (- (if win32 then 0x80 div 8 else 0xc0 div 8) + pos)"

definition funchook_arg_get_flt_reg_addr_x86_64 :: "bool \<Rightarrow> u64 \<Rightarrow> int \<Rightarrow> u64" where
  "funchook_arg_get_flt_reg_addr_x86_64 win32 base pos =
     arg_slot 8 base (- (if win32 then 0x60 div 8 else 0x80 div 8) + 2 * pos)"

definition funchook_arg_get_stack_addr_x86_64 :: "bool \<Rightarrow> u64 \<Rightarrow> int \<Rightarrow> u64" where
  "funchook_arg_get_stack_addr_x86_64 win32 base pos =
     arg_slot 8 base ((if win32 then 6 else 2) + pos)"

definition funchook_arg_get_int_reg_addr_x86 :: "u32 \<Rightarrow> int \<Rightarrow> u32" where
  "funchook_arg_get_int_reg_addr_x86 base pos = arg_slot 4 base (- 2 + pos)"

definition funchook_arg_get_flt_reg_addr_x86 :: "u32 \<Rightarrow> int \<Rightarrow> u32" where
  "funchook_arg_get_flt_reg_addr_x86 base pos = 0"

definition funchook_arg_get_stack_addr_x86 :: "u32 \<Rightarrow> int \<Rightarrow> u32" where
  "funchook_arg_get_stack_addr_x86 base pos = arg_slot 4 base (2 + pos)"

end
