(* ===== verification/Arch_X86_Safety.thy ===== *)
theory Arch_X86_Safety
  imports Arch_X86
begin

text \<open>
  Memory safety of the x86 trampoline builder: with instructions of at most
  \<open>MAX_INSN_LEN\<close> bytes it never writes past the \<open>TRAMPOLINE_SIZE\<close> bytes of its buffer,
  and the displacements it hands to \<open>funchook_fix_code\<close> stay inside it. The two handlers
  for position-independent i386 code enter through the contract \<open>pc_rewriter\<close>.
\<close>

section \<open>What is relied on of the disassembler\<close>

text \<open>
  Documented behaviour of the disassemblers: an x86 instruction has 1 to 15 bytes (the code
  allows 16), and a 32-bit IP-relative field lies inside the instruction, behind at least
  one opcode byte.
\<close>

definition wf_rel :: "nat \<Rightarrow> 'ad rip_relative \<Rightarrow> bool" where
  "wf_rel n r \<longleftrightarrow> (rr_size r = 32 \<longrightarrow> 0 < rr_offset r \<and> rr_offset r + 4 \<le> int n)"

definition wf_insn :: "'ad x86_insn \<Rightarrow> bool" where
  "wf_insn i \<longleftrightarrow> 0 < insn_size i \<and> insn_size i \<le> MAX_INSN_LEN \<and>
     wf_rel (insn_size i) (rel_disp i) \<and> wf_rel (insn_size i) (rel_imm i)"

section \<open>Bounds kept by the builder\<close>

definition disp_in_bounds :: "'ad ip_displacement_entry \<Rightarrow> bool" where
  "disp_in_bounds d \<longleftrightarrow> 0 \<le> pos_offset d \<and> pos_offset d + 4 \<le> int TRAMPOLINE_SIZE"

text \<open>Between two rounds: fewer than five bytes of the function have been consumed.\<close>

definition ctx_ok :: "'ad make_trampoline_context \<Rightarrow> bool" where
  "ctx_ok ctx \<longleftrightarrow> length (dst_buf ctx) = TRAMPOLINE_SIZE \<and> dst ctx \<le> src ctx \<and>
     disp_in_bounds (snd (rip_disp ctx))"

lemma handle_rip_relative_ok:
  assumes "handle_rip_relative ctx rel n = Inr ctx'"
  shows "src ctx' = src ctx" "dst ctx' = dst ctx" "dst_buf ctx' = dst_buf ctx"
    "fst (rip_disp ctx') = fst (rip_disp ctx)"
  using assms
  by (auto simp: handle_rip_relative_def crash_def split: if_splits option.splits)

lemma handle_rip_relative_disp:
  assumes "handle_rip_relative ctx rel n = Inr ctx'" and "wf_rel n rel"
    and "dst ctx + n \<le> TRAMPOLINE_SIZE" and "disp_in_bounds (snd (rip_disp ctx))"
  shows "disp_in_bounds (snd (rip_disp ctx'))"
  using assms
  by (auto simp: handle_rip_relative_def crash_def disp_in_bounds_def wf_rel_def
      split: if_splits option.splits)

lemma handle_rip_relative_no_crash:
  assumes "wf_rel n rel" and "dst ctx + n \<le> length (dst_buf ctx)"
  shows "handle_rip_relative ctx rel n \<noteq> Inl (Crash, msg)"
proof (cases "rr_size rel = 32")
  case True
  with assms have "buf_read_u32 (int (dst ctx) + rr_offset rel) (dst_buf ctx) \<noteq> None"
    by (auto simp: buf_read_u32_def wf_rel_def)
  with True show ?thesis
    by (auto simp: handle_rip_relative_def split: option.splits)
next
  case False
  then show ?thesis by (auto simp: handle_rip_relative_def)
qed

lemma copy_insn_ok:
  assumes "copy_insn m func ctx insn = Inr ctx'" and "wf_insn insn" and "ctx_ok ctx"
    and "src ctx < REL2G_JUMP_SIZE"
  shows "ctx_ok ctx'" and "src ctx' = src ctx + insn_size insn"
    and "dst ctx' = dst ctx + insn_size insn"
    and "fst (rip_disp ctx') = fst (rip_disp ctx)"
proof -
  obtain buf ctx1 ctx2 where
    buf: "buf_write (dst ctx) (mem_read m (func + of_nat (src ctx)) (insn_size insn)) (dst_buf ctx) = Some buf"
    and c1: "handle_rip_relative (ctx\<lparr>dst_buf := buf\<rparr>) (rel_disp insn) (insn_size insn) = Inr ctx1"
    and c2: "handle_rip_relative ctx1 (rel_imm insn) (insn_size insn) = Inr ctx2"
    and ctx': "ctx' = ctx2\<lparr>src := src ctx2 + insn_size insn, dst := dst ctx2 + insn_size insn\<rparr>"
    using assms(1) by (auto simp: copy_insn_def crash_def split: option.splits sum.splits)
  have len: "length buf = TRAMPOLINE_SIZE"
    using length_buf_write [OF buf] assms(3) by (simp add: ctx_ok_def)
  have sz: "dst ctx + insn_size insn \<le> TRAMPOLINE_SIZE"
    using assms(2-4) by (simp add: ctx_ok_def wf_insn_def x86_sizes)
  note f1 = handle_rip_relative_ok [OF c1] and f2 = handle_rip_relative_ok [OF c2]
  have "disp_in_bounds (snd (rip_disp ctx1))"
    using assms(2,3) sz by (intro handle_rip_relative_disp [OF c1]) (auto simp: wf_insn_def ctx_ok_def)
  then have "disp_in_bounds (snd (rip_disp ctx2))"
    using assms(2) sz f1 by (intro handle_rip_relative_disp [OF c2]) (auto simp: wf_insn_def)
  then show "ctx_ok ctx'"
    using f1 f2 len assms(3) by (simp add: ctx' ctx_ok_def)
  show "src ctx' = src ctx + insn_size insn" "dst ctx' = dst ctx + insn_size insn"
    "fst (rip_disp ctx') = fst (rip_disp ctx)"
    using f1 f2 by (simp_all add: ctx')
qed

lemma copy_insn_no_crash:
  assumes "wf_insn insn" and "ctx_ok ctx" and "src ctx < REL2G_JUMP_SIZE"
  shows "copy_insn m func ctx insn \<noteq> Inl (Crash, msg)"
proof -
  have sz: "dst ctx + insn_size insn \<le> length (dst_buf ctx)"
    using assms by (simp add: ctx_ok_def wf_insn_def x86_sizes)
  then obtain buf where
    buf: "buf_write (dst ctx) (mem_read m (func + of_nat (src ctx)) (insn_size insn)) (dst_buf ctx) = Some buf"
    using buf_write_defined [of "dst ctx" "mem_read m (func + of_nat (src ctx)) (insn_size insn)"]
    by auto
  have len: "length buf = length (dst_buf ctx)"
    by (rule length_buf_write [OF buf])
  have n1: "handle_rip_relative (ctx\<lparr>dst_buf := buf\<rparr>) (rel_disp insn) (insn_size insn) \<noteq> Inl (Crash, msg)"
    using assms(1) sz len by (intro handle_rip_relative_no_crash) (auto simp: wf_insn_def)
  have n2: "handle_rip_relative ctx1 (rel_imm insn) (insn_size insn) \<noteq> Inl (Crash, msg)"
    if "handle_rip_relative (ctx\<lparr>dst_buf := buf\<rparr>) (rel_disp insn) (insn_size insn) = Inr ctx1" for ctx1
    using assms(1) sz len handle_rip_relative_ok [OF that]
    by (intro handle_rip_relative_no_crash) (auto simp: wf_insn_def)
  show ?thesis
    using n1 n2 by (auto simp: copy_insn_def buf split: sum.splits)
qed

section \<open>The contract of the i386 handlers\<close>

text \<open>
  A handler either declines and leaves the context alone or replaces the call by a
  five-byte move and steps over five or six bytes of the function. It writes out of bounds
  only if there is no room for five bytes.
\<close>

locale pc_rewriter =
  fixes h :: "('a::len word) pc_handler"
  assumes defined: "dst ctx + 5 \<le> length (dst_buf ctx) \<Longrightarrow> h m func ctx insn \<noteq> None"
    and declined: "h m func ctx insn = Some (False, ctx') \<Longrightarrow> ctx' = ctx"
    and replaced: "h m func ctx insn = Some (True, ctx') \<Longrightarrow>
      rip_disp ctx' = rip_disp ctx \<and> length (dst_buf ctx') = length (dst_buf ctx) \<and>
      dst ctx' = dst ctx + 5 \<and> src ctx + 5 \<le> src ctx' \<and> src ctx' \<le> src ctx + 6"
begin

lemma replaced_ctx_ok:
  "h m func ctx insn = Some (True, ctx') \<Longrightarrow> ctx_ok ctx \<Longrightarrow> ctx_ok ctx'"
  using replaced by (fastforce simp: ctx_ok_def)

end

locale trampoline_builder = thunk: pc_rewriter thunk + call_pop: pc_rewriter call_pop
  for thunk call_pop :: "('a::len word) pc_handler"
begin

lemma translate_no_crash:
  assumes "wf_insn insn" and "ctx_ok ctx" and "src ctx < REL2G_JUMP_SIZE"
  shows "translate_insn thunk call_pop m func ctx insn \<noteq> Inl (Crash, msg)"
proof -
  have room: "dst ctx + 5 \<le> length (dst_buf ctx)"
    using assms by (simp add: ctx_ok_def x86_sizes)
  obtain r1 r2 where "thunk m func ctx insn = Some r1" and "call_pop m func ctx insn = Some r2"
    using thunk.defined [OF room] call_pop.defined [OF room] by blast
  then show ?thesis
    using copy_insn_no_crash [OF assms]
    by (auto simp: translate_insn_def split: sum.splits bool.splits prod.splits)
qed

lemma translate_ok:
  assumes t: "translate_insn thunk call_pop m func ctx insn = Inr (extra, ctx')"
    and "wf_insn insn" and "ctx_ok ctx" and "src ctx < REL2G_JUMP_SIZE"
  shows "ctx_ok ctx'" and "src ctx < src ctx'" and "src ctx' \<le> MAX_PATCH_CODE_SIZE"
    and "fst (rip_disp ctx') = fst (rip_disp ctx)"
proof -
  consider (h1) "thunk m func ctx insn = Some (True, ctx')"
    | (h2) "call_pop m func ctx insn = Some (True, ctx')"
    | (cp) "copy_insn m func ctx insn = Inr ctx'"
    using t by (auto simp: translate_insn_def crash_def split: option.splits prod.splits bool.splits sum.splits)
  then have "ctx_ok ctx' \<and> src ctx < src ctx' \<and> src ctx' \<le> MAX_PATCH_CODE_SIZE \<and>
      fst (rip_disp ctx') = fst (rip_disp ctx)"
  proof cases
    case h1
    with assms(3,4) show ?thesis
      using thunk.replaced [OF h1] thunk.replaced_ctx_ok [OF h1] by (auto simp: x86_sizes)
  next
    case h2
    with assms(3,4) show ?thesis
      using call_pop.replaced [OF h2] call_pop.replaced_ctx_ok [OF h2] by (auto simp: x86_sizes)
  next
    case cp
    with assms(2-4) show ?thesis
      using copy_insn_ok [OF cp assms(2-4)] by (auto simp: x86_sizes wf_insn_def)
  qed
  then show "ctx_ok ctx'" "src ctx < src ctx'" "src ctx' \<le> MAX_PATCH_CODE_SIZE"
    "fst (rip_disp ctx') = fst (rip_disp ctx)" by auto
qed

end

text \<open>
  What the main loop leaves: either the instructions ended before five bytes were moved and
  nothing was finished, or a jump to the instruction after the moved ones is in place.
\<close>

definition built_ok :: "'a::len word \<Rightarrow> 'a word make_trampoline_context \<Rightarrow> nat \<Rightarrow> bool" where
  "built_ok func ctx n \<longleftrightarrow> ctx_ok ctx \<and>
     (if n = 0 then src ctx < REL2G_JUMP_SIZE \<and> fst (rip_disp ctx) = no_displacement
      else REL2G_JUMP_SIZE \<le> src ctx \<and> src ctx \<le> MAX_PATCH_CODE_SIZE \<and> n = dst ctx + 5 \<and>
        fst (rip_disp ctx) = \<lparr>dst_addr = func + of_nat (src ctx),
          src_addr_offset = int (dst ctx) + 5, pos_offset = int (dst ctx) + 1\<rparr>)"

lemma finish_trampoline_ok:
  assumes "finish_trampoline func rest ctx = Inr (ctx', n)" and "ctx_ok ctx"
    and "REL2G_JUMP_SIZE \<le> src ctx" and "src ctx \<le> MAX_PATCH_CODE_SIZE"
  shows "built_ok func ctx' n" and "\<not> list_ex (jumps_back func) rest"
  using assms
  by (auto simp: finish_trampoline_def crash_def built_ok_def ctx_ok_def length_buf_write
      split: option.splits if_splits)

lemma finish_trampoline_no_crash:
  assumes "ctx_ok ctx" and "src ctx \<le> MAX_PATCH_CODE_SIZE"
  shows "finish_trampoline func rest ctx \<noteq> Inl (Crash, msg)"
  using assms
  by (auto simp: finish_trampoline_def ctx_ok_def buf_simps x86_sizes split: option.splits)

context trampoline_builder
begin

lemma mt_loop_no_crash:
  "list_all wf_insn is \<Longrightarrow> ctx_ok ctx \<Longrightarrow> src ctx < REL2G_JUMP_SIZE \<Longrightarrow>
     mt_loop thunk call_pop m func is ctx \<noteq> Inl (Crash, msg)"
proof (induction "length is" arbitrary: "is" ctx rule: less_induct)
  case less
  show ?case
  proof (cases "is")
    case Nil
    then show ?thesis by simp
  next
    case (Cons i rest)
    with less.prems have i: "wf_insn i" "list_all wf_insn rest" by auto
    note t_ok = translate_ok [OF _ i(1) less.prems(2,3)]
    have tl_ok: "list_all wf_insn (tl rest)" using i(2) by (cases rest) auto
    show ?thesis
    proof (cases "translate_insn thunk call_pop m func ctx i")
      case (Inl e)
      then show ?thesis
        using translate_no_crash [OF i(1) less.prems(2,3), of m func msg] by (simp add: Cons)
    next
      case (Inr r)
      obtain extra c1 where t: "translate_insn thunk call_pop m func ctx i = Inr (extra, c1)"
        using Inr by (cases r) simp
      define rest' where "rest' = (if extra then tl rest else rest)"
      have step: "mt_loop thunk call_pop m func is ctx =
          (if REL2G_JUMP_SIZE \<le> src c1 then finish_trampoline func rest' c1
           else mt_loop thunk call_pop m func rest' c1)"
        using t by (simp add: Cons rest'_def Let_def)
      have "length rest' < length is" "list_all wf_insn rest'"
        using i(2) tl_ok by (auto simp: rest'_def Cons)
      then show ?thesis
        using t_ok [OF t] finish_trampoline_no_crash [of c1 func rest' msg] less.hyps
        by (auto simp: step not_le)
    qed
  qed
qed

lemma mt_loop_ok:
  "mt_loop thunk call_pop m func is ctx = Inr (ctx', n) \<Longrightarrow> list_all wf_insn is \<Longrightarrow>
     ctx_ok ctx \<Longrightarrow> src ctx < REL2G_JUMP_SIZE \<Longrightarrow> fst (rip_disp ctx) = no_displacement \<Longrightarrow>
     built_ok func ctx' n"
proof (induction "length is" arbitrary: "is" ctx rule: less_induct)
  case less
  show ?case
  proof (cases "is")
    case Nil
    with less.prems show ?thesis by (simp add: built_ok_def)
  next
    case (Cons i rest)
    with less.prems have i: "wf_insn i" "list_all wf_insn rest" by auto
    have tl_ok: "list_all wf_insn (tl rest)" using i(2) by (cases rest) auto
    from less.prems(1) Cons obtain extra c1 where
      t: "translate_insn thunk call_pop m func ctx i = Inr (extra, c1)"
      by (auto split: sum.splits)
    define rest' where "rest' = (if extra then tl rest else rest)"
    note t_ok = translate_ok [OF t i(1) less.prems(3,4)]
    show ?thesis
    proof (cases "REL2G_JUMP_SIZE \<le> src c1")
      case True
      with less.prems(1) Cons t have "finish_trampoline func rest' c1 = Inr (ctx', n)"
        by (simp add: rest'_def Let_def)
      from finish_trampoline_ok(1) [OF this t_ok(1) True t_ok(3)] show ?thesis .
    next
      case False
      with less.prems(1) Cons t have "mt_loop thunk call_pop m func rest' c1 = Inr (ctx', n)"
        by (simp add: rest'_def Let_def)
      moreover have "length rest' < length is" "list_all wf_insn rest'"
        using i(2) tl_ok by (auto simp: rest'_def Cons)
      ultimately show ?thesis
        using less.hyps t_ok less.prems(5) False by simp
    qed
  qed
qed

end

lemma skip_nops_ok:
  "skip_nops m func ctx = Inr ctx' \<Longrightarrow>
     rip_disp ctx' = rip_disp ctx \<and> dst_buf ctx' = dst_buf ctx \<and> dst ctx' = dst ctx"
proof (induction m func ctx rule: skip_nops.induct)
  case (1 m func ctx)
  then show ?case
    by (subst (asm) skip_nops.simps) (auto split: if_splits)
qed

lemma skip_nops_no_crash: "skip_nops m func ctx \<noteq> Inl (Crash, msg)"
proof (induction m func ctx rule: skip_nops.induct)
  case (1 m func ctx)
  then show ?case
    by (subst skip_nops.simps) auto
qed

text \<open>The three results of the builder: \<open>*disp\<close>, the buffer and \<open>*trampoline_size\<close>.\<close>

definition trampoline_ok ::
    "'a::len word \<Rightarrow> 'a word ip_displacement \<times> u8 list \<times> nat \<Rightarrow> bool" where
  "trampoline_ok func r \<longleftrightarrow>
     (case r of (d, buf, n) \<Rightarrow>
        length buf = TRAMPOLINE_SIZE \<and> n \<le> TRAMPOLINE_SIZE \<and>
        disp_in_bounds (fst d) \<and> disp_in_bounds (snd d) \<and>
        (if n = 0 then dst_addr (fst d) = 0
         else list_ex (\<lambda>k. dst_addr (fst d) = func + of_nat k)
                [REL2G_JUMP_SIZE..<Suc MAX_PATCH_CODE_SIZE]))"

lemma built_trampoline_ok:
  assumes "built_ok func ctx n"
  shows "trampoline_ok func (rip_disp ctx, dst_buf ctx, n)"
proof (cases "n = 0")
  case True
  with assms show ?thesis
    by (auto simp: built_ok_def trampoline_ok_def ctx_ok_def disp_in_bounds_def
        no_displacement_def x86_sizes)
next
  case False
  with assms have k: "src ctx \<in> set [REL2G_JUMP_SIZE..<Suc MAX_PATCH_CODE_SIZE]"
    by (simp add: built_ok_def del: upt_Suc)
  from False assms have "dst_addr (fst (rip_disp ctx)) = func + of_nat (src ctx)"
    by (simp add: built_ok_def)
  with k have "list_ex (\<lambda>k. dst_addr (fst (rip_disp ctx)) = func + of_nat k)
      [REL2G_JUMP_SIZE..<Suc MAX_PATCH_CODE_SIZE]"
    unfolding list_ex_iff by blast
  with False assms show ?thesis
    by (auto simp: built_ok_def trampoline_ok_def ctx_ok_def disp_in_bounds_def x86_sizes
        simp del: upt_Suc)
qed

lemma initial_context_ok:
  "ctx_ok initial_context" "src initial_context < REL2G_JUMP_SIZE"
  "fst (rip_disp initial_context) = no_displacement"
  by (auto simp: initial_context_def ctx_ok_def disp_in_bounds_def no_displacement_def x86_sizes)

context trampoline_builder
begin

lemma make_trampoline_ok:
  assumes "disasm m func MAX_INSN_CHECK_SIZE = Inr is" and "list_all wf_insn is"
    and "funchook_make_trampoline thunk call_pop disasm m func = Inr r"
  shows "trampoline_ok func r"
proof -
  from assms obtain ctx n ctx' where
    l: "mt_loop thunk call_pop m func is initial_context = Inr (ctx, n)"
    and s: "skip_nops m func ctx = Inr ctx'" and r: "r = (rip_disp ctx', dst_buf ctx', n)"
    by (auto simp: funchook_make_trampoline_def split: sum.splits)
  have "built_ok func ctx n"
    using mt_loop_ok [OF l assms(2)] initial_context_ok by blast
  with skip_nops_ok [OF s] r show ?thesis
    using built_trampoline_ok by auto
qed

lemma make_trampoline_no_crash:
  assumes "disasm m func MAX_INSN_CHECK_SIZE = Inr is" and "list_all wf_insn is"
  shows "funchook_make_trampoline thunk call_pop disasm m func \<noteq> Inl (Crash, msg)"
  using assms mt_loop_no_crash [OF assms(2) initial_context_ok(1,2)]
  by (auto simp: funchook_make_trampoline_def skip_nops_no_crash split: sum.splits)

end

interpretation no_pc: pc_rewriter "no_pc_handler :: ('a::len word) pc_handler"
  by unfold_locales (auto simp: no_pc_handler_def)

interpretation get_pc_thunk: pc_rewriter handle_x86_get_pc_thunk
proof unfold_locales
  fix ctx :: "u32 make_trampoline_context" and m func insn ctx'
  show "handle_x86_get_pc_thunk m func ctx insn \<noteq> None" if "dst ctx + 5 \<le> length (dst_buf ctx)"
    using that by (auto simp: handle_x86_get_pc_thunk_def Let_def buf_simps split: option.splits)
  show "ctx' = ctx" if "handle_x86_get_pc_thunk m func ctx insn = Some (False, ctx')"
    using that by (auto simp: handle_x86_get_pc_thunk_def Let_def split: option.splits if_splits)
  show "rip_disp ctx' = rip_disp ctx \<and> length (dst_buf ctx') = length (dst_buf ctx) \<and>
      dst ctx' = dst ctx + 5 \<and> src ctx + 5 \<le> src ctx' \<and> src ctx' \<le> src ctx + 6"
    if "handle_x86_get_pc_thunk m func ctx insn = Some (True, ctx')"
    using that by (auto simp: handle_x86_get_pc_thunk_def Let_def length_buf_write
        split: option.splits if_splits)
qed

interpretation call_and_pop: pc_rewriter handle_x86_get_pc_by_call_and_pop
proof unfold_locales
  fix ctx :: "u32 make_trampoline_context" and m func insn ctx'
  show "handle_x86_get_pc_by_call_and_pop m func ctx insn \<noteq> None"
    if "dst ctx + 5 \<le> length (dst_buf ctx)"
    using that by (auto simp: handle_x86_get_pc_by_call_and_pop_def Let_def buf_simps split: option.splits)
  show "ctx' = ctx" if "handle_x86_get_pc_by_call_and_pop m func ctx insn = Some (False, ctx')"
    using that by (auto simp: handle_x86_get_pc_by_call_and_pop_def Let_def split: option.splits if_splits)
  show "rip_disp ctx' = rip_disp ctx \<and> length (dst_buf ctx') = length (dst_buf ctx) \<and>
      dst ctx' = dst ctx + 5 \<and> src ctx + 5 \<le> src ctx' \<and> src ctx' \<le> src ctx + 6"
    if "handle_x86_get_pc_by_call_and_pop m func ctx insn = Some (True, ctx')"
    using that by (auto simp: handle_x86_get_pc_by_call_and_pop_def Let_def length_buf_write
        split: option.splits if_splits)
qed

interpretation x86_64: trampoline_builder no_pc_handler "no_pc_handler :: u64 pc_handler"
  by unfold_locales

interpretation i386: trampoline_builder handle_x86_get_pc_thunk handle_x86_get_pc_by_call_and_pop
  by unfold_locales


end
