(* ===== verification/Arch_X86_Trampoline.thy ===== *)
theory Arch_X86_Trampoline
  imports Arch_X86_Safety
begin

text \<open>
  What a trampoline contains on x86_64: the whole instructions that cover the first five
  bytes of the function, copied, a jump behind them, and at most one IP-relative field to
  fix. The abstract description below is what \<open>funchook_make_trampoline\<close> is proved to
  compute whenever it succeeds.
\<close>

section \<open>Abstract description\<close>

text \<open>The instructions moved to the trampoline, and the bytes they take.\<close>

fun moved_insns :: "nat \<Rightarrow> 'ad x86_insn list \<Rightarrow> 'ad x86_insn list" where
  "moved_insns off [] = []"
| "moved_insns off (i # is) =
     (if REL2G_JUMP_SIZE \<le> off + insn_size i then [i]
      else i # moved_insns (off + insn_size i) is)"

definition insns_size :: "'ad x86_insn list \<Rightarrow> nat" where
  "insns_size is = sum_list (map insn_size is)"

definition patch_size :: "'ad x86_insn list \<Rightarrow> nat" where
  "patch_size is = insns_size (moved_insns 0 is)"

text \<open>The displacement entry for an IP-relative field of an instruction at an offset.\<close>

definition rel_entry :: "nat \<Rightarrow> nat \<Rightarrow> 'ad rip_relative \<Rightarrow> 'ad ip_displacement_entry" where
  "rel_entry off n rel =
     \<lparr>dst_addr = rr_addr rel, src_addr_offset = int (off + n), pos_offset = int off + rr_offset rel\<rparr>"

definition insn_displacement ::
    "nat \<Rightarrow> 'ad x86_insn \<Rightarrow> 'ad ip_displacement_entry \<Rightarrow> 'ad ip_displacement_entry" where
  "insn_displacement off i old =
     (if rr_size (rel_imm i) = 32 then rel_entry off (insn_size i) (rel_imm i)
      else if rr_size (rel_disp i) = 32 then rel_entry off (insn_size i) (rel_disp i)
      else old)"

text \<open>The expected results for a disassembled function.\<close>

definition expected_trampoline ::
    "('a::len word \<Rightarrow> u8) \<Rightarrow> 'a word \<Rightarrow> 'a word x86_insn list \<Rightarrow>
      'a word ip_displacement \<times> u8 list \<times> nat" where
  "expected_trampoline m func is =
     (let k = patch_size is; l = last (moved_insns 0 is)
      in ((\<lparr>dst_addr = func + of_nat k, src_addr_offset = int k + 5, pos_offset = int k + 1\<rparr>,
           insn_displacement (k - insn_size l) l no_displacement),
          mem_read m func k @ [0xe9] @ replicate (TRAMPOLINE_SIZE - k - 1) NOP_INSTRUCTION,
          k + 5))"

section \<open>One round of the loop\<close>

lemma handle_rip_relative_result:
  assumes "handle_rip_relative ctx rel n = Inr ctx'"
  shows "ctx' = (if rr_size rel = 32 then ctx\<lparr>rip_disp := (fst (rip_disp ctx), rel_entry (dst ctx) n rel)\<rparr>
                 else ctx) \<and> (rr_size rel = 32 \<or> rr_size rel = 0)"
  using assms
  by (auto simp: handle_rip_relative_def crash_def rel_entry_def split: if_splits option.splits)

text \<open>The buffer between two rounds: a copy of what was consumed, then NOPs.\<close>

definition copied :: "('a::len word \<Rightarrow> u8) \<Rightarrow> 'a word \<Rightarrow> 'a word make_trampoline_context \<Rightarrow> bool" where
  "copied m func ctx \<longleftrightarrow> dst ctx = src ctx \<and>
     dst_buf ctx = mem_read m func (src ctx) @ replicate (TRAMPOLINE_SIZE - src ctx) NOP_INSTRUCTION"

lemma copy_insn_copied:
  assumes c: "copy_insn m func ctx insn = Inr ctx'" and "copied m func ctx"
    and le: "src ctx + insn_size insn \<le> TRAMPOLINE_SIZE"
  shows "copied m func ctx'" and "src ctx' = src ctx + insn_size insn"
    and "rip_disp ctx' =
      (fst (rip_disp ctx), insn_displacement (src ctx) insn (snd (rip_disp ctx)))"
    and "rr_size (rel_imm insn) \<in> {0, 32}" and "rr_size (rel_disp insn) \<in> {0, 32}"
proof -
  let ?n = "insn_size insn" and ?k = "src ctx"
  from c obtain buf ctx1 ctx2 where
    buf: "buf_write (dst ctx) (mem_read m (func + of_nat ?k) ?n) (dst_buf ctx) = Some buf"
    and c1: "handle_rip_relative (ctx\<lparr>dst_buf := buf\<rparr>) (rel_disp insn) ?n = Inr ctx1"
    and c2: "handle_rip_relative ctx1 (rel_imm insn) ?n = Inr ctx2"
    and ctx': "ctx' = ctx2\<lparr>src := src ctx2 + ?n, dst := dst ctx2 + ?n\<rparr>"
    by (auto simp: copy_insn_def crash_def split: option.splits sum.splits)
  note r1 = handle_rip_relative_result [OF c1] and r2 = handle_rip_relative_result [OF c2]
  have "buf = mem_read m func (?k + ?n) @ replicate (TRAMPOLINE_SIZE - (?k + ?n)) NOP_INSTRUCTION"
    using buf assms(2) le by (auto simp: buf_simps copied_def mem_read_append)
  then show "copied m func ctx'"
    using r1 r2 assms(2) by (auto simp: ctx' copied_def)
  show "src ctx' = ?k + ?n"
    using r1 r2 by (auto simp: ctx')
  show "rip_disp ctx' = (fst (rip_disp ctx), insn_displacement ?k insn (snd (rip_disp ctx)))"
    using r1 r2 assms(2) by (auto simp: ctx' insn_displacement_def copied_def)
  show "rr_size (rel_imm insn) \<in> {0, 32}" "rr_size (rel_disp insn) \<in> {0, 32}"
    using r1 r2 by auto
qed

lemma translate_no_handler:
  "translate_insn no_pc_handler no_pc_handler m func ctx insn =
     (case copy_insn m func ctx insn of Inl e \<Rightarrow> Inl e | Inr c \<Rightarrow> Inr (False, c))"
  by (simp add: translate_insn_def no_pc_handler_def)

text \<open>An instruction that does not complete the five bytes has no 32-bit field.\<close>

lemma short_insn_no_rel:
  assumes "wf_insn i" and "insn_size i < 5"
  shows "rr_size (rel_imm i) \<noteq> 32" and "rr_size (rel_disp i) \<noteq> 32"
  using assms by (auto simp: wf_insn_def wf_rel_def)

lemma moved_insns_decomp: "\<exists>rest. is = moved_insns off is @ rest"
  by (induction off "is" rule: moved_insns.induct) auto

lemma moved_insns_nonempty: "is \<noteq> [] \<Longrightarrow> moved_insns off is \<noteq> []"
  by (cases "is") auto

section \<open>The loop computes the description\<close>

lemma mt_loop_expected:
  "mt_loop no_pc_handler no_pc_handler m func is ctx = Inr (ctx', n) \<Longrightarrow> n \<noteq> 0 \<Longrightarrow>
     list_all wf_insn is \<Longrightarrow> copied m func ctx \<Longrightarrow> src ctx < REL2G_JUMP_SIZE \<Longrightarrow>
     (let mv = moved_insns (src ctx) is; k = src ctx + insns_size mv; l = last mv;
          rest = drop (length mv) is
      in is \<noteq> [] \<and> REL2G_JUMP_SIZE \<le> k \<and> k \<le> MAX_PATCH_CODE_SIZE \<and> n = k + 5 \<and>
         \<not> list_ex (jumps_back func) rest \<and>
         dst_buf ctx' = mem_read m func k @ [0xe9] @ replicate (TRAMPOLINE_SIZE - k - 1) NOP_INSTRUCTION \<and>
         rip_disp ctx' =
           (\<lparr>dst_addr = func + of_nat k, src_addr_offset = int k + 5, pos_offset = int k + 1\<rparr>,
            insn_displacement (k - insn_size l) l (snd (rip_disp ctx))) \<and>
         src ctx' = k)"
proof (induction "is" arbitrary: ctx)
  case Nil
  then show ?case by simp
next
  case (Cons i rest)
  from Cons.prems(1) obtain c1 where c: "copy_insn m func ctx i = Inr c1"
    by (auto simp: translate_no_handler split: sum.splits)
  have i: "wf_insn i" and rest: "list_all wf_insn rest" using Cons.prems(3) by auto
  have le: "src ctx + insn_size i \<le> MAX_PATCH_CODE_SIZE"
    using i Cons.prems(5) by (simp add: wf_insn_def x86_sizes)
  then have le': "src ctx + insn_size i \<le> TRAMPOLINE_SIZE"
    by (simp add: x86_sizes)
  note cp = copy_insn_copied [OF c Cons.prems(4) le']
  show ?case
  proof (cases "REL2G_JUMP_SIZE \<le> src ctx + insn_size i")
    case True
    with Cons.prems(1) c cp(2) have "finish_trampoline func rest c1 = Inr (ctx', n)"
      by (simp add: translate_no_handler)
    with cp le True show ?thesis
      by (auto simp: finish_trampoline_def crash_def buf_simps copied_def insns_size_def x86_sizes
          split: option.splits if_splits)
  next
    case False
    with Cons.prems(1) c cp(2)
    have l: "mt_loop no_pc_handler no_pc_handler m func rest c1 = Inr (ctx', n)"
      by (simp add: translate_no_handler)
    have "snd (rip_disp c1) = snd (rip_disp ctx)"
      using cp(3) short_insn_no_rel [OF i] False by (simp add: insn_displacement_def x86_sizes)
    moreover have "rest \<noteq> []"
      using l Cons.prems(2) by auto
    then have "moved_insns (src ctx + insn_size i) rest \<noteq> []"
      by (rule moved_insns_nonempty)
    ultimately show ?thesis
      using Cons.IH [OF l Cons.prems(2) rest cp(1)] False cp(2)
      by (simp add: Let_def insns_size_def add.assoc)
  qed
qed


lemma finish_trampoline_size:
  "finish_trampoline func rest ctx = Inr (ctx', n) \<Longrightarrow> n \<noteq> 0"
  by (auto simp: finish_trampoline_def crash_def split: option.splits if_splits)

text \<open>No jump is added only when the instructions end before five bytes.\<close>

lemma mt_loop_no_jump:
  "mt_loop no_pc_handler no_pc_handler m func is ctx = Inr (ctx', 0) \<Longrightarrow> copied m func ctx \<Longrightarrow>
     list_all wf_insn is \<Longrightarrow> src ctx < REL2G_JUMP_SIZE \<Longrightarrow> src ctx + insns_size is < REL2G_JUMP_SIZE"
proof (induction "is" arbitrary: ctx)
  case Nil
  then show ?case by (simp add: insns_size_def)
next
  case (Cons i rest)
  from Cons.prems(1) obtain c1 where c: "copy_insn m func ctx i = Inr c1"
    by (auto simp: translate_no_handler split: sum.splits)
  have "src ctx + insn_size i \<le> TRAMPOLINE_SIZE"
    using Cons.prems(3,4) by (simp add: wf_insn_def x86_sizes)
  note cp = copy_insn_copied [OF c Cons.prems(2) this]
  have lt: "src c1 < REL2G_JUMP_SIZE"
  proof (rule ccontr)
    assume "\<not> src c1 < REL2G_JUMP_SIZE"
    with Cons.prems(1) c have "finish_trampoline func rest c1 = Inr (ctx', 0)"
      by (simp add: translate_no_handler)
    from finish_trampoline_size [OF this] show False by simp
  qed
  with Cons.prems(1) c have "mt_loop no_pc_handler no_pc_handler m func rest c1 = Inr (ctx', 0)"
    by (simp add: translate_no_handler)
  from Cons.IH [OF this cp(1) _ lt] Cons.prems(3) cp(2) show ?case
    by (simp add: insns_size_def add.assoc)
qed

section \<open>The whole function\<close>

lemma initial_copied: "copied m func initial_context"
  by (simp add: copied_def initial_context_def mem_read_def)

lemma make_trampoline_x86_64_cases:
  assumes "disasm m func MAX_INSN_CHECK_SIZE = Inr is"
    and "make_trampoline_x86_64 disasm m func = Inr (d, buf, n)" and "n \<noteq> 0"
  obtains ctx where
    "mt_loop no_pc_handler no_pc_handler m func is initial_context = Inr (ctx, n)"
    and "d = rip_disp ctx" and "buf = dst_buf ctx"
proof -
  from assms obtain ctx ctx' where
    l: "mt_loop no_pc_handler no_pc_handler m func is initial_context = Inr (ctx, n)"
    and s: "skip_nops m func ctx = Inr ctx'" and "d = rip_disp ctx'" "buf = dst_buf ctx'"
    by (auto simp: funchook_make_trampoline_def split: sum.splits)
  with skip_nops_ok [OF s] that show ?thesis by auto
qed

lemma make_trampoline_x86_64_expected:
  assumes "disasm m func MAX_INSN_CHECK_SIZE = Inr is" and "list_all wf_insn is"
    and "make_trampoline_x86_64 disasm m func = Inr (d, buf, n)" and "n \<noteq> 0"
  shows "(d, buf, n) = expected_trampoline m func is"
    and "REL2G_JUMP_SIZE \<le> patch_size is" and "patch_size is \<le> MAX_PATCH_CODE_SIZE"
    and "\<not> list_ex (jumps_back func) (drop (length (moved_insns 0 is)) is)"
proof -
  obtain ctx where
    l: "mt_loop no_pc_handler no_pc_handler m func is initial_context = Inr (ctx, n)"
    and d: "d = rip_disp ctx" "buf = dst_buf ctx"
    using make_trampoline_x86_64_cases [OF assms(1,3,4)] by blast
  have src0: "src (initial_context :: u64 make_trampoline_context) = 0"
    and disp0: "snd (rip_disp (initial_context :: u64 make_trampoline_context)) = no_displacement"
    by (simp_all add: initial_context_def)
  note e = mt_loop_expected [OF l assms(4,2) initial_copied initial_context_ok(2),
      unfolded src0 disp0 Let_def, simplified, folded patch_size_def]
  from e show "(d, buf, n) = expected_trampoline m func is"
    by (simp add: expected_trampoline_def Let_def d)
  from e show "REL2G_JUMP_SIZE \<le> patch_size is" "patch_size is \<le> MAX_PATCH_CODE_SIZE"
    "\<not> list_ex (jumps_back func) (drop (length (moved_insns 0 is)) is)"
    by auto
qed

text \<open>A function of at least five bytes gets a trampoline with a jump.\<close>

lemma make_trampoline_x86_64_jump:
  assumes "disasm m func MAX_INSN_CHECK_SIZE = Inr is" and "list_all wf_insn is"
    and "make_trampoline_x86_64 disasm m func = Inr (d, buf, n)" and "REL2G_JUMP_SIZE \<le> insns_size is"
  shows "n \<noteq> 0"
proof
  assume "n = 0"
  then obtain ctx where "mt_loop no_pc_handler no_pc_handler m func is initial_context = Inr (ctx, 0)"
    using assms(1,3) by (auto simp: funchook_make_trampoline_def split: sum.splits)
  from mt_loop_no_jump [OF this initial_copied assms(2) initial_context_ok(2)] assms(4)
  show False by simp
qed

section \<open>Instruction boundaries inside the replaced code\<close>

text \<open>
  All instructions of the moved part but the last begin in its first five bytes, so the
  interval that \<open>funchook_make_trampoline\<close> looks at covers every instruction that a
  branch could still aim at.
\<close>

lemma insn_starts_moved:
  "b \<in> set (insn_starts off (moved_insns off is)) \<Longrightarrow> off < REL2G_JUMP_SIZE \<Longrightarrow> b < REL2G_JUMP_SIZE"
  by (induction off "is" rule: moved_insns.induct) (auto split: if_splits)

lemma offset_in_patch_window:
  fixes func :: "'a::len word"
  assumes "0 < b" and "b < REL2G_JUMP_SIZE" and "unat func + REL2G_JUMP_SIZE < 2 ^ LENGTH('a)"
  shows "func < func + of_nat b" and "func + of_nat b < func + of_nat REL2G_JUMP_SIZE"
proof -
  have "unat (func + of_nat j) = unat func + j" if "j \<le> REL2G_JUMP_SIZE" for j
  proof -
    have "j < 2 ^ LENGTH('a)" using that assms(3) by linarith
    then have j: "unat (of_nat j :: 'a word) = j" by (simp add: unat_of_nat)
    with that assms(3) have "unat func + unat (of_nat j :: 'a word) < 2 ^ LENGTH('a)" by linarith
    then show ?thesis using j unat_add_lem by metis
  qed
  then show "func < func + of_nat b" "func + of_nat b < func + of_nat REL2G_JUMP_SIZE"
    using assms(1,2) by (simp_all only: word_less_nat_alt order_less_imp_le order.refl)
qed

text \<open>The interval is read as the offsets 1 to 4 of the function.\<close>

lemma jumps_back_iff:
  fixes func :: "'a::len word"
  assumes "unat func + REL2G_JUMP_SIZE < 2 ^ LENGTH('a)"
  shows "jumps_back func i \<longleftrightarrow>
    (\<exists>b. 0 < b \<and> b < REL2G_JUMP_SIZE \<and> rr_addr (rel_imm i) = func + of_nat b)"
proof
  let ?t = "rr_addr (rel_imm i)"
  assume "jumps_back func i"
  then have lo: "unat func < unat ?t" and hi: "unat ?t < unat (func + of_nat REL2G_JUMP_SIZE)"
    by (simp_all add: jumps_back_def word_less_nat_alt)
  have "unat (func + of_nat REL2G_JUMP_SIZE) \<le> unat func + REL2G_JUMP_SIZE"
    by (simp add: unat_word_ariths unat_of_nat)
      (metis mod_add_right_eq mod_less_eq_dividend)
  with lo hi have "0 < unat ?t - unat func" "unat ?t - unat func < REL2G_JUMP_SIZE"
    by linarith+
  moreover have "?t = func + of_nat (unat ?t - unat func)"
    using lo by (simp add: of_nat_diff)
  ultimately show "\<exists>b. 0 < b \<and> b < REL2G_JUMP_SIZE \<and> ?t = func + of_nat b"
    by blast
qed (use offset_in_patch_window [OF _ _ assms] in \<open>auto simp: jumps_back_def\<close>)

text \<open>
  What follows the moved instructions matters for the test only: the same instructions
  followed by others end in the same context.
\<close>

lemma finish_trampoline_rest:
  "finish_trampoline func r c = Inr x \<Longrightarrow> finish_trampoline func rest c =
     (if list_ex (jumps_back func) rest
      then Inl (Err ERROR_FOUND_BACK_JUMP,
        ''instruction jumping back to the hot-patched region was found'')
      else Inr x)"
  by (auto simp: finish_trampoline_def crash_def split: option.splits if_splits)

lemma mt_loop_moved:
  "mt_loop no_pc_handler no_pc_handler m func is ctx = Inr (ctx', n) \<Longrightarrow> n \<noteq> 0 \<Longrightarrow>
     list_all wf_insn is \<Longrightarrow> copied m func ctx \<Longrightarrow> src ctx < REL2G_JUMP_SIZE \<Longrightarrow>
     mt_loop no_pc_handler no_pc_handler m func (moved_insns (src ctx) is @ rest) ctx =
       (if list_ex (jumps_back func) rest
        then Inl (Err ERROR_FOUND_BACK_JUMP,
          ''instruction jumping back to the hot-patched region was found'')
        else Inr (ctx', n))"
proof (induction "is" arbitrary: ctx)
  case (Cons i is')
  from Cons.prems(1) obtain c1 where c: "copy_insn m func ctx i = Inr c1"
    by (auto simp: translate_no_handler split: sum.splits)
  have "src ctx + insn_size i \<le> TRAMPOLINE_SIZE"
    using Cons.prems(3,5) by (simp add: wf_insn_def x86_sizes)
  note cp = copy_insn_copied [OF c Cons.prems(4) this]
  show ?case
  proof (cases "REL2G_JUMP_SIZE \<le> src ctx + insn_size i")
    case True
    with Cons.prems(1) c cp(2) have "finish_trampoline func is' c1 = Inr (ctx', n)"
      by (simp add: translate_no_handler)
    from finish_trampoline_rest [OF this] True c cp(2) show ?thesis
      by (simp add: translate_no_handler)
  next
    case False
    with Cons.prems(1) c cp(2)
    have "mt_loop no_pc_handler no_pc_handler m func is' c1 = Inr (ctx', n)"
      by (simp add: translate_no_handler)
    from Cons.IH [OF this Cons.prems(2) _ cp(1)] Cons.prems(3) False c cp(2) show ?thesis
      by (simp add: translate_no_handler)
  qed
qed simp

lemma make_trampoline_moved:
  assumes "disasm m func MAX_INSN_CHECK_SIZE = Inr is" and "list_all wf_insn is"
    and "make_trampoline_x86_64 disasm m func = Inr (d, buf, n)" and "n \<noteq> 0"
    and "disasm' m func MAX_INSN_CHECK_SIZE = Inr (moved_insns 0 is @ rest)"
  shows "make_trampoline_x86_64 disasm' m func =
    (if list_ex (jumps_back func) rest
     then Inl (Err ERROR_FOUND_BACK_JUMP,
       ''instruction jumping back to the hot-patched region was found'')
     else Inr (d, buf, n))"
proof -
  obtain ctx ctx' where
    l: "mt_loop no_pc_handler no_pc_handler m func is initial_context = Inr (ctx, n)"
    and s: "skip_nops m func ctx = Inr ctx'" "d = rip_disp ctx'" "buf = dst_buf ctx'"
    using assms(1,3) by (auto simp: funchook_make_trampoline_def split: sum.splits)
  have "src (initial_context :: u64 make_trampoline_context) = 0"
    by (simp add: initial_context_def)
  with mt_loop_moved [OF l assms(4,2) initial_copied initial_context_ok(2), of rest] s assms(5)
  show ?thesis
    by (simp add: funchook_make_trampoline_def)
qed

section \<open>Functions that end before five bytes\<close>

lemma copy_insn_short:
  assumes "copied m func ctx" and "src ctx + insn_size i < REL2G_JUMP_SIZE"
    and "rr_size (rel_imm i) = 0" and "rr_size (rel_disp i) = 0"
  shows "\<exists>c. copy_insn m func ctx i = Inr c \<and> copied m func c \<and>
    src c = src ctx + insn_size i \<and> rip_disp c = rip_disp ctx"
proof -
  let ?bs = "mem_read m (func + of_nat (src ctx)) (insn_size i)"
  have "dst ctx + length ?bs \<le> length (dst_buf ctx)"
    using assms(1,2) by (simp add: copied_def x86_sizes)
  then obtain buf where buf: "buf_write (dst ctx) ?bs (dst_buf ctx) = Some buf"
    using buf_write_defined by blast
  have h: "handle_rip_relative c r k = Inr c" if "rr_size r = 0" for c r k
    using that by (simp add: handle_rip_relative_def)
  have c: "copy_insn m func ctx i =
      Inr (ctx\<lparr>dst_buf := buf, src := src ctx + insn_size i, dst := dst ctx + insn_size i\<rparr>)"
    using assms(3,4) by (simp add: copy_insn_def buf h)
  have le: "src ctx + insn_size i \<le> TRAMPOLINE_SIZE"
    using assms(2) by (simp add: x86_sizes)
  note cp = copy_insn_copied [OF c assms(1) le]
  show ?thesis
    by (rule exI, intro conjI, rule c, rule cp(1)) simp_all
qed

lemma mt_loop_short:
  "copied m func ctx \<Longrightarrow> src ctx + insns_size is < REL2G_JUMP_SIZE \<Longrightarrow>
     list_all (\<lambda>i. rr_size (rel_imm i) = 0 \<and> rr_size (rel_disp i) = 0) is \<Longrightarrow>
     \<exists>c. mt_loop no_pc_handler no_pc_handler m func is ctx = Inr (c, 0) \<and> copied m func c \<and>
       src c = src ctx + insns_size is \<and> rip_disp c = rip_disp ctx"
proof (induction "is" arbitrary: ctx)
  case Nil
  then show ?case by (simp add: insns_size_def)
next
  case (Cons i rest)
  then have "src ctx + insn_size i < REL2G_JUMP_SIZE"
    and "rr_size (rel_imm i) = 0" "rr_size (rel_disp i) = 0"
    by (auto simp: insns_size_def)
  from copy_insn_short [OF Cons.prems(1) this] obtain c1 where
    c1: "copy_insn m func ctx i = Inr c1" "copied m func c1"
      "src c1 = src ctx + insn_size i" "rip_disp c1 = rip_disp ctx"
    by blast
  with Cons.IH [of c1] Cons.prems show ?case
    by (simp add: translate_no_handler insns_size_def add.assoc)
qed

lemma skip_nops_all:
  "(\<And>j. src ctx \<le> j \<Longrightarrow> j < REL2G_JUMP_SIZE \<Longrightarrow> m (func + of_nat j) = NOP_INSTRUCTION) \<Longrightarrow>
     \<exists>c. skip_nops m func ctx = Inr c \<and> rip_disp c = rip_disp ctx \<and> dst_buf c = dst_buf ctx"
proof (induction m func ctx rule: skip_nops.induct)
  case (1 m func ctx)
  show ?case
  proof (cases "src ctx < REL2G_JUMP_SIZE")
    case True
    with 1 show ?thesis by (subst skip_nops.simps) auto
  next
    case False
    then show ?thesis by (subst skip_nops.simps) auto
  qed
qed

lemma skip_nops_other:
  "src ctx \<le> j \<Longrightarrow> j < REL2G_JUMP_SIZE \<Longrightarrow> m (func + of_nat j) \<noteq> NOP_INSTRUCTION \<Longrightarrow>
     skip_nops m func ctx = Inl (Err ERROR_TOO_SHORT_INSTRUCTIONS, ''Too short instructions'')"
proof (induction m func ctx rule: skip_nops.induct)
  case (1 m func ctx)
  then show ?case
    by (subst skip_nops.simps) (cases "src ctx = j", auto)
qed

section \<open>What the builder reads\<close>

text \<open>
  The builder looks at no more than \<open>MAX_PATCH_CODE_SIZE\<close> bytes of the function: on two
  memories that agree there it gives the same result.
\<close>

definition same_code :: "('a::len word \<Rightarrow> u8) \<Rightarrow> ('a word \<Rightarrow> u8) \<Rightarrow> 'a word \<Rightarrow> bool" where
  "same_code m m' func \<longleftrightarrow> (\<forall>i < MAX_PATCH_CODE_SIZE. m (func + of_nat i) = m' (func + of_nat i))"

lemma copy_insn_same_code:
  assumes "same_code m m' func" and "src ctx + insn_size insn \<le> MAX_PATCH_CODE_SIZE"
  shows "copy_insn m func ctx insn = copy_insn m' func ctx insn"
proof -
  have "mem_read m (func + of_nat (src ctx)) (insn_size insn) =
      mem_read m' (func + of_nat (src ctx)) (insn_size insn)"
    using assms by (simp add: mem_read_def same_code_def add.assoc flip: of_nat_add)
  then show ?thesis by (simp add: copy_insn_def)
qed

lemma mt_loop_same_code:
  assumes "same_code m m' func"
  shows "list_all wf_insn is \<Longrightarrow> ctx_ok ctx \<Longrightarrow> src ctx < REL2G_JUMP_SIZE \<Longrightarrow>
    mt_loop no_pc_handler no_pc_handler m func is ctx = mt_loop no_pc_handler no_pc_handler m' func is ctx"
proof (induction "is" arbitrary: ctx)
  case (Cons i rest)
  have "src ctx + insn_size i \<le> MAX_PATCH_CODE_SIZE"
    using Cons.prems by (simp add: wf_insn_def x86_sizes)
  note same = copy_insn_same_code [OF assms this]
  show ?case
  proof (cases "copy_insn m func ctx i")
    case (Inr c)
    note ok = copy_insn_ok [OF Inr _ Cons.prems(2,3)]
    have "wf_insn i" "list_all wf_insn rest" using Cons.prems(1) by simp_all
    with Cons.IH [of c] ok show ?thesis
      by (auto simp: translate_no_handler Inr same [symmetric])
  qed (simp add: translate_no_handler same [symmetric])
qed simp

lemma skip_nops_same_code:
  "same_code m m' func \<Longrightarrow> skip_nops m func ctx = skip_nops m' func ctx"
proof (induction m func ctx rule: skip_nops.induct)
  case (1 m func ctx)
  have "m (func + of_nat (src ctx)) = m' (func + of_nat (src ctx))" if "src ctx < REL2G_JUMP_SIZE"
    using 1(2) that by (simp add: same_code_def x86_sizes)
  with 1 show ?case
    by (subst (1 2) skip_nops.simps) simp
qed

lemma make_trampoline_same_code:
  assumes "same_code m m' func" and "disasm m func MAX_INSN_CHECK_SIZE = disasm m' func MAX_INSN_CHECK_SIZE"
    and "\<And>is. disasm m func MAX_INSN_CHECK_SIZE = Inr is \<Longrightarrow> list_all wf_insn is"
  shows "make_trampoline_x86_64 disasm m func = make_trampoline_x86_64 disasm m' func"
proof (cases "disasm m func MAX_INSN_CHECK_SIZE")
  case (Inr "is")
  have "mt_loop no_pc_handler no_pc_handler m func is initial_context =
      mt_loop no_pc_handler no_pc_handler m' func is initial_context"
    by (rule mt_loop_same_code [OF assms(1) assms(3) [OF Inr]])
      (rule initial_context_ok)+
  moreover have "skip_nops m func = skip_nops m' func"
    by (rule ext) (rule skip_nops_same_code [OF assms(1)])
  ultimately show ?thesis
    using Inr assms(2) by (simp add: funchook_make_trampoline_def split: sum.split prod.split)
qed (use assms(2) in \<open>simp add: funchook_make_trampoline_def\<close>)

end
