(* ===== verification/Arch_X86_Exec.thy ===== *)
theory Arch_X86_Exec
  imports Arch_X86_Trampoline
begin

text \<open>
  What the generated x86_64 code does when the processor runs it. \<open>x86_step\<close> is the part
  of the instruction set the generated jumps use (Intel SDM: JMP rel32, JMP r/m64 with a
  RIP-relative operand, LEA r64 with a RIP-relative operand, NOP); it is a specification,
  not code of the library. The lemmas show that control goes from the patched function to
  the hook, or to the hook caller with the transit address in R11, and that a fixed
  trampoline continues in the original function.
\<close>

section \<open>The instructions the generated code uses\<close>

definition rip_operand :: "(u64 \<Rightarrow> u8) \<Rightarrow> u64 \<Rightarrow> u64 \<Rightarrow> u64" where
  "rip_operand m field next = next + scast (of_le_bytes (mem_read m field 4) :: u32)"

text \<open>The state is the instruction pointer and R11.\<close>

definition x86_step :: "(u64 \<Rightarrow> u8) \<Rightarrow> u64 \<times> u64 \<Rightarrow> (u64 \<times> u64) option" where
  "x86_step m st =
     (case st of (pc, r11) \<Rightarrow>
        if m pc = 0xe9 then Some (rip_operand m (pc + 1) (pc + 5), r11)
        else if m pc = 0xff \<and> m (pc + 1) = 0x25 then
          Some (of_le_bytes (mem_read m (rip_operand m (pc + 2) (pc + 6)) 8), r11)
        else if m pc = 0x4c \<and> m (pc + 1) = 0x8d \<and> m (pc + 2) = 0x1d then
          Some (pc + 7, rip_operand m (pc + 3) (pc + 7))
        else if m pc = NOP_INSTRUCTION then Some (pc + 1, r11)
        else None)"

primrec x86_run :: "nat \<Rightarrow> (u64 \<Rightarrow> u8) \<Rightarrow> u64 \<times> u64 \<Rightarrow> (u64 \<times> u64) option" where
  "x86_run 0 m st = Some st"
| "x86_run (Suc n) m st = Option.bind (x86_step m st) (x86_run n m)"

lemma x86_run_Suc: "x86_step m st = Some st' \<Longrightarrow> x86_run (Suc n) m st = x86_run n m st'"
  by simp

section \<open>32-bit displacements\<close>

lemma rel32_roundtrip:
  assumes "funchook_within_32bit_relative s d"
  shows "s + scast (ucast (d - s) :: u32) = d"
proof -
  have b: "- (2 ^ 31) \<le> sint (d - s)" "sint (d - s) < 2 ^ 31"
    using assms unfolding funchook_within_32bit_relative_def Let_def by linarith+
  have "(scast (ucast (d - s) :: u32) :: u64) = of_int (sint (ucast (d - s) :: u32))"
    by (rule of_int_sint [symmetric])
  also have "\<dots> = of_int (sint (d - s))"
    by (simp only: sint_ucast_32_id [OF b])
  also have "\<dots> = d - s"
    by (simp only: of_int_sint scast_id)
  finally show ?thesis by simp
qed

text \<open>Conversely the field only reaches addresses the test accepts.\<close>

lemma rel32_in_range: "funchook_within_32bit_relative s (s + scast (w :: u32))"
proof -
  have "sint (scast w :: u64) = sint w"
    by (rule sint_up_scast) (simp add: is_up_def source_size_def target_size_def word_size)
  moreover have "- (2 ^ 31) \<le> sint w" "sint w < 2 ^ 31"
    using sint_ge [of w] sint_lt [of w] by simp_all
  ultimately show ?thesis
    by (simp add: funchook_within_32bit_relative_def Let_def)
qed

lemma rip_operandI:
  assumes "mem_read m field 4 = le_bytes 4 (ucast (d - next) :: u32)"
    and "funchook_within_32bit_relative next d"
  shows "rip_operand m field next = d"
  using rel32_roundtrip [OF assms(2)] by (simp add: rip_operand_def assms(1))

section \<open>The jumps\<close>

lemma step_relative_jump:
  assumes "code_at m s (0xe9 # le_bytes 4 (ucast (d - (s + 5)) :: u32))"
    and "funchook_relative_2g_jump_avail s d"
  shows "x86_step m (s, r11) = Some (d, r11)"
proof -
  have "m s = 0xe9" and f: "code_at m (s + 1) (le_bytes 4 (ucast (d - (s + 5)) :: u32))"
    using assms(1) by (simp_all add: code_at_Cons)
  moreover have "rip_operand m (s + 1) (s + 5) = d"
    using assms(2) code_at_read [OF f]
    by (intro rip_operandI) (simp_all add: funchook_relative_2g_jump_avail_def)
  ultimately show ?thesis by (simp add: x86_step_def)
qed

lemma scast_zero_operand:
  assumes "code_at m field [0, 0, 0, 0]"
  shows "rip_operand m field next = next"
proof -
  have "mem_read m field 4 = [0, 0, 0, 0]"
    by (rule code_at_read [OF assms]) simp
  then show ?thesis by (simp add: rip_operand_def)
qed

lemma step_absolute_jump:
  assumes "code_at m s ([0xFF, 0x25, 0x00, 0x00, 0x00, 0x00] @ le_bytes 8 (d :: u64))"
  shows "x86_step m (s, r11) = Some (d, r11)"
proof -
  have b: "m s = 0xff" "m (s + 1) = 0x25" and z: "code_at m (s + 2) [0, 0, 0, 0]"
    and p: "code_at m (s + 6) (le_bytes 8 d)"
    using assms by (simp_all add: code_at_Cons code_at_append add.assoc)
  have "mem_read m (s + 6) 8 = le_bytes 8 d"
    using code_at_read [OF p, of 8] by simp
  then show ?thesis
    using b scast_zero_operand [OF z, of "s + 6"] by (simp add: x86_step_def)
qed

text \<open>The transit code of \<open>template.inc\<close> with the address of the hook caller filled in.\<close>

definition prehook_transit :: "u64 \<Rightarrow> u8 list" where
  "prehook_transit hook_caller_asm =
     take 13 TRANSIT_CODE_TEMPLATE_x86_64 @ le_bytes 8 hook_caller_asm"

lemma run_prehook_transit:
  assumes "code_at m s (prehook_transit h)"
  shows "x86_run 2 m (s, r11) = Some (h, s)"
proof -
  let ?lea = "[0x4c, 0x8d, 0x1d, 0xf9, 0xff, 0xff, 0xff] :: u8 list"
  have "prehook_transit h = ?lea @ ([0xff, 0x25, 0, 0, 0, 0] @ le_bytes 8 h)"
    by (simp add: prehook_transit_def TRANSIT_CODE_TEMPLATE_x86_64_def)
  with assms have "code_at m s ?lea \<and>
      code_at m (s + of_nat (length ?lea)) ([0xff, 0x25, 0, 0, 0, 0] @ le_bytes 8 h)"
    by (simp only: code_at_append)
  then have l: "code_at m s ?lea" and j: "code_at m (s + 7) ([0xff, 0x25, 0, 0, 0, 0] @ le_bytes 8 h)"
    by simp_all
  have f: "code_at m (s + 3) [0xf9, 0xff, 0xff, 0xff]"
    and b: "m s = 0x4c" "m (s + 1) = 0x8d" "m (s + 2) = 0x1d"
    using l by (simp_all add: code_at_Cons add.assoc)
  have "mem_read m (s + 3) 4 = [0xf9, 0xff, 0xff, 0xff]"
    by (rule code_at_read [OF f]) simp
  then have "rip_operand m (s + 3) (s + 7) = s"
    by (simp add: rip_operand_def)
  with b have "x86_step m (s, r11) = Some (s + 7, s)"
    by (simp add: x86_step_def)
  moreover have "x86_step m (s + 7, s) = Some (h, s)"
    using j by (rule step_absolute_jump)
  ultimately show ?thesis
    by (simp add: numeral_2_eq_2)
qed

end
