(* ===== verification/Arch_X86_Entry.thy ===== *)
theory Arch_X86_Entry
  imports Arch_X86_Exec
begin

text \<open>
  Entries as \<open>funchook_fix_code\<close> leaves them on x86_64, and what runs when the patched
  function or the trampoline of such an entry is entered.
\<close>

section \<open>The result of \<open>funchook_fix_code\<close>\<close>

definition entry_shape :: "(u64, u8) funchook_entry \<Rightarrow> bool" where
  "entry_shape e \<longleftrightarrow> length (transit e) = length TRANSIT_CODE_TEMPLATE_x86_64 \<and>
     length (trampoline e) = TRAMPOLINE_SIZE"

text \<open>The function the entry's jump leads to, \<open>hook_func\<close> in \<open>funchook_fix_code\<close>.\<close>

definition jump_target :: "u64 \<Rightarrow> (u64, u8) funchook_entry \<Rightarrow> u64" where
  "jump_target ea e = (if hook_func e \<noteq> 0 then hook_func e else ea + 72)"

definition rel_jump_code :: "u64 \<Rightarrow> u64 \<Rightarrow> u8 list" where
  "rel_jump_code s d = 0xe9 # le_bytes 4 (ucast (d - (s + 5)) :: u32)"

text \<open>The transit code and the patch that an entry gets.\<close>

definition expected_transit :: "u64 \<Rightarrow> u64 \<Rightarrow> (u64, u8) funchook_entry \<Rightarrow> u8 list" where
  "expected_transit hook_caller_asm ea e =
     (if prehook e \<noteq> 0 then prehook_transit hook_caller_asm
      else if \<not> funchook_relative_2g_jump_avail (target_func e) (jump_target ea e)
      then [0xFF, 0x25, 0x00, 0x00, 0x00, 0x00] @ le_bytes 8 (jump_target ea e) @ drop 14 (transit e)
      else 0 # drop 1 (transit e))"

definition expected_new_code :: "u64 \<Rightarrow> (u64, u8) funchook_entry \<Rightarrow> u8 list" where
  "expected_new_code ea e =
     rel_jump_code (target_func e)
       (if prehook e \<noteq> 0 \<or> \<not> funchook_relative_2g_jump_avail (target_func e) (jump_target ea e)
        then ea else jump_target ea e)
     @ replicate (MAX_PATCH_CODE_SIZE - 5) NOP_INSTRUCTION"

lemma write_relative_jump_nops:
  "funchook_write_relative_2g_jump s d (replicate MAX_PATCH_CODE_SIZE NOP_INSTRUCTION) =
     Some (rel_jump_code s d @ replicate (MAX_PATCH_CODE_SIZE - 5) NOP_INSTRUCTION)"
  by (simp add: funchook_write_relative_2g_jump_def buf_write_def rel_jump_code_def x86_sizes)

lemma write_prehook_x86_64:
  "buf_write TRANSIT_HOOK_CALLER_ADDR_x86_64 (le_bytes 8 h) TRANSIT_CODE_TEMPLATE_x86_64 =
     Some (prehook_transit h)"
  by (simp add: buf_write_def prehook_transit_def TRANSIT_CODE_TEMPLATE_x86_64_def
      TRANSIT_HOOK_CALLER_ADDR_x86_64_def)

lemma write_absolute_jump_x86_64:
  "14 \<le> length t \<Longrightarrow> funchook_write_absolute_jump t d =
     Some ([0xFF, 0x25, 0x00, 0x00, 0x00, 0x00] @ le_bytes 8 d @ drop 14 t)"
  by (simp add: funchook_write_absolute_jump_def buf_write_def)

lemma write_entry_jump_x86_64:
  assumes "entry_shape e"
  shows "write_entry_jump CPU_X86_64 hc ea e (jump_target ea e) =
    Some (e\<lparr>new_code := expected_new_code ea e, transit := expected_transit hc ea e\<rparr>)"
proof -
  have l: "14 \<le> length (transit e)" "transit e \<noteq> []"
    using assms by (auto simp: entry_shape_def TRANSIT_CODE_TEMPLATE_x86_64_def)
  then have z: "buf_write 0 [0] (transit e) = Some (0 # drop 1 (transit e))"
    by (cases "transit e") (auto simp: buf_write_def)
  show ?thesis
    using l z
    by (simp add: write_entry_jump_def Let_def CPU_X86_64_def write_relative_jump_nops
        funchook_write_jump_with_prehook_def write_prehook_x86_64 write_absolute_jump_x86_64
        expected_new_code_def expected_transit_def)
qed

lemma jump_target_update [simp]:
  "jump_target ea (e\<lparr>patch_code_size := x\<rparr>) = jump_target ea e"
  "expected_new_code ea (e\<lparr>patch_code_size := x\<rparr>) = expected_new_code ea e"
  "expected_transit hc ea (e\<lparr>patch_code_size := x\<rparr>) = expected_transit hc ea e"
  by (simp_all add: jump_target_def expected_new_code_def expected_transit_def)

lemma fix_displacement_defined:
  assumes "disp_in_bounds d" and "length t = TRAMPOLINE_SIZE"
  shows "fix_displacement cpu ea d t =
    buf_write (nat (pos_offset d))
      (le_bytes 4 (ucast (dst_addr d -
         (ea + of_nat (offsetof_trampoline cpu) + of_int (src_addr_offset d))) :: u32)) t"
    and "fix_displacement cpu ea d t \<noteq> None"
  using assms
  by (auto simp: fix_displacement_def buf_write_u32_def disp_in_bounds_def Let_def buf_simps)

lemma length_fix_displacement:
  "fix_displacement cpu ea d t = Some t' \<Longrightarrow> length t' = length t"
  by (auto simp: fix_displacement_def buf_write_u32_def Let_def length_buf_write split: if_splits)

text \<open>
  \<open>funchook_fix_code\<close> succeeds on every entry of the right shape, and what it returns.
\<close>

lemma fix_code_x86_64:
  assumes "entry_shape e" and "disp_in_bounds (fst d)" and "disp_in_bounds (snd d)"
  obtains t1 t2 where
    "fix_displacement CPU_X86_64 ea (fst d) (trampoline e) = Some t1"
    and "(if dst_addr (snd d) \<noteq> 0 then fix_displacement CPU_X86_64 ea (snd d) t1 else Some t1) = Some t2"
    and "funchook_fix_code CPU_X86_64 hc ea e d =
      Some (e\<lparr>patch_code_size := ucast (dst_addr (fst d) - target_func e),
              new_code := expected_new_code ea e, transit := expected_transit hc ea e,
              trampoline := t2\<rparr>)"
    and "length t2 = TRAMPOLINE_SIZE"
proof -
  have lt: "length (trampoline e) = TRAMPOLINE_SIZE"
    using assms(1) by (simp add: entry_shape_def)
  then obtain t1 where t1: "fix_displacement CPU_X86_64 ea (fst d) (trampoline e) = Some t1"
    using fix_displacement_defined(2) [OF assms(2)] by blast
  then have l1: "length t1 = TRAMPOLINE_SIZE"
    using lt by (simp add: length_fix_displacement)
  then obtain t2 where
    t2: "(if dst_addr (snd d) \<noteq> 0 then fix_displacement CPU_X86_64 ea (snd d) t1 else Some t1) = Some t2"
    using fix_displacement_defined(2) [OF assms(3) l1] by (cases "dst_addr (snd d) \<noteq> 0") auto
  have l2: "length t2 = TRAMPOLINE_SIZE"
    using t2 l1 by (auto simp: length_fix_displacement split: if_splits)
  let ?e1 = "e\<lparr>patch_code_size := ucast (dst_addr (fst d) - target_func e)\<rparr>"
  have s1: "entry_shape ?e1" using assms(1) by (simp add: entry_shape_def)
  have jt: "(if hook_func e \<noteq> 0 then hook_func e else ea + of_nat (offsetof_trampoline CPU_X86_64)) =
      jump_target ea ?e1"
    by (simp add: jump_target_def CPU_X86_64_def)
  let ?r = "e\<lparr>patch_code_size := ucast (dst_addr (fst d) - target_func e),
              new_code := expected_new_code ea e, transit := expected_transit hc ea e,
              trampoline := t2\<rparr>"
  let ?F = "\<lambda>entry2. Option.bind (fix_displacement CPU_X86_64 ea (fst d) (trampoline entry2))
      (\<lambda>tramp. if dst_addr (snd d) \<noteq> 0
         then map_option (\<lambda>tramp'. entry2\<lparr>trampoline := tramp'\<rparr>)
                (fix_displacement CPU_X86_64 ea (snd d) tramp)
         else Some (entry2\<lparr>trampoline := tramp\<rparr>))"
  have "funchook_fix_code CPU_X86_64 hc ea e d = Some ?r"
    unfolding funchook_fix_code_def Let_def jt write_entry_jump_x86_64 [OF s1]
  proof (cases "dst_addr (snd d) = 0")
    case True
    with t2 show "Option.bind (Some (?e1\<lparr>new_code := expected_new_code ea ?e1,
          transit := expected_transit hc ea ?e1\<rparr>)) ?F = Some ?r" by (simp add: t1)
  next
    case False
    with t2 have "fix_displacement CPU_X86_64 ea (snd d) t1 = Some t2" by simp
    with False show "Option.bind (Some (?e1\<lparr>new_code := expected_new_code ea ?e1,
          transit := expected_transit hc ea ?e1\<rparr>)) ?F = Some ?r" by (simp add: t1)
  qed
  with t1 t2 l2 that show ?thesis by blast
qed

lemma length_expected_transit:
  "length (transit e) = 21 \<Longrightarrow> length (expected_transit hc ea e) = 21"
  by (simp add: expected_transit_def prehook_transit_def TRANSIT_CODE_TEMPLATE_x86_64_def)

lemma fix_code_fields:
  assumes "entry_shape e" and "disp_in_bounds (fst d)" and "disp_in_bounds (snd d)"
    and "funchook_fix_code CPU_X86_64 hc ea e d = Some e'"
  shows "e' = e\<lparr>patch_code_size := ucast (dst_addr (fst d) - target_func e),
      new_code := expected_new_code ea e, transit := expected_transit hc ea e,
      trampoline := trampoline e'\<rparr>"
    and "entry_shape e'"
proof -
  obtain t where e': "e' = e\<lparr>patch_code_size := ucast (dst_addr (fst d) - target_func e),
      new_code := expected_new_code ea e, transit := expected_transit hc ea e, trampoline := t\<rparr>"
    and t: "length t = TRAMPOLINE_SIZE"
    using fix_code_x86_64 [OF assms(1-3), of ea hc] assms(4) by (metis option.inject)
  from e' show "e' = e\<lparr>patch_code_size := ucast (dst_addr (fst d) - target_func e),
      new_code := expected_new_code ea e, transit := expected_transit hc ea e,
      trampoline := trampoline e'\<rparr>" by simp
  have "length TRANSIT_CODE_TEMPLATE_x86_64 = 21"
    by (simp add: TRANSIT_CODE_TEMPLATE_x86_64_def)
  then show "entry_shape e'"
    using e' t assms(1) by (simp add: entry_shape_def length_expected_transit)
qed

section \<open>Entries in memory\<close>

lemma entry_bytes_split:
  "length (transit e) = 21 \<Longrightarrow> code_at m ea (entry_bytes_x86_64 e) \<Longrightarrow>
     code_at m ea (transit e) \<and> code_at m (ea + 72) (trampoline e)"
  by (simp add: entry_bytes_x86_64_def code_at_append code_at_Cons add.assoc)

lemma code_at_le_jump:
  "code_at m s (rel_jump_code s d) \<Longrightarrow> funchook_relative_2g_jump_avail s d \<Longrightarrow>
     x86_step m (s, r11) = Some (d, r11)"
  unfolding rel_jump_code_def by (rule step_relative_jump)

text \<open>Where the processor is after the jumps of an entry.\<close>

definition hook_reached :: "u64 \<Rightarrow> u64 \<Rightarrow> (u64, u8) funchook_entry \<Rightarrow> u64 \<Rightarrow> u64 \<times> u64" where
  "hook_reached hook_caller_asm ea e r11 =
     (if prehook e \<noteq> 0 then (hook_caller_asm, ea) else (jump_target ea e, r11))"

lemma patched_function_reaches_hook:
  assumes "length (transit e) = 21"
    and "code_at m ea (expected_transit hc ea e)"
    and "code_at m (target_func e) (take k (expected_new_code ea e))" and "5 \<le> k"
    and "funchook_relative_2g_jump_avail (target_func e) ea"
  shows "\<exists>n \<le> 3. x86_run n m (target_func e, r11) = Some (hook_reached hc ea e r11)"
proof -
  let ?j = "if prehook e \<noteq> 0 \<or> \<not> funchook_relative_2g_jump_avail (target_func e) (jump_target ea e)
    then ea else jump_target ea e"
  have "take 5 (take k (expected_new_code ea e)) = rel_jump_code (target_func e) ?j"
    using assms(4) by (simp add: min_def expected_new_code_def rel_jump_code_def)
  then have "code_at m (target_func e) (rel_jump_code (target_func e) ?j)"
    using code_at_take [OF assms(3), of 5] by simp
  then have s1: "x86_step m (target_func e, r11) = Some (?j, r11)"
    using assms(5) by (intro code_at_le_jump) auto
  consider (pre) "prehook e \<noteq> 0"
    | (far) "prehook e = 0" "\<not> funchook_relative_2g_jump_avail (target_func e) (jump_target ea e)"
    | (near) "prehook e = 0" "funchook_relative_2g_jump_avail (target_func e) (jump_target ea e)"
    by blast
  then show ?thesis
  proof cases
    case pre
    then have "x86_run 2 m (ea, r11) = Some (hc, ea)"
      using assms(2) by (intro run_prehook_transit) (simp add: expected_transit_def)
    then have "x86_run (Suc 2) m (target_func e, r11) = Some (hook_reached hc ea e r11)"
      using x86_run_Suc [OF s1, of 2] pre by (simp add: hook_reached_def del: x86_run.simps)
    then show ?thesis by (intro exI [of _ "Suc 2"]) simp
  next
    case far
    then have "code_at m ea ([0xFF, 0x25, 0x00, 0x00, 0x00, 0x00] @ le_bytes 8 (jump_target ea e))"
      using assms(2) by (simp add: expected_transit_def code_at_append code_at_Cons add.assoc)
    then have "x86_step m (ea, r11) = Some (jump_target ea e, r11)"
      by (rule step_absolute_jump)
    then have "x86_run 2 m (target_func e, r11) = Some (hook_reached hc ea e r11)"
      using s1 far by (simp add: hook_reached_def numeral_2_eq_2)
    then show ?thesis by (intro exI [of _ 2]) simp
  next
    case near
    then have "x86_run 1 m (target_func e, r11) = Some (hook_reached hc ea e r11)"
      using s1 by (simp add: hook_reached_def)
    then show ?thesis by (intro exI [of _ 1]) simp
  qed
qed


section \<open>The fixed trampoline\<close>

definition fixed_field :: "u64 \<Rightarrow> u64 ip_displacement_entry \<Rightarrow> u8 list" where
  "fixed_field ea d = le_bytes 4 (ucast (dst_addr d - (ea + 72 + of_int (src_addr_offset d))) :: u32)"

definition in_field :: "u64 ip_displacement_entry \<Rightarrow> nat \<Rightarrow> bool" where
  "in_field d j \<longleftrightarrow> nat (pos_offset d) \<le> j \<and> j < nat (pos_offset d) + 4"

lemma fix_displacement_field:
  assumes "fix_displacement CPU_X86_64 ea d t = Some t'" and "disp_in_bounds d"
    and "length t = TRAMPOLINE_SIZE"
  shows "buf_read (nat (pos_offset d)) 4 t' = fixed_field ea d"
    and "\<And>i n. i + n \<le> nat (pos_offset d) \<or> nat (pos_offset d) + 4 \<le> i \<Longrightarrow>
           buf_read i n t' = buf_read i n t"
    and "\<And>j. j < TRAMPOLINE_SIZE \<Longrightarrow> \<not> in_field d j \<Longrightarrow> t' ! j = t ! j"
proof -
  have w: "buf_write (nat (pos_offset d)) (fixed_field ea d) t = Some t'"
    using assms(1) fix_displacement_defined(1) [OF assms(2,3)]
    by (simp add: fixed_field_def CPU_X86_64_def)
  have l: "length (fixed_field ea d) = 4" by (simp add: fixed_field_def)
  show "buf_read (nat (pos_offset d)) 4 t' = fixed_field ea d"
    using buf_read_write_same [OF w] by (simp add: l)
  show "buf_read i n t' = buf_read i n t"
    if "i + n \<le> nat (pos_offset d) \<or> nat (pos_offset d) + 4 \<le> i" for i n
    using buf_read_write_other [OF w, of i n] that by (simp add: l)
  show "t' ! j = t ! j" if "j < TRAMPOLINE_SIZE" "\<not> in_field d j" for j
    using nth_buf_write [OF w, of j] that assms(3) by (auto simp: l in_field_def)
qed

lemma fix_code_trampoline:
  assumes "entry_shape e" and "disp_in_bounds (fst d)" and "disp_in_bounds (snd d)"
    and "dst_addr (snd d) \<noteq> 0 \<Longrightarrow> pos_offset (snd d) + 4 \<le> pos_offset (fst d)"
    and "funchook_fix_code CPU_X86_64 hc ea e d = Some e'"
  shows "buf_read (nat (pos_offset (fst d))) 4 (trampoline e') = fixed_field ea (fst d)"
    and "dst_addr (snd d) \<noteq> 0 \<Longrightarrow>
      buf_read (nat (pos_offset (snd d))) 4 (trampoline e') = fixed_field ea (snd d)"
    and "\<And>j. j < TRAMPOLINE_SIZE \<Longrightarrow> \<not> in_field (fst d) j \<Longrightarrow>
      (dst_addr (snd d) \<noteq> 0 \<Longrightarrow> \<not> in_field (snd d) j) \<Longrightarrow> trampoline e' ! j = trampoline e ! j"
proof -
  have lt: "length (trampoline e) = TRAMPOLINE_SIZE"
    using assms(1) by (simp add: entry_shape_def)
  obtain t1 t2 where t1: "fix_displacement CPU_X86_64 ea (fst d) (trampoline e) = Some t1"
    and t2: "(if dst_addr (snd d) \<noteq> 0 then fix_displacement CPU_X86_64 ea (snd d) t1 else Some t1) = Some t2"
    and e': "trampoline e' = t2"
    using fix_code_x86_64 [OF assms(1-3), of ea hc] assms(5) by force
  have l1: "length t1 = TRAMPOLINE_SIZE"
    using t1 lt by (simp add: length_fix_displacement)
  note f1 = fix_displacement_field [OF t1 assms(2) lt]
  show "buf_read (nat (pos_offset (fst d))) 4 (trampoline e') = fixed_field ea (fst d)"
  proof (cases "dst_addr (snd d) = 0")
    case True
    with t2 f1(1) show ?thesis by (simp add: e')
  next
    case False
    with t2 have t2': "fix_displacement CPU_X86_64 ea (snd d) t1 = Some t2" by simp
    have "nat (pos_offset (snd d)) + 4 \<le> nat (pos_offset (fst d))"
      using assms(3,4) False by (auto simp: disp_in_bounds_def)
    then show ?thesis
      using fix_displacement_field(2) [OF t2' assms(3) l1, of "nat (pos_offset (fst d))" 4] f1(1)
      by (simp add: e')
  qed
  show "buf_read (nat (pos_offset (snd d))) 4 (trampoline e') = fixed_field ea (snd d)"
    if "dst_addr (snd d) \<noteq> 0"
    using that t2 fix_displacement_field(1) [OF _ assms(3) l1] by (simp add: e')
  show "trampoline e' ! j = trampoline e ! j"
    if "j < TRAMPOLINE_SIZE" "\<not> in_field (fst d) j"
      "dst_addr (snd d) \<noteq> 0 \<Longrightarrow> \<not> in_field (snd d) j" for j
    using that t2 f1(3) fix_displacement_field(3) [OF _ assms(3) l1]
    by (cases "dst_addr (snd d) = 0") (auto simp: e')
qed

text \<open>Reading a field of a trampoline in memory.\<close>

lemma code_at_buf_read:
  assumes "code_at m a buf" and "i + n \<le> length buf"
  shows "mem_read m (a + of_nat i) n = buf_read i n buf"
proof -
  have "code_at m a (take i buf @ (take n (drop i buf) @ drop (i + n) buf))"
    using assms(1) by (metis add.commute append_take_drop_id drop_drop)
  then have "code_at m (a + of_nat i) (take n (drop i buf))"
    using assms(2) by (simp add: code_at_append)
  then show ?thesis
    using assms(2) by (intro code_at_read [THEN trans]) (auto simp: buf_read_def)
qed

lemma rip_operand_fixed:
  assumes "code_at m (ea + 72) t" and "length t = TRAMPOLINE_SIZE" and "disp_in_bounds d"
    and "buf_read (nat (pos_offset d)) 4 t = fixed_field ea d"
    and "funchook_within_32bit_relative (ea + 72 + of_int (src_addr_offset d)) (dst_addr d)"
  shows "rip_operand m (ea + 72 + of_nat (nat (pos_offset d)))
    (ea + 72 + of_int (src_addr_offset d)) = dst_addr d"
proof (rule rip_operandI [OF _ assms(5)])
  have "nat (pos_offset d) + 4 \<le> length t"
    using assms(2,3) by (auto simp: disp_in_bounds_def)
  from code_at_buf_read [OF assms(1) this] assms(4)
  show "mem_read m (ea + 72 + of_nat (nat (pos_offset d))) 4 =
      le_bytes 4 (ucast (dst_addr d - (ea + 72 + of_int (src_addr_offset d))) :: u32)"
    by (simp add: fixed_field_def)
qed


section \<open>From the disassembled function to its trampoline\<close>

lemma expected_trampoline_facts:
  assumes "list_all wf_insn is" and "is \<noteq> []"
    and "(d, buf, n) = expected_trampoline m func is" and "patch_size is \<le> MAX_PATCH_CODE_SIZE"
  shows "fst d = \<lparr>dst_addr = func + of_nat (patch_size is),
      src_addr_offset = int (patch_size is) + 5, pos_offset = int (patch_size is) + 1\<rparr>"
    and "buf ! patch_size is = 0xe9"
    and "\<And>j. j < patch_size is \<Longrightarrow> buf ! j = m (func + of_nat j)"
    and "dst_addr (snd d) \<noteq> 0 \<Longrightarrow> pos_offset (snd d) + 4 \<le> int (patch_size is)"
proof -
  let ?mv = "moved_insns 0 is" and ?k = "patch_size is"
  let ?l = "last ?mv"
  have mv: "?mv \<noteq> []" using assms(2) by (rule moved_insns_nonempty)
  obtain rest where "is = ?mv @ rest" using moved_insns_decomp [of "is" 0] by blast
  with mv have "?l \<in> set is" by (metis UnI1 last_in_set set_append)
  then have wf: "wf_insn ?l" using assms(1) by (auto simp: list_all_iff)
  have "insn_size ?l \<le> ?k"
    using mv by (simp add: patch_size_def insns_size_def member_le_sum_list)
  then have k: "int (?k - insn_size ?l) + int (insn_size ?l) = int ?k" by simp
  have e: "d = (\<lparr>dst_addr = func + of_nat ?k, src_addr_offset = int ?k + 5, pos_offset = int ?k + 1\<rparr>,
        insn_displacement (?k - insn_size ?l) ?l no_displacement)"
    "buf = mem_read m func ?k @ [0xe9] @ replicate (TRAMPOLINE_SIZE - ?k - 1) NOP_INSTRUCTION"
    using assms(3) by (simp_all add: expected_trampoline_def Let_def)
  show "fst d = \<lparr>dst_addr = func + of_nat ?k, src_addr_offset = int ?k + 5, pos_offset = int ?k + 1\<rparr>"
    and "buf ! ?k = 0xe9" and "\<And>j. j < ?k \<Longrightarrow> buf ! j = m (func + of_nat j)"
    by (simp_all add: e nth_append nth_mem_read)
  show "pos_offset (snd d) + 4 \<le> int ?k" if "dst_addr (snd d) \<noteq> 0"
    using that wf k
    by (auto simp: e insn_displacement_def rel_entry_def no_displacement_def wf_insn_def wf_rel_def
        split: if_splits)
qed

lemma page_avail_ranges:
  assumes "funchook_page_avail page idx func d" and "ea = entry_address CPU_X86_64 page idx"
  shows "funchook_relative_2g_jump_avail func ea"
    and "funchook_within_32bit_relative (ea + 72 + of_int (src_addr_offset (fst d))) (dst_addr (fst d))"
    and "dst_addr (snd d) \<noteq> 0 \<Longrightarrow>
      funchook_within_32bit_relative (ea + 72 + of_int (src_addr_offset (snd d))) (dst_addr (snd d))"
  using assms
  by (auto simp: funchook_page_avail_def Let_def CPU_X86_64_def entry_address_def split: if_splits)

section \<open>Executing the entry\<close>

lemma run_patched:
  assumes "entry_shape e" and "disp_in_bounds (fst d)" and "disp_in_bounds (snd d)"
    and "funchook_page_avail page idx (target_func e) d"
    and "ea = entry_address CPU_X86_64 page idx"
    and "funchook_fix_code CPU_X86_64 hc ea e d = Some e'"
    and "code_at m ea (entry_bytes_x86_64 e')"
    and "code_at m (target_func e) (take k (new_code e'))" and "5 \<le> k"
  shows "\<exists>n \<le> 3. x86_run n m (target_func e, r11) = Some (hook_reached hc ea e r11)"
proof (rule patched_function_reaches_hook [OF _ _ _ assms(9)])
  note e' = fix_code_fields [OF assms(1-3,6)]
  have tr: "transit e' = expected_transit hc ea e" and nc: "new_code e' = expected_new_code ea e"
    by (subst e'(1), simp)+
  show "length (transit e) = 21"
    using assms(1) by (simp add: entry_shape_def TRANSIT_CODE_TEMPLATE_x86_64_def)
  have "length (transit e') = 21"
    using e'(2) by (simp add: entry_shape_def TRANSIT_CODE_TEMPLATE_x86_64_def)
  then show "code_at m ea (expected_transit hc ea e)"
    using assms(7) entry_bytes_split [of e' m ea] by (simp add: tr)
  show "code_at m (target_func e) (take k (expected_new_code ea e))"
    using assms(8) by (simp add: nc)
  show "funchook_relative_2g_jump_avail (target_func e) ea"
    by (rule page_avail_ranges(1) [OF assms(4,5)])
qed

text \<open>The patch covers exactly the moved instructions.\<close>

lemma patch_code_size_x86_64:
  assumes "list_all wf_insn is" and "is \<noteq> []" and "(d, buf, n) = expected_trampoline m func is"
    and "patch_size is \<le> MAX_PATCH_CODE_SIZE" and "entry_shape e"
    and "disp_in_bounds (fst d)" and "disp_in_bounds (snd d)"
    and "funchook_fix_code CPU_X86_64 hc ea e d = Some e'" and "target_func e = func"
  shows "unat (patch_code_size e') = patch_size is"
proof -
  have "patch_code_size e' = ucast (dst_addr (fst d) - target_func e)"
    by (subst fix_code_fields(1) [OF assms(5-8)]) simp
  also have "\<dots> = ucast (of_nat (patch_size is) :: u64)"
    using expected_trampoline_facts(1) [OF assms(1-4)] assms(9) by simp
  finally show ?thesis
    using assms(4) by (simp add: unsigned_ucast_eq unat_of_nat x86_sizes take_bit_nat_eq_self)
qed

lemma resume_trampoline:
  assumes "disasm m func MAX_INSN_CHECK_SIZE = Inr is" and "list_all wf_insn is" and "is \<noteq> []"
    and "make_trampoline_x86_64 disasm m func = Inr (d, buf, n)" and "n \<noteq> 0"
    and "entry_shape e" and "trampoline e = buf"
    and "funchook_page_avail page idx func d" and "ea = entry_address CPU_X86_64 page idx"
    and "funchook_fix_code CPU_X86_64 hc ea e d = Some e'"
    and "code_at m' ea (entry_bytes_x86_64 e')"
  shows "x86_step m' (ea + 72 + of_nat (patch_size is), r11) = Some (func + of_nat (patch_size is), r11)
    \<and> (\<forall>j < patch_size is. dst_addr (snd d) = 0 \<or> \<not> in_field (snd d) j \<longrightarrow>
          m' (ea + 72 + of_nat j) = m (func + of_nat j))
    \<and> (dst_addr (snd d) \<noteq> 0 \<longrightarrow>
         rip_operand m' (ea + 72 + of_nat (nat (pos_offset (snd d))))
           (ea + 72 + of_int (src_addr_offset (snd d))) = dst_addr (snd d))"
proof -
  let ?k = "patch_size is" and ?t = "trampoline e'"
  note x = make_trampoline_x86_64_expected [OF assms(1,2,4,5)]
  note f = expected_trampoline_facts [OF assms(2,3) x(1,3)]
  have ok: "trampoline_ok func (d, buf, n)"
    by (rule x86_64.make_trampoline_ok [of disasm m func "is", OF assms(1,2,4)])
  then have b: "disp_in_bounds (fst d)" "disp_in_bounds (snd d)" and lb: "length buf = TRAMPOLINE_SIZE"
    by (simp_all add: trampoline_ok_def)
  have sep: "dst_addr (snd d) \<noteq> 0 \<Longrightarrow> pos_offset (snd d) + 4 \<le> pos_offset (fst d)"
    using f(4) by (simp add: f(1))
  note t = fix_code_trampoline [OF assms(6) b _ assms(10)]
  have t1: "buf_read (nat (pos_offset (fst d))) 4 ?t = fixed_field ea (fst d)"
    and t2: "dst_addr (snd d) \<noteq> 0 \<Longrightarrow> buf_read (nat (pos_offset (snd d))) 4 ?t = fixed_field ea (snd d)"
    and t3: "j < TRAMPOLINE_SIZE \<Longrightarrow> \<not> in_field (fst d) j \<Longrightarrow>
      dst_addr (snd d) = 0 \<or> \<not> in_field (snd d) j \<Longrightarrow> ?t ! j = buf ! j" for j
    using t sep assms(7) by auto
  have s: "entry_shape e'"
    by (rule fix_code_fields(2) [OF assms(6) b assms(10)])
  then have "length (transit e') = 21" and lt: "length ?t = TRAMPOLINE_SIZE"
    by (simp_all add: entry_shape_def TRANSIT_CODE_TEMPLATE_x86_64_def)
  then have c: "code_at m' (ea + 72) ?t"
    using entry_bytes_split assms(11) by blast
  note r = page_avail_ranges [OF assms(8,9)]
  have k: "?k + 1 + 4 \<le> TRAMPOLINE_SIZE"
    using x(3) by (simp add: x86_sizes)
  have at: "m' (ea + 72 + of_nat j) = ?t ! j" if "j < TRAMPOLINE_SIZE" for j
    using code_at_nth [OF c] that lt by simp
  have nf: "\<not> in_field (fst d) j" if "j \<le> ?k" for j
    using that by (simp add: f(1) in_field_def nat_le_iff)
  have nd: "dst_addr (snd d) \<noteq> 0 \<Longrightarrow> \<not> in_field (snd d) ?k"
    using f(4) b(2) by (auto simp: in_field_def disp_in_bounds_def)
  have "?t ! ?k = 0xe9"
    using t3 [of ?k] nf [of ?k] nd f(2) k by (metis add_lessD1 add_leD1 le_refl less_le_trans less_add_one)
  then have op: "m' (ea + 72 + of_nat ?k) = 0xe9"
    using at k by simp
  have "rip_operand m' (ea + 72 + of_nat ?k + 1) (ea + 72 + of_nat ?k + 5) = func + of_nat ?k"
    using rip_operand_fixed [OF c lt b(1) t1 r(2)]
    by (simp add: f(1) nat_add_distrib add.assoc)
  with op have step: "x86_step m' (ea + 72 + of_nat ?k, r11) = Some (func + of_nat ?k, r11)"
    by (simp add: x86_step_def)
  have copy: "m' (ea + 72 + of_nat j) = m (func + of_nat j)"
    if "j < ?k" "dst_addr (snd d) = 0 \<or> \<not> in_field (snd d) j" for j
    using that at [of j] t3 [OF _ nf, of j] f(3) k by auto
  have field: "rip_operand m' (ea + 72 + of_nat (nat (pos_offset (snd d))))
      (ea + 72 + of_int (src_addr_offset (snd d))) = dst_addr (snd d)" if "dst_addr (snd d) \<noteq> 0"
    using rip_operand_fixed [OF c lt b(2) t2 [OF that] r(3) [OF that]] .
  from step copy field show ?thesis by blast
qed

end
