(* ===== verification/Arch_X86_Correct.thy ===== *)
theory Arch_X86_Correct
  imports Arch_X86_Entry
begin

text \<open>
  The properties of the x86 code generator, stated over the definitions of \<open>Arch_X86\<close>,
  each with a concrete case. The lemmas they rest on are in \<open>Arch_X86_Safety\<close> (bounds),
  \<open>Arch_X86_Trampoline\<close> (contents), \<open>Arch_X86_Exec\<close> and \<open>Arch_X86_Entry\<close> (execution).
\<close>

section \<open>A concrete function\<close>

text \<open>
  \<open>sub rsp, 8; mov rax, [rip + 0x2fd1]; ret\<close> at 0x401000, followed by NOPs.
\<close>

definition sample_code :: "u8 list" where
  "sample_code = [0x48, 0x83, 0xec, 0x08, 0x48, 0x8b, 0x05, 0xd1, 0x2f, 0x00, 0x00, 0xc3]"

definition sample_mem :: "u64 \<Rightarrow> u8" where
  "sample_mem x = (if x < 0x401000 then NOP_INSTRUCTION
     else if unat (x - 0x401000) < length sample_code then sample_code ! unat (x - 0x401000)
     else NOP_INSTRUCTION)"

definition sample_insns :: "u64 x86_insn list" where
  "sample_insns =
    [\<lparr>insn_size = 4, insn_address = 0x401000, insn_branch_address = 0,
      rel_disp = no_rip_relative, rel_imm = no_rip_relative\<rparr>,
     \<lparr>insn_size = 7, insn_address = 0x401004, insn_branch_address = 0,
      rel_disp = \<lparr>rr_addr = 0x403fdc, rr_raddr = 0x2fd1, rr_offset = 3, rr_size = 32\<rparr>,
      rel_imm = no_rip_relative\<rparr>,
     \<lparr>insn_size = 1, insn_address = 0x40100b, insn_branch_address = 0,
      rel_disp = no_rip_relative, rel_imm = no_rip_relative\<rparr>]"

definition sample_disasm ::
    "(u64 \<Rightarrow> u8) \<Rightarrow> u64 \<Rightarrow> nat \<Rightarrow> u64 x86_insn list with_message" where
  "sample_disasm m func n = Inr sample_insns"

definition sample_disp :: "u64 ip_displacement" where
  "sample_disp =
     (\<lparr>dst_addr = 0x40100b, src_addr_offset = 16, pos_offset = 12\<rparr>,
      \<lparr>dst_addr = 0x403fdc, src_addr_offset = 11, pos_offset = 7\<rparr>)"

definition sample_trampoline :: "u8 list" where
  "sample_trampoline = take 11 sample_code @ [0xe9] @ replicate 13 NOP_INSTRUCTION"

lemma sample_disasm_ok: "sample_disasm m func k = Inr sample_insns"
  by (simp add: sample_disasm_def)

lemma sample_wf: "list_all wf_insn sample_insns"
  by (simp add: sample_insns_def wf_insn_def wf_rel_def no_rip_relative_def x86_sizes)

lemma sample_moved:
  "moved_insns 0 sample_insns = take 2 sample_insns" "patch_size sample_insns = 11"
  by (simp_all add: sample_insns_def patch_size_def insns_size_def x86_sizes)

lemma sample_read: "mem_read sample_mem 0x401000 11 = take 11 sample_code"
  by (simp add: mem_read_def sample_mem_def sample_code_def upt_rec)

lemma sample_expected:
  "expected_trampoline sample_mem 0x401000 sample_insns = (sample_disp, sample_trampoline, 16)"
  by (simp add: expected_trampoline_def Let_def sample_moved sample_read)
    (simp add: sample_insns_def sample_disp_def sample_trampoline_def insn_displacement_def
      rel_entry_def no_rip_relative_def x86_sizes)

lemma sample_u32: "buf_read_u32 off buf = (if 0 \<le> off \<and> nat off + 4 \<le> length buf
    then Some (of_le_bytes (take 4 (drop (nat off) buf))) else None)"
  by (simp add: buf_read_u32_def buf_read_def)

lemma sample_run:
  "make_trampoline_x86_64 sample_disasm sample_mem 0x401000 =
     Inr (sample_disp, sample_trampoline, 16)"
  by code_simp

section \<open>The builder stays within its buffers\<close>

text \<open>
  C8: \<open>make_trampoline_x86_64_safe\<close>. On x86_64, whatever the instructions of the function
  are (each of 1 to 16 bytes with its 32-bit fields inside it), building the trampoline
  never writes or reads past the trampoline buffer; when it succeeds, the trampoline fits,
  both displacement fields lie in the buffer, and between 5 and 20 bytes of the function
  have been moved.
\<close>

theorem make_trampoline_x86_64_safe:
  assumes "disasm m func MAX_INSN_CHECK_SIZE = Inr is" and "list_all wf_insn is"
  shows "case make_trampoline_x86_64 disasm m func of
      Inl (f, msg) \<Rightarrow> f \<noteq> Crash | Inr r \<Rightarrow> trampoline_ok func r"
  using x86_64.make_trampoline_ok [of disasm m func "is", OF assms]
  by (auto simp: x86_64.make_trampoline_no_crash [of disasm m func "is", OF assms] split: sum.splits)

theorem make_trampoline_x86_64_safe_witness:
  "trampoline_ok 0x401000 (sample_disp, sample_trampoline, 16)"
  using make_trampoline_x86_64_safe [where disasm = sample_disasm and m = sample_mem and func = "0x401000",
      OF sample_disasm_ok sample_wf]
  by (simp add: sample_run)

text \<open>
  C9: \<open>make_trampoline_x86_safe\<close>. The same for i386, where a call of a
  \<open>get_pc_thunk\<close> and a \<open>call; pop\<close> pair are replaced by a move of the return address.
\<close>

theorem make_trampoline_x86_safe:
  assumes "disasm m func MAX_INSN_CHECK_SIZE = Inr is" and "list_all wf_insn is"
  shows "case make_trampoline_x86 disasm m func of
      Inl (f, msg) \<Rightarrow> f \<noteq> Crash | Inr r \<Rightarrow> trampoline_ok func r"
  using i386.make_trampoline_ok [of disasm m func "is", OF assms]
  by (auto simp: i386.make_trampoline_no_crash [of disasm m func "is", OF assms] split: sum.splits)

text \<open>\<open>call 0x1005; pop ebx; ret\<close> at 0x1000.\<close>

definition sample_pic_mem :: "u32 \<Rightarrow> u8" where
  "sample_pic_mem x = (if unat (x - 0x1000) < 7
     then [0xe8, 0, 0, 0, 0, 0x5b, 0xc3] ! unat (x - 0x1000) else NOP_INSTRUCTION)"

definition sample_pic_insns :: "u32 x86_insn list" where
  "sample_pic_insns =
    [\<lparr>insn_size = 5, insn_address = 0x1000, insn_branch_address = 0x1005,
      rel_disp = no_rip_relative,
      rel_imm = \<lparr>rr_addr = 0x1005, rr_raddr = 0, rr_offset = 1, rr_size = 32\<rparr>\<rparr>,
     \<lparr>insn_size = 1, insn_address = 0x1005, insn_branch_address = 0,
      rel_disp = no_rip_relative, rel_imm = no_rip_relative\<rparr>,
     \<lparr>insn_size = 1, insn_address = 0x1006, insn_branch_address = 0,
      rel_disp = no_rip_relative, rel_imm = no_rip_relative\<rparr>]"

definition sample_pic_disasm ::
    "(u32 \<Rightarrow> u8) \<Rightarrow> u32 \<Rightarrow> nat \<Rightarrow> u32 x86_insn list with_message" where
  "sample_pic_disasm m func n = Inr sample_pic_insns"

lemma sample_pic_run:
  "make_trampoline_x86 sample_pic_disasm sample_pic_mem 0x1000 =
     Inr ((\<lparr>dst_addr = 0x1006, src_addr_offset = 10, pos_offset = 6\<rparr>, no_displacement),
          [0xbb, 0x05, 0x10, 0, 0, 0xe9] @ replicate 19 NOP_INSTRUCTION, 10)"
  by code_simp

theorem make_trampoline_x86_safe_witness:
  "trampoline_ok (0x1000 :: u32)
     ((\<lparr>dst_addr = 0x1006, src_addr_offset = 10, pos_offset = 6\<rparr>, no_displacement),
      [0xbb, 0x05, 0x10, 0, 0, 0xe9] @ replicate 19 NOP_INSTRUCTION, 10)"
proof -
  have d: "sample_pic_disasm sample_pic_mem 0x1000 MAX_INSN_CHECK_SIZE = Inr sample_pic_insns"
    by (simp add: sample_pic_disasm_def)
  have w: "list_all wf_insn sample_pic_insns"
    by (simp add: sample_pic_insns_def wf_insn_def wf_rel_def no_rip_relative_def x86_sizes)
  show ?thesis
    using make_trampoline_x86_safe
      [where disasm = sample_pic_disasm and m = sample_pic_mem and func = "0x1000", OF d w] by (simp add: sample_pic_run)
qed

section \<open>What the builder computes\<close>

text \<open>
  C7: \<open>make_trampoline_x86_64_correct\<close>. Whenever the x86_64 builder returns a trampoline
  with a jump, its results are exactly the abstract description: the shortest run of whole
  instructions that covers the first five bytes, copied unchanged, a jump opcode behind
  them, NOPs in the rest, the displacement of the jump and that of the last moved
  instruction if it has a 32-bit IP-relative field.
\<close>

theorem make_trampoline_x86_64_correct:
  assumes "disasm m func MAX_INSN_CHECK_SIZE = Inr is" and "list_all wf_insn is"
    and "make_trampoline_x86_64 disasm m func = Inr (d, buf, n)" and "n \<noteq> 0"
  shows "(d, buf, n) = expected_trampoline m func is \<and>
    REL2G_JUMP_SIZE \<le> patch_size is \<and> patch_size is \<le> MAX_PATCH_CODE_SIZE"
  using make_trampoline_x86_64_expected [OF assms] by simp

theorem make_trampoline_x86_64_correct_witness:
  "(sample_disp, sample_trampoline, 16) = expected_trampoline sample_mem 0x401000 sample_insns"
  using make_trampoline_x86_64_correct [OF sample_disasm_ok sample_wf sample_run] by simp

text \<open>
  C19: \<open>back_jump_check_exact\<close>. Which branches the x86_64 builder refuses. Take a function
  it accepts with a jump, whose first five bytes do not wrap around the address space, and
  let other instructions follow the moved ones. The builder gives the same trampoline,
  except when one of those has its immediate operand (the target of a relative branch) at one of the offsets 1 to 4 of
  the function: then it reports a back jump. Each moved instruction starts at an offset below 5, so in an accepted function no later instruction
  branches to the start of a moved instruction other than the first. The bytes replaced
  may reach further than the fifth: a target inside the last moved instruction, at offset 5
  or more, is let through by the check.
\<close>

theorem back_jump_check_exact:
  assumes "disasm m func MAX_INSN_CHECK_SIZE = Inr is" and "list_all wf_insn is"
    and "make_trampoline_x86_64 disasm m func = Inr (d, buf, n)" and "n \<noteq> 0"
    and "unat func + REL2G_JUMP_SIZE < 2 ^ 64"
    and "disasm' m func MAX_INSN_CHECK_SIZE = Inr (moved_insns 0 is @ rest)"
  shows "make_trampoline_x86_64 disasm' m func =
      (if \<exists>i \<in> set rest. \<exists>b. 0 < b \<and> b < 5 \<and> rr_addr (rel_imm i) = func + of_nat b
       then Inl (Err ERROR_FOUND_BACK_JUMP,
         ''instruction jumping back to the hot-patched region was found'')
       else Inr (d, buf, n))
    \<and> (\<forall>b \<in> set (insn_starts 0 (moved_insns 0 is)). b < 5)
    \<and> (\<forall>i \<in> set (drop (length (moved_insns 0 is)) is).
        \<forall>b \<in> set (insn_starts 0 (moved_insns 0 is)). 0 < b \<longrightarrow> rr_addr (rel_imm i) \<noteq> func + of_nat b)"
proof (intro conjI)
  have jb: "jumps_back func i \<longleftrightarrow> (\<exists>b. 0 < b \<and> b < 5 \<and> rr_addr (rel_imm i) = func + of_nat b)" for i
    using jumps_back_iff [of func i] assms(5) by (simp add: x86_sizes)
  show "make_trampoline_x86_64 disasm' m func =
      (if \<exists>i \<in> set rest. \<exists>b. 0 < b \<and> b < 5 \<and> rr_addr (rel_imm i) = func + of_nat b
       then Inl (Err ERROR_FOUND_BACK_JUMP,
         ''instruction jumping back to the hot-patched region was found'')
       else Inr (d, buf, n))"
    by (simp add: make_trampoline_moved [where disasm = disasm and disasm' = disasm', OF assms(1-4,6)]
        list_ex_iff jb)
  show starts: "\<forall>b \<in> set (insn_starts 0 (moved_insns 0 is)). b < 5"
    using insn_starts_moved [where off = 0 and ?is = "is"] by (auto simp: x86_sizes)
  show "\<forall>i \<in> set (drop (length (moved_insns 0 is)) is).
      \<forall>b \<in> set (insn_starts 0 (moved_insns 0 is)). 0 < b \<longrightarrow> rr_addr (rel_imm i) \<noteq> func + of_nat b"
    using make_trampoline_x86_64_expected(4) [where disasm = disasm, OF assms(1-4)] starts
    by (auto simp: list_ex_iff jb)
qed

text \<open>
  The sample with a branch in place of the return: to its second instruction it is refused, into the middle
  of that instruction it is not.
\<close>

definition branch_disasm ::
    "u64 \<Rightarrow> (u64 \<Rightarrow> u8) \<Rightarrow> u64 \<Rightarrow> nat \<Rightarrow> u64 x86_insn list with_message" where
  "branch_disasm target m func n = Inr (take 2 sample_insns @
     [\<lparr>insn_size = 2, insn_address = 0x40100b, insn_branch_address = target, rel_disp = no_rip_relative,
       rel_imm = \<lparr>rr_addr = target, rr_raddr = target - 0x40100d, rr_offset = 1, rr_size = 8\<rparr>\<rparr>])"

theorem back_jump_check_exact_witness:
  "make_trampoline_x86_64 (branch_disasm 0x401004) sample_mem 0x401000 =
     Inl (Err ERROR_FOUND_BACK_JUMP, ''instruction jumping back to the hot-patched region was found'')
   \<and> make_trampoline_x86_64 (branch_disasm 0x401007) sample_mem 0x401000 =
     Inr (sample_disp, sample_trampoline, 16)"
proof -
  let ?br = "\<lambda>t. \<lparr>insn_size = 2, insn_address = 0x40100b, insn_branch_address = t, rel_disp = no_rip_relative,
       rel_imm = \<lparr>rr_addr = t, rr_raddr = t - 0x40100d, rr_offset = 1, rr_size = 8\<rparr>\<rparr> :: u64 x86_insn"
  have d: "branch_disasm t sample_mem 0x401000 MAX_INSN_CHECK_SIZE =
      Inr (moved_insns 0 sample_insns @ [?br t])" for t
    by (simp add: branch_disasm_def sample_moved)
  have w: "unat (0x401000 :: u64) + REL2G_JUMP_SIZE < 2 ^ 64" and z: "(16 :: nat) \<noteq> 0"
    by (simp_all add: x86_sizes)
  note r = back_jump_check_exact [where disasm = sample_disasm and m = sample_mem and func = "0x401000"
      and disasm' = "branch_disasm t" and rest = "[?br t]" for t, OF sample_disasm_ok sample_wf sample_run z w d]
  have "\<exists>b. 0 < b \<and> b < 5 \<and> (0x401004 :: u64) = 0x401000 + of_nat b"
    by (rule exI [of _ 4]) simp
  moreover have "\<not> list_ex (\<lambda>b. (0x401007 :: u64) = 0x401000 + of_nat b) [1..<5]"
    by code_simp
  then have "\<not> (\<exists>b. 0 < b \<and> b < 5 \<and> (0x401007 :: u64) = 0x401000 + of_nat b)"
    by (auto simp: list_ex_iff)
  ultimately show ?thesis using r [of "0x401004"] r [of "0x401007"] by simp
qed

section \<open>Functions of fewer than five bytes\<close>

lemma list_all_nops_iff:
  "list_all (\<lambda>j. m (func + of_nat j) = NOP_INSTRUCTION) [k..<REL2G_JUMP_SIZE] \<longleftrightarrow>
     (\<forall>j. k \<le> j \<and> j < REL2G_JUMP_SIZE \<longrightarrow> m (func + of_nat j) = NOP_INSTRUCTION)"
  by (auto simp: list_all_iff)

text \<open>
  When the disassembler gives fewer than five bytes of
  instructions, without IP-relative fields, the builder refuses the function unless the
  bytes up to the fifth are NOPs. If they are, it reports success with an empty
  displacement and length 0: no jump follows the copied instructions.
\<close>

theorem short_function_result:
  assumes "disasm m func MAX_INSN_CHECK_SIZE = Inr is" and "insns_size is < REL2G_JUMP_SIZE"
    and "list_all (\<lambda>i. rr_size (rel_imm i) = 0 \<and> rr_size (rel_disp i) = 0) is"
  shows "make_trampoline_x86_64 disasm m func =
    (if list_all (\<lambda>j. m (func + of_nat j) = NOP_INSTRUCTION) [insns_size is..<REL2G_JUMP_SIZE]
     then Inr ((no_displacement, no_displacement),
       mem_read m func (insns_size is) @ replicate (TRAMPOLINE_SIZE - insns_size is) NOP_INSTRUCTION, 0)
     else Inl (Err ERROR_TOO_SHORT_INSTRUCTIONS, ''Too short instructions''))"
proof -
  have src0: "src (initial_context :: u64 make_trampoline_context) = 0"
    and disp0: "rip_disp (initial_context :: u64 make_trampoline_context) = (no_displacement, no_displacement)"
    by (simp_all add: initial_context_def)
  obtain c where c: "mt_loop no_pc_handler no_pc_handler m func is initial_context = Inr (c, 0)"
    "copied m func c" "src c = insns_size is" "rip_disp c = (no_displacement, no_displacement)"
    using mt_loop_short [where m = m and func = func, OF initial_copied] assms(2,3)
    by (auto simp: src0 disp0)
  have mt: "make_trampoline_x86_64 disasm m func =
      (case skip_nops m func c of Inl e \<Rightarrow> Inl e | Inr c' \<Rightarrow> Inr (rip_disp c', dst_buf c', 0))"
    by (simp add: funchook_make_trampoline_def assms(1) c(1))
  show ?thesis
  proof (cases "list_all (\<lambda>j. m (func + of_nat j) = NOP_INSTRUCTION) [insns_size is..<REL2G_JUMP_SIZE]")
    case True
    then have "\<exists>c'. skip_nops m func c = Inr c' \<and> rip_disp c' = rip_disp c \<and> dst_buf c' = dst_buf c"
      by (intro skip_nops_all) (simp add: list_all_nops_iff c(3))
    with True c(2-4) show ?thesis
      by (auto simp: mt copied_def)
  next
    case False
    then obtain j where "src c \<le> j" "j < REL2G_JUMP_SIZE" "m (func + of_nat j) \<noteq> NOP_INSTRUCTION"
      by (auto simp: list_all_nops_iff c(3))
    from skip_nops_other [where ctx = c and j = j and m = m and func = func, OF this] False show ?thesis
      by (simp add: mt)
  qed
qed

text \<open>The last instruction of the sample, \<open>ret\<close>, seen as a function of one byte.\<close>

definition ret_disasm :: "(u64 \<Rightarrow> u8) \<Rightarrow> u64 \<Rightarrow> nat \<Rightarrow> u64 x86_insn list with_message" where
  "ret_disasm m func n = Inr (drop 2 sample_insns)"

theorem short_function_result_witness:
  "make_trampoline_x86_64 ret_disasm sample_mem 0x40100b =
     Inr ((no_displacement, no_displacement), 0xc3 # replicate 24 NOP_INSTRUCTION, 0)"
proof -
  have r: "ret_disasm sample_mem 0x40100b MAX_INSN_CHECK_SIZE = Inr (drop 2 sample_insns)"
    by (simp add: ret_disasm_def)
  have s: "insns_size (drop 2 sample_insns) < REL2G_JUMP_SIZE"
    and z: "list_all (\<lambda>i. rr_size (rel_imm i) = 0 \<and> rr_size (rel_disp i) = 0) (drop 2 sample_insns)"
    by (simp_all add: sample_insns_def insns_size_def x86_sizes no_rip_relative_def)
  have e: "list_all (\<lambda>j. sample_mem (0x40100b + of_nat j) = NOP_INSTRUCTION)
        [insns_size (drop 2 sample_insns)..<REL2G_JUMP_SIZE]"
    "mem_read sample_mem 0x40100b (insns_size (drop 2 sample_insns)) @
        replicate (TRAMPOLINE_SIZE - insns_size (drop 2 sample_insns)) NOP_INSTRUCTION =
      0xc3 # replicate 24 NOP_INSTRUCTION"
    by code_simp+
  from short_function_result [where disasm = ret_disasm, OF r s z] e show ?thesis by simp
qed

text \<open>
  An entry for the sample function as \<open>funchook_prepare_internal\<close> makes it, at the first
  slot of a page at 0x500000, with a hook at 0x402000.
\<close>

definition sample_entry :: "(u64, u8) funchook_entry" where
  "sample_entry =
     \<lparr>transit = replicate 21 0, original_target_func = 0x401000, target_func = 0x401000,
      hook_func = 0x402000, prehook = 0, user_data = 0, eflags = 0, patch_code_size = 20,
      trampoline = sample_trampoline,
      old_code = sample_code @ replicate 8 NOP_INSTRUCTION, new_code = replicate 20 0\<rparr>"

lemma sample_entry_shape: "entry_shape sample_entry"
  by (simp add: entry_shape_def sample_entry_def sample_trampoline_def sample_code_def
      TRANSIT_CODE_TEMPLATE_x86_64_def x86_sizes)

text \<open>
  C20: \<open>nop_padded_entry_overwritten\<close>. What the library does with a function of fewer
  than five bytes that is padded with NOPs up to the fifth and has no IP-relative field. The
  builder accepts it: the trampoline holds a copy of its instructions, NOPs and no jump
  back, the displacement is empty and the length 0. When the entry with this trampoline is
  then filled in, the distance to address 0 is written over the first four bytes of the
  trampoline, so that nothing of the copied instructions is left (all 21 bytes behind are
  NOPs), and the patch size becomes the negated address of the function, cut to 32 bits,
  instead of five.
\<close>

theorem nop_padded_entry_overwritten:
  assumes "disasm m func MAX_INSN_CHECK_SIZE = Inr is" and "insns_size is < REL2G_JUMP_SIZE"
    and "list_all (\<lambda>i. rr_size (rel_imm i) = 0 \<and> rr_size (rel_disp i) = 0) is"
    and "\<forall>j. insns_size is \<le> j \<and> j < REL2G_JUMP_SIZE \<longrightarrow> m (func + of_nat j) = NOP_INSTRUCTION"
    and "entry_shape e" and "target_func e = func"
  shows "\<exists>d buf e'. make_trampoline_x86_64 disasm m func = Inr (d, buf, 0)
    \<and> buf = mem_read m func (insns_size is) @ replicate (25 - insns_size is) NOP_INSTRUCTION
    \<and> funchook_fix_code CPU_X86_64 hc ea (e\<lparr>trampoline := buf\<rparr>) d = Some e'
    \<and> trampoline e' = le_bytes 4 (ucast (- (ea + 72)) :: u32) @ replicate 21 NOP_INSTRUCTION
    \<and> patch_code_size e' = ucast (- func)"
proof -
  let ?k = "insns_size is"
  let ?d = "(no_displacement, no_displacement) :: u64 ip_displacement"
  let ?buf = "mem_read m func ?k @ replicate (25 - ?k) NOP_INSTRUCTION"
  let ?e = "e\<lparr>trampoline := ?buf\<rparr>"
  have k: "?k \<le> 4" using assms(2) by (simp add: x86_sizes)
  have mt: "make_trampoline_x86_64 disasm m func = Inr (?d, ?buf, 0)"
    using assms(4) by (subst short_function_result [where disasm = disasm, OF assms(1-3)])
      (simp add: list_all_nops_iff, simp add: x86_sizes)
  have s: "entry_shape ?e"
    using assms(5) k by (simp add: entry_shape_def x86_sizes)
  have b: "disp_in_bounds (fst ?d)" "disp_in_bounds (snd ?d)"
    by (simp_all add: disp_in_bounds_def no_displacement_def x86_sizes)
  have z: "dst_addr (snd ?d) \<noteq> 0 \<Longrightarrow> pos_offset (snd ?d) + 4 \<le> pos_offset (fst ?d)"
    by (simp add: no_displacement_def)
  obtain e' where e': "funchook_fix_code CPU_X86_64 hc ea ?e ?d = Some e'"
    using fix_code_x86_64 [OF s b, of ea hc] by force
  note t = fix_code_trampoline [OF s b z e']
  have len: "length (trampoline e') = 25"
    using fix_code_fields(2) [OF s b e'] by (simp add: entry_shape_def x86_sizes)
  have field: "take 4 (trampoline e') = le_bytes 4 (ucast (- (ea + 72)) :: u32)"
    using t(1) by (simp add: fixed_field_def no_displacement_def buf_read_def)
  have "drop 4 (trampoline e') = replicate 21 NOP_INSTRUCTION"
  proof (rule nth_equalityI)
    fix j assume "j < length (drop 4 (trampoline e'))"
    then have j: "j < 21" using len by simp
    have "trampoline e' ! (4 + j) = ?buf ! (4 + j)"
      using t(3) [of "4 + j"] j by (simp add: x86_sizes in_field_def no_displacement_def)
    then show "drop 4 (trampoline e') ! j = replicate 21 NOP_INSTRUCTION ! j"
      using j k len by (simp add: nth_append)
  qed (simp add: len)
  with field have "trampoline e' = le_bytes 4 (ucast (- (ea + 72)) :: u32) @ replicate 21 NOP_INSTRUCTION"
    by (metis append_take_drop_id)
  moreover have "patch_code_size e' = ucast (- func)"
    using assms(6) by (subst fix_code_fields(1) [OF s b e']) (simp add: no_displacement_def)
  ultimately show ?thesis using mt e' by blast
qed

theorem nop_padded_entry_overwritten_witness:
  "\<exists>e'. make_trampoline_x86_64 ret_disasm sample_mem 0x40100b =
       Inr ((no_displacement, no_displacement), 0xc3 # replicate 24 NOP_INSTRUCTION, 0)
     \<and> funchook_fix_code CPU_X86_64 0x600000 0x500010
         (sample_entry\<lparr>target_func := 0x40100b, trampoline := 0xc3 # replicate 24 NOP_INSTRUCTION\<rparr>)
         (no_displacement, no_displacement) = Some e'
     \<and> trampoline e' = [0xa8, 0xff, 0xaf, 0xff] @ replicate 21 NOP_INSTRUCTION
     \<and> patch_code_size e' = 0xffbfeff5"
proof -
  let ?e = "sample_entry\<lparr>target_func := 0x40100b\<rparr>"
  have r: "ret_disasm sample_mem 0x40100b MAX_INSN_CHECK_SIZE = Inr (drop 2 sample_insns)"
    by (simp add: ret_disasm_def)
  have s: "insns_size (drop 2 sample_insns) < REL2G_JUMP_SIZE"
    and z: "list_all (\<lambda>i. rr_size (rel_imm i) = 0 \<and> rr_size (rel_disp i) = 0) (drop 2 sample_insns)"
    by (simp_all add: sample_insns_def insns_size_def x86_sizes no_rip_relative_def)
  have "list_all (\<lambda>j. sample_mem (0x40100b + of_nat j) = NOP_INSTRUCTION)
        [insns_size (drop 2 sample_insns)..<REL2G_JUMP_SIZE]"
    by code_simp
  then have n: "\<forall>j. insns_size (drop 2 sample_insns) \<le> j \<and> j < REL2G_JUMP_SIZE \<longrightarrow>
      sample_mem (0x40100b + of_nat j) = NOP_INSTRUCTION"
    by (simp only: list_all_nops_iff)
  have e: "entry_shape ?e" and t: "target_func ?e = 0x40100b"
    using sample_entry_shape by (simp_all add: entry_shape_def)
  have le: "le_bytes 4 (ucast (- ((0x500010 :: u64) + 72)) :: u32) = [0xa8, 0xff, 0xaf, 0xff]"
    and neg: "ucast (- (0x40100b :: u64)) = (0xffbfeff5 :: u32)"
    by code_simp+
  from nop_padded_entry_overwritten [where disasm = ret_disasm and hc = "0x600000" and ea = "0x500010",
      OF r s z n e t]
  show ?thesis unfolding le neg short_function_result_witness by auto
qed

section \<open>The patched function reaches the hook\<close>

text \<open>
  An entry is filled in by \<open>funchook_fix_code\<close> at an
  address that \<open>funchook_page_avail\<close> accepts, and at least five bytes of its patch are
  written over the function. Executing the function then leads in at most three
  instructions to the hook function (directly when it is within two gigabytes, else
  through the transit code), to the trampoline when there is no hook function, and with a
  prehook to the hook caller with the address of the transit code in R11.
\<close>

theorem patched_function_runs_hook:
  assumes "entry_shape e" and "disp_in_bounds (fst d)" and "disp_in_bounds (snd d)"
    and "funchook_page_avail page idx (target_func e) d"
    and "ea = entry_address CPU_X86_64 page idx"
    and "funchook_fix_code CPU_X86_64 hc ea e d = Some e'"
    and "code_at m ea (entry_bytes_x86_64 e')"
    and "code_at m (target_func e) (take k (new_code e'))" and "5 \<le> k"
  shows "\<exists>n \<le> 3. x86_run n m (target_func e, r11) = Some (hook_reached hc ea e r11)"
  by (rule run_patched [OF assms])

definition sample_fixed :: "(u64, u8) funchook_entry" where
  "sample_fixed = the (funchook_fix_code CPU_X86_64 0x600000 0x500010 sample_entry sample_disp)"

lemma sample_disp_bounds: "disp_in_bounds (fst sample_disp)" "disp_in_bounds (snd sample_disp)"
  by (simp_all add: sample_disp_def disp_in_bounds_def x86_sizes)

lemma sample_fix_code:
  "funchook_fix_code CPU_X86_64 0x600000 0x500010 sample_entry sample_disp = Some sample_fixed"
  using fix_code_x86_64 [OF sample_entry_shape sample_disp_bounds, of "0x500010" "0x600000"]
  by (metis option.sel sample_fixed_def)

text \<open>The memory with the entry in its page and the first eleven bytes patched.\<close>

definition sample_hooked_mem :: "u64 \<Rightarrow> u8" where
  "sample_hooked_mem =
     mem_write (mem_write sample_mem 0x500010 (entry_bytes_x86_64 sample_fixed))
       0x401000 (take 11 (new_code sample_fixed))"

lemma sample_lengths:
  "length (entry_bytes_x86_64 sample_fixed) = 144" "length (take 11 (new_code sample_fixed)) = 11"
  by code_simp+

lemma sample_placed:
  "funchook_page_avail 0x500000 0 0x401000 sample_disp"
  "(0x500010 :: u64) = entry_address CPU_X86_64 0x500000 0"
  "code_at sample_hooked_mem 0x500010 (entry_bytes_x86_64 sample_fixed)"
  "code_at sample_hooked_mem 0x401000 (take 11 (new_code sample_fixed))"
proof -
  show "funchook_page_avail 0x500000 0 0x401000 sample_disp"
    and "(0x500010 :: u64) = entry_address CPU_X86_64 0x500000 0"
    by code_simp+
  show "code_at sample_hooked_mem 0x500010 (entry_bytes_x86_64 sample_fixed)"
  proof -
    have "code_at (mem_write sample_mem 0x500010 (entry_bytes_x86_64 sample_fixed)) 0x500010
        (entry_bytes_x86_64 sample_fixed)"
      by (rule code_at_write) (simp add: sample_lengths)
    then show ?thesis
      unfolding sample_hooked_mem_def
      by (subst code_at_write_other) (simp_all only: sample_lengths, simp_all)
  qed
  show "code_at sample_hooked_mem 0x401000 (take 11 (new_code sample_fixed))"
    unfolding sample_hooked_mem_def by (rule code_at_write) (simp only: sample_lengths, simp)
qed

lemma sample_target: "target_func sample_entry = 0x401000"
  by (simp add: sample_entry_def)

theorem patched_function_runs_hook_witness:
  "\<exists>n \<le> 3. x86_run n sample_hooked_mem (0x401000, 0) = Some (0x402000, 0)"
  using patched_function_runs_hook [OF sample_entry_shape sample_disp_bounds
      sample_placed(1) [folded sample_target] sample_placed(2) sample_fix_code sample_placed(3)
      sample_placed(4) [folded sample_target], of 0]
  by (simp add: hook_reached_def jump_target_def sample_entry_def)

section \<open>The trampoline continues in the original function\<close>

text \<open>
  For a function the builder accepted and an entry filled
  in at an address \<open>funchook_page_avail\<close> accepts, the trampoline in memory holds the moved
  bytes unchanged except in the IP-relative field; behind them is a jump that continues at
  the first byte of the function that was not moved; and the IP-relative field, read at its
  new place, designates the same absolute address as in the original instruction.
\<close>

theorem trampoline_resumes_function:
  assumes "disasm m func MAX_INSN_CHECK_SIZE = Inr is" and "list_all wf_insn is" and "is \<noteq> []"
    and "make_trampoline_x86_64 disasm m func = Inr (d, buf, n)" and "n \<noteq> 0"
    and "entry_shape e" and "trampoline e = buf"
    and "funchook_page_avail page idx func d" and "ea = entry_address CPU_X86_64 page idx"
    and "funchook_fix_code CPU_X86_64 hc ea e d = Some e'"
    and "code_at m' ea (entry_bytes_x86_64 e')"
  shows "x86_step m' (ea + 72 + of_nat (patch_size is), r11) = Some (func + of_nat (patch_size is), r11)
    \<and> (\<forall>j < patch_size is. dst_addr (snd d) = 0 \<or> \<not> in_field (snd d) j \<longrightarrow>
          m' (ea + 72 + of_nat j) = m (func + of_nat j))
    \<and> (dst_addr (snd d) \<noteq> 0 \<longrightarrow>
         rip_operand m' (ea + 72 + of_nat (nat (pos_offset (snd d))))
           (ea + 72 + of_int (src_addr_offset (snd d))) = dst_addr (snd d))"
  by (rule resume_trampoline [OF assms])

theorem trampoline_resumes_function_witness:
  "x86_step sample_hooked_mem (0x50005 * 16 + 19, 0) = Some (0x40100b, 0)
   \<and> rip_operand sample_hooked_mem 0x50005f 0x500063 = 0x403fdc"
proof -
  have ne: "sample_insns \<noteq> []" and t: "trampoline sample_entry = sample_trampoline"
    and sz: "(16 :: nat) \<noteq> 0"
    by (simp_all add: sample_insns_def sample_entry_def)
  show ?thesis
    using trampoline_resumes_function [OF sample_disasm_ok sample_wf ne sample_run sz
        sample_entry_shape t sample_placed(1,2) sample_fix_code sample_placed(3), of 0]
    by (simp add: sample_moved, simp add: sample_disp_def)
qed

end
