(* ===== verification/OS_Unix.thy ===== *)
theory OS_Unix
  imports FH_Base
begin

text \<open>
  The operating-system layer for Unix, src/src/os_unix.c: the search for unused memory near
  a function in \<open>/proc/self/maps\<close>, the allocation of pages, and the changes of memory
  protection around a patch.

  The kernel and the C library are a parameter, \<open>unix_env\<close>: each answer may depend on the
  number of system calls made before. What a successful call does to the address space is
  written out in the \<open>sys_\<close> functions.
\<close>

section \<open>System calls\<close>

record 'ad unix_env =
  env_mmap :: "nat \<Rightarrow> ('ad \<Rightarrow> prot option) \<Rightarrow> 'ad \<Rightarrow> 'ad \<Rightarrow> 'ad"
  env_munmap :: "nat \<Rightarrow> 'ad \<Rightarrow> 'ad \<Rightarrow> nat option"
  env_mprotect :: "nat \<Rightarrow> ('ad \<Rightarrow> prot option) \<Rightarrow> 'ad \<Rightarrow> 'ad \<Rightarrow> prot \<Rightarrow> nat option"
  env_mmap_errno :: "nat \<Rightarrow> nat"
  env_maps :: "nat \<Rightarrow> ('ad \<Rightarrow> prot option) \<Rightarrow> nat + string"
  env_page_size :: "'ad"
  env_strerror :: "nat \<Rightarrow> string"

text \<open>
  The first argument counts the system calls before this one, the second, where there is
  one, is the address space at that moment. \<open>mmap\<close> returns an address or
  \<open>MAP_FAILED\<close>; \<open>munmap\<close> and \<open>mprotect\<close> give \<open>None\<close> for success or the error
  number; \<open>/proc/self/maps\<close> is its content, or the error number of \<open>fopen\<close>.
\<close>

definition MAP_FAILED :: "'a::len word" where "MAP_FAILED = -1"

definition EACCES :: nat where "EACCES = 13"

definition tick :: "('a::len word, 'p, 'z) os_state_scheme \<Rightarrow> ('a word, 'p, 'z) os_state_scheme" where
  "tick s = s\<lparr>now := Suc (now s)\<rparr>"

definition set_prot ::
    "'a::len word \<Rightarrow> 'a word \<Rightarrow> prot option \<Rightarrow> ('a word, 'p, 'z) os_state_scheme \<Rightarrow>
      ('a word, 'p, 'z) os_state_scheme" where
  "set_prot a sz p s =
     s\<lparr>mprot := (\<lambda>x. if in_region a (unat sz) x then p else mprot s x)\<rparr>"

definition sys_mmap ::
    "'a word unix_env \<Rightarrow> 'a::len word \<Rightarrow> 'a word \<Rightarrow> ('a word, 'p, 'z) os_state_scheme \<Rightarrow>
      'a word \<times> ('a word, 'p, 'z) os_state_scheme" where
  "sys_mmap env hint sz s =
     (let r = env_mmap env (now s) (mprot s) hint sz
      in if r = MAP_FAILED then (r, tick s)
         else (r, set_prot r sz (Some PROT_RW)
                (tick (s\<lparr>mem := mem_write (mem s) r (replicate (unat sz) 0)\<rparr>))))"

definition sys_munmap ::
    "'a word unix_env \<Rightarrow> 'a::len word \<Rightarrow> 'a word \<Rightarrow> ('a word, 'p, 'z) os_state_scheme \<Rightarrow>
      nat option \<times> ('a word, 'p, 'z) os_state_scheme" where
  "sys_munmap env a sz s =
     (case env_munmap env (now s) a sz of
        None \<Rightarrow> (None, set_prot a sz None (tick s))
      | Some errno \<Rightarrow> (Some errno, tick s))"

definition sys_mprotect ::
    "'a word unix_env \<Rightarrow> 'a::len word \<Rightarrow> 'a word \<Rightarrow> prot \<Rightarrow> ('a word, 'p, 'z) os_state_scheme \<Rightarrow>
      nat option \<times> ('a word, 'p, 'z) os_state_scheme" where
  "sys_mprotect env a sz p s =
     (case env_mprotect env (now s) (mprot s) a sz p of
        None \<Rightarrow> (None, set_prot a sz (Some p) (tick s))
      | Some errno \<Rightarrow> (Some errno, tick s))"

text \<open>
  What the library relies on of the kernel (mmap(2), mprotect(2)): without
  \<open>MAP_FIXED\<close> a mapping never replaces an existing one and lies neither at the last byte of
  the address space (the address \<open>MAP_FAILED\<close>) nor in the first page, and \<open>mprotect\<close>
  succeeds on mapped memory only.
\<close>

definition unix_kernel :: "('a::len word) unix_env \<Rightarrow> bool" where
  "unix_kernel env \<longleftrightarrow>
     (\<forall>n pr hint sz. env_mmap env n pr hint sz \<noteq> MAP_FAILED \<longrightarrow>
        (\<forall>x. in_region (env_mmap env n pr hint sz) (unat sz) x \<longrightarrow>
           pr x = None \<and> \<not> in_region MAP_FAILED (unat (env_page_size env)) x)) \<and>
     (\<forall>n pr a sz p. env_mprotect env n pr a sz p = None \<longrightarrow>
        (\<forall>x. in_region a (unat sz) x \<longrightarrow> pr x \<noteq> None))"

section \<open>Allocation of the handle\<close>

text \<open>The result is the address of the handle, 0 for \<open>NULL\<close>.\<close>

definition funchook_alloc ::
    "'a word unix_env \<Rightarrow> 'a::len word \<Rightarrow> ('a word, 'p, 'z) os_state_scheme \<Rightarrow>
      'a word \<times> ('a word, 'p, 'z) os_state_scheme" where
  "funchook_alloc env funchook_size s =
     (let s1 = (if page_size s = 0 then s\<lparr>page_size := env_page_size env\<rparr> else s);
          sz = ROUND_UP funchook_size (page_size s1);
          (m, s2) = sys_mmap env 0 sz s1
      in if m = -1 then (0, s2) else (m, s2))"

definition funchook_free ::
    "'a word unix_env \<Rightarrow> 'a::len word \<Rightarrow> 'a word \<Rightarrow> ('a word, 'p, 'z) os_state_scheme \<Rightarrow>
      ('a word, 'p, 'z) os_state_scheme" where
  "funchook_free env funchook_size handle s =
     snd (sys_munmap env handle (ROUND_UP funchook_size (page_size s)) s)"

section \<open>Reading the memory map\<close>

text \<open>
  \<open>scan_address\<close>: the hexadecimal number at the start of a string, the character that
  ends it and the rest. The end of the C string is its NUL character.
\<close>

fun scan_address :: "string \<Rightarrow> u64 \<Rightarrow> char \<times> u64 \<times> string" where
  "scan_address [] addr = (char_of (0 :: nat), addr, [])"
| "scan_address (c # s) addr =
     (if 48 \<le> (of_char c :: nat) \<and> (of_char c :: nat) \<le> 57
      then scan_address s (addr * 16 + of_nat (of_char c - 48))
      else if 97 \<le> (of_char c :: nat) \<and> (of_char c :: nat) \<le> 102
      then scan_address s (addr * 16 + of_nat (of_char c - 97 + 10))
      else (c, addr, s))"

definition parse_map_line :: "string \<Rightarrow> (u64 \<times> u64) option" where
  "parse_map_line line =
     (case scan_address line 0 of (c, start, str) \<Rightarrow>
        if c \<noteq> CHR ''-'' then None
        else (case scan_address str 0 of (c', end, _) \<Rightarrow>
                if c' \<noteq> CHR '' '' then None else Some (start, end)))"

text \<open>
  \<open>fgets\<close> with a buffer of \<open>n\<close> bytes: the characters up to the end of the line, but at most
  \<open>n - 1\<close> of them, and what is left to read. \<open>None\<close> at the end of the file.
\<close>

definition fgets :: "nat \<Rightarrow> string \<Rightarrow> (string \<times> string) option" where
  "fgets n content =
     (if content = [] then None
      else (let line = takeWhile (\<lambda>c. c \<noteq> CHR 0x0A) content;
                buf = take (n - 1) (if length line < length content then line @ newline else line)
            in Some (buf, drop (length buf) content)))"

text \<open>
  \<open>memory_map_next\<close>: \<open>content\<close> is what has not been read yet of \<open>/proc/self/maps\<close>. A line that
  does not fit into the buffer is read in pieces, each of which is taken for a line.
\<close>

definition memory_map_next :: "string \<Rightarrow> (u64 \<times> u64) option \<times> string" where
  "memory_map_next content =
     (case fgets PATH_MAX content of
        None \<Rightarrow> (None, content)
      | Some (buf, rest) \<Rightarrow> (parse_map_line buf, rest))"

text \<open>A round of the loop below consumes at least one character.\<close>

lemma memory_map_next_shorter:
  assumes "memory_map_next content = (Some r, rest)"
  shows "length rest < length content"
proof -
  obtain c cs where c: "content = c # cs"
    using assms by (cases content) (simp_all add: memory_map_next_def fgets_def)
  then have "0 < length (fst (the (fgets PATH_MAX content)))"
    by (simp add: fgets_def Let_def PATH_MAX_def)
  moreover have "rest = drop (length (fst (the (fgets PATH_MAX content)))) content"
    using assms c by (auto simp: memory_map_next_def fgets_def Let_def)
  ultimately show ?thesis using c by simp
qed

definition INT32_MAX :: u64 where "INT32_MAX = 0x7fffffff"

text \<open>
  The loop of \<open>get_free_address\<close>: \<open>psz\<close> is the page size, \<open>a0\<close> and \<open>a1\<close> are
  \<open>addrs[0]\<close> and \<open>addrs[1]\<close>. \<open>None\<close> stands for the final error.
\<close>

function free_address_loop ::
    "u64 \<Rightarrow> u64 \<Rightarrow> string \<Rightarrow> u64 \<Rightarrow> u64 \<Rightarrow> u64 \<Rightarrow> (u64 \<times> u64) option" where
  "free_address_loop psz func content prev_end a0 a1 =
     (case memory_map_next content of
        (None, rest) \<Rightarrow>
          if func < prev_end
          then Some (a0, if prev_end - func < INT32_MAX then prev_end else a1) else None
      | (Some (start, end), rest) \<Rightarrow>
          if prev_end + psz \<le> start then
            (let a0' = (if start < func \<and> func - (start - psz) < INT32_MAX
                        then start - psz else a0)
             in if func < prev_end
                then Some (a0', if prev_end - func < INT32_MAX then prev_end else a1)
                else free_address_loop psz func rest end a0' a1)
          else free_address_loop psz func rest end a0 a1)"
  by pat_completeness auto
termination
  by (relation "measure (\<lambda>(_, _, content, _). length content)") (auto dest: memory_map_next_shorter [OF sym])

declare free_address_loop.simps [simp del]

definition get_free_address ::
    "u64 unix_env \<Rightarrow> u64 \<Rightarrow> (u64, 'p, 'z) os_state_scheme \<Rightarrow>
      (u64 \<times> u64) result \<times> (u64, 'p, 'z) os_state_scheme" where
  "get_free_address env func s =
     (case env_maps env (now s) (mprot s) of
        Inl errno \<Rightarrow>
          (Inl (Err ERROR_INTERNAL_ERROR),
           funchook_set_error_message
             (''Failed to open /proc/self/maps ('' @ env_strerror env errno @ '')'') (tick s))
      | Inr maps \<Rightarrow>
          (case free_address_loop (page_size s) func maps 0 0 0 of
             Some addrs \<Rightarrow> (Inr addrs, tick s)
           | None \<Rightarrow>
               (Inl (Err ERROR_MEMORY_ALLOCATION),
                funchook_set_error_message
                  (''Could not find a free region near '' @ fmt_p func) (tick s))))"

section \<open>Allocating pages\<close>

definition SAFE_JUMP_DISTANCE :: "u64 \<Rightarrow> u64 \<Rightarrow> u64 \<Rightarrow> bool" where
  "SAFE_JUMP_DISTANCE psz x y \<longleftrightarrow> x - y < INT32_MAX - psz"

text \<open>
  One round of the inner loop of \<open>funchook_page_alloc\<close>: \<open>Some r\<close> when the function
  returns \<open>r\<close>, \<open>None\<close> when the loop goes on.
\<close>

definition try_address ::
    "u64 unix_env \<Rightarrow> u64 \<Rightarrow> u64 \<Rightarrow> (u64, 'p, 'z) os_state_scheme \<Rightarrow>
      u64 result option \<times> (u64, 'p, 'z) os_state_scheme" where
  "try_address env func addr s =
     (if addr = 0 then (None, s)
      else
        (case sys_mmap env addr (page_size s) s of (page, s1) \<Rightarrow>
           if SAFE_JUMP_DISTANCE (page_size s) func page \<or>
              SAFE_JUMP_DISTANCE (page_size s) page func
           then (Some (Inr page), s1)
           else if page = MAP_FAILED then
             (Some (Inl (Err ERROR_MEMORY_ALLOCATION)),
              funchook_set_error_message
                (''mmap failed(addr='' @ fmt_p addr @ ''): '' @
                 env_strerror env (env_mmap_errno env (now s))) s1)
           else (None, snd (sys_munmap env page (page_size s) s1))))"

fun page_alloc_loop ::
    "u64 unix_env \<Rightarrow> u64 \<Rightarrow> nat \<Rightarrow> (u64, 'p, 'z) os_state_scheme \<Rightarrow>
      u64 result \<times> (u64, 'p, 'z) os_state_scheme" where
  "page_alloc_loop env func 0 s =
     (Inl (Err ERROR_MEMORY_ALLOCATION),
      funchook_set_error_message ''Failed to allocate memory in unused regions'' s)"
| "page_alloc_loop env func (Suc n) s =
     then_ok (get_free_address env func s)
       (\<lambda>(a0, a1) s1.
          case try_address env func a1 s1 of
            (Some r, s2) \<Rightarrow> (r, s2)
          | (None, s2) \<Rightarrow>
              (case try_address env func a0 s2 of
                 (Some r, s3) \<Rightarrow> (r, s3)
               | (None, s3) \<Rightarrow> page_alloc_loop env func n s3))"

definition funchook_page_alloc_64 ::
    "u64 unix_env \<Rightarrow> u64 \<Rightarrow> (u64, 'p, 'z) os_state_scheme \<Rightarrow>
      u64 result \<times> (u64, 'p, 'z) os_state_scheme" where
  "funchook_page_alloc_64 env func s = page_alloc_loop env func 3 s"

definition funchook_page_alloc_32 ::
    "u32 unix_env \<Rightarrow> u32 \<Rightarrow> (u32, 'p, 'z) os_state_scheme \<Rightarrow>
      u32 result \<times> (u32, 'p, 'z) os_state_scheme" where
  "funchook_page_alloc_32 env func s =
     (case sys_mmap env 0 (page_size s) s of (page, s1) \<Rightarrow>
        if page \<noteq> MAP_FAILED then (Inr page, s1)
        else (Inl (Err ERROR_MEMORY_ALLOCATION),
              funchook_set_error_message
                (''mmap failed: '' @ env_strerror env (env_mmap_errno env (now s))) s1))"

section \<open>Releasing and protecting pages\<close>

definition fmt_page :: "'a::len word \<Rightarrow> 'a word \<Rightarrow> string \<Rightarrow> string" where
  "fmt_page page psz err =
     ''page '' @ fmt_p page @ '' (size='' @ fmt_d (int (unat psz)) @ '', error='' @ err @ '')''"

definition funchook_page_free ::
    "'a word unix_env \<Rightarrow> 'a::len word \<Rightarrow> ('a word, 'p, 'z) os_state_scheme \<Rightarrow>
      unit result \<times> ('a word, 'p, 'z) os_state_scheme" where
  "funchook_page_free env page s =
     (case sys_munmap env page (page_size s) s of
        (None, s1) \<Rightarrow> (Inr (), s1)
      | (Some errno, s1) \<Rightarrow>
          (Inl (Err ERROR_MEMORY_FUNCTION),
           funchook_set_error_message
             (''Failed to deallocate '' @ fmt_page page (page_size s) (env_strerror env errno)) s1))"

definition funchook_page_protect ::
    "'a word unix_env \<Rightarrow> 'a::len word \<Rightarrow> ('a word, 'p, 'z) os_state_scheme \<Rightarrow>
      unit result \<times> ('a word, 'p, 'z) os_state_scheme" where
  "funchook_page_protect env page s =
     (case sys_mprotect env page (page_size s) PROT_RX s of
        (None, s1) \<Rightarrow> (Inr (), s1)
      | (Some errno, s1) \<Rightarrow>
          (Inl (Err ERROR_MEMORY_FUNCTION),
           funchook_set_error_message
             (''Failed to protect '' @ fmt_page page (page_size s) (env_strerror env errno)) s1))"

definition funchook_page_unprotect ::
    "'a word unix_env \<Rightarrow> 'a::len word \<Rightarrow> ('a word, 'p, 'z) os_state_scheme \<Rightarrow>
      unit result \<times> ('a word, 'p, 'z) os_state_scheme" where
  "funchook_page_unprotect env page s =
     (case sys_mprotect env page (page_size s) PROT_RW s of
        (None, s1) \<Rightarrow> (Inr (), s1)
      | (Some errno, s1) \<Rightarrow>
          (Inl (Err ERROR_MEMORY_FUNCTION),
           funchook_set_error_message
             (''Failed to unprotect '' @ fmt_page page (page_size s) (env_strerror env errno)) s1))"

section \<open>Making code writable and executable again\<close>

text \<open>\<open>mem_state_t\<close> and the region it covers: whole pages around the code.\<close>

record 'ad mem_state =
  ms_addr :: "'ad"
  ms_size :: "'ad"

definition code_pages :: "'a::len word \<Rightarrow> 'a word \<Rightarrow> 'a word \<Rightarrow> 'a word mem_state" where
  "code_pages psz start len =
     (let saddr = ROUND_DOWN start psz
      in \<lparr>ms_addr = saddr, ms_size = ROUND_UP (len + start - saddr) psz\<rparr>)"

text \<open>
  \<open>funchook_unprotect_begin\<close>. Its static variable \<open>prot\<close> is the field \<open>os_data\<close>: it
  starts as read, write and execute and stays at read and write once the system has refused
  the former.
\<close>

definition unprotect_error ::
    "'a word unix_env \<Rightarrow> 'a::len word mem_state \<Rightarrow> prot \<Rightarrow> 'a word \<Rightarrow> 'a word \<Rightarrow> nat \<Rightarrow> string" where
  "unprotect_error env ms p start len errno =
     ''Failed to unprotect memory '' @ fmt_p (ms_addr ms) @
     '' (size='' @ fmt_d (int (unat (ms_size ms))) @ '', prot=read,write'' @
     (if p_exec p then '',exec'' else []) @ '') <- '' @ fmt_p start @
     '' (size='' @ fmt_d (int (unat len)) @ '', error='' @ env_strerror env errno @ '')''"

definition funchook_unprotect_begin ::
    "'a word unix_env \<Rightarrow> 'a::len word \<Rightarrow> 'a word \<Rightarrow> ('a word, prot, 'z) os_state_scheme \<Rightarrow>
      'a word mem_state result \<times> ('a word, prot, 'z) os_state_scheme" where
  "funchook_unprotect_begin env start len s =
     (let ms = code_pages (page_size s) start len; p = os_data s in
      case sys_mprotect env (ms_addr ms) (ms_size ms) p s of
        (None, s1) \<Rightarrow> (Inr ms, s1)
      | (Some errno, s1) \<Rightarrow>
          if errno = EACCES \<and> p_exec p then
            (case sys_mprotect env (ms_addr ms) (ms_size ms) PROT_RW s1 of
               (None, s2) \<Rightarrow> (Inr ms, s2\<lparr>os_data := PROT_RW\<rparr>)
             | (Some errno', s2) \<Rightarrow>
                 (Inl (Err ERROR_MEMORY_FUNCTION),
                  funchook_set_error_message (unprotect_error env ms p start len errno') s2))
          else
            (Inl (Err ERROR_MEMORY_FUNCTION),
             funchook_set_error_message (unprotect_error env ms p start len errno) s1))"

definition funchook_unprotect_end ::
    "'a word unix_env \<Rightarrow> 'a::len word mem_state \<Rightarrow> ('a word, 'p, 'z) os_state_scheme \<Rightarrow>
      unit result \<times> ('a word, 'p, 'z) os_state_scheme" where
  "funchook_unprotect_end env ms s =
     (case sys_mprotect env (ms_addr ms) (ms_size ms) PROT_RX s of
        (None, s1) \<Rightarrow> (Inr (), s1)
      | (Some errno, s1) \<Rightarrow>
          (Inl (Err ERROR_MEMORY_FUNCTION),
           funchook_set_error_message
             (''Failed to protect memory '' @ fmt_p (ms_addr ms) @
              '' (size='' @ fmt_d (int (unat (ms_size ms))) @ '', prot=read,exec, error='' @
              env_strerror env errno @ '')'') s1))"

section \<open>Lines of the memory map\<close>

text \<open>A line that \<open>fgets\<close> reads as a whole, and a file of lines.\<close>

definition short_line :: "string \<Rightarrow> bool" where
  "short_line l \<longleftrightarrow> CHR 0x0A \<notin> set l \<and> length l + 1 < PATH_MAX"

definition file_of :: "string list \<Rightarrow> string" where
  "file_of ls = concat (map (\<lambda>l. l @ newline) ls)"

lemma file_of_simps [simp]: "file_of [] = []" "file_of (l # ls) = l @ newline @ file_of ls"
  "file_of (ls @ ls') = file_of ls @ file_of ls'"
  by (simp_all add: file_of_def)

lemma line_in_file:
  assumes "CHR 0x0A \<notin> set l"
  shows "takeWhile (\<lambda>c. c \<noteq> CHR 0x0A) (l @ newline @ rest) = l"
proof -
  have "\<forall>c \<in> set l. c \<noteq> CHR 0x0A" using assms by auto
  then show ?thesis by (simp add: takeWhile_append)
qed

text \<open>The end of a line is not part of an address, so reading it makes no difference.\<close>

lemma scan_address_newline:
  "scan_address l a = (c, addr, rest) \<Longrightarrow>
     scan_address (l @ newline) a = (c, addr, rest @ newline) \<or>
     c = char_of (0 :: nat) \<and> scan_address (l @ newline) a = (CHR 0x0A, addr, [])"
  by (induction l arbitrary: a) (auto split: if_splits)

lemma parse_map_line_newline: "parse_map_line (l @ newline) = parse_map_line l"
proof -
  have nul: "char_of (0 :: nat) \<noteq> CHR ''-''" "char_of (0 :: nat) \<noteq> CHR '' ''" by code_simp+
  obtain c start str where 1: "scan_address l 0 = (c, start, str)" by (metis prod_cases3)
  obtain c' "end" str' where 2: "scan_address str 0 = (c', end, str')" by (metis prod_cases3)
  show ?thesis
    using scan_address_newline [OF 1] scan_address_newline [OF 2] nul
    by (auto simp: parse_map_line_def 1 2)
qed

lemma next_short_line:
  assumes "short_line l"
  shows "memory_map_next (l @ newline @ rest) = (parse_map_line l, rest)"
proof -
  have "take (PATH_MAX - 1) (l @ newline) = l @ newline"
    using assms by (intro take_all) (simp add: short_line_def PATH_MAX_def)
  then show ?thesis
    using assms line_in_file [of l rest] parse_map_line_newline [of l]
    by (simp add: memory_map_next_def fgets_def short_line_def Let_def del: take_append)
qed

lemma next_end_of_file [simp]: "memory_map_next [] = (None, [])"
  by (simp add: memory_map_next_def fgets_def)

text \<open>A longer line: only its first 4095 characters are read, then the rest as if it were a line.\<close>

lemma next_long_line:
  assumes "CHR 0x0A \<notin> set l" and "PATH_MAX - 1 \<le> length l"
  shows "memory_map_next (l @ newline @ rest) =
    (parse_map_line (take (PATH_MAX - 1) l), drop (PATH_MAX - 1) l @ newline @ rest)"
  using assms line_in_file [of l rest]
  by (simp add: memory_map_next_def fgets_def PATH_MAX_def)

text \<open>The search over the end of the file and over a line that fits.\<close>

lemma free_address_loop_end:
  "free_address_loop psz func [] prev_end a0 a1 =
     (if func < prev_end
      then Some (a0, if prev_end - func < INT32_MAX then prev_end else a1) else None)"
  by (subst free_address_loop.simps) simp

lemma free_address_loop_line:
  assumes "short_line l" and "parse_map_line l = Some (start, end)"
  shows "free_address_loop psz func (l @ newline @ rest) prev_end a0 a1 =
    (if prev_end + psz \<le> start then
       (let a0' = (if start < func \<and> func - (start - psz) < INT32_MAX then start - psz else a0)
        in if func < prev_end
           then Some (a0', if prev_end - func < INT32_MAX then prev_end else a1)
           else free_address_loop psz func rest end a0' a1)
     else free_address_loop psz func rest end a0 a1)"
  using assms by (subst free_address_loop.simps) (simp add: next_short_line del: append_Cons)

end
