(* ===== verification/OS_Unix_Contract.thy ===== *)
theory OS_Unix_Contract
  imports OS_Unix FH_Calls
begin

text \<open>
  The functions of src/src/os_unix.c as the operating-system layer of funchook.c, and the
  proof that they keep its contract: they never touch memory that was mapped before, and a
  successful \<open>funchook_unprotect_begin\<close> makes all of the code to be patched writable.
\<close>

section \<open>The operations\<close>

definition unix_ops_64 ::
    "u64 unix_env \<Rightarrow> (u64 \<Rightarrow> (u64, prot, 'i) fh_state \<Rightarrow> u64) \<Rightarrow>
      (u64, 'd, u64 mem_state, (u64, prot, 'i) fh_state) os_ops" where
  "unix_ops_64 env resolve =
     \<lparr>os_resolve_func = resolve,
      os_page_alloc = (\<lambda>func disp. funchook_page_alloc_64 env func),
      os_page_free = funchook_page_free env,
      os_page_protect = funchook_page_protect env,
      os_page_unprotect = funchook_page_unprotect env,
      os_unprotect_begin = funchook_unprotect_begin env,
      os_unprotect_end = funchook_unprotect_end env\<rparr>"

definition unix_ops_32 ::
    "u32 unix_env \<Rightarrow> (u32 \<Rightarrow> (u32, prot, 'i) fh_state \<Rightarrow> u32) \<Rightarrow>
      (u32, 'd, u32 mem_state, (u32, prot, 'i) fh_state) os_ops" where
  "unix_ops_32 env resolve =
     \<lparr>os_resolve_func = resolve,
      os_page_alloc = (\<lambda>func disp. funchook_page_alloc_32 env func),
      os_page_free = funchook_page_free env,
      os_page_protect = funchook_page_protect env,
      os_page_unprotect = funchook_page_unprotect env,
      os_unprotect_begin = funchook_unprotect_begin env,
      os_unprotect_end = funchook_unprotect_end env\<rparr>"

text \<open>The state the layer works in.\<close>

definition unix_ok :: "'a word unix_env \<Rightarrow> ('a::len word, prot, 'i) fh_state \<Rightarrow> bool" where
  "unix_ok env s \<longleftrightarrow> unix_kernel env \<and> pow2_unit (env_page_size env) \<and>
     page_size s = env_page_size env \<and> p_write (os_data s) \<and>
     (\<forall>x. in_region MAP_FAILED (unat (env_page_size env)) x \<longrightarrow> mprot s x = None)"

lemma same_handle_tick [simp]: "same_handle s (tick s)"
  by (simp add: same_handle_def tick_def)

lemma tick_frame [simp]:
  "mem (tick s) = mem s" "mprot (tick s) = mprot s" "page_size (tick s) = page_size s"
  "os_data (tick s) = os_data s"
  by (simp_all add: tick_def)

lemma set_prot_frame [simp]:
  "mem (set_prot a sz p s) = mem s" "page_size (set_prot a sz p s) = page_size s"
  "os_data (set_prot a sz p s) = os_data s"
  "mprot (set_prot a sz p s) x = (if in_region a (unat sz) x then p else mprot s x)"
  by (simp_all add: set_prot_def)

lemma same_handle_set_prot [simp]: "same_handle s (set_prot a sz p s)"
  by (simp add: same_handle_def set_prot_def)

lemma unix_ok_cong:
  "unix_ok env s \<Longrightarrow> mprot s' = mprot s \<Longrightarrow> page_size s' = page_size s \<Longrightarrow> os_data s' = os_data s \<Longrightarrow>
     unix_ok env s'"
  unfolding unix_ok_def by metis

lemma kernel_mmap:
  "unix_kernel env \<Longrightarrow> env_mmap env n pr hint sz \<noteq> MAP_FAILED \<Longrightarrow>
     in_region (env_mmap env n pr hint sz) (unat sz) x \<Longrightarrow>
     pr x = None \<and> \<not> in_region MAP_FAILED (unat (env_page_size env)) x"
  unfolding unix_kernel_def by blast

lemma kernel_mprotect:
  "unix_kernel env \<Longrightarrow> env_mprotect env n pr a sz p = None \<Longrightarrow> in_region a (unat sz) x \<Longrightarrow> pr x \<noteq> None"
  unfolding unix_kernel_def by blast

lemma unix_ok_message [simp]:
  "unix_ok env (funchook_set_error_message m s) \<longleftrightarrow> unix_ok env s"
  by (simp add: unix_ok_def)

section \<open>System calls\<close>

lemma mprotect_result:
  assumes "unix_ok env s" and "sys_mprotect env a sz p s = (r, s')"
  obtains (fail) errno where "r = Some errno" "s' = tick s"
  | (ok) "r = None" "s' = set_prot a sz (Some p) (tick s)"
      "\<And>x. in_region a (unat sz) x \<Longrightarrow> mprot s x \<noteq> None"
proof -
  have k: "env_mprotect env (now s) (mprot s) a sz p = None \<Longrightarrow> in_region a (unat sz) x \<Longrightarrow> mprot s x \<noteq> None" for x
    using assms(1) by (intro kernel_mprotect) (simp_all add: unix_ok_def)
  show ?thesis
  proof (cases "env_mprotect env (now s) (mprot s) a sz p")
    case None
    with assms(2) k ok show ?thesis by (simp add: sys_mprotect_def)
  next
    case (Some errno)
    with assms(2) have "r = Some errno" "s' = tick s" by (simp_all add: sys_mprotect_def)
    then show ?thesis by (rule fail)
  qed
qed

lemma mprotect_calm:
  assumes "unix_ok env s" and "sys_mprotect env a sz p s = (r, s')"
  shows "calm s s'" and "unix_ok env s'" and "r = None \<Longrightarrow> in_region a (unat sz) x \<Longrightarrow> mprot s' x = Some p"
proof -
  have "calm s s' \<and> unix_ok env s' \<and>
      (r = None \<longrightarrow> in_region a (unat sz) x \<longrightarrow> mprot s' x = Some p)"
    using assms
  proof (cases rule: mprotect_result)
    case fail
    with assms(1) show ?thesis
      by (simp add: calm_def same_mapping_def unix_ok_cong [of env s "tick s"])
  next
    case ok
    have "same_mapping s s'"
      using ok(3) by (auto simp: ok(2) same_mapping_def)
    moreover have "same_handle s s'"
      unfolding ok(2) by (rule same_handle_trans [OF same_handle_tick same_handle_set_prot])
    moreover have "unix_ok env s'"
      using assms(1) \<open>same_mapping s s'\<close> unfolding unix_ok_def same_mapping_def ok(2) by simp
    ultimately show ?thesis by (simp add: calm_def ok(2))
  qed
  then show "calm s s'" "unix_ok env s'" "r = None \<Longrightarrow> in_region a (unat sz) x \<Longrightarrow> mprot s' x = Some p"
    by simp_all
qed

lemma munmap_ok:
  assumes "unix_ok env s" and "sys_munmap env a sz s = (r, s')"
  shows "same_handle s s'" and "unix_ok env s'" and "mem s' = mem s"
    and "\<not> in_region a (unat sz) x \<Longrightarrow> mprot s' x = mprot s x"
    and "r = None \<Longrightarrow> in_region a (unat sz) x \<Longrightarrow> mprot s' x = None"
proof -
  have "r = None \<and> s' = set_prot a sz None (tick s) \<or> (\<exists>errno. r = Some errno) \<and> s' = tick s"
    using assms(2) by (auto simp: sys_munmap_def split: option.splits)
  then consider "r = None" "s' = set_prot a sz None (tick s)" | errno where "r = Some errno" "s' = tick s"
    by blast
  then have "same_handle s s' \<and> unix_ok env s' \<and> mem s' = mem s \<and>
      (\<not> in_region a (unat sz) x \<longrightarrow> mprot s' x = mprot s x) \<and>
      (r = None \<longrightarrow> in_region a (unat sz) x \<longrightarrow> mprot s' x = None)"
  proof cases
    case 1
    have "same_handle s s'"
      unfolding 1 by (rule same_handle_trans [OF same_handle_tick same_handle_set_prot])
    moreover have "unix_ok env s'"
      using assms(1) unfolding unix_ok_def 1 by simp
    ultimately show ?thesis by (simp add: 1)
  next
    case 2
    with assms(1) show ?thesis by (simp add: unix_ok_cong [of env s "tick s"])
  qed
  then show "same_handle s s'" "unix_ok env s'" "mem s' = mem s"
    "\<not> in_region a (unat sz) x \<Longrightarrow> mprot s' x = mprot s x"
    "r = None \<Longrightarrow> in_region a (unat sz) x \<Longrightarrow> mprot s' x = None"
    by simp_all
qed

lemma mmap_ok:
  assumes "unix_ok env s" and "sys_mmap env hint sz s = (p, s')"
  shows "same_handle s s'" and "unix_ok env s'" and "keeps_mapped s s'"
    and "p \<noteq> MAP_FAILED \<Longrightarrow> in_region p (unat sz) x \<Longrightarrow> mprot s x = None \<and> mprot s' x = Some PROT_RW"
    and "\<not> in_region p (unat sz) x \<Longrightarrow> mprot s' x = mprot s x \<and> mem s' x = mem s x"
proof -
  have p: "p = env_mmap env (now s) (mprot s) hint sz"
    using assms(2) by (auto simp: sys_mmap_def Let_def split: if_splits)
  have "same_handle s s' \<and> unix_ok env s' \<and> keeps_mapped s s' \<and>
      (p \<noteq> MAP_FAILED \<longrightarrow> in_region p (unat sz) x \<longrightarrow> mprot s x = None \<and> mprot s' x = Some PROT_RW) \<and>
      (\<not> in_region p (unat sz) x \<longrightarrow> mprot s' x = mprot s x \<and> mem s' x = mem s x)"
  proof (cases "p = MAP_FAILED")
    case True
    then have "s' = tick s" using assms(2) p by (auto simp: sys_mmap_def Let_def split: if_splits)
    with True assms(1) show ?thesis
      by (simp add: keeps_mapped_def unix_ok_cong [of env s "tick s"])
  next
    case False
    have k: "mprot s x = None \<and> \<not> in_region MAP_FAILED (unat (env_page_size env)) x"
      if "in_region p (unat sz) x" for x
      using kernel_mmap [of env "now s" "mprot s" hint sz x] that False assms(1)
      by (simp add: p [symmetric] unix_ok_def)
    have s': "s' = set_prot p sz (Some PROT_RW)
        (tick (s\<lparr>mem := mem_write (mem s) p (replicate (unat sz) 0)\<rparr>))"
      using assms(2) p False by (auto simp: sys_mmap_def Let_def split: if_splits)
    have "same_handle s s'" by (simp add: s' same_handle_def set_prot_def tick_def)
    moreover have m: "mem s' x = mem s x" if "\<not> in_region p (unat sz) x" for x
      using that by (simp add: s' mem_write_other)
    moreover have pr: "mprot s' x = (if in_region p (unat sz) x then Some PROT_RW else mprot s x)" for x
      by (simp add: s')
    moreover have "keeps_mapped s s'"
      using m k by (auto simp: keeps_mapped_def pr)
    moreover have "unix_ok env s'"
    proof -
      have "page_size s' = page_size s" "os_data s' = os_data s" by (simp_all add: s')
      moreover have "mprot s' x = None" if "in_region MAP_FAILED (unat (env_page_size env)) x" for x
        using that k assms(1) by (auto simp: pr unix_ok_def)
      ultimately show ?thesis using assms(1) unfolding unix_ok_def by metis
    qed
    ultimately show ?thesis using k by simp
  qed
  then show "same_handle s s'" "unix_ok env s'" "keeps_mapped s s'"
    "p \<noteq> MAP_FAILED \<Longrightarrow> in_region p (unat sz) x \<Longrightarrow> mprot s x = None \<and> mprot s' x = Some PROT_RW"
    "\<not> in_region p (unat sz) x \<Longrightarrow> mprot s' x = mprot s x \<and> mem s' x = mem s x"
    by simp_all
qed

section \<open>Protection of pages and code\<close>

lemma page_protect_calm:
  assumes "unix_ok env s" and "funchook_page_protect env p s = (r, s')"
  shows "calm s s' \<and> unix_ok env s' \<and> r \<noteq> Inl Crash"
proof -
  obtain q s1 where m: "sys_mprotect env p (page_size s) PROT_RX s = (q, s1)"
    by (cases "sys_mprotect env p (page_size s) PROT_RX s")
  with assms(2) mprotect_calm [OF assms(1) m] show ?thesis
    by (auto simp: funchook_page_protect_def split: option.splits)
qed

lemma page_unprotect_calm:
  assumes "unix_ok env s" and "funchook_page_unprotect env p s = (r, s')"
  shows "calm s s' \<and> unix_ok env s' \<and> r \<noteq> Inl Crash"
proof -
  obtain q s1 where m: "sys_mprotect env p (page_size s) PROT_RW s = (q, s1)"
    by (cases "sys_mprotect env p (page_size s) PROT_RW s")
  with assms(2) mprotect_calm [OF assms(1) m] show ?thesis
    by (auto simp: funchook_page_unprotect_def split: option.splits)
qed

lemma unprotect_end_calm:
  assumes "unix_ok env s" and "funchook_unprotect_end env ms s = (r, s')"
  shows "calm s s' \<and> unix_ok env s' \<and> r \<noteq> Inl Crash"
proof -
  obtain q s1 where m: "sys_mprotect env (ms_addr ms) (ms_size ms) PROT_RX s = (q, s1)"
    by (cases "sys_mprotect env (ms_addr ms) (ms_size ms) PROT_RX s")
  with assms(2) mprotect_calm [OF assms(1) m] show ?thesis
    by (auto simp: funchook_unprotect_end_def split: option.splits)
qed

lemma page_free_ok:
  assumes "unix_ok env s" and "funchook_page_free env p s = (r, s')"
  shows "same_handle s s' \<and> unix_ok env s' \<and> mem s' = mem s \<and> r \<noteq> Inl Crash \<and>
    (\<forall>x. \<not> in_region p (unat (page_size s)) x \<longrightarrow> mprot s' x = mprot s x) \<and>
    (r = Inr () \<longrightarrow> (\<forall>x. in_region p (unat (page_size s)) x \<longrightarrow> mprot s' x = None))"
proof -
  obtain q s1 where m: "sys_munmap env p (page_size s) s = (q, s1)"
    by (cases "sys_munmap env p (page_size s) s")
  from assms(2) m have "s' = s1 \<or> (\<exists>msg. s' = funchook_set_error_message msg s1)"
    and r: "r = Inr () \<longleftrightarrow> q = None" "r \<noteq> Inl Crash"
    by (auto simp: funchook_page_free_def split: option.splits)
  moreover have "same_handle s (funchook_set_error_message msg s1)" for msg
    using same_handle_trans [OF munmap_ok(1) [OF assms(1) m] same_handle_message] .
  ultimately show ?thesis
    using munmap_ok [OF assms(1) m] by auto
qed

lemma page_free_message:
  assumes "unix_ok env s" and "funchook_page_free env p (funchook_set_error_message msg s) = (r, s')"
  shows "same_handle s s' \<and> unix_ok env s' \<and> mem s' = mem s \<and>
    (\<forall>x. \<not> in_region p (unat (page_size s)) x \<longrightarrow> mprot s' x = mprot s x)"
proof -
  have "unix_ok env (funchook_set_error_message msg s)" using assms(1) by simp
  from page_free_ok [OF this assms(2)] show ?thesis
    using same_handle_trans [OF same_handle_message [of s msg], of s'] by simp
qed

text \<open>The two ways \<open>funchook_unprotect_begin\<close> succeeds, and its failures.\<close>

lemma unprotect_begin_cases:
  assumes "unix_ok env s" and "funchook_unprotect_begin env a n s = (r, s')"
  shows "calm s s' \<and> unix_ok env s' \<and> r \<noteq> Inl Crash \<and>
    (\<forall>ms. r = Inr ms \<longrightarrow> ms = code_pages (page_size s) a n \<and>
      (\<exists>p. p_write p \<and>
         (\<forall>x. in_region (ms_addr ms) (unat (ms_size ms)) x \<longrightarrow> mprot s' x = Some p)))"
proof -
  let ?ms = "code_pages (page_size s) a n"
  obtain q s1 where m: "sys_mprotect env (ms_addr ?ms) (ms_size ?ms) (os_data s) s = (q, s1)"
    by (cases "sys_mprotect env (ms_addr ?ms) (ms_size ?ms) (os_data s) s")
  note c1 = mprotect_calm [OF assms(1) m]
  have pw: "p_write (os_data s)" using assms(1) by (simp add: unix_ok_def)
  obtain q2 s2 where m2: "sys_mprotect env (ms_addr ?ms) (ms_size ?ms) PROT_RW s1 = (q2, s2)"
    by (cases "sys_mprotect env (ms_addr ?ms) (ms_size ?ms) PROT_RW s1")
  note c2 = mprotect_calm [OF c1(2) m2]
  note c12 = calm_trans [OF c1(1) c2(1)]
  have rw: "p_write PROT_RW" by (simp add: PROT_RW_def)
  have ok2: "unix_ok env (s2\<lparr>os_data := PROT_RW\<rparr>)" "calm s (s2\<lparr>os_data := PROT_RW\<rparr>)"
    using c2(2) c12 rw by (simp_all add: unix_ok_def calm_def same_handle_def same_mapping_def)
  consider (ok) "q = None" "r = Inr ?ms" "s' = s1"
    | (again) "q2 = None" "r = Inr ?ms" "s' = s2\<lparr>os_data := PROT_RW\<rparr>"
    | (fail) msg where "r = Inl (Err ERROR_MEMORY_FUNCTION)"
        "s' = funchook_set_error_message msg s1 \<or> s' = funchook_set_error_message msg s2"
    using assms(2) m m2
    by (cases q; cases q2) (auto simp: funchook_unprotect_begin_def Let_def split: if_splits)
  then show ?thesis
  proof cases
    case ok
    with c1 pw show ?thesis by auto
  next
    case again
    with c2(3) ok2 rw show ?thesis by auto
  next
    case fail
    with c1 c2 c12 show ?thesis by auto
  qed
qed

text \<open>The pages around the code contain it.\<close>

lemma code_pages_cover:
  fixes a n psz :: "'a::len word"
  assumes "pow2_unit psz" and "unat a + unat n + unat psz < 2 ^ LENGTH('a)" and "i < unat n"
  shows "in_region (ms_addr (code_pages psz a n)) (unat (ms_size (code_pages psz a n))) (a + of_nat i)"
  using whole_pages_cover [OF assms] by (simp add: code_pages_def Let_def)

lemma unprotect_begin_writable:
  assumes "unix_ok env s" and "funchook_unprotect_begin env a n s = (Inr ms, s')"
    and "unat a + unat n + unat (page_size s) < 2 ^ LENGTH('a)"
  shows "writable s' (a :: 'a::len word) (unat n)"
proof -
  have "pow2_unit (page_size s)" using assms(1) by (simp add: unix_ok_def)
  note cover = code_pages_cover [OF this assms(3)]
  then show ?thesis
    using unprotect_begin_cases [OF assms(1,2)] by (fastforce simp: writable_iff)
qed

section \<open>Allocation of pages\<close>

text \<open>A page an allocation returned: either it was unmapped before, or it is no page at all.\<close>

definition fresh_page ::
    "('a::len word, 'p, 'i) fh_state \<Rightarrow> 'a word \<Rightarrow> ('a word, 'p, 'i) fh_state \<Rightarrow> bool" where
  "fresh_page s p s' \<longleftrightarrow>
     (\<forall>x. in_region p (unat (page_size s)) x \<longrightarrow> mprot s' x = None) \<or>
     (\<forall>x. in_region p (unat (page_size s)) x \<longrightarrow> mprot s x = None \<and> mprot s' x \<noteq> None)"

definition alloc_ok ::
    "'a word unix_env \<Rightarrow> ('a::len word, prot, 'i) fh_state \<Rightarrow> ('a word, prot, 'i) fh_state \<Rightarrow> bool" where
  "alloc_ok env s s' \<longleftrightarrow> same_handle s s' \<and> unix_ok env s' \<and> keeps_mapped s s'"

lemma alloc_ok_trans: "alloc_ok env s t \<Longrightarrow> alloc_ok env t u \<Longrightarrow> alloc_ok env s u"
  using same_handle_trans keeps_mapped_trans by (auto simp: alloc_ok_def)

lemma alloc_ok_refl: "unix_ok env s \<Longrightarrow> alloc_ok env s s"
  by (simp add: alloc_ok_def keeps_mapped_def)

lemma alloc_ok_message: "unix_ok env s \<Longrightarrow> alloc_ok env s (funchook_set_error_message m s)"
  by (simp add: alloc_ok_def keeps_mapped_def)

lemma alloc_ok_tick: "unix_ok env s \<Longrightarrow> alloc_ok env s (tick s)"
  by (simp add: alloc_ok_def keeps_mapped_def unix_ok_cong [of env s "tick s"])

lemma fresh_page_trans:
  "alloc_ok env s t \<Longrightarrow> fresh_page t p u \<Longrightarrow> fresh_page s p u"
  by (auto simp: fresh_page_def alloc_ok_def keeps_mapped_def same_handle_def)

lemma mmap_fresh:
  assumes "unix_ok env s" and "sys_mmap env hint (page_size s) s = (p, s')"
  shows "alloc_ok env s s'" and "fresh_page s p s'"
proof -
  note m = mmap_ok [OF assms]
  show "alloc_ok env s s'"
    using m(1-3) by (simp add: alloc_ok_def)
  show "fresh_page s p s'"
  proof (cases "p = MAP_FAILED")
    case True
    have "page_size s = env_page_size env"
      using assms(1) by (simp add: unix_ok_def)
    with True m(2) show ?thesis by (simp add: fresh_page_def unix_ok_def)
  next
    case False
    with m(4) show ?thesis by (simp add: fresh_page_def)
  qed
qed

lemma try_address_ok:
  assumes "unix_ok env s" and "try_address env func addr s = (r, s')"
  shows "alloc_ok env s s' \<and> r \<noteq> Some (Inl Crash) \<and> (\<forall>p. r = Some (Inr p) \<longrightarrow> fresh_page s p s')"
proof (cases "addr = 0")
  case True
  with assms show ?thesis by (simp add: try_address_def alloc_ok_refl)
next
  case False
  obtain p s1 where m: "sys_mmap env addr (page_size s) s = (p, s1)"
    by (cases "sys_mmap env addr (page_size s) s")
  note m' = mmap_fresh [OF assms(1) m]
  have ok1: "unix_ok env s1" using m'(1) by (simp add: alloc_ok_def)
  obtain q s2 where u: "sys_munmap env p (page_size s) s1 = (q, s2)"
    by (cases "sys_munmap env p (page_size s) s1")
  note u' = munmap_ok [OF ok1 u]
  consider (hit) "r = Some (Inr p)" "s' = s1"
    | (failed) msg where "r = Some (Inl (Err ERROR_MEMORY_ALLOCATION))"
        "s' = funchook_set_error_message msg s1"
    | (miss) "p \<noteq> MAP_FAILED" "r = None" "s' = s2"
    using assms(2) False m u by (auto simp: try_address_def split: if_splits)
  then show ?thesis
  proof cases
    case hit
    with m' show ?thesis by simp
  next
    case failed
    with alloc_ok_trans [OF m'(1) alloc_ok_message [OF ok1]] show ?thesis by simp
  next
    case miss
    have "keeps_mapped s s2"
      using mmap_ok(4) [OF assms(1) m miss(1)] mmap_ok(5) [OF assms(1) m] u'(3,4)
      unfolding keeps_mapped_def by metis
    moreover have "same_handle s s2"
      using m'(1) u'(1) same_handle_trans by (auto simp: alloc_ok_def)
    ultimately show ?thesis
      using u'(2) miss by (simp add: alloc_ok_def)
  qed
qed

lemma get_free_address_ok:
  assumes "unix_ok env s" and "get_free_address env func s = (r, s')"
  shows "alloc_ok env s s' \<and> r \<noteq> Inl Crash"
proof -
  have t: "unix_ok env (tick s)" "alloc_ok env s (tick s)"
    using alloc_ok_tick [OF assms(1)] by (simp_all add: alloc_ok_def)
  then show ?thesis
    using assms(2) alloc_ok_trans [OF t(2) alloc_ok_message [OF t(1)]]
    by (auto simp: get_free_address_def split: sum.splits option.splits)
qed

lemma page_alloc_loop_ok:
  "unix_ok env s \<Longrightarrow> page_alloc_loop env func n s = (r, s') \<Longrightarrow>
     alloc_ok env s s' \<and> r \<noteq> Inl Crash \<and> (\<forall>p. r = Inr p \<longrightarrow> fresh_page s p s')"
proof (induction n arbitrary: s)
  case 0
  then show ?case by (auto simp: alloc_ok_message)
next
  case (Suc n)
  obtain q s1 where g: "get_free_address env func s = (q, s1)"
    by (cases "get_free_address env func s")
  note g' = get_free_address_ok [OF Suc.prems(1) g]
  show ?case
  proof (cases q)
    case (Inl e)
    with g g' Suc.prems(2) show ?thesis by auto
  next
    case (Inr a)
    obtain r1 s2 where t1: "try_address env func (snd a) s1 = (r1, s2)"
      by (cases "try_address env func (snd a) s1")
    have ok1: "unix_ok env s1" using g' by (simp add: alloc_ok_def)
    note t1' = try_address_ok [OF ok1 t1]
    show ?thesis
    proof (cases r1)
      case (Some x)
      with g Inr t1 Suc.prems(2) have "r = x" "s' = s2" by (auto split: prod.splits)
      with Some t1' g' show ?thesis using alloc_ok_trans fresh_page_trans by blast
    next
      case None
      obtain r2 s3 where t2: "try_address env func (fst a) s2 = (r2, s3)"
        by (cases "try_address env func (fst a) s2")
      have ok2: "unix_ok env s2" using t1' by (simp add: alloc_ok_def)
      note t2' = try_address_ok [OF ok2 t2]
      have s2: "alloc_ok env s s2" using alloc_ok_trans g' t1' by blast
      show ?thesis
      proof (cases r2)
        case (Some x)
        with g Inr t1 None t2 Suc.prems(2) have "r = x" "s' = s3" by (auto split: prod.splits)
        with Some t2' s2 show ?thesis using alloc_ok_trans fresh_page_trans by blast
      next
        case None2: None
        with g Inr t1 None t2 Suc.prems(2) have "page_alloc_loop env func n s3 = (r, s')"
          by (auto split: prod.splits)
        moreover have s3: "alloc_ok env s s3" "unix_ok env s3"
          using alloc_ok_trans s2 t2' by (blast, simp add: alloc_ok_def)
        ultimately show ?thesis
          using Suc.IH [OF s3(2)] alloc_ok_trans [OF s3(1)] fresh_page_trans [OF s3(1)] by blast
      qed
    qed
  qed
qed

lemma page_alloc_32_ok:
  assumes "unix_ok env s" and "funchook_page_alloc_32 env func s = (r, s')"
  shows "alloc_ok env s s' \<and> r \<noteq> Inl Crash \<and> (\<forall>p. r = Inr p \<longrightarrow> fresh_page s p s')"
proof -
  obtain p s1 where m: "sys_mmap env 0 (page_size s) s = (p, s1)"
    by (cases "sys_mmap env 0 (page_size s) s")
  note m' = mmap_fresh [OF assms(1) m]
  then have "unix_ok env s1" by (simp add: alloc_ok_def)
  with m m' assms(2) alloc_ok_trans [OF m'(1) alloc_ok_message] show ?thesis
    by (auto simp: funchook_page_alloc_32_def split: if_splits)
qed

lemma fresh_pageD:
  assumes "fresh_page s p s'" and "in_region p (unat (page_size s)) y" and "mprot s' y \<noteq> None"
    and "in_region p (unat (page_size s)) x"
  shows "mprot s x = None \<and> mprot s' x \<noteq> None"
  using assms(1) unfolding fresh_page_def
proof (elim disjE)
  assume "\<forall>x. in_region p (unat (page_size s)) x \<longrightarrow> mprot s' x = None"
  with assms(2,3) show ?thesis by simp
next
  assume "\<forall>x. in_region p (unat (page_size s)) x \<longrightarrow> mprot s x = None \<and> mprot s' x \<noteq> None"
  with assms(4) show ?thesis by (simp only: simp_thms)
qed

section \<open>The contract holds\<close>

interpretation unix64: os_layer "unix_ops_64 env resolve" "unix_ok env"
  for env :: "u64 unix_env" and resolve :: "u64 \<Rightarrow> (u64, prot, 'i) fh_state \<Rightarrow> u64"
proof (unfold_locales, goal_cases)
  case (1 s s') then show ?case by (rule unix_ok_cong)
next
  case (2 s p r s') then show ?case by (intro page_protect_calm) (simp_all add: unix_ops_64_def)
next
  case (3 s p r s') then show ?case by (intro page_unprotect_calm) (simp_all add: unix_ops_64_def)
next
  case (4 s a n q s')
  then show ?case using unprotect_begin_cases [of env s a n q s'] by (simp add: unix_ops_64_def)
next
  case (5 s a n ms s') then show ?case
    by (intro unprotect_begin_writable) (simp_all add: unix_ops_64_def)
next
  case (6 s ms r s') then show ?case by (intro unprotect_end_calm) (simp_all add: unix_ops_64_def)
next
  case (7 s f d pr s')
  then show ?case
    using page_alloc_loop_ok [of env s f 3 pr s']
    by (simp add: unix_ops_64_def funchook_page_alloc_64_def alloc_ok_def)
next
  case (8 s f d p s' y x)
  have "page_alloc_loop env f 3 s = (Inr p, s')"
    using 8(2) by (simp add: unix_ops_64_def funchook_page_alloc_64_def)
  then have "fresh_page s p s'"
    using page_alloc_loop_ok [OF 8(1)] by blast
  then show ?case by (rule fresh_pageD [OF _ 8(3,4,5)])
next
  case (9 s f d p s1 msg r s')
  have "page_alloc_loop env f 3 s = (Inr p, s1)"
    using 9(2) by (simp add: unix_ops_64_def funchook_page_alloc_64_def)
  then have "alloc_ok env s s1"
    using page_alloc_loop_ok [OF 9(1)] by blast
  with 9(3) page_free_message [of env s1 p msg r s'] show ?case
    by (simp add: unix_ops_64_def alloc_ok_def same_handle_def)
qed

interpretation unix32: os_layer "unix_ops_32 env resolve" "unix_ok env"
  for env :: "u32 unix_env" and resolve :: "u32 \<Rightarrow> (u32, prot, 'i) fh_state \<Rightarrow> u32"
proof (unfold_locales, goal_cases)
  case (1 s s') then show ?case by (rule unix_ok_cong)
next
  case (2 s p r s') then show ?case by (intro page_protect_calm) (simp_all add: unix_ops_32_def)
next
  case (3 s p r s') then show ?case by (intro page_unprotect_calm) (simp_all add: unix_ops_32_def)
next
  case (4 s a n q s')
  then show ?case using unprotect_begin_cases [of env s a n q s'] by (simp add: unix_ops_32_def)
next
  case (5 s a n ms s') then show ?case
    by (intro unprotect_begin_writable) (simp_all add: unix_ops_32_def)
next
  case (6 s ms r s') then show ?case by (intro unprotect_end_calm) (simp_all add: unix_ops_32_def)
next
  case (7 s f d pr s')
  then show ?case
    using page_alloc_32_ok [of env s f pr s'] by (simp add: unix_ops_32_def alloc_ok_def)
next
  case (8 s f d p s' y x)
  have "funchook_page_alloc_32 env f s = (Inr p, s')"
    using 8(2) by (simp add: unix_ops_32_def)
  then have "fresh_page s p s'"
    using page_alloc_32_ok [OF 8(1)] by blast
  then show ?case by (rule fresh_pageD [OF _ 8(3,4,5)])
next
  case (9 s f d p s1 msg r s')
  have "funchook_page_alloc_32 env f s = (Inr p, s1)"
    using 9(2) by (simp add: unix_ops_32_def)
  then have "alloc_ok env s s1"
    using page_alloc_32_ok [OF 9(1)] by blast
  with 9(3) page_free_message [of env s1 p msg r s'] show ?case
    by (simp add: unix_ops_32_def alloc_ok_def same_handle_def)
qed

interpretation unix64_frees: freeing_os "unix_ops_64 env resolve" "unix_ok env"
  for env :: "u64 unix_env" and resolve :: "u64 \<Rightarrow> (u64, prot, 'i) fh_state \<Rightarrow> u64"
proof (unfold_locales, goal_cases)
  case (1 s p r s')
  then show ?case using page_free_ok [of env s p r s'] by (simp add: unix_ops_64_def)
qed

interpretation unix32_frees: freeing_os "unix_ops_32 env resolve" "unix_ok env"
  for env :: "u32 unix_env" and resolve :: "u32 \<Rightarrow> (u32, prot, 'i) fh_state \<Rightarrow> u32"
proof (unfold_locales, goal_cases)
  case (1 s p r s')
  then show ?case using page_free_ok [of env s p r s'] by (simp add: unix_ops_32_def)
qed

section \<open>A kernel that allows every change of protection\<close>

definition kernel_grants :: "('a::len word) unix_env \<Rightarrow> bool" where
  "kernel_grants env \<longleftrightarrow> (\<forall>n pr a sz p.
     (\<forall>x. in_region a (unat sz) x \<longrightarrow> pr x \<noteq> None) \<longrightarrow> env_mprotect env n pr a sz p = None)"

definition unix_can_patch ::
    "'a word unix_env \<Rightarrow> ('a::len word, prot, 'i) fh_state \<Rightarrow> 'a word \<Rightarrow> 'a word \<Rightarrow> bool" where
  "unix_can_patch env s a n \<longleftrightarrow> kernel_grants env \<and>
     (case code_pages (page_size s) a n of ms \<Rightarrow>
        \<forall>x. in_region (ms_addr ms) (unat (ms_size ms)) x \<longrightarrow> mprot s x \<noteq> None)"

definition unix_can_protect ::
    "'a word unix_env \<Rightarrow> ('a::len word, prot, 'i) fh_state \<Rightarrow> 'a word \<Rightarrow> bool" where
  "unix_can_protect env s p \<longleftrightarrow> kernel_grants env \<and>
     (\<forall>x. in_region p (unat (page_size s)) x \<longrightarrow> mprot s x \<noteq> None)"

lemma mprotect_granted:
  "kernel_grants env \<Longrightarrow> (\<And>x. in_region a (unat sz) x \<Longrightarrow> mprot s x \<noteq> None) \<Longrightarrow>
     sys_mprotect env a sz p s = (None, set_prot a sz (Some p) (tick s))"
  by (simp add: sys_mprotect_def kernel_grants_def)

lemma unix_grants_cong:
  "same_mapping s s' \<Longrightarrow> page_size s' = page_size s \<Longrightarrow>
     unix_can_patch env s' = unix_can_patch env s \<and> unix_can_protect env s' = unix_can_protect env s"
  by (simp add: unix_can_patch_def unix_can_protect_def same_mapping_def fun_eq_iff)

lemma unprotect_begin_granted:
  "unix_can_patch env s a n \<Longrightarrow> \<exists>s'. funchook_unprotect_begin env a n s = (Inr (code_pages (page_size s) a n), s')"
  using mprotect_granted [of env "ms_addr (code_pages (page_size s) a n)"
      "ms_size (code_pages (page_size s) a n)" s "os_data s"]
  by (simp add: unix_can_patch_def funchook_unprotect_begin_def Let_def)

lemma unprotect_end_granted:
  assumes "unix_can_patch env s a n" and "funchook_unprotect_begin env a n s = (Inr ms, s')"
    and "same_mapping s t"
  shows "\<exists>t'. funchook_unprotect_end env ms t = (Inr (), t')"
proof -
  have "ms = code_pages (page_size s) a n"
    using unprotect_begin_granted [OF assms(1)] assms(2) by auto
  then have "\<And>x. in_region (ms_addr ms) (unat (ms_size ms)) x \<Longrightarrow> mprot t x \<noteq> None"
    using assms(1,3) by (simp add: unix_can_patch_def same_mapping_def)
  then show ?thesis
    using mprotect_granted [of env "ms_addr ms" "ms_size ms" t PROT_RX] assms(1)
    by (simp add: unix_can_patch_def funchook_unprotect_end_def)
qed

lemma page_protect_granted:
  "unix_can_protect env s p \<Longrightarrow> \<exists>s'. funchook_page_protect env p s = (Inr (), s')"
  using mprotect_granted [of env p "page_size s" s PROT_RX]
  by (simp add: unix_can_protect_def funchook_page_protect_def)

interpretation unix64_grants: granting_os "unix_ops_64 env resolve" "unix_ok env"
    "unix_can_patch env" "unix_can_protect env"
  for env :: "u64 unix_env" and resolve :: "u64 \<Rightarrow> (u64, prot, 'i) fh_state \<Rightarrow> u64"
proof (unfold_locales, goal_cases)
  case (1 s s') then show ?case by (rule unix_grants_cong)
next
  case (2 s a n) then show ?case using unprotect_begin_granted [of env s a n] by (auto simp: unix_ops_64_def)
next
  case (3 s a n ms s' t)
  then show ?case using unprotect_end_granted [of env s a n ms s' t] by (simp add: unix_ops_64_def)
next
  case (4 s p) then show ?case using page_protect_granted [of env s p] by (simp add: unix_ops_64_def)
qed

interpretation unix32_grants: granting_os "unix_ops_32 env resolve" "unix_ok env"
    "unix_can_patch env" "unix_can_protect env"
  for env :: "u32 unix_env" and resolve :: "u32 \<Rightarrow> (u32, prot, 'i) fh_state \<Rightarrow> u32"
proof (unfold_locales, goal_cases)
  case (1 s s') then show ?case by (rule unix_grants_cong)
next
  case (2 s a n) then show ?case using unprotect_begin_granted [of env s a n] by (auto simp: unix_ops_32_def)
next
  case (3 s a n ms s' t)
  then show ?case using unprotect_end_granted [of env s a n ms s' t] by (simp add: unix_ops_32_def)
next
  case (4 s p) then show ?case using page_protect_granted [of env s p] by (simp add: unix_ops_32_def)
qed

text \<open>The pages of the code an entry patches are mapped, and do not reach the top of memory.\<close>

definition code_mapped ::
    "('a::len word, 'i, 'd) arch_ops \<Rightarrow> ('a word, 'p, 'i) fh_state \<Rightarrow> ('a word, 'i) funchook_entry \<Rightarrow> bool" where
  "code_mapped arch s e \<longleftrightarrow>
     unat (target_func e) + patch_code_byte_size arch e + unat (page_size s) < 2 ^ LENGTH('a) \<and>
     (case code_pages (page_size s) (target_func e) (of_nat (patch_code_byte_size arch e)) of ms \<Rightarrow>
        \<forall>x. in_region (ms_addr ms) (unat (ms_size ms)) x \<longrightarrow> mprot s x \<noteq> None)"

lemma code_mapped_same:
  "same_mapping s s' \<Longrightarrow> page_size s' = page_size s \<Longrightarrow> code_mapped arch s' = code_mapped arch s"
  by (simp add: code_mapped_def same_mapping_def fun_eq_iff)

lemma entry_ok_ready_64:
  assumes "entry_ok arch s e" and "code_mapped arch s e" and "kernel_grants env"
  shows "unix64_grants.ready env arch s e"
  using assms
  by (simp add: unix64_grants.ready_def patchable_def entry_ok_def code_mapped_def unix_can_patch_def)

lemma handle_inv_ready_64:
  assumes "handle_inv arch s" and "list_all (code_mapped arch s) (entries_of (page_list s))"
    and "kernel_grants env"
  shows "list_all (unix64_grants.ready env arch s) (entries_of (page_list s))"
    and "list_all (\<lambda>page. unix_can_protect env s (page_addr page)) (page_list s)"
  using assms entry_ok_ready_64 [of arch s _ env]
  by (auto simp: handle_inv_def list_all_iff unix_can_protect_def page_ok_def mapped_def)

end
