(* ===== verification/Arch_X86_Contract.thy ===== *)
theory Arch_X86_Contract
  imports Arch_X86_Correct OS_Unix_Contract
begin

text \<open>
  The x86 code generator as the \<open>arch_ops\<close> of funchook.c, for x86_64 and i386, the proof
  of its contract, and the library on Unix for both processors.
\<close>

section \<open>The operations\<close>

definition x86_64_ops ::
    "((u64 \<Rightarrow> u8) \<Rightarrow> u64 \<Rightarrow> nat \<Rightarrow> u64 x86_insn list with_message) \<Rightarrow> u64 \<Rightarrow>
      (u64, u8, u64 ip_displacement) arch_ops" where
  "x86_64_ops disasm hook_caller_asm =
     \<lparr>arch_make_trampoline = make_trampoline_x86_64 disasm,
      arch_fix_code = funchook_fix_code CPU_X86_64 hook_caller_asm,
      arch_page_avail = funchook_page_avail,
      arch_entry_address = entry_address CPU_X86_64,
      arch_entry_bytes = entry_bytes_x86_64,
      arch_page_header = (\<lambda>p. p),
      arch_sizeof_header = 16,
      arch_entry_at_page_boundary = False,
      arch_offsetof_entries = 16,
      arch_offsetof_trampoline = 72,
      arch_sizeof_entry = 144,
      arch_sizeof_insn = 1,
      arch_insns_bytes = (\<lambda>is. is),
      arch_bytes_insns = (\<lambda>bs. bs),
      arch_transit_code_size = length TRANSIT_CODE_TEMPLATE_x86_64,
      arch_zero_insn = 0,
      arch_max_patch_code_size = MAX_PATCH_CODE_SIZE\<rparr>"

definition x86_ops ::
    "((u32 \<Rightarrow> u8) \<Rightarrow> u32 \<Rightarrow> nat \<Rightarrow> u32 x86_insn list with_message) \<Rightarrow> u32 \<Rightarrow>
      (u32, u8, u32 ip_displacement) arch_ops" where
  "x86_ops disasm hook_caller_asm =
     \<lparr>arch_make_trampoline = make_trampoline_x86 disasm,
      arch_fix_code = funchook_fix_code CPU_X86 hook_caller_asm,
      arch_page_avail = (\<lambda>page idx addr disp. True),
      arch_entry_address = entry_address CPU_X86,
      arch_entry_bytes = entry_bytes_x86,
      arch_page_header = (\<lambda>p. p),
      arch_sizeof_header = 8,
      arch_entry_at_page_boundary = False,
      arch_offsetof_entries = 8,
      arch_offsetof_trampoline = 52,
      arch_sizeof_entry = 120,
      arch_sizeof_insn = 1,
      arch_insns_bytes = (\<lambda>is. is),
      arch_bytes_insns = (\<lambda>bs. bs),
      arch_transit_code_size = length TRANSIT_CODE_TEMPLATE_x86,
      arch_zero_insn = 0,
      arch_max_patch_code_size = MAX_PATCH_CODE_SIZE\<rparr>"

text \<open>Reading the operations off the records.\<close>

lemma x86_64_ops_simps [simp]:
  "arch_make_trampoline (x86_64_ops disasm hc) = make_trampoline_x86_64 disasm"
  "arch_fix_code (x86_64_ops disasm hc) = funchook_fix_code CPU_X86_64 hc"
  "arch_page_avail (x86_64_ops disasm hc) = funchook_page_avail"
  "arch_entry_address (x86_64_ops disasm hc) = entry_address CPU_X86_64"
  "arch_entry_bytes (x86_64_ops disasm hc) = entry_bytes_x86_64"
  "arch_offsetof_trampoline (x86_64_ops disasm hc) = 72"
  "arch_sizeof_entry (x86_64_ops disasm hc) = 144"
  "arch_sizeof_insn (x86_64_ops disasm hc) = 1"
  "arch_insns_bytes (x86_64_ops disasm hc) = (\<lambda>is. is)"
  "arch_max_patch_code_size (x86_64_ops disasm hc) = MAX_PATCH_CODE_SIZE"
  by (simp_all add: x86_64_ops_def)

lemma x86_ops_simps [simp]:
  "arch_make_trampoline (x86_ops disasm hc) = make_trampoline_x86 disasm"
  "arch_fix_code (x86_ops disasm hc) = funchook_fix_code CPU_X86 hc"
  "arch_page_avail (x86_ops disasm hc) = (\<lambda>page idx addr disp. True)"
  "arch_entry_address (x86_ops disasm hc) = entry_address CPU_X86"
  "arch_entry_bytes (x86_ops disasm hc) = entry_bytes_x86"
  "arch_offsetof_trampoline (x86_ops disasm hc) = 52"
  "arch_sizeof_entry (x86_ops disasm hc) = 120"
  "arch_sizeof_insn (x86_ops disasm hc) = 1"
  "arch_insns_bytes (x86_ops disasm hc) = (\<lambda>is. is)"
  "arch_max_patch_code_size (x86_ops disasm hc) = MAX_PATCH_CODE_SIZE"
  by (simp_all add: x86_ops_def)

text \<open>A complete trampoline: in bounds, and with a jump behind the moved instructions.\<close>

definition x86_fits :: "'a::len word \<Rightarrow> 'a word ip_displacement \<times> u8 list \<times> nat \<Rightarrow> bool" where
  "x86_fits func r \<longleftrightarrow> trampoline_ok func r \<and> snd (snd r) \<noteq> 0"

section \<open>The contract\<close>

lemma write_relative_jump_length:
  "funchook_write_relative_2g_jump s d out = Some out' \<Longrightarrow> length out' = length out"
  by (simp add: funchook_write_relative_2g_jump_def length_buf_write)

lemma write_entry_jump_keeps:
  assumes "write_entry_jump cpu hc ea e hook = Some e'"
  shows "\<exists>c t. e' = e\<lparr>new_code := c, transit := t\<rparr> \<and> length c = MAX_PATCH_CODE_SIZE"
proof -
  let ?nops = "replicate MAX_PATCH_CODE_SIZE NOP_INSTRUCTION"
  obtain d c t where "funchook_write_relative_2g_jump (target_func e) d ?nops = Some c"
    and "e' = e\<lparr>new_code := c, transit := t\<rparr>"
    using assms
    by (auto simp: write_entry_jump_def funchook_write_jump_with_prehook_def Let_def
        bind_eq_Some_conv split: if_splits)
  then show ?thesis using write_relative_jump_length [of "target_func e" d ?nops c] by auto
qed

lemma fix_code_keeps:
  assumes "funchook_fix_code cpu hc ea e d = Some e'"
  shows "\<exists>c t tr. e' = e\<lparr>patch_code_size := ucast (dst_addr (fst d) - target_func e),
      new_code := c, transit := t, trampoline := tr\<rparr> \<and> length c = MAX_PATCH_CODE_SIZE"
proof -
  obtain hook e2 tr where w: "write_entry_jump cpu hc ea
      (e\<lparr>patch_code_size := ucast (dst_addr (fst d) - target_func e)\<rparr>) hook = Some e2"
    and e': "e' = e2\<lparr>trampoline := tr\<rparr>"
    using assms
    by (auto simp: funchook_fix_code_def Let_def bind_eq_Some_conv split: if_splits)
  from write_entry_jump_keeps [OF w] e' show ?thesis by auto
qed

text \<open>The number of bytes to patch, from the end of the moved instructions.\<close>

lemma fits_patch_size:
  fixes func :: "'a::len word"
  assumes "x86_fits func (d, tramp, n)" and "6 \<le> LENGTH('a)"
  shows "unat (ucast (dst_addr (fst d) - func) :: u32) \<le> MAX_PATCH_CODE_SIZE"
proof -
  have "list_ex (\<lambda>k. dst_addr (fst d) = func + of_nat k) [REL2G_JUMP_SIZE..<Suc MAX_PATCH_CODE_SIZE]"
    using assms(1) by (simp add: x86_fits_def trampoline_ok_def del: upt_Suc)
  then obtain k where k: "k \<le> MAX_PATCH_CODE_SIZE" "dst_addr (fst d) = func + of_nat k"
    unfolding list_ex_iff set_upt by (meson atLeastLessThan_iff less_Suc_eq_le)
  have "k < 2 ^ 6" using k(1) by (simp add: x86_sizes)
  also have "(2 :: nat) ^ 6 \<le> 2 ^ LENGTH('a)"
    using assms(2) by (intro power_increasing) simp_all
  finally have "unat (of_nat k :: 'a word) = k" by (simp add: unat_of_nat)
  moreover have "unat (ucast (of_nat k :: 'a word) :: u32) \<le> unat (of_nat k :: 'a word)"
    by (simp add: unsigned_ucast_eq)
  ultimately show ?thesis using k by (simp add: k(2))
qed

lemma transit_sizes:
  "length TRANSIT_CODE_TEMPLATE_x86_64 = 21" "length TRANSIT_CODE_TEMPLATE_x86 = 24"
  by (simp_all add: TRANSIT_CODE_TEMPLATE_x86_64_def TRANSIT_CODE_TEMPLATE_x86_def)

lemma new_entry_x86_64:
  "new_entry (x86_64_ops disasm hc) m target func params tramp =
     \<lparr>transit = replicate 21 0, original_target_func = target, target_func = func,
      hook_func = p_hook_func params, prehook = p_prehook params, user_data = p_user_data params,
      eflags = p_flags params, patch_code_size = 20, trampoline = tramp,
      old_code = mem_read m func 20, new_code = replicate 20 0\<rparr>"
  by (simp add: new_entry_def x86_64_ops_def transit_sizes x86_sizes)

lemma new_entry_x86:
  "new_entry (x86_ops disasm hc) m target func params tramp =
     \<lparr>transit = replicate 24 0, original_target_func = target, target_func = func,
      hook_func = p_hook_func params, prehook = p_prehook params, user_data = p_user_data params,
      eflags = p_flags params, patch_code_size = 20, trampoline = tramp,
      old_code = mem_read m func 20, new_code = replicate 20 0\<rparr>"
  by (simp add: new_entry_def x86_ops_def transit_sizes x86_sizes)

lemma new_entry_shape:
  assumes "x86_fits func (d, tramp, n)"
  shows "entry_shape (new_entry (x86_64_ops disasm hc) m target func params tramp)"
  using assms
  by (simp add: entry_shape_def new_entry_x86_64 x86_fits_def trampoline_ok_def
      transit_sizes)

lemma x86_64_fix_code_fits:
  assumes f: "x86_fits func (d, tramp, n)"
    and c: "funchook_fix_code CPU_X86_64 hc ea (new_entry (x86_64_ops disasm hc) m target func params tramp) d = Some e"
  shows "unat (patch_code_size e) \<le> MAX_PATCH_CODE_SIZE" and "length (entry_bytes_x86_64 e) = 144"
proof -
  let ?e = "new_entry (x86_64_ops disasm hc) m target func params tramp"
  have b: "disp_in_bounds (fst d)" "disp_in_bounds (snd d)"
    using f by (simp_all add: x86_fits_def trampoline_ok_def)
  note k = fix_code_fields [OF new_entry_shape [OF f] b c]
  obtain c' t tr where e: "e = ?e\<lparr>patch_code_size := ucast (dst_addr (fst d) - target_func ?e),
      new_code := c', transit := t, trampoline := tr\<rparr>" "length c' = MAX_PATCH_CODE_SIZE"
    using fix_code_keeps [OF c] by blast
  have "patch_code_size e = ucast (dst_addr (fst d) - func)"
    by (simp add: e(1) new_entry_x86_64)
  then show "unat (patch_code_size e) \<le> MAX_PATCH_CODE_SIZE"
    using fits_patch_size [OF f] by simp
  show "length (entry_bytes_x86_64 e) = 144"
    using k(2) e(2)
    by (simp add: entry_bytes_x86_64_def entry_shape_def e(1) new_entry_x86_64
        transit_sizes x86_sizes)
qed

interpretation x86_64_code: code_generator "x86_64_ops disasm hc" x86_fits
  for disasm :: "(u64 \<Rightarrow> u8) \<Rightarrow> u64 \<Rightarrow> nat \<Rightarrow> u64 x86_insn list with_message" and hc :: u64
proof (unfold_locales, goal_cases)
  case (1 ea e d e')
  then have "funchook_fix_code CPU_X86_64 hc ea e d = Some e'" by (simp add: x86_64_ops_def)
  from fix_code_keeps [OF this] show ?case by (auto simp: x86_64_ops_def)
next
  case (2 func d tramp n ea m target params e')
  then have "funchook_fix_code CPU_X86_64 hc ea (new_entry (x86_64_ops disasm hc) m target func params tramp) d = Some e'"
    by (simp add: x86_64_ops_def)
  from x86_64_fix_code_fits [OF 2(1) this] show ?case by (simp add: x86_64_ops_def)
next
  case (3 func d tramp n ea m target params)
  have b: "disp_in_bounds (fst d)" "disp_in_bounds (snd d)"
    using 3 by (simp_all add: x86_fits_def trampoline_ok_def)
  obtain e' where "funchook_fix_code CPU_X86_64 hc ea
      (new_entry (x86_64_ops disasm hc) m target func params tramp) d = Some e'"
    using fix_code_x86_64 [where ea = ea and hc = hc, OF new_entry_shape [where disasm = disasm and hc = hc
        and m = m and target = target and params = params, OF 3] b] by blast
  then show ?case by (simp add: x86_64_ops_def)
next
  case (4 p i) then show ?case by (simp add: x86_64_ops_def entry_address_def CPU_X86_64_def)
next
  case (5 bs k) then show ?case by (simp add: x86_64_ops_def)
next
  case (6 "is") then show ?case by (simp add: x86_64_ops_def)
next
  case (7 psz num p)
  then show ?case
    using layout_sizes(2) [OF 7] by (simp add: x86_64_ops_def in_region_def)
qed

section \<open>The contract on i386\<close>

lemma write_entry_jump_x86:
  assumes "length (transit e) = 24"
  shows "\<exists>c t. write_entry_jump CPU_X86 hc ea e hook = Some (e\<lparr>new_code := c, transit := t\<rparr>) \<and>
    length c = MAX_PATCH_CODE_SIZE \<and> length t = 24"
proof -
  have z: "\<exists>t. buf_write 0 [0] (transit e) = Some t \<and> length t = 24"
    using assms by (cases "transit e") (auto simp: buf_write_def)
  have h: "\<exists>t. buf_write TRANSIT_HOOK_CALLER_ADDR_x86 (le_bytes 4 hc) TRANSIT_CODE_TEMPLATE_x86 = Some t \<and>
      length t = 24"
    by (simp add: buf_write_def transit_sizes TRANSIT_HOOK_CALLER_ADDR_x86_def)
  have "\<exists>c. funchook_write_relative_2g_jump s d (replicate MAX_PATCH_CODE_SIZE NOP_INSTRUCTION) = Some c \<and>
      length c = MAX_PATCH_CODE_SIZE" for s d :: u32
    by (simp add: funchook_write_relative_2g_jump_def buf_write_def x86_sizes)
  then obtain c where c: "funchook_write_relative_2g_jump (target_func e)
      (if prehook e \<noteq> 0 then ea else hook) (replicate MAX_PATCH_CODE_SIZE NOP_INSTRUCTION) = Some c"
    "length c = MAX_PATCH_CODE_SIZE" by blast
  obtain t0 th where t: "buf_write 0 [0] (transit e) = Some t0" "length t0 = 24"
    "buf_write TRANSIT_HOOK_CALLER_ADDR_x86 (le_bytes 4 hc) TRANSIT_CODE_TEMPLATE_x86 = Some th"
    "length th = 24" using z h by blast
  show ?thesis
  proof (cases "prehook e = 0")
    case True
    with c t show ?thesis by (simp add: write_entry_jump_def Let_def CPU_X86_def) blast
  next
    case False
    with c t show ?thesis
      by (simp add: write_entry_jump_def funchook_write_jump_with_prehook_def Let_def CPU_X86_def) blast
  qed
qed

lemma fix_code_x86:
  assumes f: "x86_fits func (d, tramp, n)"
  shows "\<exists>c t tr. funchook_fix_code CPU_X86 hc ea (new_entry (x86_ops disasm hc') m target func params tramp) d =
      Some ((new_entry (x86_ops disasm hc') m target func params tramp)
        \<lparr>patch_code_size := ucast (dst_addr (fst d) - func), new_code := c, transit := t, trampoline := tr\<rparr>) \<and>
    length c = MAX_PATCH_CODE_SIZE \<and> length t = 24 \<and> length tr = TRAMPOLINE_SIZE"
proof -
  let ?e = "new_entry (x86_ops disasm hc') m target func params tramp"
  let ?e1 = "?e\<lparr>patch_code_size := ucast (dst_addr (fst d) - func)\<rparr>"
  let ?hook = "if hook_func ?e \<noteq> 0 then hook_func ?e else ea + of_nat (offsetof_trampoline CPU_X86)"
  have b: "disp_in_bounds (fst d)" "disp_in_bounds (snd d)" and lt: "length tramp = TRAMPOLINE_SIZE"
    using f by (simp_all add: x86_fits_def trampoline_ok_def)
  obtain c t where w: "write_entry_jump CPU_X86 hc ea ?e1 ?hook = Some (?e1\<lparr>new_code := c, transit := t\<rparr>)"
    and l: "length c = MAX_PATCH_CODE_SIZE" "length t = 24"
    using write_entry_jump_x86 [of ?e1 hc ea ?hook] by (auto simp: new_entry_x86)
  obtain t1 where t1: "fix_displacement CPU_X86 ea (fst d) tramp = Some t1"
    using fix_displacement_defined(2) [OF b(1) lt] by blast
  then have l1: "length t1 = TRAMPOLINE_SIZE" using lt by (simp add: length_fix_displacement)
  obtain t2 where t2: "fix_displacement CPU_X86 ea (snd d) t1 = Some t2"
    using fix_displacement_defined(2) [OF b(2) l1] by blast
  then have l2: "length t2 = TRAMPOLINE_SIZE" using l1 by (simp add: length_fix_displacement)
  have tf: "target_func ?e = func" and tr: "trampoline ?e = tramp"
    by (simp_all add: new_entry_x86)
  have "funchook_fix_code CPU_X86 hc ea ?e d =
      Some (?e\<lparr>patch_code_size := ucast (dst_addr (fst d) - func), new_code := c, transit := t,
               trampoline := (if dst_addr (snd d) \<noteq> 0 then t2 else t1)\<rparr>)"
    using w t1 t2 by (simp add: funchook_fix_code_def Let_def tf tr)
  moreover have "length (if dst_addr (snd d) \<noteq> 0 then t2 else t1) = TRAMPOLINE_SIZE"
    using l1 l2 by simp
  ultimately show ?thesis using l by blast
qed

interpretation x86_code: code_generator "x86_ops disasm hc" x86_fits
  for disasm :: "(u32 \<Rightarrow> u8) \<Rightarrow> u32 \<Rightarrow> nat \<Rightarrow> u32 x86_insn list with_message" and hc :: u32
proof (unfold_locales, goal_cases)
  case (1 ea e d e')
  then have "funchook_fix_code CPU_X86 hc ea e d = Some e'" by (simp add: x86_ops_def)
  from fix_code_keeps [OF this] show ?case by (auto simp: x86_ops_def)
next
  case (2 func d tramp n ea m target params e')
  let ?e = "new_entry (x86_ops disasm hc) m target func params tramp"
  have fc: "funchook_fix_code CPU_X86 hc ea ?e d = Some e'"
    using 2(2) by (simp add: x86_ops_def)
  obtain c t tr where e: "e' = ?e\<lparr>patch_code_size := ucast (dst_addr (fst d) - func),
      new_code := c, transit := t, trampoline := tr\<rparr>"
    and l: "length c = MAX_PATCH_CODE_SIZE" "length t = 24" "length tr = TRAMPOLINE_SIZE"
    using fix_code_x86 [where ea = ea and hc = hc and disasm = disasm and hc' = hc and m = m
        and target = target and params = params, OF 2(1)] fc by auto
  have "unat (patch_code_size e') \<le> MAX_PATCH_CODE_SIZE"
    using fits_patch_size [OF 2(1)] by (simp add: e)
  moreover have "length (entry_bytes_x86 e') = 120"
    using l by (simp add: e entry_bytes_x86_def new_entry_x86 x86_sizes)
  ultimately show ?case by (simp add: x86_ops_def)
next
  case (3 func d tramp n ea m target params)
  from fix_code_x86 [where ea = ea and hc = hc and disasm = disasm and hc' = hc and m = m
      and target = target and params = params, OF 3]
  show ?case by (auto simp: x86_ops_def)
next
  case (4 p i) then show ?case by (simp add: x86_ops_def entry_address_def CPU_X86_def)
next
  case (5 bs k) then show ?case by (simp add: x86_ops_def)
next
  case (6 "is") then show ?case by (simp add: x86_ops_def)
next
  case (7 psz num p)
  then show ?case
    using layout_sizes(2) [OF 7] by (simp add: x86_ops_def in_region_def)
qed

section \<open>The library\<close>

interpretation linux_x86_64: handle_library "unix_ops_64 env resolve" "unix_ok env" "x86_64_ops disasm hc" x86_fits
  for env :: "u64 unix_env" and resolve :: "u64 \<Rightarrow> (u64, prot, u8) fh_state \<Rightarrow> u64"
    and disasm :: "(u64 \<Rightarrow> u8) \<Rightarrow> u64 \<Rightarrow> nat \<Rightarrow> u64 x86_insn list with_message" and hc :: u64
  by unfold_locales

interpretation linux_x86: handle_library "unix_ops_32 env resolve" "unix_ok env" "x86_ops disasm hc" x86_fits
  for env :: "u32 unix_env" and resolve :: "u32 \<Rightarrow> (u32, prot, u8) fh_state \<Rightarrow> u32"
    and disasm :: "(u32 \<Rightarrow> u8) \<Rightarrow> u32 \<Rightarrow> nat \<Rightarrow> u32 x86_insn list with_message" and hc :: u32
  by unfold_locales

end
