(* ===== verification/Sample_Session.thy ===== *)
theory Sample_Session
  imports Arch_X86_Contract
begin

text \<open>
  A concrete run of the library on x86_64 Linux, used to show that the hypotheses of the
  properties can hold: a kernel that hands out the hinted address, or
  0x500000 without a hint, when it is free, a process
  with one page of code at 0x401000 that holds the sample function of \<open>Arch_X86_Correct\<close>,
  and the calls that prepare, install and uninstall a hook for it.
\<close>

section \<open>A kernel\<close>

definition region_free :: "(u64 \<Rightarrow> prot option) \<Rightarrow> u64 \<Rightarrow> nat \<Rightarrow> bool" where
  "region_free pr a n \<longleftrightarrow> list_all (\<lambda>i. pr (a + of_nat i) = None \<and>
     \<not> in_region MAP_FAILED 4096 (a + of_nat i)) [0..<n]"

definition region_mapped :: "(u64 \<Rightarrow> prot option) \<Rightarrow> u64 \<Rightarrow> nat \<Rightarrow> bool" where
  "region_mapped pr a n \<longleftrightarrow> list_all (\<lambda>i. pr (a + of_nat i) \<noteq> None) [0..<n]"

definition sample_env :: "u64 unix_env" where
  "sample_env =
     \<lparr>env_mmap = (\<lambda>n pr hint sz. let a = (if hint = 0 then 0x500000 else hint) in
         if region_free pr a (unat sz) then a else MAP_FAILED),
      env_munmap = (\<lambda>n a sz. None),
      env_mprotect = (\<lambda>n pr a sz p. if region_mapped pr a (unat sz) then None else Some 12),
      env_mmap_errno = (\<lambda>n. 12),
      env_maps = (\<lambda>n pr. Inr (''00401000-00402000 r-xp 00000000 08:02 1 /bin/sample'' @ newline)),
      env_page_size = 4096,
      env_strerror = (\<lambda>n. ''Cannot allocate memory'')\<rparr>"

lemma in_region_offset:
  assumes "in_region a n (x :: 'a::len word)"
  obtains i where "i < n" and "x = a + of_nat i"
proof
  show "unat (x - a) < n" using assms by (simp add: in_region_def)
  show "x = a + of_nat (unat (x - a))" by simp
qed

lemma region_freeD: "region_free pr a n \<Longrightarrow> in_region a n x \<Longrightarrow> pr x = None \<and> \<not> in_region MAP_FAILED 4096 x"
  by (erule in_region_offset) (simp add: region_free_def list_all_iff)

lemma region_mappedD: "region_mapped pr a n \<Longrightarrow> in_region a n x \<Longrightarrow> pr x \<noteq> None"
  by (erule in_region_offset) (simp add: region_mapped_def list_all_iff)

lemma sample_kernel: "unix_kernel sample_env"
  unfolding unix_kernel_def
proof (intro conjI allI impI)
  fix n pr hint sz x
  assume "env_mmap sample_env n pr hint sz \<noteq> MAP_FAILED"
    and "in_region (env_mmap sample_env n pr hint sz) (unat sz) x"
  then obtain a where "region_free pr a (unat sz)" "in_region a (unat sz) x"
    by (auto simp: sample_env_def Let_def split: if_splits)
  then show "pr x = None" "\<not> in_region MAP_FAILED (unat (env_page_size sample_env)) x"
    using region_freeD by (auto simp: sample_env_def)
next
  fix n pr a sz p x
  assume "env_mprotect sample_env n pr a sz p = None" and "in_region a (unat sz) x"
  then show "pr x \<noteq> None"
    using region_mappedD by (auto simp: sample_env_def split: if_splits)
qed

section \<open>A process with one page of code\<close>

definition sample_state :: "(u64, prot, u8) fh_state" where
  "sample_state =
     \<lparr>mem = sample_mem,
      mprot = (\<lambda>x. if in_region 0x401000 4096 x then Some PROT_RX else None),
      now = 0, page_size = 4096, error_message = [], os_data = PROT_RWX,
      installed = False, page_list = [], num_entries_in_page = 28\<rparr>"

abbreviation sample_arch where "sample_arch \<equiv> x86_64_ops sample_disasm 0x700000"
abbreviation sample_os where "sample_os \<equiv> unix_ops_64 sample_env (\<lambda>f s. f)"

definition sample_params :: "u64 funchook_params" where
  "sample_params = \<lparr>p_hook_func = 0x600000, p_prehook = 0, p_user_data = 0, p_flags = 0\<rparr>"

lemma regions_apart:
  fixes a b :: u64
  assumes "n \<le> unat (b - a)" and "m \<le> unat (a - b)" and "in_region a n x"
  shows "\<not> in_region b m x"
  using disjoint_blocksD [of a n b m x] assms by (simp add: disjoint_blocks_def)

lemma sample_unix_ok: "unix_ok sample_env sample_state"
proof -
  have "pow2_unit (4096 :: u64)"
    using pow2_unitI [of 12, where 'a = 64] by simp
  moreover have "in_region MAP_FAILED 4096 x \<Longrightarrow> \<not> in_region (0x401000 :: u64) 4096 x" for x
    by (rule regions_apart) (simp_all add: MAP_FAILED_def)
  ultimately show ?thesis
    by (simp add: unix_ok_def sample_kernel) (simp add: sample_state_def sample_env_def PROT_RWX_def)
qed

lemma sample_layout: "layout_ok sample_arch 4096 28"
  by (simp add: layout_ok_def window_def x86_sizes, simp add: x86_64_ops_def)

lemma sample_fresh: "fresh_handle sample_arch sample_state"
  using sample_layout by (simp add: fresh_handle_def sample_state_def)

lemma sample_inv: "handle_inv sample_arch sample_state"
  using sample_layout by (simp add: handle_inv_def sample_state_def)

lemma sample_apart: "apart sample_arch sample_state 0x401000"
  by (auto simp: apart_def mapped_def sample_state_def window_def x86_sizes in_region_def)

section \<open>Preparing\<close>

lemma sample_free_address:
  "free_address_loop 4096 0x401000 (''00401000-00402000 r-xp 00000000 08:02 1 /bin/sample'' @ newline) 0 0 0 =
     Some (0, 0x402000)"
proof -
  let ?l = "''00401000-00402000 r-xp 00000000 08:02 1 /bin/sample''"
  have "short_line ?l" by (simp add: short_line_def PATH_MAX_def)
  moreover have "parse_map_line ?l = Some (0x401000, 0x402000)" by code_simp
  ultimately show ?thesis
    using free_address_loop_line [of ?l "0x401000" "0x402000" 4096 "0x401000" "[]" 0 0 0]
    by (simp add: free_address_loop_end INT32_MAX_def)
qed

lemma sample_region_free: "region_free (mprot sample_state) 0x402000 4096"
proof -
  have "\<not> in_region (0x401000 :: u64) 4096 (0x402000 + of_nat i)" if "i < 4096" for i
    using that by (intro not_in_region_beyond) simp_all
  moreover have "\<not> in_region (MAP_FAILED :: u64) 4096 (0x402000 + of_nat i)" if "i < 4096" for i
    using that by (intro not_in_region_beyond) (simp_all add: MAP_FAILED_def)
  ultimately show ?thesis
    by (simp add: region_free_def list_all_iff sample_state_def)
qed

definition sample_mapped_state :: "(u64, prot, u8) fh_state" where
  "sample_mapped_state = snd (sys_mmap sample_env 0x402000 4096 (tick sample_state))"

lemma sample_mmap:
  "sys_mmap sample_env 0x402000 4096 (tick sample_state) = (0x402000, sample_mapped_state)"
  using sample_region_free
  by (simp add: sample_mapped_state_def sys_mmap_def Let_def sample_env_def MAP_FAILED_def)

lemma sample_page_alloc:
  "funchook_page_alloc_64 sample_env 0x401000 sample_state = (Inr 0x402000, sample_mapped_state)"
proof -
  have ps: "page_size sample_state = 4096" by (simp add: sample_state_def)
  have "get_free_address sample_env 0x401000 sample_state = (Inr (0, 0x402000), tick sample_state)"
    using sample_free_address by (simp add: get_free_address_def ps sample_env_def)
  moreover have "try_address sample_env 0x401000 0x402000 (tick sample_state) =
      (Some (Inr 0x402000), sample_mapped_state)"
    using sample_mmap by (simp add: try_address_def ps SAFE_JUMP_DISTANCE_def INT32_MAX_def)
  ultimately show ?thesis
    by (simp add: funchook_page_alloc_64_def numeral_3_eq_3)
qed

lemma sample_page_rw:
  "in_region 0x402000 4096 x \<Longrightarrow> mprot sample_mapped_state x = Some PROT_RW"
  using sample_region_free
  by (simp add: sample_mapped_state_def sys_mmap_def Let_def sample_env_def MAP_FAILED_def)

text \<open>
  Preparing the sample function in a fresh handle, on any system layer that hands out the
  page \<open>p\<close>.
\<close>

lemma page_writable:
  fixes p :: u64
  assumes "\<And>x. in_region p 4096 x \<Longrightarrow> mprot s x = Some PROT_RW" and "k + n \<le> 4096"
  shows "writable s (p + of_nat k) n"
proof -
  have "mprot s (p + of_nat k + of_nat i) = Some PROT_RW" if "i < n" for i
  proof -
    have "in_region p 4096 (p + of_nat (k + i))"
      using that assms(2) by (simp add: in_region_def unat_of_nat del: of_nat_add)
    then show ?thesis using assms(1) by (simp add: add.assoc)
  qed
  then show ?thesis by (simp add: writable_iff PROT_RW_def)
qed

definition gives_page ::
    "(u64, u64 ip_displacement, 'ms, (u64, 'p, u8) fh_state) os_ops \<Rightarrow> (u64, 'p, u8) fh_state \<Rightarrow> u64 \<Rightarrow>
      (u64, 'p, u8) fh_state \<Rightarrow> bool" where
  "gives_page os s p s1 \<longleftrightarrow> os_resolve_func os 0x401000 s = 0x401000 \<and>
     os_page_alloc os 0x401000 sample_disp s = (Inr p, s1) \<and> same_handle s s1 \<and>
     (\<forall>x. in_region p 4096 x \<longrightarrow> mprot s1 x = Some PROT_RW) \<and> funchook_page_avail p 0 0x401000 sample_disp"

lemma gives_page_get:
  assumes "gives_page os s p s1" and "page_list s = []"
  shows "get_page sample_arch os 0x401000 sample_disp s =
     (Inr \<lparr>page_addr = p, used = 0, entries = []\<rparr>,
      s1\<lparr>page_list := [\<lparr>page_addr = p, used = 0, entries = []\<rparr>]\<rparr>)"
proof -
  have "writable s1 p 16"
    using page_writable [of p s1 0 16] assms(1) by (simp add: gives_page_def)
  moreover have "arch_page_header sample_arch p = p" "arch_sizeof_header sample_arch = 16"
    by (simp_all add: x86_64_ops_def)
  ultimately show ?thesis
    using assms by (simp add: get_page_def gives_page_def same_handle_def Let_def)
qed

lemma sample_fits: "x86_fits 0x401000 (sample_disp, sample_trampoline, 16)"
  using x86_64.make_trampoline_ok [OF sample_disasm_ok sample_wf sample_run] by (simp add: x86_fits_def)

lemma gives_page_prepare:
  assumes g: "gives_page os s p s1" and s: "page_list s = []" "\<not> installed s" "mem s = sample_mem"
  obtains e where "funchook_prepare_internal sample_arch os 0x401000 params s =
    (Inr (p + 0x58), s1\<lparr>mem := mem_write (mem s1) (p + 0x10) (entry_bytes_x86_64 e),
         page_list := [\<lparr>page_addr = p, used = 1, entries = [e]\<rparr>]\<rparr>)"
proof -
  let ?pg = "\<lparr>page_addr = p, used = 0, entries = []\<rparr> :: (u64, u8) funchook_page"
  let ?s1 = "s1\<lparr>page_list := [?pg]\<rparr>"
  have r: "os_resolve_func os 0x401000 s = 0x401000"
    using g by (simp add: gives_page_def)
  have mt: "arch_make_trampoline sample_arch (mem s) 0x401000 =
      Inr (sample_disp, sample_trampoline, 16)"
    using sample_run by (simp add: s(3))
  have ea: "arch_entry_address sample_arch p 0 = p + 0x10"
    by (simp add: entry_address_def CPU_X86_64_def)
  have w: "writable ?s1 (p + 0x10) 144"
    using page_writable [of p s1 16 144] g by (simp add: gives_page_def writable_def)
  obtain e where e: "arch_fix_code sample_arch (p + 0x10)
      (new_entry sample_arch (mem ?s1) 0x401000 0x401000 params sample_trampoline) sample_disp = Some e"
    using x86_64_code.fix_code_total [OF sample_fits, where disasm = sample_disasm and hc = "0x700000"
        and ea = "p + 0x10" and m = "mem ?s1" and target = "0x401000" and params = params] by blast
  have "funchook_prepare_internal sample_arch os 0x401000 params s =
      (Inr (p + 0x58), ?s1\<lparr>mem := mem_write (mem ?s1) (p + 0x10) (entry_bytes_x86_64 e),
         page_list := add_entry p e [?pg]\<rparr>)"
    unfolding funchook_prepare_internal_def Let_def r mt
    by (simp add: s(2) gives_page_get [OF g s(1)] ea [simplified] w [simplified] e [simplified])
  then show ?thesis by (intro that) (simp add: add_entry_def)
qed

lemma sample_gives: "gives_page sample_os sample_state 0x402000 sample_mapped_state"
proof -
  have "same_handle sample_state sample_mapped_state"
    using same_handle_trans [OF same_handle_tick mmap_ok(1) [OF _ sample_mmap]] sample_unix_ok
      unix_ok_cong [of sample_env sample_state "tick sample_state"] by simp
  moreover have "funchook_page_avail 0x402000 0 0x401000 sample_disp" by code_simp
  ultimately show ?thesis
    using sample_page_alloc sample_page_rw by (simp add: gives_page_def unix_ops_64_def)
qed

lemma sample_prepare_state:
  obtains e where "funchook_prepare_internal sample_arch sample_os 0x401000 params sample_state =
    (Inr 0x402058, sample_mapped_state
       \<lparr>mem := mem_write (mem sample_mapped_state) 0x402010 (entry_bytes_x86_64 e),
         page_list := [\<lparr>page_addr = 0x402000, used = 1, entries = [e]\<rparr>]\<rparr>)"
  using gives_page_prepare [OF sample_gives] by (auto simp: sample_state_def)

lemma sample_prepare:
  obtains s1 where "funchook_prepare_internal sample_arch sample_os 0x401000 params sample_state =
    (Inr 0x402058, s1)"
  using sample_prepare_state by blast

section \<open>Installing\<close>

lemma sample_grants: "kernel_grants sample_env"
  by (auto simp: kernel_grants_def sample_env_def region_mapped_def list_all_iff in_region_def
      unat_of_nat)

lemma region_mapped_of:
  "(\<And>x. in_region a n x \<Longrightarrow> pr x \<noteq> None) \<Longrightarrow> n \<le> 2 ^ 64 \<Longrightarrow> region_mapped pr (a :: u64) n"
  by (auto simp: region_mapped_def list_all_iff in_region_def unat_of_nat)

lemma sample_fit:
  "arch_make_trampoline sample_arch (mem sample_state) 0x401000 = Inr r \<Longrightarrow> x86_fits 0x401000 r"
  using sample_run sample_fits by (simp add: sample_state_def)

text \<open>The pages of a patch of at most 20 bytes at 0x401000: one page.\<close>

lemma sample_code_pages:
  assumes "0 < n" and "n \<le> 20"
  shows "code_pages 4096 (0x401000 :: u64) (of_nat n) = \<lparr>ms_addr = 0x401000, ms_size = 4096\<rparr>"
proof -
  have "n \<in> set [1..<21]" using assms by simp
  moreover have "list_all (\<lambda>n. code_pages 4096 (0x401000 :: u64) (of_nat n) =
      \<lparr>ms_addr = 0x401000, ms_size = 4096\<rparr>) [1..<21]"
    by code_simp
  ultimately show ?thesis by (simp only: list_all_iff)
qed

text \<open>The entry made for the sample function, with any system layer: its patch has 11 bytes.\<close>

lemma sample_prepared_entry:
  assumes lib: "handle_library os os_ok sample_arch x86_fits" and ok: "os_ok s" "handle_inv sample_arch s"
    and rf: "0x401000 = os_resolve_func os 0x401000 s" and ap: "apart sample_arch s 0x401000"
    and m: "mem s = sample_mem" and pl: "page_list s = []"
    and p: "funchook_prepare_internal sample_arch os 0x401000 params s = (Inr t, s1)"
  obtains e where "set (entries_of (page_list s1)) = {e}" and "target_func e = 0x401000"
    and "patch_code_byte_size sample_arch e = 11"
proof -
  have fit: "x86_fits 0x401000 r" if "arch_make_trampoline sample_arch (mem s) 0x401000 = Inr r" for r
    using that sample_run sample_fits by (simp add: m)
  obtain pa i e d tramp n where pr: "prepared sample_arch 0x401000 0x401000 params s t s1 pa i e (d, tramp, n)"
    using handle_library.prepare_ok(8) [OF lib ok rf ap fit p] by (metis prod_cases3)
  have in1: "e \<in> set (entries_of (page_list s1))"
    and sub: "set (entries_of (page_list s1)) \<subseteq> insert e (set (entries_of (page_list s)))"
    and tf: "target_func e = 0x401000"
    using pr by (simp_all add: prepared_def)
  have e: "set (entries_of (page_list s1)) = {e}"
    using in1 sub by (auto simp: pl)
  have "(d, tramp, n) = (sample_disp, sample_trampoline, 16)"
    using pr sample_run by (simp add: prepared_def m)
  moreover obtain m where "funchook_fix_code CPU_X86_64 0x700000 (entry_address CPU_X86_64 pa i)
      (new_entry sample_arch m 0x401000 0x401000 params tramp) d = Some e"
    using pr by (auto simp: prepared_def)
  from fix_code_keeps [OF this] have "patch_code_size e = ucast (dst_addr (fst d) - 0x401000)"
    by (auto simp: new_entry_x86_64)
  ultimately have "patch_code_byte_size sample_arch e = 11"
    by (simp add: patch_code_byte_size_def sample_disp_def)
  with e tf show ?thesis by (rule that)
qed

lemma sample_prepared:
  obtains s1 e where
    "funchook_prepare_internal sample_arch sample_os 0x401000 params sample_state = (Inr 0x402058, s1)"
    and "handle_inv sample_arch s1" and "unix_ok sample_env s1" and "\<not> installed s1"
    and "set (entries_of (page_list s1)) = {e}" and "target_func e = 0x401000"
    and "list_all (code_mapped sample_arch s1) (entries_of (page_list s1))"
    and "page_size s1 = 4096" and "mprot s1 0x401000 \<noteq> None"
proof -
  obtain s1 where p: "funchook_prepare_internal sample_arch sample_os 0x401000 params sample_state =
      (Inr 0x402058, s1)"
    using sample_prepare .
  have rf: "0x401000 = os_resolve_func sample_os 0x401000 sample_state"
    by (simp add: unix_ops_64_def)
  note po = linux_x86_64.prepare_ok [OF sample_unix_ok sample_inv rf sample_apart sample_fit p]
  obtain e where e: "set (entries_of (page_list s1)) = {e}" "target_func e = 0x401000"
    and k: "patch_code_byte_size sample_arch e = 11"
    by (rule sample_prepared_entry [OF linux_x86_64.handle_library_axioms sample_unix_ok sample_inv rf sample_apart _ _ p])
      (simp_all add: sample_state_def)
  have ps: "page_size s1 = 4096" using po(6) by (simp add: sample_state_def)
  have mp: "mprot s1 x \<noteq> None" if "in_region 0x401000 4096 x" for x
    using po(10) [of x] that by (simp add: sample_state_def)
  have "code_mapped sample_arch s1 e"
    using mp sample_code_pages [of 11] by (simp add: code_mapped_def k e(2) ps)
  then have "list_all (code_mapped sample_arch s1) (entries_of (page_list s1))"
    by (simp add: list_all_iff e(1))
  moreover have "mprot s1 0x401000 \<noteq> None" by (rule mp) (simp add: in_region_def)
  ultimately show ?thesis
    using that p po(1,2,4) e ps by blast
qed

lemma sample_ready:
  assumes "handle_inv sample_arch s" and "list_all (code_mapped sample_arch s) (entries_of (page_list s))"
    and "unix_ok sample_env s" and "\<not> installed s"
  obtains s' where "funchook_install_internal sample_arch sample_os s = (Inr (), s')"
  using unix64_grants.install_succeeds [OF assms(3,4) handle_inv_ready_64 [OF assms(1,2) sample_grants]]
  by blast

lemma sample_installed:
  obtains s1 s2 where
    "funchook_prepare_internal sample_arch sample_os 0x401000 params sample_state = (Inr 0x402058, s1)"
    and "funchook_install_internal sample_arch sample_os s1 = (Inr (), s2)"
proof -
  obtain s1 e where "funchook_prepare_internal sample_arch sample_os 0x401000 params sample_state =
      (Inr 0x402058, s1)"
    and "handle_inv sample_arch s1" "unix_ok sample_env s1" "\<not> installed s1"
    and "list_all (code_mapped sample_arch s1) (entries_of (page_list s1))"
    using sample_prepared by metis
  with that sample_ready show ?thesis by metis
qed

end
