(* ===== verification/Arch_ARM64.thy ===== *)
theory Arch_ARM64
  imports FH_Disasm
begin

text \<open>
  The ARM64 code generator, src/src/arch_arm64.c and arch_arm64.h: the trampoline with its
  literal pool, the jumps and the entry of a hook; and the classification of instructions in
  src/src/disasm_capstone.c. Instructions are 32-bit words, and positions in the function
  and in the trampoline count instructions.
\<close>

section \<open>Constants\<close>

definition REL4G_JUMP_SIZE :: nat where "REL4G_JUMP_SIZE = 2"
definition ARM64_MAX_INSN_CHECK_SIZE :: nat where "ARM64_MAX_INSN_CHECK_SIZE = 64"
definition LITERAL_POOL_OFFSET :: nat where "LITERAL_POOL_OFFSET = 3 * REL4G_JUMP_SIZE + 2"
definition LITERAL_POOL_NUM :: nat where "LITERAL_POOL_NUM = REL4G_JUMP_SIZE + 1"

definition ARM64_TRAMPOLINE_SIZE :: nat where
  "ARM64_TRAMPOLINE_SIZE = LITERAL_POOL_OFFSET + 2 * LITERAL_POOL_NUM"

definition ARM64_MAX_PATCH_CODE_SIZE :: nat where "ARM64_MAX_PATCH_CODE_SIZE = REL4G_JUMP_SIZE"

lemmas arm64_sizes = REL4G_JUMP_SIZE_def ARM64_MAX_INSN_CHECK_SIZE_def LITERAL_POOL_OFFSET_def
  LITERAL_POOL_NUM_def ARM64_TRAMPOLINE_SIZE_def ARM64_MAX_PATCH_CODE_SIZE_def

definition ARM64_PAGE_SIZE :: u64 where "ARM64_PAGE_SIZE = 4096"

text \<open>The registers a trampoline may overwrite, x9 to x15, as a set of bits.\<close>

definition FUNCHOOK_ARM64_REG :: "nat \<Rightarrow> u32" where
  "FUNCHOOK_ARM64_REG n = push_bit n 1"

definition FUNCHOOK_ARM64_CORRUPTIBLE_REGS :: u32 where
  "FUNCHOOK_ARM64_CORRUPTIBLE_REGS =
     FUNCHOOK_ARM64_REG 9 OR FUNCHOOK_ARM64_REG 10 OR FUNCHOOK_ARM64_REG 11 OR
     FUNCHOOK_ARM64_REG 12 OR FUNCHOOK_ARM64_REG 13 OR FUNCHOOK_ARM64_REG 14 OR
     FUNCHOOK_ARM64_REG 15"

text \<open>The transit code of src/src/template.inc; the address is at instruction 4.\<close>

definition TRANSIT_CODE_TEMPLATE_arm64 :: "u32 list" where
  "TRANSIT_CODE_TEMPLATE_arm64 =
     [0x1000000a, 0x58000069, 0xd61f0120, 0xd503201f, 0xd503201f, 0xd503201f]"

definition TRANSIT_HOOK_CALLER_ADDR_arm64 :: nat where "TRANSIT_HOOK_CALLER_ADDR_arm64 = 4"

section \<open>Fields of instructions\<close>

text \<open>\<open>((int64_t)(int32_t)((ins) << l) >> r)\<close>: the shift to the right is arithmetic.\<close>

definition signed_field :: "nat \<Rightarrow> nat \<Rightarrow> u32 \<Rightarrow> u64" where
  "signed_field l r ins = of_int (drop_bit r (sint (push_bit l ins)))"

definition IMM26_OFFSET :: "u32 \<Rightarrow> u64" where
  "IMM26_OFFSET ins = signed_field 6 4 ins"

definition IMM19_MASK :: u32 where "IMM19_MASK = 0x00FFFFE0"

definition IMM19_OFFSET :: "u32 \<Rightarrow> u64" where
  "IMM19_OFFSET ins = signed_field 8 11 ins AND NOT 3"

definition IMM19_RESET :: "u32 \<Rightarrow> u32" where
  "IMM19_RESET ins = ins AND NOT IMM19_MASK"

definition TO_IMM19 :: "u32 \<Rightarrow> u32" where
  "TO_IMM19 imm19 = push_bit 5 imm19"

definition IMM_ADR_OFFSET :: "u32 \<Rightarrow> u64" where
  "IMM_ADR_OFFSET ins = IMM19_OFFSET ins OR ucast (drop_bit 29 ins AND 3)"

definition IMM14_MASK :: u32 where "IMM14_MASK = 0x0007FFE0"

definition IMM14_OFFSET :: "u32 \<Rightarrow> u64" where
  "IMM14_OFFSET ins = signed_field 13 16 ins AND NOT 3"

definition IMM14_RESET :: "u32 \<Rightarrow> u32" where
  "IMM14_RESET ins = ins AND NOT IMM14_MASK"

definition TO_IMM14 :: "u32 \<Rightarrow> u32" where
  "TO_IMM14 imm14 = push_bit 5 imm14"

definition RD_REGNO :: "u32 \<Rightarrow> u32" where "RD_REGNO ins = ins AND 0x1F"
definition RT_REGNO :: "u32 \<Rightarrow> u32" where "RT_REGNO ins = ins AND 0x1F"
definition TO_RN :: "u32 \<Rightarrow> u32" where "TO_RN regno = push_bit 5 regno"

definition RESET_AT :: "u32 \<Rightarrow> nat \<Rightarrow> u32" where
  "RESET_AT ins pos = ins AND NOT (push_bit pos 1)"

definition INVERT_AT :: "u32 \<Rightarrow> nat \<Rightarrow> u32" where
  "INVERT_AT ins pos = (ins AND push_bit pos 1) XOR push_bit pos 1"

section \<open>Classification of instructions\<close>

datatype funchook_arm64_insn_id =
    ARM64_INSN_OTHER
  | ARM64_INSN_ADR | ARM64_INSN_ADRP
  | ARM64_INSN_B | ARM64_INSN_BL | ARM64_INSN_B_cond
  | ARM64_INSN_CBNZ | ARM64_INSN_CBZ
  | ARM64_INSN_LDR | ARM64_INSN_LDRSW | ARM64_INSN_PRFM
  | ARM64_INSN_TBNZ | ARM64_INSN_TBZ

record funchook_insn_info =
  insn_id :: funchook_arm64_insn_id
  insn_regs :: u32

text \<open>
  What the code reads of a Capstone instruction: its id, whether its condition code is
  invalid, and the registers it reads and writes, which Capstone may fail to give. Ids and
  registers the code does not look at are numbered.
\<close>

datatype cs_arm64_id =
    ARM64_INS_ADR | ARM64_INS_ADRP | ARM64_INS_B | ARM64_INS_BL | ARM64_INS_CBNZ | ARM64_INS_CBZ
  | ARM64_INS_LDR | ARM64_INS_LDRSW | ARM64_INS_PRFM | ARM64_INS_TBNZ | ARM64_INS_TBZ
  | ARM64_INS_OTHER nat

datatype cs_arm64_reg =
    ARM64_REG_W9 | ARM64_REG_X9 | ARM64_REG_W10 | ARM64_REG_X10 | ARM64_REG_W11 | ARM64_REG_X11
  | ARM64_REG_W12 | ARM64_REG_X12 | ARM64_REG_W13 | ARM64_REG_X13 | ARM64_REG_W14 | ARM64_REG_X14
  | ARM64_REG_W15 | ARM64_REG_X15 | ARM64_REG_OTHER nat

record cs_arm64_insn =
  ca_id :: cs_arm64_id
  ca_cc_invalid :: bool
  ca_regs_access :: "(cs_arm64_reg list \<times> cs_arm64_reg list) option"

fun cs2funchook_reg :: "cs_arm64_reg \<Rightarrow> u32" where
  "cs2funchook_reg ARM64_REG_W9 = FUNCHOOK_ARM64_REG 9"
| "cs2funchook_reg ARM64_REG_X9 = FUNCHOOK_ARM64_REG 9"
| "cs2funchook_reg ARM64_REG_W10 = FUNCHOOK_ARM64_REG 10"
| "cs2funchook_reg ARM64_REG_X10 = FUNCHOOK_ARM64_REG 10"
| "cs2funchook_reg ARM64_REG_W11 = FUNCHOOK_ARM64_REG 11"
| "cs2funchook_reg ARM64_REG_X11 = FUNCHOOK_ARM64_REG 11"
| "cs2funchook_reg ARM64_REG_W12 = FUNCHOOK_ARM64_REG 12"
| "cs2funchook_reg ARM64_REG_X12 = FUNCHOOK_ARM64_REG 12"
| "cs2funchook_reg ARM64_REG_W13 = FUNCHOOK_ARM64_REG 13"
| "cs2funchook_reg ARM64_REG_X13 = FUNCHOOK_ARM64_REG 13"
| "cs2funchook_reg ARM64_REG_W14 = FUNCHOOK_ARM64_REG 14"
| "cs2funchook_reg ARM64_REG_X14 = FUNCHOOK_ARM64_REG 14"
| "cs2funchook_reg ARM64_REG_W15 = FUNCHOOK_ARM64_REG 15"
| "cs2funchook_reg ARM64_REG_X15 = FUNCHOOK_ARM64_REG 15"
| "cs2funchook_reg (ARM64_REG_OTHER n) = 0"

definition funchook_disasm_arm64_insn_info :: "cs_arm64_insn \<Rightarrow> funchook_insn_info" where
  "funchook_disasm_arm64_insn_info insn =
     \<lparr>insn_id =
        (case ca_id insn of
           ARM64_INS_ADR \<Rightarrow> ARM64_INSN_ADR
         | ARM64_INS_ADRP \<Rightarrow> ARM64_INSN_ADRP
         | ARM64_INS_B \<Rightarrow> (if ca_cc_invalid insn then ARM64_INSN_B else ARM64_INSN_B_cond)
         | ARM64_INS_BL \<Rightarrow> ARM64_INSN_BL
         | ARM64_INS_CBNZ \<Rightarrow> ARM64_INSN_CBNZ
         | ARM64_INS_CBZ \<Rightarrow> ARM64_INSN_CBZ
         | ARM64_INS_LDR \<Rightarrow> ARM64_INSN_LDR
         | ARM64_INS_LDRSW \<Rightarrow> ARM64_INSN_LDRSW
         | ARM64_INS_PRFM \<Rightarrow> ARM64_INSN_PRFM
         | ARM64_INS_TBNZ \<Rightarrow> ARM64_INSN_TBNZ
         | ARM64_INS_TBZ \<Rightarrow> ARM64_INSN_TBZ
         | ARM64_INS_OTHER n \<Rightarrow> ARM64_INSN_OTHER),
      insn_regs =
        (case ca_regs_access insn of
           None \<Rightarrow> 0
         | Some (rregs, wregs) \<Rightarrow>
             fold (\<lambda>r regs. regs OR cs2funchook_reg r) (rregs @ wregs) 0)\<rparr>"

text \<open>
  The address an instruction refers to, or 0. The masks of \<open>ROUND_DOWN\<close> are those of
  \<open>PAGE_SIZE\<close>.
\<close>

definition target_addr :: "u64 \<Rightarrow> u32 \<Rightarrow> funchook_arm64_insn_id \<Rightarrow> u64" where
  "target_addr addr ins iid =
     (case iid of
        ARM64_INSN_ADR \<Rightarrow> addr + IMM_ADR_OFFSET ins
      | ARM64_INSN_ADRP \<Rightarrow> ROUND_DOWN addr ARM64_PAGE_SIZE + push_bit 12 (IMM_ADR_OFFSET ins)
      | ARM64_INSN_B \<Rightarrow> addr + IMM26_OFFSET ins
      | ARM64_INSN_BL \<Rightarrow> addr + IMM26_OFFSET ins
      | ARM64_INSN_LDR \<Rightarrow> (if ins AND 0x20000000 \<noteq> 0 then 0 else addr + IMM19_OFFSET ins)
      | ARM64_INSN_LDRSW \<Rightarrow> (if ins AND 0x20000000 \<noteq> 0 then 0 else addr + IMM19_OFFSET ins)
      | ARM64_INSN_PRFM \<Rightarrow> (if ins AND 0x20000000 \<noteq> 0 then 0 else addr + IMM19_OFFSET ins)
      | ARM64_INSN_B_cond \<Rightarrow> addr + IMM19_OFFSET ins
      | ARM64_INSN_CBNZ \<Rightarrow> addr + IMM19_OFFSET ins
      | ARM64_INSN_CBZ \<Rightarrow> addr + IMM19_OFFSET ins
      | ARM64_INSN_TBNZ \<Rightarrow> addr + IMM14_OFFSET ins
      | ARM64_INSN_TBZ \<Rightarrow> addr + IMM14_OFFSET ins
      | ARM64_INSN_OTHER \<Rightarrow> 0)"

section \<open>Building the trampoline\<close>

definition to_regno :: "u32 \<Rightarrow> u32 with_message" where
  "to_regno avail_regs =
     (if avail_regs AND FUNCHOOK_ARM64_REG 9 \<noteq> 0 then Inr 9
      else if avail_regs AND FUNCHOOK_ARM64_REG 10 \<noteq> 0 then Inr 10
      else if avail_regs AND FUNCHOOK_ARM64_REG 11 \<noteq> 0 then Inr 11
      else if avail_regs AND FUNCHOOK_ARM64_REG 12 \<noteq> 0 then Inr 12
      else if avail_regs AND FUNCHOOK_ARM64_REG 13 \<noteq> 0 then Inr 13
      else if avail_regs AND FUNCHOOK_ARM64_REG 14 \<noteq> 0 then Inr 14
      else if avail_regs AND FUNCHOOK_ARM64_REG 15 \<noteq> 0 then Inr 15
      else Inl (Err ERROR_NO_AVAILABLE_REGISTERS, ''All caller-saved registers are used.''))"

text \<open>
  The context: positions in the function and the trampoline, the number of literals in the
  pool, the registers still free and the trampoline.
\<close>

record arm64_context =
  arm_src :: nat
  arm_dst :: nat
  arm_lits :: nat
  avail :: u32
  arm_buf :: "u32 list"

definition emit :: "u32 \<Rightarrow> arm64_context \<Rightarrow> arm64_context option" where
  "emit w ctx =
     map_option (\<lambda>buf. ctx\<lparr>arm_buf := buf, arm_dst := arm_dst ctx + 1\<rparr>)
       (buf_write (arm_dst ctx) [w] (arm_buf ctx))"

text \<open>
  The macro \<open>LDR_ADDR\<close>: the address becomes the next literal, and the register is loaded
  from it. The distance counts bytes, and the shift to the right makes it instructions.
\<close>

definition LDR_ADDR :: "u32 \<Rightarrow> u64 \<Rightarrow> arm64_context \<Rightarrow> arm64_context option" where
  "LDR_ADDR regno addr ctx =
     (let imm19 = of_int (drop_bit 2 (int (4 * (LITERAL_POOL_OFFSET + 2 * arm_lits ctx)) - int (4 * arm_dst ctx)))
      in Option.bind
           (buf_write (LITERAL_POOL_OFFSET + 2 * arm_lits ctx) [ucast addr, ucast (drop_bit 32 addr)]
              (arm_buf ctx))
           (\<lambda>buf. emit (0x58000000 OR TO_IMM19 imm19 OR regno)
              (ctx\<lparr>arm_buf := buf, arm_lits := arm_lits ctx + 1\<rparr>)))"

definition BR_BY_REG :: "u32 \<Rightarrow> arm64_context \<Rightarrow> arm64_context option" where
  "BR_BY_REG regno ctx = emit (0xD61F0000 OR TO_RN regno) ctx"

text \<open>Undefined behaviour of a write past the end of the trampoline.\<close>

definition no_overflow :: "'r option \<Rightarrow> 'r with_message" where
  "no_overflow r = (case r of None \<Rightarrow> crash | Some x \<Rightarrow> Inr x)"

definition with_regno :: "arm64_context \<Rightarrow> (u32 \<Rightarrow> 'r with_message) \<Rightarrow> 'r with_message" where
  "with_regno ctx k = (case to_regno (avail ctx) of Inl e \<Rightarrow> Inl e | Inr regno \<Rightarrow> k regno)"

text \<open>
  The load through the register that replaces a load from a label, for the value of the top
  eight bits of the instruction.
\<close>

definition literal_load :: "u32 \<Rightarrow> u32 option" where
  "literal_load ins =
     (let top = drop_bit 24 ins in
      if top = 0x18 then Some 0xB9400000
      else if top = 0x58 then Some 0xF9400000
      else if top = 0x98 then Some 0xB9800000
      else if top = 0x1C then Some 0xBD400000
      else if top = 0x5C then Some 0xFD400000
      else if top = 0x9C then Some 0x3DC00000
      else if top = 0xD8 then Some 0xF9800000
      else None)"

definition read_insn :: "(u64 \<Rightarrow> u8) \<Rightarrow> u64 \<Rightarrow> u32" where
  "read_insn m a = of_le_bytes (mem_read m a 4)"

definition insn_addr :: "u64 \<Rightarrow> nat \<Rightarrow> u64" where
  "insn_addr func i = func + of_nat (4 * i)"

text \<open>
  A conditional branch: \<open>skip\<close> is the branch with the inverted condition over the two
  instructions that jump to the target.
\<close>

definition branch_if :: "u32 option \<Rightarrow> u64 \<Rightarrow> arm64_context \<Rightarrow> arm64_context with_message" where
  "branch_if skip addr ctx =
     with_regno ctx (\<lambda>regno.
       no_overflow
         (Option.bind (case skip of None \<Rightarrow> Some ctx | Some w \<Rightarrow> emit w ctx)
            (\<lambda>ctx1. Option.bind (LDR_ADDR regno addr ctx1) (BR_BY_REG regno))))"

text \<open>The switch of the loop: one instruction of the function.\<close>

definition translate_arm64 ::
    "(u64 \<Rightarrow> u8) \<Rightarrow> u64 \<Rightarrow> funchook_arm64_insn_id \<Rightarrow> arm64_context \<Rightarrow> arm64_context with_message" where
  "translate_arm64 m func iid ctx =
     (let pc = insn_addr func (arm_src ctx); ins = read_insn m pc in
      case iid of
        ARM64_INSN_OTHER \<Rightarrow> no_overflow (emit ins ctx)
      | ARM64_INSN_ADR \<Rightarrow> no_overflow (LDR_ADDR (RD_REGNO ins) (pc + IMM_ADR_OFFSET ins) ctx)
      | ARM64_INSN_ADRP \<Rightarrow>
          no_overflow (LDR_ADDR (RD_REGNO ins)
            (ROUND_DOWN pc ARM64_PAGE_SIZE + push_bit 12 (IMM_ADR_OFFSET ins)) ctx)
      | ARM64_INSN_B_cond \<Rightarrow>
          branch_if
            (if ins AND 0x0F \<noteq> 0x0E
             then Some (IMM19_RESET (RESET_AT ins 0) OR TO_IMM19 3 OR INVERT_AT ins 0) else None)
            (pc + IMM19_OFFSET ins) ctx
      | ARM64_INSN_B \<Rightarrow> with_regno ctx (\<lambda>regno. no_overflow
            (Option.bind (LDR_ADDR regno (pc + IMM26_OFFSET ins) ctx)
              (emit (0xD61F0000 OR drop_bit 10 (ins AND 0x80000000) OR TO_RN regno))))
      | ARM64_INSN_BL \<Rightarrow> with_regno ctx (\<lambda>regno. no_overflow
            (Option.bind (LDR_ADDR regno (pc + IMM26_OFFSET ins) ctx)
              (emit (0xD61F0000 OR drop_bit 10 (ins AND 0x80000000) OR TO_RN regno))))
      | ARM64_INSN_CBNZ \<Rightarrow>
          branch_if (Some (IMM19_RESET (RESET_AT ins 24) OR INVERT_AT ins 24 OR TO_IMM19 3))
            (pc + IMM19_OFFSET ins) ctx
      | ARM64_INSN_CBZ \<Rightarrow>
          branch_if (Some (IMM19_RESET (RESET_AT ins 24) OR INVERT_AT ins 24 OR TO_IMM19 3))
            (pc + IMM19_OFFSET ins) ctx
      | ARM64_INSN_TBNZ \<Rightarrow>
          branch_if (Some (IMM14_RESET (RESET_AT ins 24) OR INVERT_AT ins 24 OR TO_IMM14 3))
            (pc + IMM14_OFFSET ins) ctx
      | ARM64_INSN_TBZ \<Rightarrow>
          branch_if (Some (IMM14_RESET (RESET_AT ins 24) OR INVERT_AT ins 24 OR TO_IMM14 3))
            (pc + IMM14_OFFSET ins) ctx
      | _ \<Rightarrow>
          if ins AND 0x20000000 \<noteq> 0 then no_overflow (emit ins ctx)
          else with_regno ctx (\<lambda>regno.
            case LDR_ADDR regno (pc + IMM19_OFFSET ins) ctx of
              None \<Rightarrow> crash
            | Some ctx1 \<Rightarrow>
                (case literal_load ins of
                   None \<Rightarrow> Inl (Err ERROR_INTERNAL_ERROR, ''Unknonw instruction: 0x'' @ fmt_08x (unat ins))
                 | Some opc \<Rightarrow> no_overflow (emit (opc OR TO_RN regno OR RT_REGNO ins) ctx1))))"

text \<open>
  The rest of a round: the next instruction, or the third one when the function starts with
  an unconditional branch followed by an undefined instruction.
\<close>

definition advance_arm64 :: "(u64 \<Rightarrow> u8) \<Rightarrow> u64 \<Rightarrow> arm64_context \<Rightarrow> arm64_context" where
  "advance_arm64 m func ctx =
     (if read_insn m func AND 0xFC000000 = 0x14000000 \<and>
         read_insn m (insn_addr func 1) AND 0xFFFF0000 = 0
      then ctx\<lparr>arm_src := 2\<rparr> else ctx\<lparr>arm_src := arm_src ctx + 1\<rparr>)"

text \<open>
  The end of the trampoline and the check for branches into the patched instructions.
  \<open>ctx.src\<close> is not advanced in that loop: the same word is looked at in every round.
\<close>

definition jumps_back_arm64 :: "(u64 \<Rightarrow> u8) \<Rightarrow> u64 \<Rightarrow> nat \<Rightarrow> funchook_insn_info \<Rightarrow> bool" where
  "jumps_back_arm64 m func k info =
     (let target = target_addr (insn_addr func k) (read_insn m (insn_addr func k)) (insn_id info)
      in func < target \<and> target < insn_addr func REL4G_JUMP_SIZE)"

definition finish_arm64 ::
    "(u64 \<Rightarrow> u8) \<Rightarrow> u64 \<Rightarrow> funchook_insn_info list \<Rightarrow> arm64_context \<Rightarrow> (arm64_context \<times> nat) with_message" where
  "finish_arm64 m func rest ctx =
     with_regno ctx (\<lambda>regno.
       case Option.bind (LDR_ADDR regno (insn_addr func (arm_src ctx)) ctx) (BR_BY_REG regno) of
         None \<Rightarrow> crash
       | Some ctx1 \<Rightarrow>
           if list_ex (jumps_back_arm64 m func (arm_src ctx)) rest then
             Inl (Err ERROR_FOUND_BACK_JUMP,
               ''instruction jumping back to the hot-patched region was found'')
           else Inr (ctx1, arm_dst ctx1))"

fun arm64_loop ::
    "(u64 \<Rightarrow> u8) \<Rightarrow> u64 \<Rightarrow> funchook_insn_info list \<Rightarrow> arm64_context \<Rightarrow>
      (arm64_context \<times> nat) with_message" where
  "arm64_loop m func [] ctx = Inr (ctx, 0)"
| "arm64_loop m func (info # rest) ctx =
     (case translate_arm64 m func (insn_id info) (ctx\<lparr>avail := avail ctx AND NOT (insn_regs info)\<rparr>) of
        Inl e \<Rightarrow> Inl e
      | Inr ctx1 \<Rightarrow>
          (let ctx2 = advance_arm64 m func ctx1 in
           if REL4G_JUMP_SIZE \<le> arm_src ctx2 then finish_arm64 m func rest ctx2
           else arm64_loop m func rest ctx2))"

definition initial_arm64 :: arm64_context where
  "initial_arm64 =
     \<lparr>arm_src = 0, arm_dst = 0, arm_lits = 0, avail = FUNCHOOK_ARM64_CORRUPTIBLE_REGS,
      arm_buf = replicate ARM64_TRAMPOLINE_SIZE 0\<rparr>"

text \<open>
  \<open>funchook_make_trampoline\<close>: \<open>disasm\<close> gives the classified instructions or its error.
  The displacements of ARM64 are empty.
\<close>

definition funchook_make_trampoline_arm64 ::
    "((u64 \<Rightarrow> u8) \<Rightarrow> u64 \<Rightarrow> nat \<Rightarrow> funchook_insn_info list with_message) \<Rightarrow>
      (u64 \<Rightarrow> u8) \<Rightarrow> u64 \<Rightarrow> (unit \<times> u32 list \<times> nat) with_message" where
  "funchook_make_trampoline_arm64 disasm m func =
     (case disasm m func ARM64_MAX_INSN_CHECK_SIZE of
        Inl e \<Rightarrow> Inl e
      | Inr infos \<Rightarrow>
          (case arm64_loop m func infos initial_arm64 of
             Inl e \<Rightarrow> Inl e
           | Inr (ctx, trampoline_size) \<Rightarrow>
               if arm_src ctx < REL4G_JUMP_SIZE then
                 Inl (Err ERROR_TOO_SHORT_INSTRUCTIONS, ''Too short instructions'')
               else Inr ((), arm_buf ctx, trampoline_size)))"

section \<open>The jumps of an entry\<close>

text \<open>\<open>imm\<close> is a signed difference of page addresses.\<close>

definition funchook_write_relative_4g_jump :: "u64 \<Rightarrow> u64 \<Rightarrow> u32 list \<Rightarrow> u32 list option" where
  "funchook_write_relative_4g_jump s d out =
     (let imm = sint (ROUND_DOWN d ARM64_PAGE_SIZE - ROUND_DOWN s ARM64_PAGE_SIZE);
          immlo = of_int (drop_bit 12 imm) AND 0x03;
          immhi = of_int (drop_bit 14 imm) AND 0x7FFFF
      in buf_write 0 [0x90000009 OR push_bit 29 immlo OR push_bit 5 immhi, 0xd61f0120] out)"

definition funchook_write_absolute_jump_arm64 :: "u32 list \<Rightarrow> u64 \<Rightarrow> u32 \<Rightarrow> u32 list option with_message" where
  "funchook_write_absolute_jump_arm64 s d avail_regs =
     (case to_regno avail_regs of
        Inl e \<Rightarrow> Inl e
      | Inr regno \<Rightarrow>
          Inr (buf_write 0 [0x58000040 OR regno, 0xd61f0120 OR TO_RN regno, ucast d, ucast (drop_bit 32 d)] s))"

definition funchook_write_jump_with_prehook_arm64 ::
    "u64 \<Rightarrow> (u64, u32) funchook_entry \<Rightarrow> (u64, u32) funchook_entry option" where
  "funchook_write_jump_with_prehook_arm64 hook_caller_asm entry =
     map_option (\<lambda>t. entry\<lparr>transit := t\<rparr>)
       (buf_write TRANSIT_HOOK_CALLER_ADDR_arm64 [ucast hook_caller_asm, ucast (drop_bit 32 hook_caller_asm)]
          TRANSIT_CODE_TEMPLATE_arm64)"

text \<open>
  The layout of an entry on ARM64: its transit code is at offset 0 and its trampoline at
  offset 72; a page holds one entry, at its start.
\<close>

definition insn_bytes :: "u32 list \<Rightarrow> u8 list" where
  "insn_bytes is = concat (map (le_bytes 4) is)"

definition entry_bytes_arm64 :: "(u64, u32) funchook_entry \<Rightarrow> u8 list" where
  "entry_bytes_arm64 e =
     insn_bytes (transit e) @
     le_bytes 8 (original_target_func e) @ le_bytes 8 (target_func e) @
     le_bytes 8 (hook_func e) @ le_bytes 8 (prehook e) @ le_bytes 8 (user_data e) @
     le_bytes 4 (eflags e) @ le_bytes 4 (patch_code_size e) @
     insn_bytes (trampoline e) @ insn_bytes (old_code e) @ insn_bytes (new_code e)"

text \<open>
  \<open>funchook_fix_code\<close>: \<open>ea\<close> is the address of the entry. The error of
  \<open>funchook_write_absolute_jump\<close> is not looked at; with register 9 given it cannot occur.
\<close>

definition funchook_fix_code_arm64 ::
    "u64 \<Rightarrow> u64 \<Rightarrow> (u64, u32) funchook_entry \<Rightarrow> unit \<Rightarrow> (u64, u32) funchook_entry option" where
  "funchook_fix_code_arm64 hook_caller_asm ea entry disp =
     (let hook = (if hook_func entry \<noteq> 0 then hook_func entry else ea + 72) in
      Option.bind (funchook_write_relative_4g_jump (target_func entry) ea (new_code entry))
        (\<lambda>code. let entry1 = entry\<lparr>new_code := code\<rparr> in
           if prehook entry \<noteq> 0 then funchook_write_jump_with_prehook_arm64 hook_caller_asm entry1
           else (case funchook_write_absolute_jump_arm64 (transit entry1) hook (FUNCHOOK_ARM64_REG 9) of
                   Inl e \<Rightarrow> Some entry1
                 | Inr t \<Rightarrow> map_option (\<lambda>t. entry1\<lparr>transit := t\<rparr>) t)))"

section \<open>Addresses of saved arguments\<close>

definition funchook_arg_get_int_reg_addr_arm64 :: "u64 \<Rightarrow> int \<Rightarrow> u64" where
  "funchook_arg_get_int_reg_addr_arm64 base pos = base + of_int (8 * (2 + pos))"

definition funchook_arg_get_flt_reg_addr_arm64 :: "u64 \<Rightarrow> int \<Rightarrow> u64" where
  "funchook_arg_get_flt_reg_addr_arm64 base pos = base + of_int (8 * ((2 + 10) + 2 * pos))"

definition funchook_arg_get_stack_addr_arm64 :: "u64 \<Rightarrow> int \<Rightarrow> u64" where
  "funchook_arg_get_stack_addr_arm64 base pos = base + of_int (8 * ((2 + 10 + 16) + pos))"

end
