(* ===== verification/Arch_ARM64_Exec.thy ===== *)
theory Arch_ARM64_Exec
  imports Arch_ARM64
begin

text \<open>
  The part of the A64 instruction set that trampolines and entries consist of, after the
  Arm architecture manual: decoding of the PC-relative instructions, of branches to
  registers and of loads through a register, and their effect. The generated words are
  decoded here, so that what they do can be compared with what the moved instruction did.
\<close>

section \<open>Decoding\<close>

datatype load_kind = Load_W | Load_X | Load_SW | Load_S | Load_D | Load_Q | Prefetch

datatype a64 =
    ADR nat u64
  | ADRP nat u64
  | B u64
  | BL u64
  | BR nat
  | BLR nat
  | B_cond nat u64
  | CB bool bool nat u64
  | TB bool nat nat u64
  | Load_lit load_kind nat u64
  | Load_imm load_kind nat nat nat

text \<open>A signed field of \<open>n\<close> bits at bit \<open>lo\<close>, and an unsigned field of five bits.\<close>

definition sfield :: "nat \<Rightarrow> nat \<Rightarrow> u32 \<Rightarrow> u64" where
  "sfield n lo ins = of_int (signed_take_bit (n - 1) (uint (drop_bit lo ins)))"

definition reg_at :: "nat \<Rightarrow> u32 \<Rightarrow> nat" where
  "reg_at lo ins = unat (drop_bit lo ins AND 31)"

definition adr_imm :: "u32 \<Rightarrow> u64" where
  "adr_imm ins = push_bit 2 (sfield 19 5 ins) + ucast (drop_bit 29 ins AND 3)"

definition load_lit_kind :: "u32 \<Rightarrow> load_kind option" where
  "load_lit_kind ins =
     (let opc = drop_bit 30 ins in
      if ins AND 0x04000000 = 0 then
        Some (if opc = 0 then Load_W else if opc = 1 then Load_X else if opc = 2 then Load_SW else Prefetch)
      else if opc = 0 then Some Load_S
      else if opc = 1 then Some Load_D
      else if opc = 2 then Some Load_Q
      else None)"

definition load_imm_kind :: "u32 \<Rightarrow> (load_kind \<times> nat) option" where
  "load_imm_kind ins =
     (let top = drop_bit 22 ins in
      if top = 0x2E5 then Some (Load_W, 4)
      else if top = 0x3E5 then Some (Load_X, 8)
      else if top = 0x2E6 then Some (Load_SW, 4)
      else if top = 0x2F5 then Some (Load_S, 4)
      else if top = 0x3F5 then Some (Load_D, 8)
      else if top = 0x0F7 then Some (Load_Q, 16)
      else if top = 0x3E6 then Some (Prefetch, 8)
      else None)"

definition decode :: "u32 \<Rightarrow> a64 option" where
  "decode ins =
     (if ins AND 0x9F000000 = 0x10000000 then Some (ADR (reg_at 0 ins) (adr_imm ins))
      else if ins AND 0x9F000000 = 0x90000000 then Some (ADRP (reg_at 0 ins) (push_bit 12 (adr_imm ins)))
      else if ins AND 0xFC000000 = 0x14000000 then Some (B (push_bit 2 (sfield 26 0 ins)))
      else if ins AND 0xFC000000 = 0x94000000 then Some (BL (push_bit 2 (sfield 26 0 ins)))
      else if ins AND 0xFFFFFC1F = 0xD61F0000 then Some (BR (reg_at 5 ins))
      else if ins AND 0xFFFFFC1F = 0xD63F0000 then Some (BLR (reg_at 5 ins))
      else if ins AND 0xFF000010 = 0x54000000 then
        Some (B_cond (unat (ins AND 15)) (push_bit 2 (sfield 19 5 ins)))
      else if ins AND 0x7E000000 = 0x34000000 then
        Some (CB (bit ins 31) (bit ins 24) (reg_at 0 ins) (push_bit 2 (sfield 19 5 ins)))
      else if ins AND 0x7E000000 = 0x36000000 then
        Some (TB (bit ins 24) (unat (drop_bit 26 (ins AND 0x80000000) OR (drop_bit 19 ins AND 31)))
          (reg_at 0 ins) (push_bit 2 (sfield 14 5 ins)))
      else if ins AND 0x3B000000 = 0x18000000 then
        map_option (\<lambda>k. Load_lit k (reg_at 0 ins) (push_bit 2 (sfield 19 5 ins))) (load_lit_kind ins)
      else
        map_option (\<lambda>(k, scale). Load_imm k (reg_at 0 ins) (reg_at 5 ins)
            (scale * unat (drop_bit 10 ins AND 0xFFF))) (load_imm_kind ins))"

section \<open>Effect\<close>

text \<open>
  General registers (register 31 reads as zero and is not written by the instructions
  considered), vector registers and the condition flags N, Z, C, V.
\<close>

record arm_state =
  pc :: u64
  xr :: "nat \<Rightarrow> u64"
  vr :: "nat \<Rightarrow> 128 word"
  nzcv :: "bool \<times> bool \<times> bool \<times> bool"

definition get_x :: "arm_state \<Rightarrow> nat \<Rightarrow> u64" where
  "get_x s r = (if r = 31 then 0 else xr s r)"

definition set_x :: "nat \<Rightarrow> u64 \<Rightarrow> arm_state \<Rightarrow> arm_state" where
  "set_x r v s = (if r = 31 then s else s\<lparr>xr := (xr s)(r := v)\<rparr>)"

fun cond_base :: "nat \<Rightarrow> bool \<times> bool \<times> bool \<times> bool \<Rightarrow> bool" where
  "cond_base k (n, z, c, v) =
     (if k = 0 then z else if k = 1 then c else if k = 2 then n else if k = 3 then v
      else if k = 4 then c \<and> \<not> z else if k = 5 then n = v else if k = 6 then n = v \<and> \<not> z else True)"

definition cond_holds :: "nat \<Rightarrow> bool \<times> bool \<times> bool \<times> bool \<Rightarrow> bool" where
  "cond_holds c f = (if odd c \<and> c \<noteq> 15 then \<not> cond_base (c div 2) f else cond_base (c div 2) f)"

definition load :: "(u64 \<Rightarrow> u8) \<Rightarrow> load_kind \<Rightarrow> nat \<Rightarrow> u64 \<Rightarrow> arm_state \<Rightarrow> arm_state" where
  "load m k rt a s =
     (case k of
        Load_W \<Rightarrow> set_x rt (of_le_bytes (mem_read m a 4)) s
      | Load_X \<Rightarrow> set_x rt (of_le_bytes (mem_read m a 8)) s
      | Load_SW \<Rightarrow> set_x rt (of_int (sint (of_le_bytes (mem_read m a 4) :: u32))) s
      | Load_S \<Rightarrow> s\<lparr>vr := (vr s)(rt := of_le_bytes (mem_read m a 4))\<rparr>
      | Load_D \<Rightarrow> s\<lparr>vr := (vr s)(rt := of_le_bytes (mem_read m a 8))\<rparr>
      | Load_Q \<Rightarrow> s\<lparr>vr := (vr s)(rt := of_le_bytes (mem_read m a 16))\<rparr>
      | Prefetch \<Rightarrow> s)"

text \<open>The address branched to, if any, and the state with the registers written.\<close>

definition effect :: "(u64 \<Rightarrow> u8) \<Rightarrow> a64 \<Rightarrow> arm_state \<Rightarrow> u64 option \<times> arm_state" where
  "effect m i s =
     (case i of
        ADR rd off \<Rightarrow> (None, set_x rd (pc s + off) s)
      | ADRP rd off \<Rightarrow> (None, set_x rd ((pc s AND NOT 0xFFF) + off) s)
      | B off \<Rightarrow> (Some (pc s + off), s)
      | BL off \<Rightarrow> (Some (pc s + off), set_x 30 (pc s + 4) s)
      | BR rn \<Rightarrow> (Some (get_x s rn), s)
      | BLR rn \<Rightarrow> (Some (get_x s rn), set_x 30 (pc s + 4) s)
      | B_cond c off \<Rightarrow> (if cond_holds c (nzcv s) then Some (pc s + off) else None, s)
      | CB sf nonzero rt off \<Rightarrow>
          (let v = (if sf then get_x s rt else get_x s rt AND 0xFFFFFFFF)
           in (if (v \<noteq> 0) = nonzero then Some (pc s + off) else None, s))
      | TB nonzero b rt off \<Rightarrow> (if bit (get_x s rt) b = nonzero then Some (pc s + off) else None, s)
      | Load_lit k rt off \<Rightarrow> (None, load m k rt (pc s + off) s)
      | Load_imm k rt rn off \<Rightarrow> (None, load m k rt (get_x s rn + of_nat off) s))"

definition arm_step :: "(u64 \<Rightarrow> u8) \<Rightarrow> arm_state \<Rightarrow> arm_state option" where
  "arm_step m s =
     map_option
       (\<lambda>i. case effect m i s of
              (None, s') \<Rightarrow> s'\<lparr>pc := pc s + 4\<rparr>
            | (Some a, s') \<Rightarrow> s'\<lparr>pc := a\<rparr>)
       (decode (read_insn m (pc s)))"

primrec arm_run :: "nat \<Rightarrow> (u64 \<Rightarrow> u8) \<Rightarrow> arm_state \<Rightarrow> arm_state option" where
  "arm_run 0 m s = Some s"
| "arm_run (Suc n) m s = Option.bind (arm_step m s) (arm_run n m)"

section \<open>Bits of instruction words\<close>

text \<open>An equation between 32-bit words holds when their bits agree one by one.\<close>

definition bit_positions :: "nat list" where
  "bit_positions = [0,1,2,3,4,5,6,7,8,9,10,11,12,13,14,15,16,17,18,19,20,21,22,23,24,25,26,27,28,29,30,31]"

lemma bit_positions: "set bit_positions = {..<32}"
  by code_simp

lemma u32_eq_iff: "a = b \<longleftrightarrow> list_all (\<lambda>n. bit a n \<longleftrightarrow> bit b n) bit_positions" for a b :: u32
  by (auto simp: list_all_iff bit_positions intro: bit_word_eqI)

lemmas u32_bits = u32_eq_iff [unfolded bit_positions_def list.pred_inject]

lemmas a64_fields = IMM19_RESET_def IMM19_MASK_def IMM14_RESET_def IMM14_MASK_def RESET_AT_def
  TO_IMM19_def TO_IMM14_def TO_RN_def INVERT_AT_def RT_REGNO_def RD_REGNO_def

text \<open>The words that \<open>LDR_ADDR\<close>, \<open>BR_BY_REG\<close> and the translation of branches emit.\<close>

text \<open>A field is given by its bits.\<close>

lemma sfield_cong:
  assumes "drop_bit lo w AND mask n = drop_bit lo' w' AND mask n" and "0 < n"
  shows "sfield n lo w = sfield n lo' w'"
proof -
  have "take_bit n (uint (drop_bit lo w)) = take_bit n (uint (drop_bit lo' w'))"
    using assms(1) by (simp flip: take_bit_eq_mask unsigned_take_bit_eq)
  then have "signed_take_bit (n - 1) (uint (drop_bit lo w)) = signed_take_bit (n - 1) (uint (drop_bit lo' w'))"
    using assms(2) by (simp add: signed_take_bit_eq_iff_take_bit_eq)
  then show ?thesis by (simp add: sfield_def)
qed

lemma skip_offset: "push_bit 2 (sfield 19 0 3) = 12" "push_bit 2 (sfield 14 0 3) = 12"
  by code_simp+

lemma u32_no_bit: "32 \<le> n \<Longrightarrow> \<not> bit (w :: u32) n"
  by (auto dest: bit_imp_le_length)

lemmas u32_simps = u32_bits u32_no_bit bit_simps a64_fields

lemma regno_bits: "r < 32 \<Longrightarrow> of_nat r AND 0xFFFFFFE0 = (0 :: u32)"
proof -
  have "list_all (\<lambda>r. of_nat r AND 0xFFFFFFE0 = (0 :: u32)) [0..<32]" by code_simp
  then show "r < 32 \<Longrightarrow> ?thesis" by (simp add: list_all_iff)
qed

lemma reg_at_regno: "drop_bit lo w AND 31 = of_nat r \<Longrightarrow> r < 32 \<Longrightarrow> reg_at lo w = r"
  by (simp add: reg_at_def unat_of_nat)

lemma decode_ldr_literal:
  assumes "1 \<le> imm" and "imm \<le> 12" and "r < 32"
  shows "decode (0x58000000 OR TO_IMM19 (of_int imm) OR of_nat r) = Some (Load_lit Load_X r (of_int (4 * imm)))"
    (is "decode ?w = _")
proof -
  have "list_all (\<lambda>imm. of_int imm AND 0xFFFFFFF0 = (0 :: u32) \<and>
      push_bit 2 (sfield 19 0 (of_int imm)) = of_int (4 * imm)) [1..12]"
    by code_simp
  then have imm: "of_int imm AND 0xFFFFFFF0 = (0 :: u32)" "push_bit 2 (sfield 19 0 (of_int imm)) = of_int (4 * imm)"
    using assms(1,2) by (auto simp: list_all_iff)
  have r: "of_nat r AND 0xFFFFFFE0 = (0 :: u32)"
    by (rule regno_bits [OF assms(3)])
  define iw where "iw = (of_int imm :: u32)"
  define rw where "rw = (of_nat r :: u32)"
  have w: "?w = 0x58000000 OR TO_IMM19 iw OR rw"
    by (simp add: iw_def rw_def)
  note b = imm(1) [folded iw_def] r [folded rw_def]
  have "sfield 19 5 ?w = sfield 19 0 (of_int imm)"
    by (rule sfield_cong) (use b in \<open>simp_all add: u32_simps flip: iw_def rw_def\<close>)
  moreover have "drop_bit 0 ?w AND 31 = of_nat r"
    using b by (simp add: u32_simps flip: iw_def rw_def)
  moreover have "?w AND 0x3B000000 = 0x18000000" "drop_bit 30 ?w = 1" "?w AND 0x04000000 = 0"
    "?w AND 0x9F000000 \<noteq> 0x10000000"
    "?w AND 0xFC000000 \<noteq> 0x14000000" "?w AND 0x9F000000 \<noteq> 0x90000000" "?w AND 0xFC000000 \<noteq> 0x94000000"
    "?w AND 0xFFFFFC1F \<noteq> 0xD61F0000" "?w AND 0xFFFFFC1F \<noteq> 0xD63F0000" "?w AND 0xFF000010 \<noteq> 0x54000000"
    "?w AND 0x7E000000 \<noteq> 0x34000000" "?w AND 0x7E000000 \<noteq> 0x36000000"
    using b by (simp_all add: u32_simps flip: iw_def rw_def)
  ultimately show ?thesis
    using imm(2) assms(3) by (simp add: decode_def load_lit_kind_def reg_at_regno)
qed

lemma decode_branch_reg:
  "r < 32 \<Longrightarrow> decode (0xD61F0000 OR TO_RN (of_nat r)) = Some (BR r)"
  "r < 32 \<Longrightarrow> decode (0xD63F0000 OR TO_RN (of_nat r)) = Some (BLR r)"
proof -
  have "list_all (\<lambda>r. decode (0xD61F0000 OR TO_RN (of_nat r)) = Some (BR r)) [0..<32]"
    by code_simp
  then show "r < 32 \<Longrightarrow> decode (0xD61F0000 OR TO_RN (of_nat r)) = Some (BR r)"
    by (simp add: list_all_iff)
  have "list_all (\<lambda>r. decode (0xD63F0000 OR TO_RN (of_nat r)) = Some (BLR r)) [0..<32]"
    by code_simp
  then show "r < 32 \<Longrightarrow> decode (0xD63F0000 OR TO_RN (of_nat r)) = Some (BLR r)"
    by (simp add: list_all_iff)
qed

lemma decode_B_cond_skip:
  assumes "ins AND 0xFF000010 = (0x54000000 :: u32)"
  shows "decode (IMM19_RESET (RESET_AT ins 0) OR TO_IMM19 3 OR INVERT_AT ins 0) =
     Some (B_cond (unat ((ins AND 15) XOR 1)) 12)" (is "decode ?w = _")
proof -
  have "sfield 19 5 ?w = sfield 19 0 3"
    by (rule sfield_cong) (simp_all add: u32_simps)
  moreover have "?w AND 15 = (ins AND 15) XOR 1"
    by (simp add: u32_simps)
  moreover have "?w AND 0xFF000010 = 0x54000000" "?w AND 0x9F000000 \<noteq> 0x10000000"
    "?w AND 0xFC000000 \<noteq> 0x14000000" "?w AND 0x9F000000 \<noteq> 0x90000000" "?w AND 0xFC000000 \<noteq> 0x94000000"
    "?w AND 0xFFFFFC1F \<noteq> 0xD61F0000" "?w AND 0xFFFFFC1F \<noteq> 0xD63F0000"
    using assms by (simp_all add: u32_simps)
  ultimately show ?thesis by (simp add: decode_def skip_offset)
qed

lemma decode_CB_skip:
  assumes "ins AND 0x7E000000 = (0x34000000 :: u32)"
  shows "decode (IMM19_RESET (RESET_AT ins 24) OR INVERT_AT ins 24 OR TO_IMM19 3) =
     Some (CB (bit ins 31) (\<not> bit ins 24) (reg_at 0 ins) 12)" (is "decode ?w = _")
proof -
  have "sfield 19 5 ?w = sfield 19 0 3"
    by (rule sfield_cong) (simp_all add: u32_simps)
  moreover have "drop_bit 0 ?w AND 31 = drop_bit 0 ins AND 31"
    by (simp add: u32_simps)
  moreover have "bit ?w 31 = bit ins 31" "bit ?w 24 = (\<not> bit ins 24)"
    by (simp_all add: bit_simps a64_fields)
  moreover have "?w AND 0x7E000000 = 0x34000000" "?w AND 0x9F000000 \<noteq> 0x10000000" "?w AND 0xFC000000 \<noteq> 0x14000000"
    "?w AND 0x9F000000 \<noteq> 0x90000000" "?w AND 0xFC000000 \<noteq> 0x94000000"
    "?w AND 0xFFFFFC1F \<noteq> 0xD61F0000" "?w AND 0xFFFFFC1F \<noteq> 0xD63F0000" "?w AND 0xFF000010 \<noteq> 0x54000000"
    using assms by (simp_all add: u32_simps)
  ultimately show ?thesis by (simp add: decode_def reg_at_def skip_offset)
qed

lemma decode_TB_skip:
  assumes "ins AND 0x7E000000 = (0x36000000 :: u32)"
  shows "decode (IMM14_RESET (RESET_AT ins 24) OR INVERT_AT ins 24 OR TO_IMM14 3) =
     Some (TB (\<not> bit ins 24) (unat (drop_bit 26 (ins AND 0x80000000) OR (drop_bit 19 ins AND 31)))
       (reg_at 0 ins) 12)" (is "decode ?w = _")
proof -
  have "sfield 14 5 ?w = sfield 14 0 3"
    by (rule sfield_cong) (simp_all add: u32_simps)
  moreover have "drop_bit 0 ?w AND 31 = drop_bit 0 ins AND 31"
    "drop_bit 26 (?w AND 0x80000000) = drop_bit 26 (ins AND 0x80000000)"
    "drop_bit 19 ?w AND 31 = drop_bit 19 ins AND 31"
    by (simp_all add: u32_simps)
  moreover have "bit ?w 24 = (\<not> bit ins 24)"
    by (simp add: bit_simps a64_fields)
  moreover have "?w AND 0x7E000000 = 0x36000000" "?w AND 0x9F000000 \<noteq> 0x10000000" "?w AND 0xFC000000 \<noteq> 0x14000000"
    "?w AND 0x9F000000 \<noteq> 0x90000000" "?w AND 0xFC000000 \<noteq> 0x94000000"
    "?w AND 0xFFFFFC1F \<noteq> 0xD61F0000" "?w AND 0xFFFFFC1F \<noteq> 0xD63F0000" "?w AND 0xFF000010 \<noteq> 0x54000000"
    using assms by (simp_all add: u32_simps)
  ultimately show ?thesis by (simp add: decode_def reg_at_def skip_offset)
qed

text \<open>Loads through a register differ from all other instructions in three bits.\<close>

lemma decode_load_class:
  assumes "bit w 29" and "bit w 28" and "bit w 27"
  shows "decode w = map_option (\<lambda>(k, scale). Load_imm k (reg_at 0 w) (reg_at 5 w)
     (scale * unat (drop_bit 10 w AND 0xFFF))) (load_imm_kind w)"
proof -
  have "w AND 0x9F000000 \<noteq> 0x10000000" "w AND 0xFC000000 \<noteq> 0x14000000" "w AND 0x9F000000 \<noteq> 0x90000000"
    "w AND 0xFC000000 \<noteq> 0x94000000" "w AND 0xFFFFFC1F \<noteq> 0xD61F0000" "w AND 0xFFFFFC1F \<noteq> 0xD63F0000"
    "w AND 0xFF000010 \<noteq> 0x54000000" "w AND 0x7E000000 \<noteq> 0x34000000" "w AND 0x7E000000 \<noteq> 0x36000000"
    "w AND 0x3B000000 \<noteq> 0x18000000"
    using assms by (simp_all add: u32_simps)
  then show ?thesis by (simp add: decode_def)
qed

lemma load_kinds:
  assumes "literal_load ins = Some opc"
  shows "\<exists>k s. load_lit_kind ins = Some k \<and> load_imm_kind opc = Some (k, s) \<and>
    bit opc 29 \<and> bit opc 28 \<and> bit opc 27 \<and> opc AND 0x3FFFFF = 0"
proof -
  obtain top where top: "drop_bit 24 ins = top" by blast
  have "drop_bit 30 ins = drop_bit 6 top" and "(ins AND 0x04000000 = 0) = (top AND 4 = 0)"
    by (simp add: drop_bit_drop_bit flip: top) (simp add: u32_simps flip: top)
  then show ?thesis
    using assms by (auto simp: literal_load_def load_lit_kind_def load_imm_kind_def Let_def top split: if_splits)
qed

text \<open>A load from a label has the same kind and target register as the load that replaces it.\<close>

lemma decode_load_imm:
  assumes "literal_load ins = Some opc" and "r < 32"
  obtains k where "load_lit_kind ins = Some k"
    and "decode (opc OR TO_RN (of_nat r) OR RT_REGNO ins) = Some (Load_imm k (reg_at 0 ins) r 0)"
proof -
  obtain k s where k: "load_lit_kind ins = Some k" "load_imm_kind opc = Some (k, s)"
    and opc: "bit opc 29" "bit opc 28" "bit opc 27" "opc AND 0x3FFFFF = 0"
    using load_kinds [OF assms(1)] by blast
  define rw where "rw = (of_nat r :: u32)"
  let ?w = "opc OR TO_RN (of_nat r) OR RT_REGNO ins"
  have rw: "rw AND 0xFFFFFFE0 = 0"
    by (simp add: rw_def regno_bits [OF assms(2)])
  have "drop_bit 22 ?w = drop_bit 22 opc" "drop_bit 5 ?w AND 31 = of_nat r"
    "drop_bit 0 ?w AND 31 = drop_bit 0 ins AND 31" "drop_bit 10 ?w AND 0xFFF = 0"
    using rw opc(4) by (simp_all add: u32_simps flip: rw_def)
  moreover have "bit ?w 29" "bit ?w 28" "bit ?w 27"
    using opc by (simp_all add: bit_simps)
  ultimately have "decode ?w = Some (Load_imm k (reg_at 0 ins) r 0)"
    using k(2) assms(2) by (simp add: decode_load_class load_imm_kind_def reg_at_regno) (simp add: reg_at_def)
  with k(1) show ?thesis by (rule that)
qed

end
