(* ===== verification/Arch_ARM64_Trampoline.thy ===== *)
theory Arch_ARM64_Trampoline
  imports Arch_ARM64_Exec
begin

text \<open>
  The fields of ARM64 instructions as the macros of src/src/arch_arm64.c read and write them,
  against the decoder of \<open>Arch_ARM64_Exec\<close>: the offsets are those of the architecture, and the
  words the builder emits decode to the instructions it means.
\<close>

section \<open>The offsets of the code are those of the architecture\<close>

lemma bit_signed_field:
  "bit (signed_field l r ins) n \<longleftrightarrow> n < 64 \<and> l \<le> min 31 (r + n) \<and> bit ins (min 31 (r + n) - l)"
  by (auto simp: signed_field_def bit_simps)

lemma bit_sfield:
  "0 < n \<Longrightarrow> bit (sfield n lo ins) k \<longleftrightarrow> k < 64 \<and> bit ins (lo + min k (n - 1))"
  by (auto simp: sfield_def bit_simps min_def)

lemma bit_three: "bit (3 :: int) k \<longleftrightarrow> k < 2"
  using bit_mask_iff [where 'a = int, of 2 k] by (simp add: mask_eq_exp_minus_1)

lemma signed_field_sfield:
  assumes "l + lo + n = 32" and "r + 2 = l + lo" and "0 < n" and "2 \<le> k"
  shows "bit (signed_field l r ins) k \<longleftrightarrow> bit (push_bit 2 (sfield n lo ins)) k"
proof -
  have "min 31 (r + k) - l = lo + min (k - 2) (n - 1)" and "l \<le> min 31 (r + k)"
    using assms by (simp_all add: min_def) arith+
  then show ?thesis
    using assms(3,4) by (auto simp: bit_signed_field bit_sfield bit_simps)
qed

lemma signed_field_low:
  assumes "l + lo + n = 32" and "r + 2 = l + lo" and "0 < n"
  shows "signed_field l r ins AND NOT 3 = push_bit 2 (sfield n lo ins)"
proof (rule bit_word_eqI)
  fix k assume "k < LENGTH(64)"
  show "bit (signed_field l r ins AND NOT 3) k = bit (push_bit 2 (sfield n lo ins)) k"
    using signed_field_sfield [OF assms, of k ins] by (cases "2 \<le> k") (auto simp: bit_simps bit_three)
qed

lemma IMM19_sfield: "IMM19_OFFSET ins = push_bit 2 (sfield 19 5 ins)"
  unfolding IMM19_OFFSET_def by (rule signed_field_low) simp_all

lemma IMM14_sfield: "IMM14_OFFSET ins = push_bit 2 (sfield 14 5 ins)"
  unfolding IMM14_OFFSET_def by (rule signed_field_low) simp_all

lemma IMM26_sfield: "IMM26_OFFSET ins = push_bit 2 (sfield 26 0 ins)"
proof (rule bit_word_eqI)
  fix k assume "k < LENGTH(64)"
  show "bit (IMM26_OFFSET ins) k = bit (push_bit 2 (sfield 26 0 ins)) k"
  proof (cases "2 \<le> k")
    case True
    then show ?thesis
      unfolding IMM26_OFFSET_def by (intro signed_field_sfield) simp_all
  next
    case False
    then show ?thesis by (auto simp: IMM26_OFFSET_def bit_signed_field bit_simps)
  qed
qed

lemma IMM_ADR_imm: "IMM_ADR_OFFSET ins = adr_imm ins"
proof -
  have "push_bit 2 (sfield 19 5 ins) AND ucast (drop_bit 29 ins AND 3) = (0 :: u64)"
  proof (rule bit_word_eqI)
    fix k assume "k < LENGTH(64)"
    show "bit (push_bit 2 (sfield 19 5 ins) AND ucast (drop_bit 29 ins AND 3)) k = bit (0 :: u64) k"
      by (auto simp: bit_simps bit_three)
  qed
  then show ?thesis
    by (simp add: IMM_ADR_OFFSET_def adr_imm_def IMM19_sfield disjunctive_add_eq_or)
qed

lemmas arm64_offsets = IMM26_sfield IMM19_sfield IMM14_sfield IMM_ADR_imm

text \<open>\<open>ROUND_DOWN\<close> clears the twelve bits that ADRP clears.\<close>

lemma page_of_address: "ROUND_DOWN a ARM64_PAGE_SIZE = a AND NOT 0xFFF"
  by (simp add: ROUND_DOWN_def ARM64_PAGE_SIZE_def)

section \<open>Words placed into the trampoline\<close>

text \<open>
  The code area has eight words and the pool three literals of two words.
  \<open>extended ctx ws ls ctx1\<close>: the words \<open>ws\<close> were added to the code and the literals
  \<open>ls\<close> to the pool, and everything before is unchanged.
\<close>

definition pool_lit :: "u32 list \<Rightarrow> nat \<Rightarrow> u32 \<times> u32" where
  "pool_lit buf l = (buf ! (8 + 2 * l), buf ! (9 + 2 * l))"

definition halves :: "u64 \<Rightarrow> u32 \<times> u32" where
  "halves a = (ucast a, ucast (drop_bit 32 a))"

definition extended :: "arm64_context \<Rightarrow> u32 list \<Rightarrow> u64 list \<Rightarrow> arm64_context \<Rightarrow> bool" where
  "extended ctx ws ls ctx1 \<longleftrightarrow>
     arm_src ctx1 = arm_src ctx \<and> avail ctx1 = avail ctx \<and>
     arm_dst ctx1 = arm_dst ctx + length ws \<and> arm_lits ctx1 = arm_lits ctx + length ls \<and>
     length (arm_buf ctx1) = length (arm_buf ctx) \<and>
     (\<forall>k < arm_dst ctx. arm_buf ctx1 ! k = arm_buf ctx ! k) \<and>
     (\<forall>k < length ws. arm_buf ctx1 ! (arm_dst ctx + k) = ws ! k) \<and>
     (\<forall>l < arm_lits ctx. pool_lit (arm_buf ctx1) l = pool_lit (arm_buf ctx) l) \<and>
     (\<forall>k < length ls. pool_lit (arm_buf ctx1) (arm_lits ctx + k) = halves (ls ! k))"

text \<open>The words and literals of a later trampoline that this one holds already.\<close>

definition agrees :: "arm64_context \<Rightarrow> u32 list \<Rightarrow> bool" where
  "agrees ctx buf \<longleftrightarrow> length buf = 14 \<and> (\<forall>k < arm_dst ctx. buf ! k = arm_buf ctx ! k) \<and>
     (\<forall>l < arm_lits ctx. pool_lit buf l = pool_lit (arm_buf ctx) l)"

lemma extended_agrees:
  assumes "extended ctx ws ls ctx1" and "agrees ctx1 buf"
  shows "agrees ctx buf" and "k < length ws \<Longrightarrow> buf ! (arm_dst ctx + k) = ws ! k"
    and "k < length ls \<Longrightarrow> pool_lit buf (arm_lits ctx + k) = halves (ls ! k)"
  using assms by (auto simp: extended_def agrees_def)

lemma extended_trans:
  assumes "extended ctx ws ls ctx1" and "extended ctx1 ws' ls' ctx2"
  shows "extended ctx (ws @ ws') (ls @ ls') ctx2"
  unfolding extended_def
proof (intro conjI allI impI)
  fix k
  assume "k < length (ws @ ws')"
  then show "arm_buf ctx2 ! (arm_dst ctx + k) = (ws @ ws') ! k"
    using assms by (cases "k < length ws") (auto simp: extended_def nth_append not_less le_iff_add add.assoc)
next
  fix k
  assume "k < length (ls @ ls')"
  then show "pool_lit (arm_buf ctx2) (arm_lits ctx + k) = halves ((ls @ ls') ! k)"
    using assms by (cases "k < length ls") (auto simp: extended_def nth_append not_less le_iff_add add.assoc)
qed (use assms in \<open>auto simp: extended_def\<close>)

lemma buf_write_one: "i < length buf \<Longrightarrow> buf_write i [w] buf = Some (buf[i := w])"
  by (simp add: buf_write_def upd_conv_take_nth_drop)

lemma buf_write_two:
  assumes "Suc i < length buf"
  shows "buf_write i [v, w] buf = Some (buf[i := v, Suc i := w])"
proof -
  have "buf = take i buf @ buf ! i # buf ! Suc i # drop (Suc (Suc i)) buf"
    using assms by (simp add: id_take_nth_drop Cons_nth_drop_Suc)
  then obtain xs a b ys where buf: "buf = xs @ a # b # ys" and i: "i = length xs"
    using assms by (metis Suc_lessD length_take min.absorb4)
  show ?thesis by (simp add: buf i buf_write_def list_update_append)
qed

lemma emit_extended:
  assumes "length (arm_buf ctx) = 14" and "arm_dst ctx < 8"
  shows "\<exists>ctx1. emit w ctx = Some ctx1 \<and> extended ctx [w] [] ctx1"
  using assms by (simp add: emit_def buf_write_one extended_def pool_lit_def)

text \<open>The word that loads the literal \<open>l\<close> of the pool at position \<open>d\<close>.\<close>

definition ldr_word :: "nat \<Rightarrow> nat \<Rightarrow> u32 \<Rightarrow> u32" where
  "ldr_word d l r = 0x58000000 OR TO_IMM19 (of_int (int (8 + 2 * l) - int d)) OR r"

lemma LDR_ADDR_extended:
  assumes "length (arm_buf ctx) = 14" and "arm_dst ctx < 8" and "arm_lits ctx < 3"
  shows "\<exists>ctx1. LDR_ADDR r addr ctx = Some ctx1 \<and>
    extended ctx [ldr_word (arm_dst ctx) (arm_lits ctx) r] [addr] ctx1"
proof -
  have "drop_bit 2 (int (4 * (8 + 2 * arm_lits ctx)) - int (4 * arm_dst ctx)) =
      int (8 + 2 * arm_lits ctx) - int (arm_dst ctx)"
    by (simp add: drop_bit_eq_div)
  then show ?thesis
    using assms
    by (auto simp: LDR_ADDR_def emit_def buf_write_one buf_write_two extended_def ldr_word_def arm64_sizes
        nth_list_update Let_def pool_lit_def halves_def)
qed

text \<open>Room for the words and the literal of one instruction.\<close>

definition room :: "arm64_context \<Rightarrow> nat \<Rightarrow> bool" where
  "room ctx n \<longleftrightarrow> length (arm_buf ctx) = 14 \<and> arm_dst ctx + n \<le> 8 \<and> arm_lits ctx < 3"

lemma emit_room: "room ctx 1 \<Longrightarrow> \<exists>ctx1. emit w ctx = Some ctx1 \<and> extended ctx [w] [] ctx1"
  by (rule emit_extended) (simp_all add: room_def)

lemma LDR_ADDR_room:
  "room ctx 1 \<Longrightarrow> \<exists>ctx1. LDR_ADDR r a ctx = Some ctx1 \<and> extended ctx [ldr_word (arm_dst ctx) (arm_lits ctx) r] [a] ctx1"
  by (rule LDR_ADDR_extended) (simp_all add: room_def)

lemma ldr_emit_room:
  assumes "room ctx 2"
  shows "\<exists>ctx1. Option.bind (LDR_ADDR r a ctx) (emit w) = Some ctx1 \<and>
    extended ctx [ldr_word (arm_dst ctx) (arm_lits ctx) r, w] [a] ctx1"
proof -
  obtain c where c: "LDR_ADDR r a ctx = Some c" "extended ctx [ldr_word (arm_dst ctx) (arm_lits ctx) r] [a] c"
    using LDR_ADDR_room [of ctx r a] assms by (auto simp: room_def)
  moreover obtain d where "emit w c = Some d" "extended c [w] [] d"
    using emit_extended [of c w] c(2) assms by (auto simp: room_def extended_def)
  ultimately show ?thesis
    using extended_trans [OF c(2)] by fastforce
qed

lemma skip_ldr_emit_room:
  assumes "room ctx 3"
  shows "\<exists>ctx1. Option.bind (emit v ctx) (\<lambda>c. Option.bind (LDR_ADDR r a c) (emit w)) = Some ctx1 \<and>
    extended ctx [v, ldr_word (Suc (arm_dst ctx)) (arm_lits ctx) r, w] [a] ctx1"
proof -
  obtain c where c: "emit v ctx = Some c" "extended ctx [v] [] c"
    using emit_room [of ctx v] assms by (auto simp: room_def)
  moreover have "room c 2" and "arm_dst c = Suc (arm_dst ctx)" "arm_lits c = arm_lits ctx"
    using c(2) assms by (auto simp: room_def extended_def)
  moreover then obtain d where "Option.bind (LDR_ADDR r a c) (emit w) = Some d"
    "extended c [ldr_word (Suc (arm_dst ctx)) (arm_lits ctx) r, w] [a] d"
    using ldr_emit_room [of c r a w] by auto
  ultimately show ?thesis
    using extended_trans [OF c(2)] by fastforce
qed

text \<open>The register chosen is one of x9 to x15 and still free.\<close>

lemma bit_regno_test: "a AND FUNCHOOK_ARM64_REG n \<noteq> 0 \<longleftrightarrow> bit a n" if "n < 32" for a :: u32
proof -
  have "a AND push_bit n 1 = (if bit a n then push_bit n 1 else 0)"
    by (rule bit_word_eqI) (auto simp: bit_simps)
  moreover have "push_bit n (1 :: u32) \<noteq> 0"
    using that by (simp add: push_bit_eq_0_iff)
  ultimately show ?thesis by (simp add: FUNCHOOK_ARM64_REG_def)
qed

lemma to_regno_cases:
  assumes "to_regno regs = Inr w"
  obtains r where "w = of_nat r" and "9 \<le> r" and "r \<le> 15" and "bit regs r"
proof -
  have "\<exists>r \<in> {9, 10, 11, 12, 13, 14, 15}. w = of_nat r \<and> bit regs r"
    using assms by (auto simp: to_regno_def bit_regno_test split: if_splits)
  then obtain r where r: "r \<in> {9, 10, 11, 12, 13, 14, 15}" "w = of_nat r" "bit regs r" by blast
  from r(1) have "9 \<le> r" "r \<le> 15" by auto
  from that [OF r(2) this r(3)] show ?thesis .
qed

lemma to_regno_error: "to_regno regs = Inl (f, msg) \<Longrightarrow> f = Err ERROR_NO_AVAILABLE_REGISTERS"
  by (auto simp: to_regno_def split: if_splits)

text \<open>The branch over the two instructions of a conditional jump, and where it jumps.\<close>

fun cond_branch :: "funchook_arm64_insn_id \<Rightarrow> u32 \<Rightarrow> (u32 \<times> u64) option" where
  "cond_branch ARM64_INSN_B_cond ins =
     (if ins AND 0x0F \<noteq> 0x0E
      then Some (IMM19_RESET (RESET_AT ins 0) OR TO_IMM19 3 OR INVERT_AT ins 0, IMM19_OFFSET ins) else None)"
| "cond_branch ARM64_INSN_CBNZ ins =
     Some (IMM19_RESET (RESET_AT ins 24) OR INVERT_AT ins 24 OR TO_IMM19 3, IMM19_OFFSET ins)"
| "cond_branch ARM64_INSN_CBZ ins =
     Some (IMM19_RESET (RESET_AT ins 24) OR INVERT_AT ins 24 OR TO_IMM19 3, IMM19_OFFSET ins)"
| "cond_branch ARM64_INSN_TBNZ ins =
     Some (IMM14_RESET (RESET_AT ins 24) OR INVERT_AT ins 24 OR TO_IMM14 3, IMM14_OFFSET ins)"
| "cond_branch ARM64_INSN_TBZ ins =
     Some (IMM14_RESET (RESET_AT ins 24) OR INVERT_AT ins 24 OR TO_IMM14 3, IMM14_OFFSET ins)"
| "cond_branch _ ins = None"

abbreviation is_load :: "funchook_arm64_insn_id \<Rightarrow> bool" where
  "is_load iid \<equiv> iid = ARM64_INSN_LDR \<or> iid = ARM64_INSN_LDRSW \<or> iid = ARM64_INSN_PRFM"

text \<open>What is emitted for an instruction \<open>ins\<close> at address \<open>ia\<close>.\<close>

inductive moved :: "funchook_arm64_insn_id \<Rightarrow> u32 \<Rightarrow> u64 \<Rightarrow> arm64_context \<Rightarrow> u32 list \<Rightarrow> u64 list \<Rightarrow> bool"
  for iid :: funchook_arm64_insn_id and ins :: u32 and ia :: u64 and ctx :: arm64_context where
  copied: "iid = ARM64_INSN_OTHER \<or> is_load iid \<and> ins AND 0x20000000 \<noteq> 0 \<Longrightarrow> moved iid ins ia ctx [ins] []"
| address: "iid = ARM64_INSN_ADR \<and> a = ia + IMM_ADR_OFFSET ins \<or>
    iid = ARM64_INSN_ADRP \<and> a = ROUND_DOWN ia ARM64_PAGE_SIZE + push_bit 12 (IMM_ADR_OFFSET ins) \<Longrightarrow>
    moved iid ins ia ctx [ldr_word (arm_dst ctx) (arm_lits ctx) (RD_REGNO ins)] [a]"
| branch: "iid = ARM64_INSN_B \<or> iid = ARM64_INSN_BL \<Longrightarrow> to_regno (avail ctx) = Inr r \<Longrightarrow>
    moved iid ins ia ctx
      [ldr_word (arm_dst ctx) (arm_lits ctx) r, 0xD61F0000 OR drop_bit 10 (ins AND 0x80000000) OR TO_RN r]
      [ia + IMM26_OFFSET ins]"
| always: "iid = ARM64_INSN_B_cond \<Longrightarrow> ins AND 0x0F = 0x0E \<Longrightarrow> to_regno (avail ctx) = Inr r \<Longrightarrow>
    moved iid ins ia ctx [ldr_word (arm_dst ctx) (arm_lits ctx) r, 0xD61F0000 OR TO_RN r] [ia + IMM19_OFFSET ins]"
| conditional: "cond_branch iid ins = Some (w, off) \<Longrightarrow> to_regno (avail ctx) = Inr r \<Longrightarrow>
    moved iid ins ia ctx [w, ldr_word (Suc (arm_dst ctx)) (arm_lits ctx) r, 0xD61F0000 OR TO_RN r] [ia + off]"
| load_label: "is_load iid \<Longrightarrow> ins AND 0x20000000 = 0 \<Longrightarrow> to_regno (avail ctx) = Inr r \<Longrightarrow>
    literal_load ins = Some opc \<Longrightarrow>
    moved iid ins ia ctx [ldr_word (arm_dst ctx) (arm_lits ctx) r, opc OR TO_RN r OR RT_REGNO ins]
      [ia + IMM19_OFFSET ins]"

lemma moved_length: "moved iid ins ia ctx ws ls \<Longrightarrow> length ws \<le> 3 \<and> length ls \<le> 1"
  by (cases rule: moved.cases) auto

text \<open>With room for it, an instruction is moved or an error is returned.\<close>

definition moved_or_error ::
    "funchook_arm64_insn_id \<Rightarrow> u32 \<Rightarrow> u64 \<Rightarrow> arm64_context \<Rightarrow> arm64_context with_message \<Rightarrow> bool" where
  "moved_or_error iid ins ia ctx res =
     (case res of
        Inl (f, msg) \<Rightarrow> f = Err ERROR_NO_AVAILABLE_REGISTERS \<or> f = Err ERROR_INTERNAL_ERROR
      | Inr ctx1 \<Rightarrow> \<exists>ws ls. moved iid ins ia ctx ws ls \<and> extended ctx ws ls ctx1)"

lemma moved_no_overflow:
  "\<exists>ctx1. x = Some ctx1 \<and> extended ctx ws ls ctx1 \<Longrightarrow> moved iid ins ia ctx ws ls \<Longrightarrow>
     moved_or_error iid ins ia ctx (no_overflow x)"
  by (fastforce simp: moved_or_error_def no_overflow_def)

lemma moved_with_regno:
  "(\<And>r. to_regno (avail ctx) = Inr r \<Longrightarrow> moved_or_error iid ins ia ctx (k r)) \<Longrightarrow>
     moved_or_error iid ins ia ctx (with_regno ctx k)"
  by (auto simp: with_regno_def moved_or_error_def split: sum.splits dest: to_regno_error)

lemma moved_branch_if:
  assumes "room ctx 3" and "cond_branch iid ins = Some (w, off)" and "a = ia + off"
  shows "moved_or_error iid ins ia ctx (branch_if (Some w) a ctx)"
proof (unfold branch_if_def, rule moved_with_regno)
  fix r assume "to_regno (avail ctx) = Inr r"
  from moved_no_overflow [OF skip_ldr_emit_room [OF assms(1)] conditional [OF assms(2) this]]
  show "moved_or_error iid ins ia ctx (no_overflow (Option.bind (case Some w of None \<Rightarrow> Some ctx | Some w \<Rightarrow> emit w ctx)
      (\<lambda>ctx1. Option.bind (LDR_ADDR r a ctx1) (BR_BY_REG r))))"
    by (simp add: BR_BY_REG_def [abs_def] assms(3))
qed

lemma moved_load:
  assumes "room ctx 3" and "is_load iid" and "ins AND 0x20000000 = 0" and "a = ia + IMM19_OFFSET ins"
  shows "moved_or_error iid ins ia ctx (with_regno ctx (\<lambda>regno.
      case LDR_ADDR regno a ctx of
        None \<Rightarrow> crash
      | Some ctx1 \<Rightarrow>
          (case literal_load ins of
             None \<Rightarrow> Inl (Err ERROR_INTERNAL_ERROR, msg)
           | Some opc \<Rightarrow> no_overflow (emit (opc OR TO_RN regno OR RT_REGNO ins) ctx1))))"
proof (rule moved_with_regno)
  fix r assume r: "to_regno (avail ctx) = Inr r"
  have "room ctx 1" "room ctx 2" using assms(1) by (simp_all add: room_def)
  obtain c where c: "LDR_ADDR r a ctx = Some c"
    using LDR_ADDR_room [OF \<open>room ctx 1\<close>] by blast
  show "moved_or_error iid ins ia ctx
      (case LDR_ADDR r a ctx of
        None \<Rightarrow> crash
      | Some ctx1 \<Rightarrow>
          (case literal_load ins of
             None \<Rightarrow> Inl (Err ERROR_INTERNAL_ERROR, msg)
           | Some opc \<Rightarrow> no_overflow (emit (opc OR TO_RN r OR RT_REGNO ins) ctx1)))"
  proof (cases "literal_load ins")
    case None
    then show ?thesis by (simp add: c moved_or_error_def)
  next
    case (Some opc)
    from moved_no_overflow [OF ldr_emit_room [OF \<open>room ctx 2\<close>] load_label [where ia = ia, OF assms(2,3) r Some]]
    show ?thesis by (simp add: c [unfolded assms(4)] Some assms(4))
  qed
qed

text \<open>The switch moves one instruction, or returns an error; with the room it never overflows.\<close>

lemma translate_moved:
  assumes room: "room ctx 3"
  shows "moved_or_error iid (read_insn m (insn_addr func (arm_src ctx))) (insn_addr func (arm_src ctx)) ctx
    (translate_arm64 m func iid ctx)"
proof -
  let ?ia = "insn_addr func (arm_src ctx)"
  let ?ins = "read_insn m ?ia"
  have r1: "room ctx 1" and r2: "room ctx 2" using room by (simp_all add: room_def)
  note copy = moved_no_overflow [OF emit_room [OF r1] copied]
  note adr = moved_no_overflow [OF LDR_ADDR_room [OF r1] address]
  note load = moved_load [OF room]
  note br = moved_no_overflow [OF ldr_emit_room [OF r2] branch]
  note always = moved_no_overflow [OF ldr_emit_room [OF r2] always]
  note cond = moved_branch_if [OF room]
  show ?thesis
  proof (cases iid)
    case ARM64_INSN_B_cond
    show ?thesis
    proof (cases "?ins AND 0x0F = 0x0E")
      case True
      have "moved_or_error iid ?ins ?ia ctx (branch_if None (?ia + IMM19_OFFSET ?ins) ctx)"
        unfolding branch_if_def
        by (rule moved_with_regno) (simp add: BR_BY_REG_def [abs_def] always ARM64_INSN_B_cond True)
      then show ?thesis by (simp add: translate_arm64_def Let_def ARM64_INSN_B_cond True)
    next
      case False
      then show ?thesis
        by (simp add: translate_arm64_def Let_def ARM64_INSN_B_cond) (rule cond; simp)
    qed
  next
    case ARM64_INSN_B
    show ?thesis
      unfolding translate_arm64_def Let_def ARM64_INSN_B funchook_arm64_insn_id.case
      by (intro moved_with_regno br) simp_all
  next
    case ARM64_INSN_BL
    show ?thesis
      unfolding translate_arm64_def Let_def ARM64_INSN_BL funchook_arm64_insn_id.case
      by (intro moved_with_regno br) simp_all
  qed (simp add: translate_arm64_def Let_def; (rule copy adr cond load)?; simp add: copy load)+
qed

end
