(* ===== verification/Arch_ARM64_Sim.thy ===== *)
theory Arch_ARM64_Sim
  imports Arch_ARM64_Trampoline
begin

text \<open>
  What the words of an ARM64 trampoline do: each group of words emitted for a moved
  instruction has the effect of that instruction at its old address.
\<close>

section \<open>Instructions in memory\<close>

lemma length_insn_bytes [simp]: "length (insn_bytes ws) = 4 * length ws"
  by (induction ws) (simp_all add: insn_bytes_def)

lemma insn_bytes_append: "insn_bytes (vs @ ws) = insn_bytes vs @ insn_bytes ws"
  by (simp add: insn_bytes_def)

lemma insn_bytes_Cons: "insn_bytes (w # ws) = le_bytes 4 w @ insn_bytes ws"
  by (simp add: insn_bytes_def)

lemma word_in_memory:
  assumes "code_at m t (insn_bytes buf)" and "k < length buf"
  shows "mem_read m (insn_addr t k) 4 = le_bytes 4 (buf ! k)"
proof -
  have "insn_bytes buf = insn_bytes (take k buf) @ le_bytes 4 (buf ! k) @ insn_bytes (drop (Suc k) buf)"
    by (metis assms(2) id_take_nth_drop insn_bytes_append insn_bytes_Cons)
  with assms show ?thesis
    by (simp add: code_at_append insn_addr_def code_at_read)
qed

lemma read_insn_at: "code_at m t (insn_bytes buf) \<Longrightarrow> k < length buf \<Longrightarrow> read_insn m (insn_addr t k) = buf ! k"
  by (simp add: read_insn_def word_in_memory)

lemma le_bytes_halves:
  "le_bytes 8 (a :: u64) = le_bytes 4 (ucast a :: u32) @ le_bytes 4 (ucast (drop_bit 32 a) :: u32)"
proof (rule nth_equalityI)
  fix i assume "i < length (le_bytes 8 a)"
  then have i: "i < 8" by simp
  show "le_bytes 8 a ! i = (le_bytes 4 (ucast a :: u32) @ le_bytes 4 (ucast (drop_bit 32 a) :: u32)) ! i"
  proof (cases "i < 4")
    case True
    then show ?thesis
      by (auto simp: nth_append nth_le_bytes intro!: bit_word_eqI simp: bit_simps)
  next
    case False
    then have "8 * i = 32 + 8 * (i - 4)" "i - 4 < 4" using i by simp_all
    then show ?thesis
      using False i by (auto simp: nth_append nth_le_bytes add.assoc intro!: bit_word_eqI simp: bit_simps)
  qed
qed simp

lemma insn_addr_add: "insn_addr t (j + k) = insn_addr (insn_addr t j) k"
  by (simp add: insn_addr_def algebra_simps)

lemma insn_addr_Suc: "insn_addr t (Suc k) = insn_addr t k + 4"
  by (simp add: insn_addr_def algebra_simps)

lemma literal_in_memory:
  assumes "code_at m t (insn_bytes buf)" and "10 + 2 * l \<le> length buf" and "pool_lit buf l = halves a"
  shows "of_le_bytes (mem_read m (insn_addr t (8 + 2 * l)) 8) = a"
proof -
  have "mem_read m (insn_addr t (8 + 2 * l)) 8 =
      mem_read m (insn_addr t (8 + 2 * l)) 4 @ mem_read m (insn_addr t (9 + 2 * l)) 4"
    using mem_read_append [of m "insn_addr t (8 + 2 * l)" 4 4]
    by (simp add: insn_addr_Suc [of t "8 + 2 * l", simplified])
  also have "\<dots> = le_bytes 8 a"
    using assms by (simp add: word_in_memory pool_lit_def halves_def le_bytes_halves)
  finally show ?thesis by simp
qed

section \<open>Running the emitted words\<close>

lemma get_set_x [simp]: "r \<noteq> 31 \<Longrightarrow> get_x (set_x r v s) r = v" "pc (set_x r v s) = pc s"
  "get_x (s\<lparr>pc := a\<rparr>) r = get_x s r"
  by (simp_all add: get_x_def set_x_def)

text \<open>A load of a literal.\<close>

lemma step_ldr:
  assumes code: "code_at m t (insn_bytes buf)" and buf: "length buf = 14" "buf ! d = ldr_word d l (of_nat r)"
    and lit: "pool_lit buf l = halves a" and d: "d < 8" "l < 3" "r < 32" and s: "pc s = insn_addr t d"
  shows "arm_step m s = Some ((set_x r a s)\<lparr>pc := insn_addr t (Suc d)\<rparr>)"
proof -
  have i: "1 \<le> int (8 + 2 * l) - int d" "int (8 + 2 * l) - int d \<le> 12"
    using d by simp_all
  have "read_insn m (pc s) = ldr_word d l (of_nat r)"
    using code buf d(1) by (simp add: s read_insn_at)
  then obtain off where dec: "decode (read_insn m (pc s)) = Some (Load_lit Load_X r off)"
    and off: "off = of_int (4 * (int (8 + 2 * l) - int d))"
    using decode_ldr_literal [OF i d(3)] by (simp add: ldr_word_def)
  have "pc s + off = insn_addr t (8 + 2 * l)"
    by (simp add: s insn_addr_def off)
  then have "load m Load_X r (pc s + off) s = set_x r a s"
    using literal_in_memory [OF code _ lit] d(2) buf(1) by (simp add: load_def)
  with dec show ?thesis
    by (simp add: arm_step_def effect_def s insn_addr_Suc)
qed

text \<open>A branch to a register.\<close>

lemma step_br:
  assumes "code_at m t (insn_bytes buf)" and "d < length buf" and "buf ! d = 0xD61F0000 OR TO_RN (of_nat r)"
    and "r < 32" and "pc s = insn_addr t d"
  shows "arm_step m s = Some (s\<lparr>pc := get_x s r\<rparr>)"
  using assms by (simp add: arm_step_def read_insn_at decode_branch_reg effect_def)

lemma step_blr:
  assumes "code_at m t (insn_bytes buf)" and "d < length buf" and "buf ! d = 0xD63F0000 OR TO_RN (of_nat r)"
    and "r < 32" and "pc s = insn_addr t d"
  shows "arm_step m s = Some ((set_x 30 (insn_addr t (Suc d)) s)\<lparr>pc := get_x s r\<rparr>)"
  using assms by (simp add: arm_step_def read_insn_at decode_branch_reg effect_def insn_addr_Suc)

section \<open>Classes of instructions\<close>

fun load_class :: "load_kind \<Rightarrow> funchook_arm64_insn_id" where
  "load_class Load_SW = ARM64_INSN_LDRSW"
| "load_class Prefetch = ARM64_INSN_PRFM"
| "load_class _ = ARM64_INSN_LDR"

fun a64_class :: "a64 \<Rightarrow> funchook_arm64_insn_id" where
  "a64_class (ADR rd off) = ARM64_INSN_ADR"
| "a64_class (ADRP rd off) = ARM64_INSN_ADRP"
| "a64_class (B off) = ARM64_INSN_B"
| "a64_class (BL off) = ARM64_INSN_BL"
| "a64_class (BR rn) = ARM64_INSN_OTHER"
| "a64_class (BLR rn) = ARM64_INSN_OTHER"
| "a64_class (B_cond c off) = ARM64_INSN_B_cond"
| "a64_class (CB sf nonzero rt off) = (if nonzero then ARM64_INSN_CBNZ else ARM64_INSN_CBZ)"
| "a64_class (TB nonzero b rt off) = (if nonzero then ARM64_INSN_TBNZ else ARM64_INSN_TBZ)"
| "a64_class (Load_lit k rt off) = load_class k"
| "a64_class (Load_imm k rt rn off) = load_class k"

lemma load_class: "is_load (load_class k)"
  by (cases k) simp_all

lemma load_class_other [simp]:
  "load_class k \<noteq> ARM64_INSN_OTHER" "load_class k \<noteq> ARM64_INSN_ADR" "load_class k \<noteq> ARM64_INSN_ADRP"
  "load_class k \<noteq> ARM64_INSN_B" "load_class k \<noteq> ARM64_INSN_BL" "load_class k \<noteq> ARM64_INSN_B_cond"
  by (cases k; simp)+

fun is_call :: "a64 \<Rightarrow> bool" where
  "is_call (BL off) = True"
| "is_call (BLR rn) = True"
| "is_call _ = False"

text \<open>What decoding says of the bits of an instruction.\<close>

lemma decode_ADR: "decode ins = Some (ADR rd off) \<Longrightarrow> rd = reg_at 0 ins \<and> off = IMM_ADR_OFFSET ins"
  and decode_ADRP: "decode ins = Some (ADRP rd off) \<Longrightarrow> rd = reg_at 0 ins \<and> off = push_bit 12 (IMM_ADR_OFFSET ins)"
  and decode_B: "decode ins = Some (B off) \<Longrightarrow> ins AND 0xFC000000 = 0x14000000 \<and> off = IMM26_OFFSET ins"
  and decode_BL: "decode ins = Some (BL off) \<Longrightarrow> ins AND 0xFC000000 = 0x94000000 \<and> off = IMM26_OFFSET ins"
  and decode_B_cond: "decode ins = Some (B_cond c off) \<Longrightarrow>
    ins AND 0xFF000010 = 0x54000000 \<and> c = unat (ins AND 15) \<and> off = IMM19_OFFSET ins"
  and decode_CB: "decode ins = Some (CB sf nz rt off) \<Longrightarrow> ins AND 0x7E000000 = 0x34000000 \<and>
    sf = bit ins 31 \<and> nz = bit ins 24 \<and> rt = reg_at 0 ins \<and> off = IMM19_OFFSET ins"
  and decode_TB: "decode ins = Some (TB nz b rt off) \<Longrightarrow> ins AND 0x7E000000 = 0x36000000 \<and>
    nz = bit ins 24 \<and> b = unat (drop_bit 26 (ins AND 0x80000000) OR (drop_bit 19 ins AND 31)) \<and>
    rt = reg_at 0 ins \<and> off = IMM14_OFFSET ins"
  and decode_Load_lit: "decode ins = Some (Load_lit k rt off) \<Longrightarrow> ins AND 0x3B000000 = 0x18000000 \<and>
    load_lit_kind ins = Some k \<and> rt = reg_at 0 ins \<and> off = IMM19_OFFSET ins"
  by (auto simp: decode_def arm64_offsets split: if_splits option.splits)

lemma decode_Load_imm:
  assumes "decode ins = Some (Load_imm k rt rn off)"
  shows "ins AND 0x20000000 \<noteq> 0"
proof -
  obtain s where "load_imm_kind ins = Some (k, s)"
    using assms by (auto simp: decode_def split: if_splits)
  then have "drop_bit 22 ins \<in> {0x2E5, 0x3E5, 0x2E6, 0x2F5, 0x3F5, 0x0F7, 0x3E6}"
    by (auto simp: load_imm_kind_def Let_def split: if_splits)
  moreover have "(ins AND 0x20000000 = 0) = (drop_bit 22 ins AND 0x80 = 0)"
    by (simp add: u32_simps)
  ultimately show ?thesis by auto
qed

section \<open>Conditional branches are inverted\<close>

lemma invert_cond:
  assumes "unat (c :: u32) < 14"
  shows "cond_holds (unat (c XOR 1)) f = (\<not> cond_holds (unat c) f)"
proof -
  have "list_all (\<lambda>k. unat (of_nat k XOR 1 :: u32) = (if even k then k + 1 else k - 1)) [0..<14]"
    by code_simp
  then have x: "unat (of_nat k XOR 1 :: u32) = (if even k then k + 1 else k - 1)" if "k < 14" for k
    using that by (simp add: list_all_iff)
  have "unat (c XOR 1) = (if even (unat c) then unat c + 1 else unat c - 1)"
    using x [OF assms] by simp
  then show ?thesis
    using assms by (auto simp: cond_holds_def elim!: oddE evenE)
qed

text \<open>
  A conditional branch depends on a condition \<open>P\<close> on the registers and flags; the branch
  emitted for it skips two instructions when the condition does not hold.
\<close>

lemma cond_branch_inverts:
  assumes dec: "decode ins = Some i" and w: "cond_branch (a64_class i) ins = Some (w, off)"
    and nv: "\<forall>off. i \<noteq> B_cond 15 off"
  obtains j P where "decode w = Some j" and "\<And>s x. P (s\<lparr>pc := x\<rparr>) = P s"
    and "\<And>m s. effect m i s = (if P s then Some (pc s + off) else None, s)"
    and "\<And>m s. effect m j s = (if P s then None else Some (pc s + 12), s)"
proof (cases i)
  case (B_cond c d)
  note d = decode_B_cond [OF dec [unfolded B_cond]]
  have "ins AND 15 \<noteq> 14" and w': "w = IMM19_RESET (RESET_AT ins 0) OR TO_IMM19 3 OR INVERT_AT ins 0"
    and off: "off = IMM19_OFFSET ins"
    using w B_cond by (auto split: if_splits)
  have "c < 14"
  proof -
    have "ins AND 15 = take_bit 4 ins" by (simp add: take_bit_eq_mask mask_eq_exp_minus_1)
    then have "c < 16" using d take_bit_nat_less_exp [of 4 "unat ins"] by (simp add: unsigned_take_bit_eq)
    moreover have "c \<noteq> 14"
      using d \<open>ins AND 15 \<noteq> 14\<close> word_unat_eq_iff [of "ins AND 15" 14] by simp
    moreover have "c \<noteq> 15" using nv B_cond by blast
    ultimately show ?thesis by simp
  qed
  with d have inv: "cond_holds (unat ((ins AND 15) XOR 1)) f = (\<not> cond_holds c f)" for f
    using invert_cond [of "ins AND 15" f] by simp
  show ?thesis
    by (rule that [of "B_cond (unat ((ins AND 15) XOR 1)) 12" "\<lambda>s. cond_holds c (nzcv s)"])
      (use d in \<open>simp_all add: w' decode_B_cond_skip B_cond effect_def inv off\<close>)
next
  case (CB sf nz rt d)
  note d = decode_CB [OF dec [unfolded CB]]
  have w': "w = IMM19_RESET (RESET_AT ins 24) OR INVERT_AT ins 24 OR TO_IMM19 3" and off: "off = IMM19_OFFSET ins"
    using w CB by (auto split: if_splits)
  show ?thesis
    by (rule that [of "CB sf (\<not> nz) rt 12"
          "\<lambda>s. ((if sf then get_x s rt else get_x s rt AND 0xFFFFFFFF) \<noteq> 0) = nz"])
      (use d in \<open>auto simp: w' decode_CB_skip CB effect_def off Let_def\<close>)
next
  case (TB nz b rt d)
  note d = decode_TB [OF dec [unfolded TB]]
  have w': "w = IMM14_RESET (RESET_AT ins 24) OR INVERT_AT ins 24 OR TO_IMM14 3" and off: "off = IMM14_OFFSET ins"
    using w TB by (auto split: if_splits)
  show ?thesis
    by (rule that [of "TB (\<not> nz) b rt 12" "\<lambda>s. bit (get_x s rt) b = nz"])
      (use d in \<open>auto simp: w' decode_TB_skip TB effect_def off\<close>)
next
  case (Load_lit k rt d)
  then show ?thesis using w load_class [of k] by auto
next
  case (Load_imm k rt rn d)
  then show ?thesis using w load_class [of k] by auto
qed (use w in simp_all)

section \<open>The simulation\<close>

text \<open>
  \<open>same_effect r i next e s'\<close>: \<open>s'\<close> is the state after the effect \<open>e\<close> of \<open>i\<close>, with
  \<open>next\<close> as the address behind the instruction, apart from register \<open>r\<close>. A call leaves
  \<open>next\<close> as the return address.
\<close>

definition same_effect :: "nat \<Rightarrow> a64 \<Rightarrow> u64 \<Rightarrow> u64 option \<times> arm_state \<Rightarrow> arm_state \<Rightarrow> bool" where
  "same_effect r i next e s' \<longleftrightarrow>
     pc s' = (case fst e of Some a \<Rightarrow> a | None \<Rightarrow> next) \<and>
     nzcv s' = nzcv (snd e) \<and> vr s' = vr (snd e) \<and>
     (\<forall>x < 31. x \<noteq> r \<longrightarrow> get_x s' x = (if x = 30 \<and> is_call i then next else get_x (snd e) x))"

text \<open>The memory an instruction loads from, if any, has the same contents in both memories.\<close>

definition same_loads :: "(u64 \<Rightarrow> u8) \<Rightarrow> (u64 \<Rightarrow> u8) \<Rightarrow> a64 \<Rightarrow> arm_state \<Rightarrow> bool" where
  "same_loads m m' i s \<longleftrightarrow>
     (case i of
        Load_lit k rt off \<Rightarrow> mem_read m' (pc s + off) 16 = mem_read m (pc s + off) 16
      | Load_imm k rt rn off \<Rightarrow>
          mem_read m' (get_x s rn + of_nat off) 16 = mem_read m (get_x s rn + of_nat off) 16
      | _ \<Rightarrow> True)"

lemma load_cong:
  assumes "mem_read m' a 16 = mem_read m a 16"
  shows "load m' k rt a s = load m k rt a s"
proof -
  have "mem_read m' a n = mem_read m a n" if "n \<le> 16" for n
    using assms take_mem_read [OF that] by metis
  then show ?thesis by (cases k) (simp_all add: load_def)
qed

lemma load_simps:
  "load m k rt a (s\<lparr>pc := x\<rparr>) = (load m k rt a s)\<lparr>pc := x\<rparr>" "pc (load m k rt a s) = pc s"
  "nzcv (load m k rt a s) = nzcv s"
  by (cases k; simp add: load_def set_x_def)+

lemma load_other_register:
  "x \<noteq> r \<Longrightarrow> get_x (load m k rt a (set_x r v s)) x = get_x (load m k rt a s) x"
  "vr (load m k rt a (set_x r v s)) = vr (load m k rt a s)"
  by (cases k; simp add: load_def set_x_def get_x_def)+

lemma set_x_simps:
  "set_x r v (s\<lparr>pc := x\<rparr>) = (set_x r v s)\<lparr>pc := x\<rparr>" "nzcv (set_x r v s) = nzcv s" "vr (set_x r v s) = vr s"
  "get_x (set_x r v s) y = (if y = r \<and> r \<noteq> 31 then v else get_x s y)"
  by (simp_all add: set_x_def get_x_def)

text \<open>
  Running the words emitted for an instruction: at most \<open>k\<close> steps give its effect. At most
  one register changes besides, one of x9 to x15 that is still free (none when \<open>r\<close> is 31).
\<close>

definition runs_like ::
    "nat \<Rightarrow> (u64 \<Rightarrow> u8) \<Rightarrow> (u64 \<Rightarrow> u8) \<Rightarrow> u32 \<Rightarrow> a64 \<Rightarrow> u64 \<Rightarrow> u64 \<Rightarrow> arm_state \<Rightarrow> bool" where
  "runs_like k m m' regs i ia next s \<longleftrightarrow>
     (\<exists>n \<le> k. \<exists>s'. arm_run n m' s = Some s' \<and>
       (\<exists>r. (r = 31 \<or> 9 \<le> r \<and> r \<le> 15 \<and> bit regs r) \<and>
         same_effect r i next (effect m i (s\<lparr>pc := ia\<rparr>)) s'))"

lemma runs_likeI:
  assumes "arm_run n m' s = Some s'" and "n \<le> k" and "r = 31 \<or> 9 \<le> r \<and> r \<le> 15 \<and> bit regs r"
    and "same_effect r i next (effect m i (s\<lparr>pc := ia\<rparr>)) s'"
  shows "runs_like k m m' regs i ia next s"
  using assms unfolding runs_like_def by blast

lemma runs_like_step:
  assumes "arm_step m' s = Some (s\<lparr>pc := x\<rparr>)" and "runs_like k m m' regs i ia next (s\<lparr>pc := x\<rparr>)"
  shows "runs_like (Suc k) m m' regs i ia next s"
proof -
  obtain n s' r where "n \<le> k" and run: "arm_run n m' (s\<lparr>pc := x\<rparr>) = Some s'"
    and r: "r = 31 \<or> 9 \<le> r \<and> r \<le> 15 \<and> bit regs r"
    and e: "same_effect r i next (effect m i (s\<lparr>pc := ia\<rparr>)) s'"
    using assms(2) by (auto simp: runs_like_def)
  have "arm_run (Suc n) m' s = Some s'"
    using assms(1) run by simp
  from runs_likeI [OF this _ r e] \<open>n \<le> k\<close> show ?thesis by simp
qed

lemma runs_like_mono: "runs_like k m m' regs i ia next s \<Longrightarrow> k \<le> k' \<Longrightarrow> runs_like k' m m' regs i ia next s"
  unfolding runs_like_def using le_trans by blast

lemma arm_step_decoded:
  "decode (read_insn m (pc s)) = Some i \<Longrightarrow>
     arm_step m s = Some ((snd (effect m i s))\<lparr>pc := (case fst (effect m i s) of None \<Rightarrow> pc s + 4 | Some a \<Rightarrow> a)\<rparr>)"
  by (simp add: arm_step_def split: option.split prod.split)

lemma runs_copied:
  assumes code: "code_at m' t (insn_bytes buf)" and d: "d < length buf" "buf ! d = ins"
    and dec: "decode ins = Some i" and cls: "a64_class i = ARM64_INSN_OTHER \<or> is_load (a64_class i) \<and> ins AND 0x20000000 \<noteq> 0"
    and mem: "same_loads m m' i (s\<lparr>pc := ia\<rparr>)" and s: "pc s = insn_addr t d"
  shows "runs_like 1 m m' regs i ia (insn_addr t (Suc d)) s"
proof (rule runs_likeI [where r = 31 and n = 1])
  have "decode (read_insn m' (pc s)) = Some i"
    using dec d code by (simp add: s read_insn_at)
  note st = arm_step_decoded [OF this]
  let ?s = "(snd (effect m' i s))\<lparr>pc := (case fst (effect m' i s) of None \<Rightarrow> pc s + 4 | Some a \<Rightarrow> a)\<rparr>"
  show "arm_run 1 m' s = Some ?s"
    by (simp add: st)
  consider rn where "i = BR rn" | rn where "i = BLR rn" | k rt rn off where "i = Load_imm k rt rn off"
  proof (cases i)
    case (Load_lit k rt off)
    then have "ins AND 0x20000000 = 0"
      using dec decode_Load_lit [of ins k rt off] by (simp add: u32_simps)
    then show ?thesis using cls Load_lit load_class [of k] by auto
  qed (use cls that in \<open>auto split: if_splits\<close>)
  then show "same_effect 31 i (insn_addr t (Suc d)) (effect m i (s\<lparr>pc := ia\<rparr>)) ?s"
  proof cases
    case 3
    then have "load m' k rt (get_x s rn + of_nat off) s = load m k rt (get_x s rn + of_nat off) s"
      using mem by (intro load_cong) (simp add: same_loads_def)
    with 3 show ?thesis
      by (simp add: same_effect_def effect_def load_simps s insn_addr_Suc)
  qed (simp_all add: same_effect_def effect_def set_x_simps s insn_addr_Suc)
qed simp_all

text \<open>The other shapes start with a load of the literal into the free register.\<close>

lemma runs_address:
  assumes code: "code_at m' t (insn_bytes buf)" and buf: "length buf = 14" "d < 8" "l < 3"
    and w: "buf ! d = ldr_word d l (RD_REGNO ins)" and lit: "pool_lit buf l = halves a"
    and eff: "effect m i (s\<lparr>pc := ia\<rparr>) = (None, (set_x (reg_at 0 ins) a s)\<lparr>pc := ia\<rparr>)"
    and s: "pc s = insn_addr t d"
  shows "runs_like 1 m m' regs i ia (insn_addr t (Suc d)) s"
proof (rule runs_likeI [where r = 31 and n = 1])
  have r: "of_nat (reg_at 0 ins) = RD_REGNO ins" and "reg_at 0 ins < 32"
  proof -
    show "of_nat (reg_at 0 ins) = RD_REGNO ins" by (simp add: reg_at_def RD_REGNO_def)
    have "ins AND 31 = take_bit 5 ins" by (simp add: take_bit_eq_mask mask_eq_exp_minus_1)
    then show "reg_at 0 ins < 32"
      using take_bit_nat_less_exp [of 5 "unat ins"] by (simp add: reg_at_def unsigned_take_bit_eq)
  qed
  note st = step_ldr [OF code buf(1) w [folded r] lit buf(2,3) \<open>reg_at 0 ins < 32\<close> s]
  show "arm_run 1 m' s = Some ((set_x (reg_at 0 ins) a s)\<lparr>pc := insn_addr t (Suc d)\<rparr>)"
    by (simp add: st)
  have "\<not> is_call i"
    using eff by (cases i) (auto simp: effect_def)
  then show "same_effect 31 i (insn_addr t (Suc d)) (effect m i (s\<lparr>pc := ia\<rparr>))
      ((set_x (reg_at 0 ins) a s)\<lparr>pc := insn_addr t (Suc d)\<rparr>)"
    by (simp add: same_effect_def eff set_x_simps)
qed simp_all

lemma runs_branch:
  assumes code: "code_at m' t (insn_bytes buf)" and buf: "length buf = 14" "d < 7" "l < 3"
    and w: "buf ! d = ldr_word d l (of_nat r)" and lit: "pool_lit buf l = halves a"
    and r: "9 \<le> r" "r \<le> 15" "bit regs r" and s: "pc s = insn_addr t d"
    and br: "buf ! Suc d = 0xD61F0000 OR TO_RN (of_nat r) \<and> \<not> is_call i \<or>
      buf ! Suc d = 0xD63F0000 OR TO_RN (of_nat r) \<and> is_call i"
    and eff: "fst (effect m i (s\<lparr>pc := ia\<rparr>)) = Some a"
      "is_call i \<or> snd (effect m i (s\<lparr>pc := ia\<rparr>)) = s\<lparr>pc := ia\<rparr>"
      "is_call i \<longrightarrow> (\<exists>v. snd (effect m i (s\<lparr>pc := ia\<rparr>)) = set_x 30 v (s\<lparr>pc := ia\<rparr>))"
  shows "runs_like 2 m m' regs i ia (insn_addr t (Suc (Suc d))) s"
proof -
  let ?s1 = "(set_x r a s)\<lparr>pc := insn_addr t (Suc d)\<rparr>"
  have st: "arm_step m' s = Some ?s1"
    using step_ldr [OF code buf(1) w lit _ buf(3) _ s] buf(2) r by simp
  show ?thesis
  proof (cases "is_call i")
    case True
    have "arm_step m' ?s1 = Some ((set_x 30 (insn_addr t (Suc (Suc d))) ?s1)\<lparr>pc := get_x ?s1 r\<rparr>)"
      using code buf br True r by (intro step_blr) simp_all
    with st have "arm_run 2 m' s = Some ((set_x 30 (insn_addr t (Suc (Suc d))) ?s1)\<lparr>pc := get_x ?s1 r\<rparr>)"
      by (simp add: numeral_2_eq_2)
    then show ?thesis
      by (rule runs_likeI [where r = r]) (use r eff True in \<open>auto simp: same_effect_def set_x_simps\<close>)
  next
    case False
    have "arm_step m' ?s1 = Some (?s1\<lparr>pc := get_x ?s1 r\<rparr>)"
      using code buf br False r by (intro step_br) simp_all
    with st have "arm_run 2 m' s = Some (?s1\<lparr>pc := get_x ?s1 r\<rparr>)"
      by (simp add: numeral_2_eq_2)
    then show ?thesis
      by (rule runs_likeI [where r = r]) (use r eff False in \<open>auto simp: same_effect_def set_x_simps\<close>)
  qed
qed

lemma runs_conditional:
  assumes code: "code_at m' t (insn_bytes buf)" and buf: "length buf = 14" "d < 6" "l < 3"
    and skip: "buf ! d = w" "decode w = Some j"
      "effect m' j s = (if taken then None else Some (pc s + 12), s)"
    and w: "buf ! Suc d = ldr_word (Suc d) l (of_nat r)" and lit: "pool_lit buf l = halves a"
    and br: "buf ! Suc (Suc d) = 0xD61F0000 OR TO_RN (of_nat r)"
    and r: "9 \<le> r" "r \<le> 15" "bit regs r" and s: "pc s = insn_addr t d"
    and eff: "effect m i (s\<lparr>pc := ia\<rparr>) = (if taken then Some a else None, s\<lparr>pc := ia\<rparr>)" "\<not> is_call i"
  shows "runs_like 3 m m' regs i ia (insn_addr t (Suc (Suc (Suc d)))) s"
proof (cases taken)
  case True
  let ?s1 = "s\<lparr>pc := insn_addr t (Suc d)\<rparr>"
  have st: "arm_step m' s = Some ?s1"
    using arm_step_decoded [of m' s j] skip code buf s True by (simp add: read_insn_at insn_addr_Suc)
  have "runs_like 2 m m' regs i ia (insn_addr t (Suc (Suc (Suc d)))) ?s1"
    using code buf w lit br r True eff by (intro runs_branch) simp_all
  from runs_like_step [OF st this] show ?thesis
    by (simp add: numeral_3_eq_3 numeral_2_eq_2)
next
  case False
  have "arm_step m' s = Some (s\<lparr>pc := insn_addr t (Suc (Suc (Suc d)))\<rparr>)"
    using arm_step_decoded [of m' s j] skip code buf s False by (simp add: read_insn_at insn_addr_Suc add.assoc)
  then have "arm_run 1 m' s = Some (s\<lparr>pc := insn_addr t (Suc (Suc (Suc d)))\<rparr>)"
    by simp
  then show ?thesis
    by (rule runs_likeI [where r = 31]) (use eff False in \<open>simp_all add: same_effect_def\<close>)
qed

lemma runs_load:
  assumes code: "code_at m' t (insn_bytes buf)" and buf: "length buf = 14" "d < 7" "l < 3"
    and w: "buf ! d = ldr_word d l (of_nat r)" and lit: "pool_lit buf l = halves a"
    and ld: "decode (buf ! Suc d) = Some (Load_imm k (reg_at 0 ins) r 0)"
    and r: "9 \<le> r" "r \<le> 15" "bit regs r" and s: "pc s = insn_addr t d"
    and i: "i = Load_lit k (reg_at 0 ins) off" "ia + off = a" "mem_read m' a 16 = mem_read m a 16"
  shows "runs_like 2 m m' regs i ia (insn_addr t (Suc (Suc d))) s"
proof -
  let ?s1 = "(set_x r a s)\<lparr>pc := insn_addr t (Suc d)\<rparr>"
  have st: "arm_step m' s = Some ?s1"
    using step_ldr [OF code buf(1) w lit _ buf(3) _ s] buf(2) r by simp
  have "load m' k (reg_at 0 ins) a s' = load m k (reg_at 0 ins) a s'" for s'
    by (rule load_cong [OF i(3)])
  moreover have "decode (read_insn m' (pc ?s1)) = Some (Load_imm k (reg_at 0 ins) r 0)"
    using ld code buf by (simp add: read_insn_at)
  note arm_step_decoded [OF this]
  ultimately have "arm_step m' ?s1 = Some ((load m k (reg_at 0 ins) a ?s1)\<lparr>pc := insn_addr t (Suc (Suc d))\<rparr>)"
    using r by (simp add: insn_addr_Suc effect_def set_x_simps)
  with st have "arm_run 2 m' s = Some ((load m k (reg_at 0 ins) a ?s1)\<lparr>pc := insn_addr t (Suc (Suc d))\<rparr>)"
    by (simp add: numeral_2_eq_2)
  then show ?thesis
    by (rule runs_likeI [where r = r])
      (use r i in \<open>simp_all add: same_effect_def effect_def load_simps load_other_register set_x_simps\<close>)
qed

text \<open>All shapes together: what was emitted for an instruction runs like it.\<close>

lemma moved_runs_like:
  assumes mv: "moved (a64_class i) ins ia ctx ws ls" and ext: "extended ctx ws ls ctx1"
    and room: "room ctx 3" and agr: "agrees ctx1 buf" and code: "code_at m' t (insn_bytes buf)"
    and dec: "decode ins = Some i" and nv: "\<forall>off. i \<noteq> B_cond 15 off"
    and mem: "same_loads m m' i (s\<lparr>pc := ia\<rparr>)" and s: "pc s = insn_addr t (arm_dst ctx)"
  shows "runs_like 3 m m' (avail ctx) i ia (insn_addr t (arm_dst ctx1)) s"
proof -
  let ?d = "arm_dst ctx"
  let ?l = "arm_lits ctx"
  have buf: "length buf = 14" and d: "?d + 3 \<le> 8" "?l < 3"
    using agr room by (simp_all add: agrees_def room_def)
  note ws = extended_agrees(2) [OF ext agr] and ls = extended_agrees(3) [OF ext agr]
  have d1: "arm_dst ctx1 = ?d + length ws" using ext by (simp add: extended_def)
  from mv show ?thesis
  proof cases
    case copied
    then have "runs_like 1 m m' (avail ctx) i ia (insn_addr t (Suc ?d)) s"
      using ws [of 0] d buf by (intro runs_copied [OF code _ _ dec _ mem s]) auto
    then show ?thesis using copied d1 runs_like_mono by fastforce
  next
    case (address a)
    have "effect m i (s\<lparr>pc := ia\<rparr>) = (None, (set_x (reg_at 0 ins) a s)\<lparr>pc := ia\<rparr>)"
      using address dec decode_ADR [of ins] decode_ADRP [of ins]
      by (cases i) (auto simp: effect_def set_x_simps page_of_address split: if_splits)
    then have "runs_like 1 m m' (avail ctx) i ia (insn_addr t (Suc ?d)) s"
      using ws [of 0] ls [of 0] address d buf s by (intro runs_address [OF code]) auto
    then show ?thesis using address d1 runs_like_mono by fastforce
  next
    case (branch w)
    obtain r where r: "w = of_nat r" "9 \<le> r" "r \<le> 15" "bit (avail ctx) r"
      using to_regno_cases [OF branch(4)] .
    have "buf ! Suc ?d = 0xD61F0000 OR TO_RN (of_nat r) \<and> \<not> is_call i \<or>
        buf ! Suc ?d = 0xD63F0000 OR TO_RN (of_nat r) \<and> is_call i"
    proof (cases i)
      case (B off)
      then have "ins AND 0xFC000000 = 0x14000000" using dec decode_B by blast
      then have "drop_bit 10 (ins AND 0x80000000) = 0" by (simp add: u32_simps)
      then show ?thesis using ws [of 1] branch r B by simp
    next
      case (BL off)
      then have "ins AND 0xFC000000 = 0x94000000" using dec decode_BL by blast
      then have "drop_bit 10 (ins AND 0x80000000) = 0x200000" by (simp add: u32_simps)
      moreover have "0xD61F0000 OR (0x200000 OR v) = 0xD63F0000 OR (v :: u32)" for v
        by (simp flip: or.assoc)
      ultimately show ?thesis using ws [of 1] branch r BL by (simp add: or.assoc)
    qed (use branch(3) in \<open>auto split: if_splits\<close>)
    moreover have "effect m i (s\<lparr>pc := ia\<rparr>) = (Some (ia + IMM26_OFFSET ins),
        if is_call i then set_x 30 (ia + 4) (s\<lparr>pc := ia\<rparr>) else s\<lparr>pc := ia\<rparr>)"
      using branch(3) dec decode_B [of ins] decode_BL [of ins]
      by (cases i) (auto simp: effect_def split: if_splits)
    ultimately have "runs_like 2 m m' (avail ctx) i ia (insn_addr t (Suc (Suc ?d))) s"
      using ws [of 0] ls [of 0] branch r d buf s by (intro runs_branch [OF code]) auto
    then show ?thesis using branch d1 runs_like_mono by fastforce
  next
    case (always w)
    obtain r where r: "w = of_nat r" "9 \<le> r" "r \<le> 15" "bit (avail ctx) r"
      using to_regno_cases [OF always(5)] .
    obtain off where i: "i = B_cond 14 off" "off = IMM19_OFFSET ins"
      using always dec decode_B_cond [of ins] by (cases i) (auto split: if_splits)
    then have "effect m i (s\<lparr>pc := ia\<rparr>) = (Some (ia + IMM19_OFFSET ins), s\<lparr>pc := ia\<rparr>)"
      by (cases "nzcv s") (simp add: effect_def cond_holds_def)
    then have "runs_like 2 m m' (avail ctx) i ia (insn_addr t (Suc (Suc ?d))) s"
      using ws [of 0] ws [of 1] ls [of 0] always r d buf s i by (intro runs_branch [OF code]) auto
    then show ?thesis using always d1 runs_like_mono by fastforce
  next
    case (conditional w off rw)
    obtain r where r: "rw = of_nat r" "9 \<le> r" "r \<le> 15" "bit (avail ctx) r"
      using to_regno_cases [OF conditional(4)] .
    obtain j P where j: "decode w = Some j" and P: "\<And>s x. P (s\<lparr>pc := x\<rparr>) = P s"
      and e: "\<And>m s. effect m i s = (if P s then Some (pc s + off) else None, s)"
      "\<And>m s. effect m j s = (if P s then None else Some (pc s + 12), s)"
      using cond_branch_inverts [OF dec conditional(3) nv] by blast
    have "\<not> is_call i"
      using conditional(3) by (cases i) (auto simp: load_class split: if_splits)
    then have "runs_like 3 m m' (avail ctx) i ia (insn_addr t (Suc (Suc (Suc ?d)))) s"
      using ws [of 0] ws [of 1] ws [of 2] ls [of 0] conditional r d buf s
      by (intro runs_conditional [OF code _ _ _ _ j e(2)]) (auto simp: e P numeral_2_eq_2)
    then show ?thesis using conditional d1 by (simp add: numeral_3_eq_3)
  next
    case (load_label rw opc)
    obtain r where r: "rw = of_nat r" "9 \<le> r" "r \<le> 15" "bit (avail ctx) r"
      using to_regno_cases [OF load_label(5)] .
    obtain k where k: "load_lit_kind ins = Some k"
      "decode (opc OR TO_RN (of_nat r) OR RT_REGNO ins) = Some (Load_imm k (reg_at 0 ins) r 0)"
      using decode_load_imm [OF load_label(6), of r] r by auto
    have i: "i = Load_lit k (reg_at 0 ins) (IMM19_OFFSET ins)"
    proof (cases i)
      case (Load_lit k' rt off)
      then show ?thesis using dec decode_Load_lit [of ins] k(1) by auto
    next
      case (Load_imm k' rt rn off)
      then show ?thesis using dec decode_Load_imm [of ins] load_label by auto
    qed (use load_label(3) in \<open>auto split: if_splits\<close>)
    then have "runs_like 2 m m' (avail ctx) i ia (insn_addr t (Suc (Suc ?d))) s"
      using ws [of 0] ws [of 1] ls [of 0] load_label r d buf s k mem
      by (intro runs_load [OF code]) (auto simp: same_loads_def)
    then show ?thesis using load_label d1 runs_like_mono by fastforce
  qed
qed

end
