(* ===== verification/Arch_ARM64_Build.thy ===== *)
theory Arch_ARM64_Build
  imports Arch_ARM64_Sim
begin

text \<open>
  The loop of the ARM64 trampoline builder: it never overflows its areas, and a success is
  a sequence of moved instructions followed by the jump back.
\<close>

section \<open>Bounds of the loop\<close>

definition arm64_bounds :: "arm64_context \<Rightarrow> bool" where
  "arm64_bounds ctx \<longleftrightarrow> length (arm_buf ctx) = ARM64_TRAMPOLINE_SIZE \<and> arm_src ctx \<le> REL4G_JUMP_SIZE \<and>
     arm_lits ctx \<le> arm_src ctx \<and> arm_dst ctx \<le> 3 * arm_src ctx"

lemma bounds_room:
  assumes "arm64_bounds ctx"
  shows "arm_src ctx < REL4G_JUMP_SIZE \<Longrightarrow> room (ctx\<lparr>avail := a\<rparr>) 3" and "room ctx 2"
  using assms by (auto simp: arm64_bounds_def room_def arm64_sizes)

lemma bounds_advance:
  assumes "arm64_bounds ctx" and "arm_src ctx < REL4G_JUMP_SIZE" and "moved iid ins ia (ctx\<lparr>avail := a\<rparr>) ws ls"
    and "extended (ctx\<lparr>avail := a\<rparr>) ws ls ctx1"
  shows "arm64_bounds (advance_arm64 m func ctx1)"
    and "arm_src (advance_arm64 m func ctx1) = Suc (arm_src ctx) \<or> arm_src (advance_arm64 m func ctx1) = REL4G_JUMP_SIZE"
  using assms moved_length [OF assms(3)]
  by (auto simp: arm64_bounds_def extended_def advance_arm64_def arm64_sizes)

lemma initial_bounds: "arm64_bounds initial_arm64"
  by (simp add: arm64_bounds_def initial_arm64_def)

section \<open>The steps of a success\<close>

text \<open>The instructions moved one after the other.\<close>

inductive arm_steps ::
    "(u64 \<Rightarrow> u8) \<Rightarrow> u64 \<Rightarrow> arm64_context \<Rightarrow> funchook_insn_info list \<Rightarrow> arm64_context \<Rightarrow> bool"
  for m :: "u64 \<Rightarrow> u8" and func :: u64 where
  steps_done: "arm_steps m func ctx [] ctx"
| steps_more: "arm_src ctx < REL4G_JUMP_SIZE \<Longrightarrow>
    moved (insn_id info) (read_insn m (insn_addr func (arm_src ctx))) (insn_addr func (arm_src ctx))
      (ctx\<lparr>avail := avail ctx AND NOT (insn_regs info)\<rparr>) ws ls \<Longrightarrow>
    extended (ctx\<lparr>avail := avail ctx AND NOT (insn_regs info)\<rparr>) ws ls ctx1 \<Longrightarrow>
    arm_steps m func (advance_arm64 m func ctx1) infos ctx' \<Longrightarrow> arm_steps m func ctx (info # infos) ctx'"

inductive_cases steps_ConsE: "arm_steps m func ctx (info # infos) ctx'"
inductive_cases steps_NilE: "arm_steps m func ctx [] ctx'"

text \<open>The end of the loop: the jump back, and no branch into the patched instructions.\<close>

definition jump_back :: "u64 \<Rightarrow> arm64_context \<Rightarrow> nat \<Rightarrow> arm64_context \<Rightarrow> bool" where
  "jump_back func ctx r ctx1 \<longleftrightarrow> 9 \<le> r \<and> r \<le> 15 \<and> bit (avail ctx) r \<and>
     extended ctx [ldr_word (arm_dst ctx) (arm_lits ctx) (of_nat r), 0xD61F0000 OR TO_RN (of_nat r)]
       [insn_addr func (arm_src ctx)] ctx1"

lemma jump_back_words:
  assumes "jump_back func ctx' r ctx" and "arm64_bounds ctx'" and "arm_src ctx' = REL4G_JUMP_SIZE"
  shows "arm_buf ctx ! arm_dst ctx' = ldr_word (arm_dst ctx') (arm_lits ctx') (of_nat r)"
    and "arm_buf ctx ! Suc (arm_dst ctx') = 0xD61F0000 OR TO_RN (of_nat r)"
    and "pool_lit (arm_buf ctx) (arm_lits ctx') = halves (insn_addr func REL4G_JUMP_SIZE)"
    and "length (arm_buf ctx) = 14" and "arm_dst ctx' < 7" and "arm_lits ctx' < 3" and "agrees ctx' (arm_buf ctx)"
    and "9 \<le> r" and "r \<le> 15" and "bit (avail ctx') r"
proof -
  have e: "extended ctx' [ldr_word (arm_dst ctx') (arm_lits ctx') (of_nat r), 0xD61F0000 OR TO_RN (of_nat r)]
      [insn_addr func REL4G_JUMP_SIZE] ctx"
    and "9 \<le> r" "r \<le> 15" "bit (avail ctx') r"
    using assms(1,3) by (simp_all add: jump_back_def)
  then show "9 \<le> r" "r \<le> 15" "bit (avail ctx') r" by simp_all
  show "length (arm_buf ctx) = 14" "arm_dst ctx' < 7" "arm_lits ctx' < 3"
    using e assms(2,3) by (simp_all add: extended_def arm64_bounds_def arm64_sizes)
  then have "agrees ctx (arm_buf ctx)" by (simp add: agrees_def)
  note a = extended_agrees [OF e this]
  show "arm_buf ctx ! arm_dst ctx' = ldr_word (arm_dst ctx') (arm_lits ctx') (of_nat r)"
    "arm_buf ctx ! Suc (arm_dst ctx') = 0xD61F0000 OR TO_RN (of_nat r)"
    "pool_lit (arm_buf ctx) (arm_lits ctx') = halves (insn_addr func REL4G_JUMP_SIZE)" "agrees ctx' (arm_buf ctx)"
    using a(1) a(2) [of 0] a(2) [of 1] a(3) [of 0] by simp_all
qed

lemma finish_arm64_cases:
  assumes "arm64_bounds ctx"
  shows "case finish_arm64 m func rest ctx of
      Inl (f, msg) \<Rightarrow> f = Err ERROR_NO_AVAILABLE_REGISTERS \<or> f = Err ERROR_FOUND_BACK_JUMP
    | Inr (ctx1, n) \<Rightarrow> (\<exists>r. jump_back func ctx r ctx1) \<and> n = arm_dst ctx + 2 \<and>
        \<not> list_ex (jumps_back_arm64 m func (arm_src ctx)) rest"
proof (cases "to_regno (avail ctx)")
  case (Inl e)
  then show ?thesis
    by (cases e) (auto simp: finish_arm64_def with_regno_def dest: to_regno_error)
next
  case (Inr w)
  obtain r where r: "w = of_nat r" "9 \<le> r" "r \<le> 15" "bit (avail ctx) r"
    using to_regno_cases [OF Inr] .
  obtain ctx1 where c: "Option.bind (LDR_ADDR w (insn_addr func (arm_src ctx)) ctx) (BR_BY_REG w) = Some ctx1"
    and e: "extended ctx [ldr_word (arm_dst ctx) (arm_lits ctx) w, 0xD61F0000 OR TO_RN w] [insn_addr func (arm_src ctx)] ctx1"
    using ldr_emit_room [OF bounds_room(2) [OF assms], of w "insn_addr func (arm_src ctx)" "0xD61F0000 OR TO_RN w"]
    by (auto simp: BR_BY_REG_def [abs_def])
  have "arm_dst ctx1 = arm_dst ctx + 2" using e by (simp add: extended_def)
  then show ?thesis
    using Inr r c e by (auto simp: finish_arm64_def with_regno_def jump_back_def)
qed

text \<open>A success of the loop started at \<open>ctx\<close>.\<close>

definition loop_success ::
    "(u64 \<Rightarrow> u8) \<Rightarrow> u64 \<Rightarrow> arm64_context \<Rightarrow> funchook_insn_info list \<Rightarrow> arm64_context \<times> nat \<Rightarrow> bool" where
  "loop_success m func ctx infos res \<longleftrightarrow>
     (\<exists>used rest ctx' r. infos = used @ rest \<and> used \<noteq> [] \<and> arm_steps m func ctx used ctx' \<and>
        arm64_bounds ctx' \<and> arm_src ctx' = REL4G_JUMP_SIZE \<and> jump_back func ctx' r (fst res) \<and>
        snd res = arm_dst ctx' + 2 \<and> \<not> list_ex (jumps_back_arm64 m func REL4G_JUMP_SIZE) rest)"

lemma loop_success_one:
  assumes "arm_steps m func ctx [info] ctx'" and "arm64_bounds ctx'" and "arm_src ctx' = REL4G_JUMP_SIZE"
    and "jump_back func ctx' r c" and "\<not> list_ex (jumps_back_arm64 m func REL4G_JUMP_SIZE) rest"
  shows "loop_success m func ctx (info # rest) (c, arm_dst ctx' + 2)"
  unfolding loop_success_def
  by (rule exI [of _ "[info]"], rule exI [of _ rest], rule exI [of _ ctx']) (use assms in auto)

lemma loop_success_more:
  assumes "loop_success m func ctx2 infos res"
    and "\<And>used ctx'. arm_steps m func ctx2 used ctx' \<Longrightarrow> arm_steps m func ctx (info # used) ctx'"
  shows "loop_success m func ctx (info # infos) res"
  using assms unfolding loop_success_def by (metis append_Cons list.distinct(1))

text \<open>The loop fails with an error code, runs out of instructions, or ends with the jump back.\<close>

lemma arm64_loop_cases:
  assumes "arm64_bounds ctx" and "arm_src ctx < REL4G_JUMP_SIZE"
  shows "case arm64_loop m func infos ctx of
      Inl (f, msg) \<Rightarrow> f \<noteq> Crash
    | Inr res \<Rightarrow> arm_src (fst res) < REL4G_JUMP_SIZE \<and> snd res = 0 \<or> loop_success m func ctx infos res"
  using assms
proof (induction infos arbitrary: ctx)
  case Nil
  then show ?case by simp
next
  case (Cons info rest)
  let ?ctx = "ctx\<lparr>avail := avail ctx AND NOT (insn_regs info)\<rparr>"
  let ?ia = "insn_addr func (arm_src ctx)"
  have tr: "moved_or_error (insn_id info) (read_insn m ?ia) ?ia ?ctx (translate_arm64 m func (insn_id info) ?ctx)"
    using translate_moved [OF bounds_room(1) [OF Cons.prems]] by simp
  show ?case
  proof (cases "translate_arm64 m func (insn_id info) ?ctx")
    case (Inl e)
    then show ?thesis using tr by (cases e) (auto simp: moved_or_error_def)
  next
    case (Inr ctx1)
    then obtain ws ls where mv: "moved (insn_id info) (read_insn m ?ia) ?ia ?ctx ws ls" "extended ?ctx ws ls ctx1"
      using tr by (auto simp: moved_or_error_def)
    let ?ctx2 = "advance_arm64 m func ctx1"
    note b = bounds_advance [OF Cons.prems mv, where m = m and func = func]
    note more = steps_more [OF Cons.prems(2) mv]
    show ?thesis
    proof (cases "REL4G_JUMP_SIZE \<le> arm_src ?ctx2")
      case True
      then have src: "arm_src ?ctx2 = REL4G_JUMP_SIZE"
        using b(2) Cons.prems(2) by auto
      have loop: "arm64_loop m func (info # rest) ctx = finish_arm64 m func rest ?ctx2"
        using Inr True by simp
      have "case finish_arm64 m func rest ?ctx2 of Inl (f, msg) \<Rightarrow> f \<noteq> Crash
          | Inr res \<Rightarrow> loop_success m func ctx (info # rest) res"
        using finish_arm64_cases [OF b(1), where m = m and func = func and rest = rest]
          loop_success_one [OF more [OF steps_done] b(1) src]
        by (auto simp: src split: sum.splits)
      then show ?thesis unfolding loop by (auto split: sum.splits)
    next
      case False
      then have lt: "arm_src ?ctx2 < REL4G_JUMP_SIZE" by simp
      have loop: "arm64_loop m func (info # rest) ctx = arm64_loop m func rest ?ctx2"
        using Inr False by simp
      show ?thesis
      proof (cases "arm64_loop m func rest ?ctx2")
        case (Inl e)
        then show ?thesis using Cons.IH [OF b(1) lt] unfolding loop by simp
      next
        case (Inr res)
        have "arm_src (fst res) < REL4G_JUMP_SIZE \<and> snd res = 0 \<or> loop_success m func ?ctx2 rest res"
          using Cons.IH [OF b(1) lt] by (simp add: Inr)
        then have "arm_src (fst res) < REL4G_JUMP_SIZE \<and> snd res = 0 \<or> loop_success m func ctx (info # rest) res"
        proof
          assume "loop_success m func ?ctx2 rest res"
          from loop_success_more [OF this more] show ?thesis ..
        qed simp
        then show ?thesis unfolding loop by (simp add: Inr)
      qed
    qed
  qed
qed

text \<open>The result of the builder.\<close>

lemma make_trampoline_arm64_cases:
  assumes "disasm m func ARM64_MAX_INSN_CHECK_SIZE = Inr infos"
  shows "case funchook_make_trampoline_arm64 disasm m func of
      Inl (f, msg) \<Rightarrow> f \<noteq> Crash
    | Inr (d, buf, n) \<Rightarrow> \<exists>ctx. buf = arm_buf ctx \<and> loop_success m func initial_arm64 infos (ctx, n)"
  using assms arm64_loop_cases [OF initial_bounds, of m func infos]
  by (auto simp: funchook_make_trampoline_arm64_def initial_arm64_def arm64_sizes
      split: sum.splits prod.splits if_splits)

section \<open>Running the trampoline\<close>

text \<open>The registers still free after the instructions up to \<open>i\<close>.\<close>

definition free_regs :: "u32 \<Rightarrow> funchook_insn_info list \<Rightarrow> nat \<Rightarrow> u32" where
  "free_regs regs infos i = fold (\<lambda>info a. a AND NOT (insn_regs info)) (take (Suc i) infos) regs"

text \<open>
  The words at position \<open>p\<close> of the trampoline at \<open>t\<close>, up to position \<open>q\<close>, do what the
  instruction \<open>k\<close> of the function does: for every state, provided that the disassembler
  classified the instruction as the architecture does, that it is not a conditional branch
  with the condition code 15, and that the memory it loads from is unchanged.
\<close>

definition moved_insn ::
    "(u64 \<Rightarrow> u8) \<Rightarrow> (u64 \<Rightarrow> u8) \<Rightarrow> u64 \<Rightarrow> u64 \<Rightarrow> nat \<Rightarrow> funchook_arm64_insn_id \<Rightarrow> u32 \<Rightarrow> nat \<Rightarrow> nat \<Rightarrow> bool" where
  "moved_insn m m' func t k iid regs p q \<longleftrightarrow>
     (\<forall>a s. decode (read_insn m (insn_addr func k)) = Some a \<longrightarrow> a64_class a = iid \<longrightarrow>
        (\<forall>off. a \<noteq> B_cond 15 off) \<longrightarrow> same_loads m m' a (s\<lparr>pc := insn_addr func k\<rparr>) \<longrightarrow> pc s = insn_addr t p \<longrightarrow>
        runs_like 3 m m' regs a (insn_addr func k) (insn_addr t q) s)"

lemma agrees_context:
  "agrees (advance_arm64 m func ctx) buf = agrees ctx buf" "agrees (ctx\<lparr>avail := a\<rparr>) buf = agrees ctx buf"
  by (simp_all add: agrees_def advance_arm64_def)

lemma arm_steps_agrees:
  "arm_steps m func ctx infos ctx' \<Longrightarrow> agrees ctx' buf \<Longrightarrow> agrees ctx buf"
proof (induction rule: arm_steps.induct)
  case (steps_more ctx info ws ls ctx1 infos ctx')
  have "agrees ctx1 buf"
    using steps_more.IH [OF steps_more.prems] by (simp only: agrees_context)
  from extended_agrees(1) [OF steps_more.hyps(3) this] show ?case
    by (simp only: agrees_context)
qed

lemma arm_steps_run:
  assumes "arm_steps m func ctx infos ctx'" and "arm64_bounds ctx" and "agrees ctx' buf"
    and "code_at m' t (insn_bytes buf)"
  shows "\<exists>ps. length ps = Suc (length infos) \<and> ps ! 0 = arm_dst ctx \<and> ps ! length infos = arm_dst ctx' \<and>
    length infos \<le> REL4G_JUMP_SIZE - arm_src ctx \<and> avail ctx' = (if infos = [] then avail ctx else free_regs (avail ctx) infos (length infos - 1)) \<and>
    (\<forall>i < length infos. moved_insn m m' func t (arm_src ctx + i) (insn_id (infos ! i))
      (free_regs (avail ctx) infos i) (ps ! i) (ps ! Suc i))"
  using assms
proof (induction rule: arm_steps.induct)
  case (steps_done ctx)
  then show ?case by (intro exI [of _ "[arm_dst ctx]"]) simp
next
  case (steps_more ctx info ws ls ctx1 infos ctx')
  let ?ctx = "ctx\<lparr>avail := avail ctx AND NOT (insn_regs info)\<rparr>"
  let ?ctx2 = "advance_arm64 m func ctx1"
  note b = bounds_advance [OF steps_more.prems(1) steps_more.hyps(1-3), where m = m and func = func]
  obtain ps where ps: "length ps = Suc (length infos)" "ps ! 0 = arm_dst ?ctx2" "ps ! length infos = arm_dst ctx'"
    "length infos \<le> REL4G_JUMP_SIZE - arm_src ?ctx2"
    "avail ctx' = (if infos = [] then avail ?ctx2 else free_regs (avail ?ctx2) infos (length infos - 1))"
    "\<forall>i < length infos. moved_insn m m' func t (arm_src ?ctx2 + i) (insn_id (infos ! i))
      (free_regs (avail ?ctx2) infos i) (ps ! i) (ps ! Suc i)"
    using steps_more.IH [OF b(1) steps_more.prems(2,3)] by blast
  have av: "avail ?ctx2 = avail ctx AND NOT (insn_regs info)"
    using steps_more.hyps(3) by (simp add: extended_def advance_arm64_def)
  have "agrees ctx1 buf"
    using arm_steps_agrees [OF steps_more.hyps(4) steps_more.prems(2)] by (simp only: agrees_context)
  have "moved_insn m m' func t (arm_src ctx) (insn_id info) (avail ?ctx2) (arm_dst ctx) (arm_dst ?ctx2)"
    unfolding moved_insn_def
  proof (intro allI impI)
    fix a s
    assume a: "decode (read_insn m (insn_addr func (arm_src ctx))) = Some a" "a64_class a = insn_id info"
      "\<forall>off. a \<noteq> B_cond 15 off" "same_loads m m' a (s\<lparr>pc := insn_addr func (arm_src ctx)\<rparr>)" "pc s = insn_addr t (arm_dst ctx)"
    have d: "arm_dst ?ctx2 = arm_dst ctx1" by (simp add: advance_arm64_def)
    show "runs_like 3 m m' (avail ?ctx2) a (insn_addr func (arm_src ctx)) (insn_addr t (arm_dst ?ctx2)) s"
      using moved_runs_like [OF steps_more.hyps(2) [folded a(2)] steps_more.hyps(3)
          bounds_room(1) [OF steps_more.prems(1) steps_more.hyps(1)] \<open>agrees ctx1 buf\<close> steps_more.prems(3) a(1,3,4)] a(5)
      by (simp add: av d)
  qed
  moreover have "arm_src ?ctx2 + i = Suc (arm_src ctx) + i" if "i < length infos" for i
    using that ps(4) b(2) by auto
  ultimately show ?case
    using ps b(2) steps_more.hyps(1)
    by (intro exI [of _ "arm_dst ctx # ps"])
      (auto simp: av free_regs_def nth_Cons less_Suc_eq_0_disj split: nat.split)
qed

section \<open>What follows the moved instructions\<close>

text \<open>
  The number of instructions moved: one when the function starts with an unconditional
  branch and an undefined instruction, else two.
\<close>

definition arm64_moved :: "(u64 \<Rightarrow> u8) \<Rightarrow> u64 \<Rightarrow> nat" where
  "arm64_moved m func =
     (if read_insn m func AND 0xFC000000 = 0x14000000 \<and> read_insn m (insn_addr func 1) AND 0xFFFF0000 = 0
      then 1 else 2)"

text \<open>Two memories with the same first three words of the function.\<close>

definition same_words :: "(u64 \<Rightarrow> u8) \<Rightarrow> (u64 \<Rightarrow> u8) \<Rightarrow> u64 \<Rightarrow> bool" where
  "same_words m m' func \<longleftrightarrow> (\<forall>i < 3. read_insn m' (insn_addr func i) = read_insn m (insn_addr func i))"

lemma same_words_read:
  assumes "same_words m m' func"
  shows "i < 3 \<Longrightarrow> read_insn m' (insn_addr func i) = read_insn m (insn_addr func i)"
    and "read_insn m' func = read_insn m func"
  using assms unfolding same_words_def by blast (use assms in \<open>force simp: same_words_def insn_addr_def dest: spec [of _ 0]\<close>)

lemma finish_arm64_rest:
  assumes "same_words m m' func" and "arm_src c = 2" and "finish_arm64 m func r c = Inr x"
  shows "finish_arm64 m' func rest c =
    (if list_ex (jumps_back_arm64 m func 2) rest
     then Inl (Err ERROR_FOUND_BACK_JUMP,
       ''instruction jumping back to the hot-patched region was found'')
     else Inr x)"
proof -
  have "jumps_back_arm64 m' func 2 = jumps_back_arm64 m func 2"
    using same_words_read(1) [OF assms(1), of 2] by (intro ext) (simp add: jumps_back_arm64_def)
  with assms(2,3) show ?thesis
    by (auto simp: finish_arm64_def with_regno_def crash_def split: sum.splits option.splits if_splits)
qed

text \<open>One round of the loop.\<close>

lemma arm64_round:
  assumes "same_words m m' func" and "arm64_bounds ctx" and "arm_src ctx < 2"
    and "arm64_loop m func (info # infos) ctx = Inr x"
  obtains c where "\<forall>r. arm64_loop m func (info # r) ctx =
      (if REL4G_JUMP_SIZE \<le> arm_src c then finish_arm64 m func r c else arm64_loop m func r c)"
    and "\<forall>r. arm64_loop m' func (info # r) ctx =
      (if REL4G_JUMP_SIZE \<le> arm_src c then finish_arm64 m' func r c else arm64_loop m' func r c)"
    and "arm64_bounds c"
    and "arm_src c = (if arm64_moved m func = 1 then 2 else arm_src ctx + 1)"
proof -
  let ?ctx = "ctx\<lparr>avail := avail ctx AND NOT (insn_regs info)\<rparr>"
  let ?ia = "insn_addr func (arm_src ctx)"
  have lt: "arm_src ctx < REL4G_JUMP_SIZE" using assms(3) by (simp add: arm64_sizes)
  have tr: "moved_or_error (insn_id info) (read_insn m ?ia) ?ia ?ctx (translate_arm64 m func (insn_id info) ?ctx)"
    using translate_moved [OF bounds_room(1) [OF assms(2) lt]] by simp
  from assms(4) obtain c1 where c1: "translate_arm64 m func (insn_id info) ?ctx = Inr c1"
    by (auto split: sum.splits)
  then obtain ws ls where mv: "moved (insn_id info) (read_insn m ?ia) ?ia ?ctx ws ls" "extended ?ctx ws ls c1"
    using tr by (auto simp: moved_or_error_def)
  have "translate_arm64 m' func (insn_id info) ?ctx = translate_arm64 m func (insn_id info) ?ctx"
    using same_words_read(1) [OF assms(1), of "arm_src ctx"] assms(3)
    by (simp add: translate_arm64_def)
  with c1 have c1': "translate_arm64 m' func (insn_id info) ?ctx = Inr c1" by simp
  have adv: "advance_arm64 m' func c1 = advance_arm64 m func c1"
    using same_words_read [OF assms(1)] by (simp add: advance_arm64_def)
  have "arm_src c1 = arm_src ctx" using mv(2) by (simp add: extended_def)
  then have src: "arm_src (advance_arm64 m func c1) = (if arm64_moved m func = 1 then 2 else arm_src ctx + 1)"
    by (simp add: advance_arm64_def arm64_moved_def)
  show ?thesis
    by (rule that [OF _ _ bounds_advance(1) [OF assms(2) lt mv] src])
      (simp_all add: c1 c1' adv)
qed

lemma arm64_loop_moved:
  assumes "same_words m m' func" and "arm64_loop m func infos initial_arm64 = Inr (ctx, n)"
    and "REL4G_JUMP_SIZE \<le> arm_src ctx"
  shows "arm64_loop m' func (take (arm64_moved m func) infos @ rest) initial_arm64 =
    (if list_ex (jumps_back_arm64 m func 2) rest
     then Inl (Err ERROR_FOUND_BACK_JUMP,
       ''instruction jumping back to the hot-patched region was found'')
     else Inr (ctx, n))"
proof -
  have s0: "arm_src initial_arm64 = 0" by (simp add: initial_arm64_def)
  with assms(2,3) obtain i1 r1 where i1: "infos = i1 # r1"
    by (cases infos) (auto simp: arm64_sizes)
  have lt0: "arm_src initial_arm64 < 2" by (simp add: s0)
  obtain c where c: "\<forall>r. arm64_loop m func (i1 # r) initial_arm64 =
      (if REL4G_JUMP_SIZE \<le> arm_src c then finish_arm64 m func r c else arm64_loop m func r c)"
    "\<forall>r. arm64_loop m' func (i1 # r) initial_arm64 =
      (if REL4G_JUMP_SIZE \<le> arm_src c then finish_arm64 m' func r c else arm64_loop m' func r c)"
    "arm64_bounds c" "arm_src c = (if arm64_moved m func = 1 then 2 else arm_src initial_arm64 + 1)"
    by (rule arm64_round [OF assms(1) initial_bounds lt0 assms(2) [unfolded i1]]) (rule that)
  note c4 = c(4) [unfolded s0]
  show ?thesis
  proof (cases "arm64_moved m func = 1")
    case True
    then have "finish_arm64 m func r1 c = Inr (ctx, n)"
      using assms(2) c(1) c4 by (simp add: i1 arm64_sizes del: arm64_loop.simps)
    from finish_arm64_rest [OF assms(1) _ this] True c4 show ?thesis
      by (simp add: i1 c(2) arm64_sizes del: arm64_loop.simps)
  next
    case False
    then have two: "arm64_moved m func = 2" by (simp add: arm64_moved_def split: if_splits)
    have l: "arm64_loop m func r1 c = Inr (ctx, n)"
      using assms(2) c(1) c4 False by (simp add: i1 arm64_sizes del: arm64_loop.simps)
    with assms(3) c4 False obtain i2 r2 where i2: "r1 = i2 # r2"
      by (cases r1) (auto simp: arm64_sizes)
    have lt1: "arm_src c < 2" using c4 False by simp
    obtain d where d: "\<forall>r. arm64_loop m func (i2 # r) c =
        (if REL4G_JUMP_SIZE \<le> arm_src d then finish_arm64 m func r d else arm64_loop m func r d)"
      "\<forall>r. arm64_loop m' func (i2 # r) c =
        (if REL4G_JUMP_SIZE \<le> arm_src d then finish_arm64 m' func r d else arm64_loop m' func r d)"
      "arm64_bounds d" "arm_src d = (if arm64_moved m func = 1 then 2 else arm_src c + 1)"
      by (rule arm64_round [OF assms(1) c(3) lt1 l [unfolded i2]]) (rule that)
    have d2: "arm_src d = 2" using d(4) c4 False by simp
    have "finish_arm64 m func r2 d = Inr (ctx, n)"
      using l d(1) d2 by (simp add: i2 arm64_sizes del: arm64_loop.simps)
    from finish_arm64_rest [OF assms(1) d2 this] show ?thesis
      using c4 False by (simp add: i1 i2 two c(2) d(2) d2 arm64_sizes del: arm64_loop.simps)
  qed
qed

lemma make_trampoline_arm64_moved:
  assumes "disasm m func ARM64_MAX_INSN_CHECK_SIZE = Inr infos"
    and "funchook_make_trampoline_arm64 disasm m func = Inr r"
    and "same_words m m' func"
    and "disasm' m' func ARM64_MAX_INSN_CHECK_SIZE = Inr (take (arm64_moved m func) infos @ rest)"
  shows "funchook_make_trampoline_arm64 disasm' m' func =
    (if list_ex (jumps_back_arm64 m func 2) rest
     then Inl (Err ERROR_FOUND_BACK_JUMP,
       ''instruction jumping back to the hot-patched region was found'')
     else Inr r)"
proof -
  from assms(1,2) obtain ctx n where l: "arm64_loop m func infos initial_arm64 = Inr (ctx, n)"
    and src: "REL4G_JUMP_SIZE \<le> arm_src ctx" and r: "r = ((), arm_buf ctx, n)"
    by (auto simp: funchook_make_trampoline_arm64_def split: sum.splits if_splits)
  from arm64_loop_moved [OF assms(3) l src, of rest] src r show ?thesis
    by (simp add: funchook_make_trampoline_arm64_def assms(4))
qed

end
