(* ===== verification/Arch_ARM64_Entry.thy ===== *)
theory Arch_ARM64_Entry
  imports Arch_ARM64_Build
begin

text \<open>
  The jumps of an entry on ARM64: from the patched function to the transit code with ADRP
  and BR, and from the transit code to the hook or the hook caller.
\<close>

section \<open>The jump to another page\<close>

lemma signed_take_bit_immhi:
  fixes i :: int
  assumes "- (2 ^ 18) \<le> i" and "i < 2 ^ 18"
  shows "sfield 19 0 (of_int i AND 0x7FFFF) = of_int i"
proof -
  have "(0x7FFFF :: u32) = mask 19" by (simp add: mask_eq_exp_minus_1)
  then have "(of_int i AND 0x7FFFF :: u32) = take_bit 19 (of_int i)"
    by (simp add: take_bit_eq_mask)
  then have "signed_take_bit 18 (uint (of_int i AND 0x7FFFF :: u32)) = signed_take_bit 18 (take_bit 19 (take_bit 32 i))"
    by (simp add: unsigned_take_bit_eq uint_word_of_int_eq)
  also have "\<dots> = signed_take_bit 18 i"
    by (rule signed_take_bit_eq_iff_take_bit_eq [THEN iffD2]) (simp add: take_bit_take_bit)
  also have "\<dots> = i"
    using assms by (intro signed_take_bit_int_eq_self) simp_all
  finally show ?thesis by (simp add: sfield_def)
qed

lemma decode_adrp:
  fixes lo hi :: u32
  assumes "lo AND 0xFFFFFFFC = 0" and "hi AND 0xFFF80000 = 0"
  shows "decode (0x90000009 OR push_bit 29 lo OR push_bit 5 hi) =
    Some (ADRP 9 (push_bit 12 (push_bit 2 (sfield 19 0 hi) + ucast lo)))" (is "decode ?w = _")
proof -
  have "sfield 19 5 ?w = sfield 19 0 hi"
    by (rule sfield_cong) (use assms in \<open>simp_all add: u32_simps\<close>)
  moreover have "drop_bit 29 ?w AND 3 = lo" "drop_bit 0 ?w AND 31 = 9"
    "?w AND 0x9F000000 \<noteq> 0x10000000" "?w AND 0x9F000000 = 0x90000000"
    using assms by (simp_all add: u32_simps)
  ultimately show ?thesis
    by (simp add: decode_def adr_imm_def reg_at_def)
qed

lemma mask_bits: "(of_int i AND 3) AND 0xFFFFFFFC = (0 :: u32)" "(of_int i AND 0x7FFFF) AND 0xFFF80000 = (0 :: u32)"
  by (simp_all add: and.assoc)

lemma adrp_imm:
  fixes d :: u64
  assumes "d AND 0xFFF = 0" and "- (2 ^ 32) \<le> sint d" and "sint d < 2 ^ 32"
  shows "push_bit 12 (push_bit 2 (sfield 19 0 (of_int (drop_bit 14 (sint d)) AND 0x7FFFF)) +
    ucast (of_int (drop_bit 12 (sint d)) AND 3 :: u32)) = d"
proof -
  let ?P = "drop_bit 12 (sint d)"
  have "(3 :: u32) = mask 2" by (simp add: mask_eq_exp_minus_1)
  then have "(of_int ?P AND 3 :: u32) = take_bit 2 (of_int ?P)"
    by (simp add: take_bit_eq_mask)
  then have "uint (of_int ?P AND 3 :: u32) = take_bit 2 ?P"
    by (simp add: unsigned_take_bit_eq uint_word_of_int_eq take_bit_take_bit)
  then have lo: "ucast (of_int ?P AND 3 :: u32) = (of_int (?P mod 4) :: u64)"
    by (simp add: unsigned_ucast_eq take_bit_eq_mod) (metis ucast_eq)
  have "drop_bit 14 (sint d) = ?P div 4"
    by (simp add: drop_bit_eq_div zdiv_zmult2_eq [symmetric])
  moreover have "- (2 ^ 18) \<le> ?P div 4" "?P div 4 < 2 ^ 18"
    using assms(2,3) by (simp_all add: drop_bit_eq_div)
  ultimately have hi: "sfield 19 0 (of_int (drop_bit 14 (sint d)) AND 0x7FFFF) = of_int (?P div 4)"
    by (simp only: signed_take_bit_immhi)
  have "push_bit 2 (of_int (?P div 4)) + of_int (?P mod 4) = (of_int (4 * (?P div 4) + ?P mod 4) :: u64)"
    unfolding of_int_add of_int_mult by (simp add: push_bit_eq_mult)
  then have sum: "push_bit 2 (of_int (?P div 4)) + of_int (?P mod 4) = (of_int ?P :: u64)"
    by (simp only: mult_div_mod_eq)
  have "push_bit 12 (of_int ?P :: u64) = of_int (push_bit 12 ?P)"
    by (simp add: push_bit_of_int)
  also have "push_bit 12 ?P = sint d AND NOT (mask 12)"
    by (rule bit_eqI) (auto simp: bit_simps)
  also have "of_int (sint d AND NOT (mask 12)) = (d AND NOT (mask 12) :: u64)"
    by (rule bit_word_eqI) (auto simp: bit_simps)
  also have "\<dots> = d"
  proof (rule bit_word_eqI)
    fix k assume k: "k < LENGTH(64)"
    have "d AND mask 12 = 0" using assms(1) by (simp add: mask_eq_exp_minus_1)
    then have "\<not> (bit d k \<and> bit (mask 12 :: u64) k)"
      by (metis bit_and_iff bit_0_eq bot_apply bot_bool_def)
    then show "bit (d AND NOT (mask 12)) k = bit d k"
      using k by (auto simp: bit_simps)
  qed
  finally show ?thesis
    by (simp only: lo hi sum)
qed

text \<open>The two words written into the function jump to a page-aligned address.\<close>

lemma page_offset: "a AND NOT 0xFFF = a - (a AND 0xFFF)" for a :: u64
proof -
  have "(a AND NOT 0xFFF) + (a AND 0xFFF) = (a AND NOT 0xFFF) OR (a AND 0xFFF)"
    by (rule disjunctive_add_eq_or) (simp add: and.assoc and.left_commute [of _ a])
  also have "\<dots> = a"
    by (rule bit_word_eqI) (auto simp: bit_simps)
  finally show ?thesis by (simp add: eq_diff_eq)
qed

lemma run_relative_4g_jump:
  fixes func ea :: u64
  assumes code: "funchook_write_relative_4g_jump func ea out = Some w" "length out = 2" "code_at m func (insn_bytes w)"
    and ea: "ea AND 0xFFF = 0"
    and near: "- (2 ^ 32) \<le> sint (ea - (func AND NOT 0xFFF))" "sint (ea - (func AND NOT 0xFFF)) < 2 ^ 32"
    and s: "pc s = func"
  shows "arm_run 2 m s = Some ((set_x 9 ea s)\<lparr>pc := ea\<rparr>)"
proof -
  let ?d = "ea - (func AND NOT 0xFFF)"
  let ?w = "0x90000009 OR push_bit 29 (of_int (drop_bit 12 (sint ?d)) AND 3) OR
    push_bit 5 (of_int (drop_bit 14 (sint ?d)) AND 0x7FFFF) :: u32"
  have pages: "ea AND NOT 0xFFF = ea" "?d AND 0xFFF = 0"
  proof -
    show "ea AND NOT 0xFFF = ea" using page_offset [of ea] ea by simp
    have "take_bit 12 ea = 0" "take_bit 12 (func AND NOT 0xFFF) = 0"
      using ea by (simp_all add: take_bit_eq_mask mask_eq_exp_minus_1 and.assoc)
    then have "2 ^ 12 dvd ea" "2 ^ 12 dvd (func AND NOT 0xFFF)"
      by (simp_all only: take_bit_eq_0_iff)
    from dvd_diff [OF this] have "take_bit 12 ?d = 0" by (simp only: take_bit_eq_0_iff)
    then have "?d AND mask 12 = 0" by (simp only: take_bit_eq_mask)
    then show "?d AND 0xFFF = 0" by (simp add: mask_eq_exp_minus_1)
  qed
  have "buf_write 0 [?w, 0xd61f0120] out = Some w"
    using code(1) by (simp only: funchook_write_relative_4g_jump_def Let_def page_of_address pages(1))
  then have w: "w = [?w, 0xd61f0120]"
    using code(2) unfolding buf_write_def by (simp split: if_splits)
  have dec: "decode ?w = Some (ADRP 9 ?d)"
    using decode_adrp [OF mask_bits] adrp_imm [OF pages(2) near] by simp
  have "read_insn m func = ?w" "read_insn m (func + 4) = 0xd61f0120"
    using read_insn_at [OF code(3), of 0] read_insn_at [OF code(3), of 1] w by (simp_all add: insn_addr_def)
  moreover have "decode 0xd61f0120 = Some (BR 9)"
    by code_simp
  ultimately show ?thesis
    using dec by (simp add: numeral_2_eq_2 arm_step_def effect_def s set_x_def get_x_def)
qed

text \<open>The transit code without a prehook, and with one.\<close>

lemma run_absolute_jump:
  assumes code: "funchook_write_absolute_jump_arm64 out d (FUNCHOOK_ARM64_REG 9) = Inr (Some w)" "length out = 6"
    "code_at m ea (insn_bytes w)" and s: "pc s = ea"
  shows "arm_run 2 m s = Some ((set_x 9 d s)\<lparr>pc := d\<rparr>)"
proof -
  have "to_regno (FUNCHOOK_ARM64_REG 9) = Inr 9"
    by code_simp
  then have w: "w = [0x58000049, 0xd61f0120, ucast d, ucast (drop_bit 32 d)] @ drop 4 out"
    using code(1,2) by (auto simp: funchook_write_absolute_jump_arm64_def buf_write_def TO_RN_def eval_nat_numeral)
  have r: "read_insn m ea = 0x58000049" "read_insn m (ea + 4) = 0xd61f0120"
    using read_insn_at [OF code(3), of 0] read_insn_at [OF code(3), of 1] by (simp_all add: w insn_addr_def)
  have "mem_read m (ea + 8) 8 = mem_read m (insn_addr ea 2) 4 @ mem_read m (insn_addr ea 3) 4"
    using mem_read_append [of m "ea + 8" 4 4] by (simp add: insn_addr_def add.commute)
  also have "\<dots> = le_bytes 8 d"
    using word_in_memory [OF code(3), of 2] word_in_memory [OF code(3), of 3]
    by (simp add: w le_bytes_halves numeral_2_eq_2 numeral_3_eq_3)
  finally have l: "of_le_bytes (mem_read m (ea + 8) 8) = d" by simp
  have "decode 0x58000049 = Some (Load_lit Load_X 9 8)" "decode 0xd61f0120 = Some (BR 9)"
    by code_simp+
  with r r [unfolded add.commute [of ea]] l l [unfolded add.commute [of ea]] show ?thesis
    by (simp add: numeral_2_eq_2 arm_step_def effect_def load_def s set_x_def get_x_def)
qed

lemma run_arm64_transit:
  assumes code: "funchook_write_jump_with_prehook_arm64 hc e = Some e'" "code_at m ea (insn_bytes (transit e'))"
    and s: "pc s = ea"
  shows "arm_run 3 m s = Some ((set_x 9 hc (set_x 10 ea s))\<lparr>pc := hc\<rparr>)"
proof -
  have w: "transit e' = [0x1000000a, 0x58000069, 0xd61f0120, 0xd503201f, ucast hc, ucast (drop_bit 32 hc)]"
    using code(1) by (auto simp: funchook_write_jump_with_prehook_arm64_def buf_write_def
        TRANSIT_CODE_TEMPLATE_arm64_def TRANSIT_HOOK_CALLER_ADDR_arm64_def)
  have r: "read_insn m ea = 0x1000000a" "read_insn m (ea + 4) = 0x58000069" "read_insn m (ea + 8) = 0xd61f0120"
    using read_insn_at [OF code(2), of 0] read_insn_at [OF code(2), of 1] read_insn_at [OF code(2), of 2]
    by (simp_all add: w insn_addr_def)
  have "mem_read m (ea + 16) 8 = mem_read m (insn_addr ea 4) 4 @ mem_read m (insn_addr ea 5) 4"
    using mem_read_append [of m "ea + 16" 4 4] by (simp add: insn_addr_def add.commute)
  also have "\<dots> = le_bytes 8 hc"
    using word_in_memory [OF code(2), of 4] word_in_memory [OF code(2), of 5]
    by (simp add: w le_bytes_halves)
  finally have l: "of_le_bytes (mem_read m (ea + 16) 8) = hc" by simp
  have "decode 0x1000000a = Some (ADR 10 0)" "decode 0x58000069 = Some (Load_lit Load_X 9 12)"
    "decode 0xd61f0120 = Some (BR 9)"
    by code_simp+
  with r r [unfolded add.commute [of ea]] l l [unfolded add.commute [of ea]] show ?thesis
    by (simp add: numeral_3_eq_3 arm_step_def effect_def load_def s set_x_def get_x_def)
qed

lemma arm_run_add: "arm_run (j + k) m s = Option.bind (arm_run j m s) (arm_run k m)"
  by (induction j arbitrary: s) (auto split: bind_split)

text \<open>What \<open>funchook_fix_code\<close> writes.\<close>

lemma fix_code_arm64:
  assumes "funchook_fix_code_arm64 hc ea entry () = Some e"
  shows "funchook_write_relative_4g_jump (target_func entry) ea (new_code entry) = Some (new_code e)"
    and "prehook entry \<noteq> 0 \<Longrightarrow> \<exists>e0. funchook_write_jump_with_prehook_arm64 hc e0 = Some e"
    and "prehook entry = 0 \<Longrightarrow> funchook_write_absolute_jump_arm64 (transit entry)
      (if hook_func entry \<noteq> 0 then hook_func entry else ea + 72) (FUNCHOOK_ARM64_REG 9) = Inr (Some (transit e))"
proof -
  have r: "to_regno (FUNCHOOK_ARM64_REG 9) = Inr 9" by code_simp
  show "funchook_write_relative_4g_jump (target_func entry) ea (new_code entry) = Some (new_code e)"
    using assms
    by (auto simp: funchook_fix_code_arm64_def funchook_write_jump_with_prehook_arm64_def Let_def bind_eq_Some_conv
        split: if_splits sum.splits)
  show "prehook entry \<noteq> 0 \<Longrightarrow> \<exists>e0. funchook_write_jump_with_prehook_arm64 hc e0 = Some e"
    using assms by (auto simp: funchook_fix_code_arm64_def Let_def bind_eq_Some_conv)
  show "prehook entry = 0 \<Longrightarrow> funchook_write_absolute_jump_arm64 (transit entry)
      (if hook_func entry \<noteq> 0 then hook_func entry else ea + 72) (FUNCHOOK_ARM64_REG 9) = Inr (Some (transit e))"
    using assms by (auto simp: funchook_fix_code_arm64_def funchook_write_absolute_jump_arm64_def r Let_def
        bind_eq_Some_conv)
qed

end
