(* ===== verification/Arch_ARM64_Correct.thy ===== *)
theory Arch_ARM64_Correct
  imports Arch_ARM64_Entry
begin

text \<open>
  The properties of the ARM64 code generator: bounds, the effect of the moved instructions,
  the jumps of an entry, and the addresses instructions refer to.
\<close>

section \<open>A function to try them on\<close>

text \<open>\<open>cbz x0, +16; ldr x2, +32; ret\<close> at 0x400000, followed by \<open>nop\<close>.\<close>

definition sample_arm64_words :: "u32 list" where
  "sample_arm64_words = [0xB4000080, 0x58000102, 0xD65F03C0]"

definition sample_arm64_mem :: "u64 \<Rightarrow> u8" where
  "sample_arm64_mem x =
     (if unat (x - 0x400000) < 12 then insn_bytes sample_arm64_words ! unat (x - 0x400000)
      else [0x1f, 0x20, 0x03, 0xd5] ! (unat x mod 4))"

definition sample_arm64_infos :: "funchook_insn_info list" where
  "sample_arm64_infos =
     [\<lparr>insn_id = ARM64_INSN_CBZ, insn_regs = 0\<rparr>, \<lparr>insn_id = ARM64_INSN_LDR, insn_regs = 0\<rparr>,
      \<lparr>insn_id = ARM64_INSN_OTHER, insn_regs = 0\<rparr>]"

definition sample_arm64_disasm ::
    "(u64 \<Rightarrow> u8) \<Rightarrow> u64 \<Rightarrow> nat \<Rightarrow> funchook_insn_info list with_message" where
  "sample_arm64_disasm m func n = Inr sample_arm64_infos"

definition sample_arm64_trampoline :: "u32 list" where
  "sample_arm64_trampoline =
     [0xB5000060, 0x580000E9, 0xD61F0120, 0x580000E9, 0xF9400122, 0x580000E9, 0xD61F0120, 0,
      0x400010, 0, 0x400024, 0, 0x400008, 0]"

lemma sample_arm64_disasm_ok:
  "sample_arm64_disasm sample_arm64_mem 0x400000 ARM64_MAX_INSN_CHECK_SIZE = Inr sample_arm64_infos"
  by (simp add: sample_arm64_disasm_def)

lemma sample_arm64_run:
  "funchook_make_trampoline_arm64 sample_arm64_disasm sample_arm64_mem 0x400000 = Inr ((), sample_arm64_trampoline, 7)"
  by code_simp

section \<open>Bounds\<close>

text \<open>
  C24: \<open>make_trampoline_arm64_bounds\<close>. Whatever the instructions of the function are,
  building the ARM64 trampoline never writes past the trampoline, and code and literals
  never meet: a success has at most eight words of code, which end before the literal pool,
  and ends with a load of the literal for the return address and a branch.
\<close>

theorem make_trampoline_arm64_bounds:
  assumes "disasm m func ARM64_MAX_INSN_CHECK_SIZE = Inr infos"
  shows "case funchook_make_trampoline_arm64 disasm m func of
      Inl (f, msg) \<Rightarrow> f \<noteq> Crash
    | Inr (d, buf, n) \<Rightarrow> length buf = ARM64_TRAMPOLINE_SIZE \<and> 2 \<le> n \<and> n \<le> LITERAL_POOL_OFFSET \<and>
        (\<exists>r l. l < LITERAL_POOL_NUM \<and> pool_lit buf l = halves (insn_addr func REL4G_JUMP_SIZE) \<and>
          decode (buf ! (n - 2)) = Some (Load_lit Load_X r (of_nat (4 * (LITERAL_POOL_OFFSET + 2 * l + 2 - n)))) \<and>
          decode (buf ! (n - 1)) = Some (BR r))"
proof (cases "funchook_make_trampoline_arm64 disasm m func")
  case (Inl e)
  then show ?thesis
    using make_trampoline_arm64_cases [of disasm m func infos, OF assms] by auto
next
  case (Inr res)
  obtain d buf n where res: "res = (d, buf, n)" by (cases res)
  obtain ctx where "buf = arm_buf ctx" "loop_success m func initial_arm64 infos (ctx, n)"
    using make_trampoline_arm64_cases [of disasm m func infos, OF assms] by (auto simp: Inr res)
  then obtain ctx' r where c: "arm64_bounds ctx'" "arm_src ctx' = REL4G_JUMP_SIZE" "jump_back func ctx' r ctx"
    "n = arm_dst ctx' + 2"
    by (auto simp: loop_success_def)
  let ?l = "arm_lits ctx'"
  note w = jump_back_words [OF c(3,1,2), folded \<open>buf = arm_buf ctx\<close>]
  have i: "1 \<le> int (8 + 2 * ?l) - int (arm_dst ctx')" "int (8 + 2 * ?l) - int (arm_dst ctx') \<le> 12"
    using w(5,6) by simp_all
  have "4 * (int (8 + 2 * ?l) - int (arm_dst ctx')) = int (4 * (8 + 2 * ?l - arm_dst ctx'))"
    using w(5) by (simp add: of_nat_diff)
  then have off: "of_int (4 * (int (8 + 2 * ?l) - int (arm_dst ctx'))) = (of_nat (4 * (8 + 2 * ?l - arm_dst ctx')) :: u64)"
    by (simp only: of_int_of_nat_eq)
  have "decode (buf ! arm_dst ctx') = Some (Load_lit Load_X r (of_nat (4 * (8 + 2 * ?l - arm_dst ctx'))))"
    using decode_ldr_literal [OF i, of r] w(1,9) off by (simp add: ldr_word_def)
  then have "decode (buf ! (n - 2)) = Some (Load_lit Load_X r (of_nat (4 * (LITERAL_POOL_OFFSET + 2 * ?l + 2 - n))))"
    by (simp add: c(4) arm64_sizes)
  moreover have "decode (buf ! (n - 1)) = Some (BR r)"
    using decode_branch_reg(1) [of r] w(2,9) by (simp add: c(4))
  moreover have "length buf = ARM64_TRAMPOLINE_SIZE" "2 \<le> n" "n \<le> LITERAL_POOL_OFFSET" "?l < LITERAL_POOL_NUM"
    using w(4-6) by (simp_all add: c(4) arm64_sizes)
  ultimately show ?thesis
    using w(3) unfolding Inr res sum.case prod.case by blast
qed

theorem make_trampoline_arm64_bounds_witness:
  "\<exists>r l. l < LITERAL_POOL_NUM \<and> pool_lit sample_arm64_trampoline l = halves (insn_addr 0x400000 REL4G_JUMP_SIZE) \<and>
     decode (sample_arm64_trampoline ! 5) = Some (Load_lit Load_X r (of_nat (4 * (LITERAL_POOL_OFFSET + 2 * l - 5)))) \<and>
     decode (sample_arm64_trampoline ! 6) = Some (BR r)"
  using make_trampoline_arm64_bounds [where disasm = sample_arm64_disasm, OF sample_arm64_disasm_ok]
  by (simp add: sample_arm64_run arm64_sizes)

section \<open>The moved instructions\<close>

text \<open>How the trampoline of a function runs.\<close>

lemma arm64_trampoline_refines:
  assumes "disasm m func ARM64_MAX_INSN_CHECK_SIZE = Inr infos"
    and "funchook_make_trampoline_arm64 disasm m func = Inr (d, buf, n)"
    and "code_at m' t (insn_bytes buf)"
  shows "\<exists>k ps. 1 \<le> k \<and> k \<le> REL4G_JUMP_SIZE \<and> k \<le> length infos \<and> ps ! 0 = 0 \<and> ps ! k + 2 = n \<and>
    (\<forall>i < k. moved_insn m m' func t i (insn_id (infos ! i))
      (free_regs FUNCHOOK_ARM64_CORRUPTIBLE_REGS infos i) (ps ! i) (ps ! Suc i)) \<and>
    (\<forall>s. pc s = insn_addr t (ps ! k) \<longrightarrow>
      (\<exists>r. 9 \<le> r \<and> r \<le> 15 \<and> bit (free_regs FUNCHOOK_ARM64_CORRUPTIBLE_REGS infos (k - 1)) r \<and>
        arm_run 2 m' s = Some ((set_x r (insn_addr func REL4G_JUMP_SIZE) s)\<lparr>pc := insn_addr func REL4G_JUMP_SIZE\<rparr>)))"
proof -
  obtain ctx where buf: "buf = arm_buf ctx" and ok: "loop_success m func initial_arm64 infos (ctx, n)"
    using make_trampoline_arm64_cases [of disasm m func infos, OF assms(1)] by (auto simp: assms(2))
  then obtain used rest ctx' r where infos: "infos = used @ rest" "used \<noteq> []" and st: "arm_steps m func initial_arm64 used ctx'"
    and c: "arm64_bounds ctx'" "arm_src ctx' = REL4G_JUMP_SIZE" "jump_back func ctx' r ctx" "n = arm_dst ctx' + 2"
    by (auto simp: loop_success_def)
  note w = jump_back_words [OF c(3,1,2), folded buf]
  obtain ps where ps: "length ps = Suc (length used)" "ps ! 0 = 0" "ps ! length used = arm_dst ctx'"
    "length used \<le> REL4G_JUMP_SIZE"
    "avail ctx' = free_regs FUNCHOOK_ARM64_CORRUPTIBLE_REGS used (length used - 1)"
    "\<forall>i < length used. moved_insn m m' func t i (insn_id (used ! i))
      (free_regs FUNCHOOK_ARM64_CORRUPTIBLE_REGS used i) (ps ! i) (ps ! Suc i)"
    using arm_steps_run [OF st initial_bounds w(7) assms(3)] infos(2) by (auto simp: initial_arm64_def)
  have fr: "free_regs FUNCHOOK_ARM64_CORRUPTIBLE_REGS infos i = free_regs FUNCHOOK_ARM64_CORRUPTIBLE_REGS used i"
    if "i < length used" for i
    using that by (simp add: free_regs_def infos(1))
  have jump: "arm_run 2 m' s = Some ((set_x r (insn_addr func REL4G_JUMP_SIZE) s)\<lparr>pc := insn_addr func REL4G_JUMP_SIZE\<rparr>)"
    if s: "pc s = insn_addr t (arm_dst ctx')" for s
  proof -
    let ?s = "(set_x r (insn_addr func REL4G_JUMP_SIZE) s)\<lparr>pc := insn_addr t (Suc (arm_dst ctx'))\<rparr>"
    have "arm_step m' s = Some ?s"
      using step_ldr [OF assms(3) w(4,1,3) _ w(6) _ s] w(5,8,9) by simp
    moreover have "arm_step m' ?s = Some (?s\<lparr>pc := get_x ?s r\<rparr>)"
      using w by (intro step_br [OF assms(3)]) simp_all
    ultimately show ?thesis using w(8,9) by (simp add: numeral_2_eq_2)
  qed
  have "infos ! i = used ! i" if "i < length used" for i
    using that by (simp add: infos(1) nth_append)
  then show ?thesis
    using ps infos(2) c(4) fr jump w(8-10)
    by (intro exI [of _ "length used"] exI [of _ ps]) (auto simp: infos(1) Suc_le_eq)
qed

text \<open>
  C25: \<open>make_trampoline_arm64_correct\<close>. The trampoline refines the moved instructions. When
  it is built for the instructions of a function and its bytes are in memory at \<open>t\<close>, then
  there are positions in it, the first one 0, such that from the position of a moved
  instruction at most three steps have the effect of that instruction at its old address: the
  same branch target, or else the position of the next moved instruction, and the same
  registers, apart from one of x9 to x15 that no instruction so far uses; a call leaves the
  position of the next moved instruction as the return address. From the last position two
  steps continue in the function behind the patched instructions.
\<close>

theorem make_trampoline_arm64_correct:
  assumes "disasm m func ARM64_MAX_INSN_CHECK_SIZE = Inr infos"
    and "funchook_make_trampoline_arm64 disasm m func = Inr (d, buf, n)"
    and "code_at m' t (insn_bytes buf)"
  shows "\<exists>k ps. 1 \<le> k \<and> k \<le> REL4G_JUMP_SIZE \<and> k \<le> length infos \<and> ps ! 0 = 0 \<and> ps ! k + 2 = n \<and>
    (\<forall>i < k. moved_insn m m' func t i (insn_id (infos ! i))
      (free_regs FUNCHOOK_ARM64_CORRUPTIBLE_REGS infos i) (ps ! i) (ps ! Suc i)) \<and>
    (\<forall>s. pc s = insn_addr t (ps ! k) \<longrightarrow>
      (\<exists>r. 9 \<le> r \<and> r \<le> 15 \<and> bit (free_regs FUNCHOOK_ARM64_CORRUPTIBLE_REGS infos (k - 1)) r \<and>
        arm_run 2 m' s = Some ((set_x r (insn_addr func REL4G_JUMP_SIZE) s)\<lparr>pc := insn_addr func REL4G_JUMP_SIZE\<rparr>)))"
  by (rule arm64_trampoline_refines [OF assms])

definition sample_arm64_memory :: "u64 \<Rightarrow> u8" where
  "sample_arm64_memory = mem_write sample_arm64_mem 0x500048 (insn_bytes sample_arm64_trampoline)"

lemma sample_arm64_memory_code: "code_at sample_arm64_memory 0x500048 (insn_bytes sample_arm64_trampoline)"
  unfolding sample_arm64_memory_def by (rule code_at_write) (simp add: sample_arm64_trampoline_def)

theorem make_trampoline_arm64_correct_witness:
  "\<exists>k ps. 1 \<le> k \<and> k \<le> 2 \<and> ps ! 0 = 0 \<and> ps ! k = 5 \<and>
    moved_insn sample_arm64_mem sample_arm64_memory 0x400000 0x500048 0 ARM64_INSN_CBZ
      (free_regs FUNCHOOK_ARM64_CORRUPTIBLE_REGS sample_arm64_infos 0) 0 (ps ! 1)"
proof -
  obtain k ps where k: "1 \<le> k" "k \<le> 2" "ps ! 0 = 0" "ps ! k + 2 = 7"
    and "\<forall>i < k. moved_insn sample_arm64_mem sample_arm64_memory 0x400000 0x500048 i (insn_id (sample_arm64_infos ! i))
      (free_regs FUNCHOOK_ARM64_CORRUPTIBLE_REGS sample_arm64_infos i) (ps ! i) (ps ! Suc i)"
    using make_trampoline_arm64_correct [OF sample_arm64_disasm_ok sample_arm64_run sample_arm64_memory_code]
    by (auto simp: REL4G_JUMP_SIZE_def)
  then show ?thesis
    by (intro exI [of _ k] exI [of _ ps]) (auto simp: sample_arm64_infos_def dest: spec [of _ "0 :: nat"])
qed

section \<open>The jumps of an entry\<close>

text \<open>How a patched function runs.\<close>

lemma arm64_patched_function_reaches:
  assumes "funchook_fix_code_arm64 hc ea entry () = Some e"
    and "length (transit entry) = 6" and "length (new_code entry) = ARM64_MAX_PATCH_CODE_SIZE"
    and "ea AND 0xFFF = 0"
    and "- (2 ^ 32) \<le> sint (ea - (target_func entry AND NOT 0xFFF))"
    and "sint (ea - (target_func entry AND NOT 0xFFF)) < 2 ^ 32"
    and "code_at m (target_func entry) (insn_bytes (new_code e))" and "code_at m ea (insn_bytes (transit e))"
    and "pc s = target_func entry"
  shows "\<exists>n \<le> 5. \<exists>s'. arm_run n m s = Some s' \<and>
    pc s' = (if prehook entry \<noteq> 0 then hc else if hook_func entry \<noteq> 0 then hook_func entry else ea + 72) \<and>
    get_x s' 10 = (if prehook entry \<noteq> 0 then ea else get_x s 10) \<and>
    (\<forall>r. r \<noteq> 9 \<and> r \<noteq> 10 \<longrightarrow> get_x s' r = get_x s r) \<and> nzcv s' = nzcv s \<and> vr s' = vr s"
proof -
  note f = fix_code_arm64 [OF assms(1)]
  let ?s1 = "(set_x 9 ea s)\<lparr>pc := ea\<rparr>"
  have jump: "arm_run 2 m s = Some ?s1"
    using assms(3) by (intro run_relative_4g_jump [OF f(1) _ assms(7,4-6,9)]) (simp add: arm64_sizes)
  show ?thesis
  proof (cases "prehook entry = 0")
    case True
    let ?d = "if hook_func entry \<noteq> 0 then hook_func entry else ea + 72"
    have "arm_run 2 m ?s1 = Some ((set_x 9 ?d ?s1)\<lparr>pc := ?d\<rparr>)"
      by (rule run_absolute_jump [OF f(3) [OF True] assms(2,8)]) simp
    with jump have "arm_run (2 + 2) m s = Some ((set_x 9 ?d ?s1)\<lparr>pc := ?d\<rparr>)"
      by (simp only: arm_run_add bind.simps)
    then show ?thesis
      by (intro exI [of _ "2 + 2"]) (simp add: True set_x_simps)
  next
    case False
    then obtain e0 where "funchook_write_jump_with_prehook_arm64 hc e0 = Some e"
      using f(2) by blast
    from run_arm64_transit [OF this assms(8), of ?s1]
    have "arm_run 3 m ?s1 = Some ((set_x 9 hc (set_x 10 ea ?s1))\<lparr>pc := hc\<rparr>)" by simp
    with jump have "arm_run (2 + 3) m s = Some ((set_x 9 hc (set_x 10 ea ?s1))\<lparr>pc := hc\<rparr>)"
      by (simp only: arm_run_add bind.simps)
    then show ?thesis
      by (intro exI [of _ "2 + 3"]) (simp add: False set_x_simps)
  qed
qed

text \<open>
  With the entry at the start of a page within
  4 GB of the function, executing the patched function reaches, in at most five instructions
  and changing no register but x9 and x10, the hook (the trampoline when there is none); with
  a prehook it reaches the hook caller with the transit address in x10.
\<close>

theorem arm64_patched_function_runs_hook:
  assumes "funchook_fix_code_arm64 hc ea entry () = Some e"
    and "length (transit entry) = 6" and "length (new_code entry) = ARM64_MAX_PATCH_CODE_SIZE"
    and "ea AND 0xFFF = 0"
    and "- (2 ^ 32) \<le> sint (ea - (target_func entry AND NOT 0xFFF))"
    and "sint (ea - (target_func entry AND NOT 0xFFF)) < 2 ^ 32"
    and "code_at m (target_func entry) (insn_bytes (new_code e))" and "code_at m ea (insn_bytes (transit e))"
    and "pc s = target_func entry"
  shows "\<exists>n \<le> 5. \<exists>s'. arm_run n m s = Some s' \<and>
    pc s' = (if prehook entry \<noteq> 0 then hc else if hook_func entry \<noteq> 0 then hook_func entry else ea + 72) \<and>
    get_x s' 10 = (if prehook entry \<noteq> 0 then ea else get_x s 10) \<and>
    (\<forall>r. r \<noteq> 9 \<and> r \<noteq> 10 \<longrightarrow> get_x s' r = get_x s r) \<and> nzcv s' = nzcv s \<and> vr s' = vr s"
  by (rule arm64_patched_function_reaches [OF assms])

text \<open>The sample function hooked through a page at 0x500000.\<close>

definition sample_arm64_entry :: "(u64, u32) funchook_entry" where
  "sample_arm64_entry =
     \<lparr>transit = replicate 6 0, original_target_func = 0x400000, target_func = 0x400000, hook_func = 0x600000,
      prehook = 0, user_data = 0, eflags = 0, patch_code_size = 2, trampoline = sample_arm64_trampoline,
      old_code = [0xB4000080, 0x58000102], new_code = [0, 0]\<rparr>"

definition sample_arm64_fixed :: "(u64, u32) funchook_entry" where
  "sample_arm64_fixed = sample_arm64_entry
     \<lparr>new_code := [0x90000809, 0xD61F0120],
      transit := [0x58000049, 0xD61F0120, 0x600000, 0, 0, 0]\<rparr>"

lemma sample_arm64_fix_code: "funchook_fix_code_arm64 0x700000 0x500000 sample_arm64_entry () = Some sample_arm64_fixed"
  by code_simp

definition sample_arm64_patched :: "u64 \<Rightarrow> u8" where
  "sample_arm64_patched =
     mem_write (mem_write sample_arm64_mem 0x500000 (insn_bytes (transit sample_arm64_fixed)))
       0x400000 (insn_bytes (new_code sample_arm64_fixed))"

lemma sample_arm64_patched_code:
  "code_at sample_arm64_patched 0x400000 (insn_bytes (new_code sample_arm64_fixed))"
  "code_at sample_arm64_patched 0x500000 (insn_bytes (transit sample_arm64_fixed))"
proof -
  have l: "length (new_code sample_arm64_fixed) = 2" "length (transit sample_arm64_fixed) = 6"
    by (simp_all add: sample_arm64_fixed_def)
  show "code_at sample_arm64_patched 0x400000 (insn_bytes (new_code sample_arm64_fixed))"
    unfolding sample_arm64_patched_def by (rule code_at_write) (simp add: l)
  have "code_at (mem_write sample_arm64_mem 0x500000 (insn_bytes (transit sample_arm64_fixed))) 0x500000
      (insn_bytes (transit sample_arm64_fixed))"
    by (rule code_at_write) (simp add: l)
  then show "code_at sample_arm64_patched 0x500000 (insn_bytes (transit sample_arm64_fixed))"
    unfolding sample_arm64_patched_def by (subst code_at_write_other) (simp_all add: l)
qed

definition sample_arm64_state :: arm_state where
  "sample_arm64_state = \<lparr>pc = 0x400000, xr = (\<lambda>r. of_nat r), vr = (\<lambda>_. 0), nzcv = (False, True, False, True)\<rparr>"

theorem arm64_patched_function_runs_hook_witness:
  "\<exists>n \<le> 5. \<exists>s'. arm_run n sample_arm64_patched sample_arm64_state = Some s' \<and> pc s' = 0x600000"
proof -
  have e: "target_func sample_arm64_entry = 0x400000" "prehook sample_arm64_entry = 0" "hook_func sample_arm64_entry = 0x600000"
    "length (transit sample_arm64_entry) = 6" "length (new_code sample_arm64_entry) = ARM64_MAX_PATCH_CODE_SIZE"
    by (simp_all add: sample_arm64_entry_def arm64_sizes)
  have "pc sample_arm64_state = 0x400000" by (simp add: sample_arm64_state_def)
  then show ?thesis
    using arm64_patched_function_runs_hook [OF sample_arm64_fix_code e(4,5), of sample_arm64_patched sample_arm64_state]
      sample_arm64_patched_code
    by (auto simp: e(1-3))
qed

section \<open>The addresses instructions refer to\<close>

text \<open>The address of an instruction at \<open>ia\<close>, after the architecture; 0 when there is none.\<close>

fun refers_to :: "a64 \<Rightarrow> u64 \<Rightarrow> u64" where
  "refers_to (ADR rd off) ia = ia + off"
| "refers_to (ADRP rd off) ia = (ia AND NOT 0xFFF) + off"
| "refers_to (B off) ia = ia + off"
| "refers_to (BL off) ia = ia + off"
| "refers_to (BR rn) ia = 0"
| "refers_to (BLR rn) ia = 0"
| "refers_to (B_cond c off) ia = ia + off"
| "refers_to (CB sf nonzero rt off) ia = ia + off"
| "refers_to (TB nonzero b rt off) ia = ia + off"
| "refers_to (Load_lit k rt off) ia = ia + off"
| "refers_to (Load_imm k rt rn off) ia = 0"

text \<open>
  C26: \<open>target_addr_correct\<close>. For an instruction classified as the architecture decodes it,
  \<open>target_addr\<close> and its macros, with their shifts of signed fields, give exactly the address
  the instruction branches to, loads from or computes.
\<close>

theorem target_addr_correct:
  assumes "decode ins = Some i" and "a64_class i = iid"
  shows "target_addr ia ins iid = refers_to i ia"
proof (cases i)
  case (CB sf nz rt off)
  then show ?thesis using assms decode_CB [of ins] by (auto simp: target_addr_def)
next
  case (TB nz b rt off)
  then show ?thesis using assms decode_TB [of ins] by (auto simp: target_addr_def)
next
  case (Load_lit k rt off)
  then have "ins AND 0x3B000000 = 0x18000000" "off = IMM19_OFFSET ins"
    using assms decode_Load_lit [of ins] by simp_all
  moreover from this have "ins AND 0x20000000 = 0" by (simp add: u32_simps)
  ultimately show ?thesis
    using assms Load_lit by (cases k) (auto simp: target_addr_def)
next
  case (Load_imm k rt rn off)
  then show ?thesis
    using assms decode_Load_imm [of ins] by (cases k) (auto simp: target_addr_def)
qed (use assms decode_ADR [of ins] decode_ADRP [of ins] decode_B [of ins] decode_BL [of ins] decode_B_cond [of ins]
      in \<open>auto simp: target_addr_def page_of_address\<close>)

theorem target_addr_correct_witness: "target_addr 0x400000 0x54FFFFC0 ARM64_INSN_B_cond = 0x3FFFF8"
proof -
  have "decode 0x54FFFFC0 = Some (B_cond 0 (- 8))" by code_simp
  from target_addr_correct [OF this] show ?thesis by simp
qed

section \<open>Two defects\<close>

text \<open>
  C27: \<open>arm64_back_jump_check\<close>. What the check for branches into the patched instructions
  decides on ARM64. Take a function the builder accepts, and any disassembly that begins
  with the same moved instructions (two, or one for a branch followed by an undefined
  instruction), of any memory with the same first three words. The trampoline is the same,
  unless the third word of the function, read with the class of one of the
  instructions behind the moved ones, has its target strictly between the first and the
  third instruction. \<open>ctx.src\<close> is not advanced, so the words of the later instructions are
  never looked at: a branch of the fourth instruction to the second, which the patch
  overwrites, is accepted.
\<close>

theorem arm64_back_jump_check:
  assumes "disasm m func ARM64_MAX_INSN_CHECK_SIZE = Inr infos"
    and "funchook_make_trampoline_arm64 disasm m func = Inr r"
    and "\<forall>i < 3. read_insn m' (insn_addr func i) = read_insn m (insn_addr func i)"
    and "disasm' m' func ARM64_MAX_INSN_CHECK_SIZE = Inr (take (arm64_moved m func) infos @ rest)"
  shows "funchook_make_trampoline_arm64 disasm' m' func =
    (if \<exists>info \<in> set rest.
          let target = target_addr (insn_addr func 2) (read_insn m (insn_addr func 2)) (insn_id info)
          in func < target \<and> target < insn_addr func 2
     then Inl (Err ERROR_FOUND_BACK_JUMP,
       ''instruction jumping back to the hot-patched region was found'')
     else Inr r)"
proof -
  have "same_words m m' func" using assms(3) by (simp add: same_words_def)
  note t = make_trampoline_arm64_moved [where disasm = disasm and disasm' = disasm',
      OF assms(1,2) this assms(4)]
  show ?thesis
    by (simp add: t list_ex_iff jumps_back_arm64_def REL4G_JUMP_SIZE_def)
qed

text \<open>
  \<open>nop; nop; nop; b -8\<close>, whose fourth instruction branches to the second, is accepted;
  \<open>nop; nop; b -4\<close>, whose third instruction does, is refused.
\<close>

definition words_mem :: "u32 list \<Rightarrow> u64 \<Rightarrow> u8" where
  "words_mem ws x =
     (if unat (x - 0x400000) < 4 * length ws then insn_bytes ws ! unat (x - 0x400000) else 0)"

definition class_disasm ::
    "funchook_arm64_insn_id list \<Rightarrow> (u64 \<Rightarrow> u8) \<Rightarrow> u64 \<Rightarrow> nat \<Rightarrow> funchook_insn_info list with_message" where
  "class_disasm ids m func n = Inr (map (\<lambda>i. \<lparr>insn_id = i, insn_regs = 0\<rparr>) ids)"

abbreviation two_nops :: "funchook_arm64_insn_id list" where
  "two_nops \<equiv> [ARM64_INSN_OTHER, ARM64_INSN_OTHER]"

lemma two_nops_run:
  "funchook_make_trampoline_arm64 (class_disasm two_nops)
      (words_mem [0xD503201F, 0xD503201F, 0xD503201F, 0x17FFFFFE]) 0x400000 =
    Inr ((), [0xD503201F, 0xD503201F, 0x580000C9, 0xD61F0120, 0, 0, 0, 0, 0x400008, 0, 0, 0, 0, 0], 4)"
  "funchook_make_trampoline_arm64 (class_disasm two_nops)
      (words_mem [0xD503201F, 0xD503201F, 0x17FFFFFF]) 0x400000 =
    Inr ((), [0xD503201F, 0xD503201F, 0x580000C9, 0xD61F0120, 0, 0, 0, 0, 0x400008, 0, 0, 0, 0, 0], 4)"
  by code_simp+

lemma two_nops_words:
  "arm64_moved (words_mem [0xD503201F, 0xD503201F, 0xD503201F, 0x17FFFFFE]) 0x400000 = 2"
  "arm64_moved (words_mem [0xD503201F, 0xD503201F, 0x17FFFFFF]) 0x400000 = 2"
  "target_addr (insn_addr 0x400000 2)
    (read_insn (words_mem [0xD503201F, 0xD503201F, 0xD503201F, 0x17FFFFFE]) (insn_addr 0x400000 2)) ARM64_INSN_B
    = 0x44C8084"
  "target_addr (insn_addr 0x400000 2)
    (read_insn (words_mem [0xD503201F, 0xD503201F, 0x17FFFFFF]) (insn_addr 0x400000 2)) ARM64_INSN_B
    = 0x400004"
  "decode (read_insn (words_mem [0xD503201F, 0xD503201F, 0xD503201F, 0x17FFFFFE]) (insn_addr 0x400000 3))
    = Some (B (- 8))"
  by code_simp+

theorem arm64_back_jump_check_witness:
  "decode (read_insn (words_mem [0xD503201F, 0xD503201F, 0xD503201F, 0x17FFFFFE]) (insn_addr 0x400000 3))
     = Some (B (- 8))
   \<and> funchook_make_trampoline_arm64 (class_disasm (two_nops @ [ARM64_INSN_OTHER, ARM64_INSN_B]))
      (words_mem [0xD503201F, 0xD503201F, 0xD503201F, 0x17FFFFFE]) 0x400000 =
     Inr ((), [0xD503201F, 0xD503201F, 0x580000C9, 0xD61F0120, 0, 0, 0, 0, 0x400008, 0, 0, 0, 0, 0], 4)
   \<and> funchook_make_trampoline_arm64 (class_disasm (two_nops @ [ARM64_INSN_B]))
      (words_mem [0xD503201F, 0xD503201F, 0x17FFFFFF]) 0x400000 =
     Inl (Err ERROR_FOUND_BACK_JUMP, ''instruction jumping back to the hot-patched region was found'')"
proof -
  let ?info = "\<lambda>i. \<lparr>insn_id = i, insn_regs = 0\<rparr>"
  have d: "class_disasm two_nops m f n = Inr (map ?info two_nops)" for m f n
    by (simp add: class_disasm_def)
  have d': "class_disasm (two_nops @ ids) m 0x400000 n =
      Inr (take (arm64_moved m 0x400000) (map ?info two_nops) @ map ?info ids)"
    if "arm64_moved m 0x400000 = 2" for m n ids
    using that by (simp add: class_disasm_def)
  have check: "funchook_make_trampoline_arm64 (class_disasm (two_nops @ ids)) m 0x400000 =
      (if \<exists>info \<in> set (map ?info ids).
            let target = target_addr (insn_addr 0x400000 2) (read_insn m (insn_addr 0x400000 2)) (insn_id info)
            in 0x400000 < target \<and> target < insn_addr 0x400000 2
       then Inl (Err ERROR_FOUND_BACK_JUMP,
         ''instruction jumping back to the hot-patched region was found'')
       else Inr r)"
    if run: "funchook_make_trampoline_arm64 (class_disasm two_nops) m 0x400000 = Inr r"
      and k: "arm64_moved m 0x400000 = 2" for m ids r
    by (rule arm64_back_jump_check [where disasm = "class_disasm two_nops" and m = m and m' = m
        and func = "0x400000" and disasm' = "class_disasm (two_nops @ ids)"
        and infos = "map ?info two_nops" and rest = "map ?info ids", OF d run _ d' [OF k]])
      simp
  show ?thesis
    using check [OF two_nops_run(1) two_nops_words(1), of "[ARM64_INSN_OTHER, ARM64_INSN_B]"]
      check [OF two_nops_run(2) two_nops_words(2), of "[ARM64_INSN_B]"]
    by (simp add: two_nops_words target_addr_def [of _ _ ARM64_INSN_OTHER])
      (simp add: insn_addr_def)
qed

text \<open>
  With the condition code 15, which always branches, the emitted branch has the code 14,
  which always branches too, over the two instructions that jump to the target.
\<close>

lemma nv_branch_falls_through:
  "effect m (B_cond 15 off) s = (Some (pc s + off), s) \<and>
   decode (0x5400000F OR TO_IMM19 4) = Some (B_cond 15 16) \<and>
   (\<exists>w. cond_branch ARM64_INSN_B_cond (0x5400000F OR TO_IMM19 4) = Some (w, 16) \<and>
     (\<exists>j. decode w = Some j \<and> effect m j s = (Some (pc s + 12), s)))"
proof -
  have "decode (0x5400000F OR TO_IMM19 4) = Some (B_cond 15 16)"
    "cond_branch ARM64_INSN_B_cond (0x5400000F OR TO_IMM19 4) = Some (0x5400006E, 16)"
    "decode 0x5400006E = Some (B_cond 14 12)"
    by code_simp+
  then show ?thesis
    by (cases "nzcv s") (simp add: effect_def cond_holds_def)
qed

end
