(* ===== verification/Arch_ARM64_Contract.thy ===== *)
theory Arch_ARM64_Contract
  imports Arch_ARM64_Correct OS_Unix_Contract
begin

text \<open>
  The ARM64 code generator as the \<open>arch_ops\<close> of funchook.c, the proof of its contract, and
  the library on ARM64 Linux. A page holds one entry, at its start, and the header of the page
  follows the entry.
\<close>

section \<open>The operations\<close>

text \<open>The \<open>insn_t\<close> array in memory, read back.\<close>

fun bytes_insns :: "u8 list \<Rightarrow> u32 list" where
  "bytes_insns (a # b # c # d # bs) = of_le_bytes [a, b, c, d] # bytes_insns bs"
| "bytes_insns _ = []"

definition arm64_ops ::
    "((u64 \<Rightarrow> u8) \<Rightarrow> u64 \<Rightarrow> nat \<Rightarrow> funchook_insn_info list with_message) \<Rightarrow> u64 \<Rightarrow>
      (u64, u32, unit) arch_ops" where
  "arm64_ops disasm hook_caller_asm =
     \<lparr>arch_make_trampoline = funchook_make_trampoline_arm64 disasm,
      arch_fix_code = funchook_fix_code_arm64 hook_caller_asm,
      arch_page_avail = (\<lambda>page idx addr disp. True),
      arch_entry_address = (\<lambda>page idx. page + of_nat (idx * 144)),
      arch_entry_bytes = entry_bytes_arm64,
      arch_page_header = (\<lambda>p. p + 144),
      arch_sizeof_header = 16,
      arch_entry_at_page_boundary = True,
      arch_offsetof_entries = 0,
      arch_offsetof_trampoline = 72,
      arch_sizeof_entry = 144,
      arch_sizeof_insn = 4,
      arch_insns_bytes = insn_bytes,
      arch_bytes_insns = bytes_insns,
      arch_transit_code_size = length TRANSIT_CODE_TEMPLATE_arm64,
      arch_zero_insn = 0,
      arch_max_patch_code_size = ARM64_MAX_PATCH_CODE_SIZE\<rparr>"

lemma arm64_ops_simps [simp]:
  "arch_make_trampoline (arm64_ops disasm hc) = funchook_make_trampoline_arm64 disasm"
  "arch_fix_code (arm64_ops disasm hc) = funchook_fix_code_arm64 hc"
  "arch_page_avail (arm64_ops disasm hc) = (\<lambda>page idx addr disp. True)"
  "arch_entry_address (arm64_ops disasm hc) = (\<lambda>page idx. page + of_nat (idx * 144))"
  "arch_entry_bytes (arm64_ops disasm hc) = entry_bytes_arm64"
  "arch_page_header (arm64_ops disasm hc) = (\<lambda>p. p + 144)"
  "arch_sizeof_header (arm64_ops disasm hc) = 16"
  "arch_entry_at_page_boundary (arm64_ops disasm hc)"
  "arch_offsetof_entries (arm64_ops disasm hc) = 0"
  "arch_offsetof_trampoline (arm64_ops disasm hc) = 72"
  "arch_sizeof_entry (arm64_ops disasm hc) = 144"
  "arch_sizeof_insn (arm64_ops disasm hc) = 4"
  "arch_insns_bytes (arm64_ops disasm hc) = insn_bytes"
  "arch_bytes_insns (arm64_ops disasm hc) = bytes_insns"
  "arch_max_patch_code_size (arm64_ops disasm hc) = ARM64_MAX_PATCH_CODE_SIZE"
  by (simp_all add: arm64_ops_def)

text \<open>A trampoline fits when it has the size of the field of the entry.\<close>

definition arm64_fits :: "u64 \<Rightarrow> unit \<times> u32 list \<times> nat \<Rightarrow> bool" where
  "arm64_fits func r \<longleftrightarrow> length (fst (snd r)) = ARM64_TRAMPOLINE_SIZE"

section \<open>The contract\<close>

lemma le_bytes_of_le_bytes:
  assumes "8 * length bs \<le> LENGTH('a)"
  shows "le_bytes (length bs) (of_le_bytes bs :: 'a::len word) = bs"
proof (rule nth_equalityI)
  fix i assume "i < length (le_bytes (length bs) (of_le_bytes bs :: 'a word))"
  then have i: "i < length bs" by simp
  show "le_bytes (length bs) (of_le_bytes bs :: 'a word) ! i = bs ! i"
  proof (rule bit_word_eqI)
    fix k assume "k < LENGTH(8)"
    then have k: "k < 8" by simp
    have "8 * i + k < 8 * length bs" using i k by linarith
    then show "bit (le_bytes (length bs) (of_le_bytes bs :: 'a word) ! i) k \<longleftrightarrow> bit (bs ! i) k"
      using i k assms by (simp add: nth_le_bytes bit_simps bit_of_le_bytes)
  qed
qed simp

lemma le_bytes_of_le_bytes_4: "length bs = 4 \<Longrightarrow> le_bytes 4 (of_le_bytes bs :: u32) = bs"
  using le_bytes_of_le_bytes [of bs, where 'a = 32] by simp

lemma insn_bytes_inverse: "length bs = k * 4 \<Longrightarrow> insn_bytes (bytes_insns bs) = bs"
proof (induction k arbitrary: bs)
  case 0
  then show ?case by (simp add: insn_bytes_def)
next
  case (Suc k)
  then have "length bs = Suc (Suc (Suc (Suc (k * 4))))" by simp
  then obtain a b c d bs' where bs: "bs = a # b # c # d # bs'" and "length bs' = k * 4"
    by (auto simp: length_Suc_conv)
  moreover have "le_bytes 4 (of_le_bytes [a, b, c, d] :: u32) = [a, b, c, d]"
    by (rule le_bytes_of_le_bytes_4) simp
  ultimately show ?case
    using Suc.IH [of bs'] by (simp add: insn_bytes_Cons)
qed

lemma length_bytes_insns: "length bs = k * 4 \<Longrightarrow> length (bytes_insns bs) = k"
  using arg_cong [OF insn_bytes_inverse, of bs k length] by simp

lemma new_entry_arm64:
  "new_entry (arm64_ops disasm hc) m target func params tramp =
     \<lparr>transit = replicate 6 0, original_target_func = target, target_func = func,
      hook_func = p_hook_func params, prehook = p_prehook params, user_data = p_user_data params,
      eflags = p_flags params, patch_code_size = 2, trampoline = tramp,
      old_code = bytes_insns (mem_read m func 8), new_code = replicate 2 0\<rparr>"
  by (simp add: new_entry_def arm64_ops_def TRANSIT_CODE_TEMPLATE_arm64_def arm64_sizes eval_nat_numeral)

lemma fix_code_arm64_shape:
  assumes "length (transit e) = 6" and "length (new_code e) = 2"
  shows "\<exists>c t. funchook_fix_code_arm64 hc ea e d = Some (e\<lparr>new_code := c, transit := t\<rparr>) \<and> length c = 2 \<and> length t = 6"
proof -
  have r: "to_regno (FUNCHOOK_ARM64_REG 9) = Inr 9" by code_simp
  obtain c where c: "funchook_write_relative_4g_jump (target_func e) ea (new_code e) = Some c" "length c = 2"
    using assms(2) by (simp add: funchook_write_relative_4g_jump_def Let_def buf_write_def)
  obtain t where t: "buf_write TRANSIT_HOOK_CALLER_ADDR_arm64 [ucast hc, ucast (drop_bit 32 hc)]
      TRANSIT_CODE_TEMPLATE_arm64 = Some t" "length t = 6"
    by (simp add: buf_write_def TRANSIT_CODE_TEMPLATE_arm64_def TRANSIT_HOOK_CALLER_ADDR_arm64_def)
  obtain u where u: "funchook_write_absolute_jump_arm64 (transit e)
      (if hook_func e \<noteq> 0 then hook_func e else ea + 72) (FUNCHOOK_ARM64_REG 9) = Inr (Some u)" "length u = 6"
    using assms(1) by (simp add: funchook_write_absolute_jump_arm64_def r buf_write_def)
  show ?thesis
  proof (cases "prehook e = 0")
    case True
    with c u show ?thesis by (simp add: funchook_fix_code_arm64_def Let_def) blast
  next
    case False
    with c t show ?thesis
      by (simp add: funchook_fix_code_arm64_def funchook_write_jump_with_prehook_arm64_def Let_def) blast
  qed
qed

lemma fix_code_arm64_keeps:
  assumes "funchook_fix_code_arm64 hc ea e d = Some e'" and "length (new_code e) = 2"
  shows "\<exists>c t. e' = e\<lparr>new_code := c, transit := t\<rparr> \<and> length c = 2"
proof -
  have r: "to_regno (FUNCHOOK_ARM64_REG 9) = Inr 9" by code_simp
  show ?thesis
    using assms
    by (auto simp: funchook_fix_code_arm64_def funchook_write_relative_4g_jump_def Let_def bind_eq_Some_conv
        funchook_write_jump_with_prehook_arm64_def funchook_write_absolute_jump_arm64_def r length_buf_write
        split: if_splits)
qed

interpretation arm64_code: code_generator "arm64_ops disasm hc" arm64_fits
  for disasm :: "(u64 \<Rightarrow> u8) \<Rightarrow> u64 \<Rightarrow> nat \<Rightarrow> funchook_insn_info list with_message" and hc :: u64
proof (unfold_locales, goal_cases)
  case (1 ea e d e')
  then show ?case
    using fix_code_arm64_keeps [of hc ea e d e'] by (auto simp: arm64_sizes)
next
  case (2 func d tramp n ea m target params e')
  let ?e = "new_entry (arm64_ops disasm hc) m target func params tramp"
  obtain c t where "e' = ?e\<lparr>new_code := c, transit := t\<rparr>" "length c = 2" "length t = 6"
    using fix_code_arm64_shape [of ?e hc ea d] 2(2) by (auto simp: new_entry_arm64)
  then show ?case
    using 2(1) by (simp add: new_entry_arm64 entry_bytes_arm64_def arm64_fits_def arm64_sizes length_bytes_insns [of _ 2])
next
  case (3 func d tramp n ea m target params)
  then show ?case
    using fix_code_arm64_shape [of "new_entry (arm64_ops disasm hc) m target func params tramp" hc ea d]
    by (auto simp: new_entry_arm64)
next
  case (4 p i) then show ?case by simp
next
  case (5 bs k) then show ?case by (simp add: insn_bytes_inverse)
next
  case (6 "is") then show ?case by simp
next
  case (7 psz num p)
  then show ?case by (simp add: layout_ok_def in_region_def)
qed

interpretation linux_arm64: handle_library "unix_ops_64 env resolve" "unix_ok env" "arm64_ops disasm hc" arm64_fits
  for env :: "u64 unix_env" and resolve :: "u64 \<Rightarrow> (u64, prot, u32) fh_state \<Rightarrow> u64"
    and disasm :: "(u64 \<Rightarrow> u8) \<Rightarrow> u64 \<Rightarrow> nat \<Rightarrow> funchook_insn_info list with_message" and hc :: u64
  by unfold_locales

end
