(* ===== verification/OS_Windows_Correct.thy ===== *)
theory OS_Windows_Correct
  imports OS_Windows_Contract Sample_Session Arch_ARM64_Contract
begin

text \<open>
  What the Windows layer promises: allocating a page always returns, where the search for a
  new unit ends up, that releasing undoes allocating, which protection a patched region has
  afterwards, and the invariant of the whole library on x86_64 Windows.
\<close>

section \<open>The library on Windows\<close>

interpretation windows_x86_64: handle_library
    "windows_ops (alloc_page_info_64 env) (\<lambda>p f d. funchook_page_avail p 0 f d) env resolve" "win_ok env"
    "x86_64_ops disasm hc" x86_fits
  for env :: "u64 win_env" and resolve :: "u64 \<Rightarrow> (u64, u64 win_data, u8) fh_state \<Rightarrow> u64"
    and disasm :: "(u64 \<Rightarrow> u8) \<Rightarrow> u64 \<Rightarrow> nat \<Rightarrow> u64 x86_insn list with_message" and hc :: u64
  by unfold_locales

interpretation windows_x86: handle_library
    "windows_ops (alloc_page_info_32 env) (\<lambda>p f d. True) env resolve" "win_ok env" "x86_ops disasm hc" x86_fits
  for env :: "u32 win_env" and resolve :: "u32 \<Rightarrow> (u32, u32 win_data, u8) fh_state \<Rightarrow> u32"
    and disasm :: "(u32 \<Rightarrow> u8) \<Rightarrow> u32 \<Rightarrow> nat \<Rightarrow> u32 x86_insn list with_message" and hc :: u32
  by unfold_locales

interpretation windows_arm64: handle_library
    "windows_ops (alloc_page_info_64 env) (\<lambda>p f d. True) env resolve" "win_ok env" "arm64_ops disasm hc" arm64_fits
  for env :: "u64 win_env" and resolve :: "u64 \<Rightarrow> (u64, u64 win_data, u32) fh_state \<Rightarrow> u64"
    and disasm :: "(u64 \<Rightarrow> u8) \<Rightarrow> u64 \<Rightarrow> nat \<Rightarrow> funchook_insn_info list with_message" and hc :: u64
  by unfold_locales

abbreviation windows_x86_64_os where
  "windows_x86_64_os env resolve \<equiv>
     windows_ops (alloc_page_info_64 env) (\<lambda>p f d. funchook_page_avail p 0 f d) env resolve"

section \<open>A sample system\<close>

text \<open>
  A kernel that describes memory one allocation unit at a time, reserves the hinted unit when
  it is free, and a process with code in the unit at 0x400000.
\<close>

definition uncommitted :: "(u64 \<Rightarrow> prot option) \<Rightarrow> u64 \<Rightarrow> nat \<Rightarrow> bool" where
  "uncommitted pr a n \<longleftrightarrow> list_all (\<lambda>i. pr (a + of_nat i) = None) [0..<n]"

definition sample_win_env :: "u64 win_env" where
  "sample_win_env =
     \<lparr>win_query = (\<lambda>n pr us h. let b = ROUND_DOWN h 0x10000 in
         if h < 0x7fff0000 then Some \<lparr>base_address = b, region_size = 0x10000,
             is_free = (b \<noteq> 0 \<and> b \<noteq> 0x400000 \<and> b \<notin> set us)\<rparr> else None),
      win_reserve = (\<lambda>n pr us h sz. if ROUND_DOWN h 0x10000 = h \<and> h < 0x7fff0000 \<and> h \<notin> set us \<and>
         uncommitted pr h 0x10000 then h else 0),
      win_allocate = (\<lambda>n pr us sz. 0),
      win_commit = (\<lambda>n a sz. True),
      win_decommit = (\<lambda>n a sz. True),
      win_release = (\<lambda>n a. True),
      win_protect = (\<lambda>n pr a sz p. region_mapped pr a (unat sz)),
      win_last_error = (\<lambda>n. 487),
      win_format_message = (\<lambda>n. ''Attempt to access invalid address.''),
      win_page_size = 4096,
      win_granularity = 0x10000\<rparr>"

lemma sample_units: "pow2_unit (0x10000 :: u64)" "pow2_unit (4096 :: u64)"
  using pow2_unitI [of 16, where 'a = 64] pow2_unitI [of 12, where 'a = 64] by simp_all

lemma sample_unit_bounds:
  fixes h :: u64
  assumes "h < 0x7fff0000"
  shows "unat h < unat (ROUND_DOWN h 0x10000) + 0x10000" and "unat (ROUND_DOWN h 0x10000) + 0x10000 < 2 ^ 64"
proof -
  have "unat (ROUND_DOWN h 0x10000) = unat h - unat h mod 0x10000"
    using unat_ROUND_DOWN [OF sample_units(1), of h] by simp
  moreover have "unat h mod 0x10000 < 0x10000" by simp
  moreover have "unat h < 0x7fff0000" using assms by (simp add: word_less_nat_alt)
  ultimately show "unat h < unat (ROUND_DOWN h 0x10000) + 0x10000" "unat (ROUND_DOWN h 0x10000) + 0x10000 < 2 ^ 64"
    by (linarith, simp)
qed

lemma sample_windows_kernel: "windows_kernel sample_win_env"
  unfolding windows_kernel_def Let_def
proof (intro conjI allI impI)
  fix n pr us and h :: u64
  assume "win_reserve sample_win_env n pr us h (win_granularity sample_win_env) \<noteq> 0"
  then have h: "ROUND_DOWN h 0x10000 = h" "h < 0x7fff0000" "h \<notin> set us" "uncommitted pr h 0x10000"
    and r: "win_reserve sample_win_env n pr us h (win_granularity sample_win_env) = h"
    by (auto simp: sample_win_env_def split: if_splits)
  show "unit_at (win_granularity sample_win_env) (win_reserve sample_win_env n pr us h (win_granularity sample_win_env))"
    using h sample_unit_bounds [OF h(2)] unfolding r by (simp add: unit_at_def sample_win_env_def)
  show "win_reserve sample_win_env n pr us h (win_granularity sample_win_env) \<notin> set us"
    unfolding r by (rule h(3))
  fix x
  assume "in_region (win_reserve sample_win_env n pr us h (win_granularity sample_win_env))
    (unat (win_granularity sample_win_env)) x"
  then have "in_region h 0x10000 x" unfolding r by (simp add: sample_win_env_def)
  then show "pr x = None"
    using h(4) by (elim in_region_offset) (simp add: uncommitted_def list_all_iff)
next
  fix n pr a sz p x
  assume "win_protect sample_win_env n pr a sz p" and "in_region a (unat sz) x"
  then show "pr x \<noteq> None" using region_mappedD by (simp add: sample_win_env_def)
next
  fix n pr us h mbi
  assume "win_query sample_win_env n pr us h = Some mbi"
  then have m: "base_address mbi = ROUND_DOWN h 0x10000" "region_size mbi = 0x10000" "h < 0x7fff0000"
    by (auto simp: sample_win_env_def Let_def split: if_splits)
  show "base_address mbi \<le> h" by (simp add: m ROUND_DOWN_le sample_units)
  show "unat h < unat (base_address mbi) + unat (region_size mbi)"
    and "unat (base_address mbi) + unat (region_size mbi) < 2 ^ LENGTH(64)"
    using sample_unit_bounds [OF m(3)] by (simp_all add: m)
qed

definition sample_win_state :: "(u64, u64 win_data, u8) fh_state" where
  "sample_win_state =
     \<lparr>mem = sample_mem,
      mprot = (\<lambda>x. if in_region 0x401000 4096 x then Some PROT_RX else None),
      now = 0, page_size = 4096, error_message = [],
      os_data = \<lparr>allocation_unit = 0x10000, unit_list = []\<rparr>,
      installed = False, page_list = [], num_entries_in_page = 28\<rparr>"

lemma sample_win_ok: "win_ok sample_win_env sample_win_state"
  by (simp add: win_ok_def sample_windows_kernel)
    (simp add: sample_win_env_def sample_win_state_def page_sizes_def sample_units units_ok_def)

lemma sample_win_fresh: "fresh_handle sample_arch sample_win_state"
  using sample_layout by (simp add: fresh_handle_def sample_win_state_def)

lemma sample_win_apart: "apart sample_arch sample_win_state 0x401000"
  by (auto simp: apart_def mapped_def sample_win_state_def window_def x86_sizes in_region_def)

text \<open>The new unit is the first one above the code.\<close>

lemma sample_find_hint:
  "find_hint sample_win_env 0x401000 sample_win_state = Some (Inr 0x410000, win_tick (win_tick sample_win_state))"
  by (subst find_hint.simps, simp add: sys_query_def sample_win_env_def sample_win_state_def reserved_def
      ROUND_DOWN_def ROUND_UP_def win_tick_def,
      subst find_hint.simps, simp add: sys_query_def reserved_def ROUND_DOWN_def ROUND_UP_def win_tick_def)

definition sample_unit_state :: "(u64, u64 win_data, u8) fh_state" where
  "sample_unit_state = set_units [\<lparr>pi_addr = 0x410000, num_used = 0, pi_used = replicate 15 False\<rparr>]
     (win_tick (win_tick (win_tick (win_tick sample_win_state))))"

lemma sample_uncommitted: "uncommitted (mprot sample_win_state) 0x410000 0x10000"
proof -
  have "\<not> in_region (0x401000 :: u64) 4096 (0x410000 + of_nat i)" if "i < 0x10000" for i
    using that by (intro not_in_region_beyond) simp_all
  then show ?thesis by (simp add: uncommitted_def list_all_iff sample_win_state_def)
qed

lemma sample_reserve_unit:
  "reserve_unit sample_win_env 0x410000 (win_tick (win_tick sample_win_state)) = (Inr 0x410000, sample_unit_state)"
proof -
  have "sys_reserve sample_win_env 0x410000 0x10000 (win_tick (win_tick sample_win_state)) =
      (0x410000, win_tick (win_tick (win_tick sample_win_state)))"
    using sample_uncommitted
    by (simp add: sys_reserve_def sample_win_env_def ROUND_DOWN_def reserved_def) (simp add: sample_win_state_def)
  moreover have "allocation_unit (os_data sample_win_state) = 0x10000" "page_size sample_win_state = 4096"
    "unit_list (os_data sample_win_state) = []"
    by (simp_all add: sample_win_state_def)
  moreover have "win_commit sample_win_env = (\<lambda>n a sz. True)" by (simp add: sample_win_env_def)
  ultimately show ?thesis
    by (simp add: reserve_unit_def sample_unit_state_def Let_def)
qed

definition sample_committed_state :: "(u64, u64 win_data, u8) fh_state" where
  "sample_committed_state = snd (commit_page sample_win_env 0x410000 0 sample_unit_state)"

lemma sample_commit_page:
  "commit_page sample_win_env 0x410000 0 sample_unit_state = (Inr 0x411000, sample_committed_state)"
  by (simp add: sample_committed_state_def commit_page_def sample_unit_state_def Let_def find_unit_def
      sys_commit_def unit_page_def split: prod.splits)
    (simp add: sample_win_env_def sample_win_state_def)

lemma sample_win_alloc:
  "funchook_page_alloc_windows (alloc_page_info_64 sample_win_env) sample_win_env avail_at 0x401000 sample_win_state =
     Some (Inr 0x411000, sample_committed_state)"
proof -
  have "find_unit_page avail_at 4096 n (unit_list (os_data sample_win_state)) = None" for n
    by (simp add: sample_win_state_def)
  moreover have "alloc_page_info_64 sample_win_env 0x401000 sample_win_state = Some (Inr 0x410000, sample_unit_state)"
    by (simp add: alloc_page_info_64_def sample_find_hint sample_reserve_unit)
  moreover have "page_size sample_win_state = 4096" by (simp add: sample_win_state_def)
  ultimately show ?thesis
    by (simp add: funchook_page_alloc_windows_def sample_commit_page)
qed

abbreviation sample_win_os where "sample_win_os \<equiv> windows_x86_64_os sample_win_env (\<lambda>f s. f)"

lemma sample_win_gives: "gives_page sample_win_os sample_win_state 0x411000 sample_committed_state"
proof -
  have "os_page_alloc sample_win_os 0x401000 sample_disp sample_win_state = (Inr 0x411000, sample_committed_state)"
    by (simp add: windows_ops_def sample_win_alloc)
  note a = this and al = windows_alloc [OF info_ok_64 sample_win_ok this]
  have "page_size sample_win_state = 4096" by (simp add: sample_win_state_def)
  moreover have "funchook_page_avail 0x411000 0 0x401000 sample_disp" by code_simp
  ultimately show ?thesis
    using a al by (simp add: gives_page_def windows_ops_def)
qed

lemma sample_win_fit:
  "arch_make_trampoline sample_arch (mem sample_win_state) 0x401000 = Inr r \<Longrightarrow> x86_fits 0x401000 r"
  using sample_run sample_fits by (simp add: sample_win_state_def)

lemma sample_win_reachable:
  obtains s1 where
    "funchook_prepare_internal sample_arch sample_win_os 0x401000 sample_params sample_win_state = (Inr 0x411058, s1)"
    and "reachable sample_arch sample_win_os x86_fits sample_win_state s1"
proof -
  have i: "page_list sample_win_state = []" "\<not> installed sample_win_state" "mem sample_win_state = sample_mem"
    by (simp_all add: sample_win_state_def)
  obtain s1 where p: "funchook_prepare_internal sample_arch sample_win_os 0x401000 sample_params sample_win_state =
      (Inr 0x411058, s1)"
    using gives_page_prepare [OF sample_win_gives i] by auto
  have r: "os_resolve_func sample_win_os 0x401000 sample_win_state = 0x401000"
    by (simp add: windows_ops_def)
  show ?thesis
    by (rule that [OF p], rule reachable.prepare [OF reachable.start _ _ p])
      (simp_all only: r sample_win_apart sample_win_fit)
qed

section \<open>Allocating and releasing pages\<close>

lemma windows_alloc_free:
  assumes "win_ok env s"
    and "funchook_page_alloc_windows (alloc_page_info_64 env) env avail_at func s = Some (Inr p, s1)"
    and "funchook_page_free_windows env p s1 = (r, s2)"
  shows "win_ok env s2 \<and> same_handle s s2 \<and> keeps_mapped s s2 \<and> r \<noteq> Inl Crash \<and>
    (r = Inr () \<longrightarrow> mprot s2 = mprot s \<and> (\<exists>pl i. in_use pl i p s1 \<and> \<not> in_use pl i p s2))"
proof -
  have a: "same_handle s s1" "win_ok env s1" "keeps_mapped s s1" "\<exists>pl i. in_use pl i p s1"
    "\<And>x. in_region p (unat (page_size s)) x \<Longrightarrow> mprot s x = None"
    "\<And>x. \<not> in_region p (unat (page_size s)) x \<Longrightarrow> mprot s1 x = mprot s x"
    using page_alloc_windows_ok [OF assms(1) info_ok_64, of avail_at func] assms(2) by auto
  from a(4) obtain pl i where u: "in_use pl i p s1" by blast
  note f = page_free_windows_ok [OF a(2) u assms(3)]
  have ps: "page_size s1 = page_size s" using a(1) by (simp add: same_handle_def)
  have k: "keeps_mapped s s2"
    unfolding keeps_mapped_def
  proof (intro allI impI)
    fix x
    assume x: "mprot s x \<noteq> None"
    then have "\<not> in_region p (unat (page_size s)) x" using a(5) [of x] by (cases "in_region p (unat (page_size s)) x") simp_all
    then show "mem s2 x = mem s x \<and> mprot s2 x = mprot s x"
      using a(3,6) f x by (simp add: keeps_mapped_def ps)
  qed
  have m: "mprot s2 x = mprot s x" if "r = Inr ()" for x
    using a(5,6) [of x] f that by (cases "in_region p (unat (page_size s)) x") (simp_all add: ps)
  then show ?thesis
    using f k u same_handle_trans [OF a(1), of s2] by (auto simp: fun_eq_iff)
qed

text \<open>
  C35: \<open>windows_page_lifetime\<close>. \<open>funchook_page_alloc\<close> on 64-bit Windows always returns. The
  list of units stays consistent, memory that was committed is unchanged, and on success the
  page is new, zero and writable. Releasing it with \<open>funchook_page_free\<close> never touches memory
  that is not a control page; when that returns 0 the same memory is committed as before the
  allocation, with the same protection, and the page is no longer in use.
\<close>

theorem windows_page_lifetime:
  assumes "win_ok env s"
  shows "\<exists>r s1. funchook_page_alloc_windows (alloc_page_info_64 env) env avail_at func s = Some (r, s1) \<and>
    win_ok env s1 \<and> same_handle s s1 \<and> keeps_mapped s s1 \<and> r \<noteq> Inl Crash \<and>
    (\<forall>p. r = Inr p \<longrightarrow>
      (\<forall>x. in_region p (unat (page_size s)) x \<longrightarrow> mprot s x = None \<and> mprot s1 x = Some PROT_RW \<and> mem s1 x = 0) \<and>
      (\<forall>q s2. funchook_page_free_windows env p s1 = (q, s2) \<longrightarrow>
        win_ok env s2 \<and> same_handle s s2 \<and> keeps_mapped s s2 \<and> q \<noteq> Inl Crash \<and>
        (q = Inr () \<longrightarrow> mprot s2 = mprot s \<and> (\<exists>pl i. in_use pl i p s1 \<and> \<not> in_use pl i p s2))))"
proof -
  obtain r s1 where a: "funchook_page_alloc_windows (alloc_page_info_64 env) env avail_at func s = Some (r, s1)"
    and ok: "same_handle s s1" "win_ok env s1" "keeps_mapped s s1" "r \<noteq> Inl Crash"
    and new: "\<And>p x. r = Inr p \<Longrightarrow> in_region p (unat (page_size s)) x \<Longrightarrow>
      mprot s x = None \<and> mprot s1 x = Some PROT_RW \<and> mem s1 x = 0"
    using page_alloc_windows_ok [OF assms info_ok_64, of avail_at func] by metis
  show ?thesis
    by (rule exI [of _ r], rule exI [of _ s1]) (use a ok new windows_alloc_free [OF assms] in blast)
qed

theorem windows_page_lifetime_witness:
  "\<exists>s2. funchook_page_alloc_windows (alloc_page_info_64 sample_win_env) sample_win_env (\<lambda>p. True) 0x401000
       sample_win_state = Some (Inr 0x411000, sample_committed_state) \<and>
     funchook_page_free_windows sample_win_env 0x411000 sample_committed_state = (Inr (), s2) \<and>
     mprot s2 = mprot sample_win_state"
proof -
  have "fst (funchook_page_free_windows sample_win_env 0x411000 sample_committed_state) = Inr ()"
    by (simp add: funchook_page_free_windows_def sample_committed_state_def commit_page_def sample_unit_state_def
        Let_def find_unit_def sys_commit_def sys_decommit_def update_unit_def sample_win_env_def sample_win_state_def
        split: prod.splits if_splits)
  then obtain s2 where f: "funchook_page_free_windows sample_win_env 0x411000 sample_committed_state = (Inr (), s2)"
    by (metis prod.collapse)
  from windows_page_lifetime [OF sample_win_ok, of "\<lambda>p. True" "0x401000"] f sample_win_alloc [of "\<lambda>p. True"]
  have "mprot s2 = mprot sample_win_state" by (auto simp only: option.inject prod.inject)
  with f sample_win_alloc [of "\<lambda>p. True"] show ?thesis by blast
qed

section \<open>The search for a unit\<close>

text \<open>
  Memory is reserved in whole allocation units, so a free region ends at a multiple of the
  granularity.
\<close>

definition regions_end_at_units :: "('a::len word) win_env \<Rightarrow> bool" where
  "regions_end_at_units env \<longleftrightarrow> (\<forall>n pr us h mbi. win_query env n pr us h = Some mbi \<longrightarrow> is_free mbi \<longrightarrow>
     (unat (base_address mbi) + unat (region_size mbi)) mod unat (win_granularity env) = 0)"

lemma unit_after_base:
  fixes b sz au :: "'a::len word"
  assumes au: "pow2_unit au" and e: "(unat b + unat sz) mod unat au = 0"
    and lt: "unat b + unat sz < 2 ^ LENGTH('a)" and nz: "0 < unat sz"
    and room: "au \<le> sz - (ROUND_UP b au - b)"
  shows "unit_at au (ROUND_UP b au)" and "b \<le> ROUND_UP b au"
    and "unat (ROUND_UP b au) + unat au \<le> unat b + unat sz"
proof -
  let ?r = "ROUND_UP b au" and ?e = "unat b + unat sz"
  have pos: "0 < unat au" by (rule pow2_unit_pos [OF au])
  have ad: "unat au dvd 2 ^ LENGTH('a)"
    using au by (auto simp: pow2_unit_def unat_pow2 le_imp_power_dvd)
  have ed: "unat au dvd ?e" using e by (simp add: mod_eq_0_iff_dvd)
  then have "unat au dvd 2 ^ LENGTH('a) - ?e" using ad by (rule dvd_diff_nat [rotated])
  then have "?e + unat au \<le> 2 ^ LENGTH('a)"
    using lt dvd_imp_le [of "unat au" "2 ^ LENGTH('a) - ?e"] by linarith
  then have fits: "unat b + unat au - 1 < 2 ^ LENGTH('a)" using nz pos by linarith
  note r = ROUND_UP_bounds [OF au fits]
  obtain k j where kj: "unat ?r = unat au * k" "?e = unat au * j"
    using r(3) ed by (metis dvd_def mod_eq_0_iff_dvd)
  have "unat au * k < unat au * Suc j"
    using r(2) kj nz by simp
  then have "k \<le> j" using mult_less_cancel1 by (metis less_Suc_eq_le)
  then have re: "unat ?r \<le> ?e" unfolding kj by simp
  have "unat (?r - b) = unat ?r - unat b" using r(1) by (simp add: unat_sub word_le_nat_alt)
  moreover from this re r(1) have "unat (sz - (?r - b)) = unat sz - (unat ?r - unat b)"
    by (simp add: unat_sub word_le_nat_alt)
  ultimately show room': "unat ?r + unat au \<le> ?e"
    using room re r(1) by (simp add: word_le_nat_alt)
  show "b \<le> ?r" using r(1) by (simp add: word_le_nat_alt)
  have "ROUND_DOWN ?r au = ?r"
    using unat_ROUND_DOWN [OF au, of ?r] r(3) by (simp add: word_unat_eq_iff)
  then show "unit_at au ?r" using room' lt by (simp add: unit_at_def)
qed

text \<open>
  Without that the gap in front of the unit may be larger than the region; if it is not, the
  unit lies inside.
\<close>

lemma unit_or_gap:
  fixes b sz au :: "'a::len word"
  assumes lt: "unat b + unat sz < 2 ^ LENGTH('a)" and room: "au \<le> sz - (r - b)"
  shows "unat sz < unat (r - b) \<or> b \<le> r \<and> unat r + unat au \<le> unat b + unat sz"
proof (cases "unat sz < unat (r - b)")
  case False
  then have "unat (sz - (r - b)) = unat sz - unat (r - b)"
    by (simp add: unat_sub word_le_nat_alt)
  with room have sz: "unat (r - b) + unat au \<le> unat sz"
    using False by (simp add: word_le_nat_alt)
  with lt have "unat b + unat (r - b) < 2 ^ LENGTH('a)" by linarith
  then have "unat (b + (r - b)) = unat b + unat (r - b)" by (simp add: unat_add_lem)
  then have "unat r = unat b + unat (r - b)" by simp
  with sz show ?thesis by (simp add: word_le_nat_alt)
qed simp

lemma ROUND_DOWN_UP: "ROUND_DOWN (ROUND_UP a n) n = ROUND_UP a n"
  by (simp add: ROUND_DOWN_def ROUND_UP_def word_bw_assocs)

text \<open>What the search returns is the first multiple of the granularity in a free region.\<close>

lemma find_hint_found:
  fixes hint :: "'a::len word"
  assumes "win_ok env s" and "find_hint env hint s = Some (Inr a, s')"
  shows "\<exists>n h mbi. hint \<le> h \<and> win_query env n (mprot s) (reserved s) h = Some mbi \<and> is_free mbi \<and>
    a = ROUND_UP (base_address mbi) (allocation_unit (os_data s)) \<and>
    allocation_unit (os_data s) \<le> region_size mbi - (a - base_address mbi) \<and>
    unat (base_address mbi) + unat (region_size mbi) < 2 ^ LENGTH('a) \<and> 0 < unat (region_size mbi)"
  using assms
proof (induction "2 ^ LENGTH('a) - unat hint" arbitrary: hint s rule: less_induct)
  case less
  let ?t = "win_tick s" and ?au = "allocation_unit (os_data s)"
  have q: "sys_query env hint s = (win_query env (now s) (mprot s) (reserved s) hint, ?t)"
    by (simp add: sys_query_def)
  obtain mbi where m: "win_query env (now s) (mprot s) (reserved s) hint = Some mbi"
    using less.prems(2) by (subst (asm) find_hint.simps) (auto simp: q split: option.splits)
  note k = windows_kernelD(3) [of env, OF _ m]
  have b: "base_address mbi \<le> hint" "unat hint < unat (base_address mbi) + unat (region_size mbi)"
    "unat (base_address mbi) + unat (region_size mbi) < 2 ^ LENGTH('a)"
    using k less.prems(1) by (simp_all add: win_ok_def)
  let ?r = "ROUND_UP (base_address mbi) ?au" and ?next = "base_address mbi + region_size mbi"
  let ?found = "is_free mbi \<and> 0 \<le> sint (?r - base_address mbi) \<and> ?au \<le> region_size mbi - (?r - base_address mbi)"
  have step: "find_hint env hint s = (if ?found then Some (Inr ?r, ?t) else find_hint env ?next ?t)"
    by (subst find_hint.simps) (simp add: q m)
  show ?case
  proof (cases ?found)
    case True
    have "0 < unat (region_size mbi)"
      using b(1,2) by (simp add: word_le_nat_alt)
    moreover have "a = ?r" using less.prems(2) True by (simp add: step)
    ultimately show ?thesis using m b(3) True by blast
  next
    case False
    have "unat hint < unat ?next" using b by (simp add: unat_word_ariths)
    moreover have "unat ?next < 2 ^ LENGTH('a)" by (rule unsigned_less)
    ultimately have lt: "2 ^ LENGTH('a) - unat ?next < 2 ^ LENGTH('a) - unat hint" and le: "hint \<le> ?next"
      using unsigned_less [of hint, where 'a = nat] by (linarith, simp add: word_le_nat_alt)
    have f: "find_hint env ?next ?t = Some (Inr a, s')"
      using less.prems(2) False by (simp only: step if_False)
    have ok: "win_ok env ?t" using less.prems(1) by simp
    have same: "reserved ?t = reserved s" "mprot ?t = mprot s" "os_data ?t = os_data s"
      by (simp_all add: reserved_def)
    from less.hyps [OF lt ok f] le show ?thesis
      unfolding same by (blast intro: order_trans)
  qed
qed

text \<open>
  So the subtraction of the gap from the region's size can wrap around: a free region that ends before the next multiple of the granularity is accepted, and what is
  returned lies behind it.
\<close>

lemma find_hint_small_region:
  fixes hint :: "'a::len word"
  assumes "fst (sys_query env hint s) = Some mbi" and "is_free mbi"
    and "region_size mbi < ROUND_UP (base_address mbi) (allocation_unit (os_data s)) - base_address mbi"
    and "0 \<le> sint (ROUND_UP (base_address mbi) (allocation_unit (os_data s)) - base_address mbi)"
    and "allocation_unit (os_data s) \<le>
      region_size mbi - (ROUND_UP (base_address mbi) (allocation_unit (os_data s)) - base_address mbi)"
  shows "\<exists>a. find_hint env hint s = Some (Inr a, win_tick s) \<and>
    \<not> in_region (base_address mbi) (unat (region_size mbi)) a"
proof -
  have "find_hint env hint s = Some (Inr (ROUND_UP (base_address mbi) (allocation_unit (os_data s))), win_tick s)"
    using assms by (subst find_hint.simps) (simp add: sys_query_def)
  then show ?thesis using assms(3) by (simp add: in_region_def word_less_nat_alt)
qed

text \<open>
  C36: \<open>windows_unit_search\<close>. The search of \<open>alloc_page_info\<close> on 64-bit Windows always ends.
  When it finds a hint, the hint is the first multiple of the allocation granularity from
  the start of a region that the system reported as free for an address at or above the
  function. The whole unit from there lies inside that region, unless the region ends
  before the hint; then the length of the gap exceeds the size of the region and the
  subtraction of src/src/os_windows.c:116 has wrapped around. When every free region ends
  at a multiple of the granularity (\<open>regions_end_at_units\<close>), as it does where all memory is
  reserved in whole units, the unit always lies inside.
\<close>

theorem windows_unit_search:
  assumes "win_ok env s"
  shows "\<exists>r s'. find_hint env (func :: u64) s = Some (r, s') \<and> mprot s' = mprot s \<and>
    (\<forall>hint. r = Inr hint \<longrightarrow> ROUND_DOWN hint (allocation_unit (os_data s)) = hint \<and>
      (\<exists>n h mbi. func \<le> h \<and> win_query env n (mprot s) (reserved s) h = Some mbi \<and> is_free mbi \<and>
        hint = ROUND_UP (base_address mbi) (allocation_unit (os_data s)) \<and>
        (let inside = (base_address mbi \<le> hint \<and>
           unat hint + unat (allocation_unit (os_data s)) \<le> unat (base_address mbi) + unat (region_size mbi))
         in (unat (region_size mbi) < unat (hint - base_address mbi) \<or> inside) \<and>
            (regions_end_at_units env \<longrightarrow> inside))))"
proof -
  let ?au = "allocation_unit (os_data s)"
  obtain r s' where f: "find_hint env func s = Some (r, s')" "quiet s s'"
    using find_hint_ends [OF assms(1)] by blast
  have p: "pow2_unit ?au" and au: "?au = win_granularity env"
    using assms by (simp_all add: win_ok_def page_sizes_def)
  have "ROUND_DOWN hint ?au = hint \<and>
      (\<exists>n h mbi. func \<le> h \<and> win_query env n (mprot s) (reserved s) h = Some mbi \<and> is_free mbi \<and>
        hint = ROUND_UP (base_address mbi) ?au \<and>
        (let inside = (base_address mbi \<le> hint \<and>
           unat hint + unat ?au \<le> unat (base_address mbi) + unat (region_size mbi))
         in (unat (region_size mbi) < unat (hint - base_address mbi) \<or> inside) \<and>
            (regions_end_at_units env \<longrightarrow> inside)))" if r: "r = Inr hint" for hint
  proof -
    obtain n h mbi where m: "func \<le> h" "win_query env n (mprot s) (reserved s) h = Some mbi" "is_free mbi"
      "hint = ROUND_UP (base_address mbi) ?au" "?au \<le> region_size mbi - (hint - base_address mbi)"
      and lt: "unat (base_address mbi) + unat (region_size mbi) < 2 ^ LENGTH(64)"
      and z: "0 < unat (region_size mbi)"
      using find_hint_found [OF assms] f(1) r by blast
    have "base_address mbi \<le> hint \<and>
        unat hint + unat ?au \<le> unat (base_address mbi) + unat (region_size mbi)" if "regions_end_at_units env"
      using unit_after_base(2,3) [OF p _ lt z m(5) [unfolded m(4)]] that m(2-4) au
      by (auto simp: regions_end_at_units_def)
    with unit_or_gap [OF lt m(5)] m(1-4) show ?thesis
      unfolding Let_def by (metis ROUND_DOWN_UP)
  qed
  with f show ?thesis by (auto simp: quiet_def)
qed

lemma sample_regions: "regions_end_at_units sample_win_env"
proof -
  have "unat (ROUND_DOWN h 0x10000) mod 0x10000 = 0" for h :: u64
    using unat_ROUND_DOWN [OF sample_units(1), of h] by (simp add: minus_mod_eq_div_mult)
  then show ?thesis
    by (auto simp: regions_end_at_units_def sample_win_env_def Let_def split: if_splits)
qed

theorem windows_unit_search_witness:
  "find_hint sample_win_env 0x401000 sample_win_state = Some (Inr 0x410000, win_tick (win_tick sample_win_state)) \<and>
   ROUND_DOWN 0x410000 0x10000 = (0x410000 :: u64) \<and>
   (\<exists>n h mbi. 0x401000 \<le> h \<and>
     win_query sample_win_env n (mprot sample_win_state) (reserved sample_win_state) h = Some mbi \<and> is_free mbi \<and>
     base_address mbi \<le> 0x410000 \<and>
     0x410000 + 0x10000 \<le> unat (base_address mbi) + unat (region_size mbi))"
proof -
  have au: "allocation_unit (os_data sample_win_state) = 0x10000" by (simp add: sample_win_state_def)
  have n: "unat (0x410000 :: u64) + unat (0x10000 :: u64) = 0x410000 + 0x10000" by simp
  show ?thesis
    using windows_unit_search [OF sample_win_ok, of "0x401000"] sample_find_hint sample_regions
    unfolding au n [symmetric] Let_def by auto
qed

section \<open>The protection of patched pages\<close>

text \<open>
  C37: \<open>windows_patch_protection\<close>. After \<open>funchook_unprotect_begin\<close> and
  \<open>funchook_unprotect_end\<close> on Windows, with only writes to memory between them, every page of
  the patched region has the protection that its first page had before; other memory keeps its
  own. So the protection is restored exactly when all pages of the region had the same.
\<close>

theorem windows_patch_protection:
  assumes "funchook_unprotect_begin_windows env a n s = (Inr ms, s1)" and "mprot t = mprot s1"
    and "funchook_unprotect_end_windows env ms t = (Inr (), s2)"
  shows "\<exists>old. code_pages_windows (page_size s) a n = (wms_addr ms, wms_size ms) \<and>
    mprot s (wms_addr ms) = Some old \<and> wms_protect ms = old \<and>
    mprot s2 = (\<lambda>x. if in_region (wms_addr ms) (unat (wms_size ms)) x then Some old else mprot s x) \<and>
    (mprot s2 = mprot s \<longleftrightarrow> (\<forall>x. in_region (wms_addr ms) (unat (wms_size ms)) x \<longrightarrow> mprot s x = Some old))"
proof -
  obtain addr sz where c: "code_pages_windows (page_size s) a n = (addr, sz)"
    by (cases "code_pages_windows (page_size s) a n")
  obtain old where old: "mprot s addr = Some old" "ms = \<lparr>wms_addr = addr, wms_size = sz, wms_protect = old\<rparr>"
    "s1 = set_committed addr sz (Some PROT_RWX) (win_tick s)"
    using assms(1)
    by (auto simp: funchook_unprotect_begin_windows_def c sys_protect_def split: if_splits option.splits)
  have "s2 = set_committed addr sz (Some old) (win_tick t)"
    using assms(3)
    by (auto simp: funchook_unprotect_end_windows_def old(2) sys_protect_def split: if_splits option.splits)
  then have m: "mprot s2 = (\<lambda>x. if in_region addr (unat sz) x then Some old else mprot s x)"
    using assms(2) by (auto simp: old(3))
  have "mprot s2 = mprot s \<longleftrightarrow> (\<forall>x. in_region addr (unat sz) x \<longrightarrow> mprot s x = Some old)"
    unfolding m by (auto simp: fun_eq_iff)
  with m c old show ?thesis by simp
qed

text \<open>A patch at the end of a page of code that is followed by a page of data.\<close>

definition sample_two_pages :: "(u64, u64 win_data, u8) fh_state" where
  "sample_two_pages = sample_win_state\<lparr>mprot := (\<lambda>x. if in_region 0x401000 4096 x then Some PROT_RX
     else if in_region 0x402000 4096 x then Some PROT_RW else None)\<rparr>"

lemma sample_two_pages_mapped: "region_mapped (mprot sample_two_pages) 0x401000 8192"
proof (rule region_mapped_of)
  fix x :: u64
  assume x: "in_region 0x401000 8192 x"
  have "in_region 0x401000 4096 x \<or> in_region 0x402000 4096 x"
  proof (cases "unat (x - 0x401000) < 4096")
    case False
    have "unat (y - 0x1000) = unat y - 4096" if "\<not> unat y < 4096" for y :: u64
      using that by (simp add: unat_sub word_le_nat_alt)
    from this [OF False] have "unat (x - 0x402000) = unat (x - 0x401000) - 4096" by simp
    moreover have "unat (x - 0x401000) < 8192" using x by (simp add: in_region_def)
    ultimately show ?thesis using False by (simp add: in_region_def)
  qed (simp add: in_region_def)
  then show "mprot sample_two_pages x \<noteq> None" by (auto simp: sample_two_pages_def)
qed simp

lemma region_mapped_committed:
  "region_mapped (mprot s) a n \<Longrightarrow> region_mapped (mprot (set_committed b sz (Some p) s)) a n"
  by (simp add: region_mapped_def list_all_iff)

theorem windows_patch_protection_witness:
  "\<exists>ms s1 s2. funchook_unprotect_begin_windows sample_win_env 0x401FFE 5 sample_two_pages = (Inr ms, s1) \<and>
     funchook_unprotect_end_windows sample_win_env ms s1 = (Inr (), s2) \<and>
     mprot sample_two_pages 0x402000 = Some PROT_RW \<and> mprot s2 0x402000 = Some PROT_RX"
proof -
  let ?s1 = "set_committed 0x401000 8192 (Some PROT_RWX) (win_tick sample_two_pages)"
  let ?ms = "\<lparr>wms_addr = 0x401000, wms_size = 8192, wms_protect = PROT_RX\<rparr> :: u64 win_mem_state"
  have c: "code_pages_windows 4096 (0x401FFE :: u64) 5 = (0x401000, 8192)" by code_simp
  have ps: "page_size sample_two_pages = 4096"
    and rx: "mprot sample_two_pages 0x401000 = Some PROT_RX"
    and rw: "mprot sample_two_pages 0x402000 = Some PROT_RW"
    by (simp_all add: sample_two_pages_def sample_win_state_def in_region_def)
  have p: "win_protect sample_win_env k pr a sz q = region_mapped pr a (unat sz)" for k pr a sz q
    by (simp add: sample_win_env_def)
  have m: "region_mapped (mprot (win_tick sample_two_pages)) 0x401000 8192"
    using sample_two_pages_mapped by simp
  have b: "funchook_unprotect_begin_windows sample_win_env 0x401FFE 5 sample_two_pages = (Inr ?ms, ?s1)"
    using sample_two_pages_mapped by (simp add: funchook_unprotect_begin_windows_def ps c sys_protect_def p rx)
  obtain s2 where e: "funchook_unprotect_end_windows sample_win_env ?ms ?s1 = (Inr (), s2)"
    using region_mapped_committed [OF m]
    by (auto simp: funchook_unprotect_end_windows_def sys_protect_def p in_region_def)
  have "mprot s2 0x402000 = Some PROT_RX"
    using windows_patch_protection [OF b refl e] rx by (auto simp: in_region_def)
  with b e rw show ?thesis by blast
qed

section \<open>Every sequence of calls\<close>

text \<open>
  C34: \<open>windows_code_kept\<close>. The library on x86_64 Windows, after calls of \<open>funchook_prepare\<close>,
  \<open>funchook_install\<close> and \<open>funchook_uninstall\<close> on a fresh handle in any order, whether they returned 0
  or an error code (\<open>called\<close>; functions prepared with success are committed, apart from the handle's
  pages, free of patches left by a failed call, and have a complete trampoline, unlike those of
  C20): the list of allocation units is consistent, memory that was committed at the start is still
  committed, and its bytes outside the patches of the handle's entries are what they were. A call
  of \<open>funchook_uninstall\<close> that returns 0 makes all of them what they were, and so they are while the
  handle is not installed and no call of \<open>funchook_install\<close> or \<open>funchook_uninstall\<close> has returned an
  error code (\<open>reachable\<close>). The pages of the handle lie where nothing was committed.
\<close>

theorem windows_code_kept:
  assumes "called (x86_64_ops disasm hc) (windows_x86_64_os env resolve) x86_fits s0 s"
    and "fresh_handle (x86_64_ops disasm hc) s0" and "win_ok env s0" and "mprot s0 x \<noteq> None"
  shows "win_ok env s \<and> mprot s x \<noteq> None \<and>
    (\<not> in_patch (x86_64_ops disasm hc) (entries_of (page_list s)) x \<longrightarrow> mem s x = mem s0 x) \<and>
    (\<forall>s'. funchook_uninstall_internal (x86_64_ops disasm hc) (windows_x86_64_os env resolve) s = (Inr (), s') \<longrightarrow>
      mem s' x = mem s0 x) \<and>
    (reachable (x86_64_ops disasm hc) (windows_x86_64_os env resolve) x86_fits s0 s \<and> \<not> installed s \<longrightarrow>
      mem s x = mem s0 x) \<and>
    list_all (\<lambda>page. \<not> in_region (page_addr page) (unat (page_size s)) x) (page_list s)"
  using windows_x86_64.called_memory [OF assms] windows_x86_64.called_inv [OF assms(1-3)] by blast

theorem windows_code_kept_witness:
  "\<exists>s1. funchook_prepare_internal sample_arch sample_win_os 0x401000 sample_params sample_win_state =
       (Inr 0x411058, s1) \<and>
     win_ok sample_win_env s1 \<and> mprot s1 0x401000 \<noteq> None \<and>
     list_all (\<lambda>page. \<not> in_region (page_addr page) (unat (page_size s1)) 0x401000) (page_list s1)"
proof -
  obtain s1 where s: "funchook_prepare_internal sample_arch sample_win_os 0x401000 sample_params sample_win_state =
      (Inr 0x411058, s1)"
    "reachable sample_arch sample_win_os x86_fits sample_win_state s1"
    using sample_win_reachable .
  have "mprot sample_win_state 0x401000 \<noteq> None" by (simp add: sample_win_state_def in_region_def)
  from windows_code_kept [OF windows_x86_64.reachable_called [OF s(2) sample_win_fresh sample_win_ok]
      sample_win_fresh sample_win_ok this] s(1)
  show ?thesis by blast
qed

end
