(* ===== verification/Session_Correct.thy ===== *)
theory Session_Correct
  imports Sample_Session
begin

text \<open>
  What the calls of the library promise on x86_64 Linux, over the handle and its history:
  installing and uninstalling, preparing, failing calls, the dispatch of a prehook, creating
  and destroying a handle. The contracts of the processor and system layers come from the
  interpretations \<open>linux_x86_64\<close>, \<open>unix64\<close> and \<open>unix64_grants\<close>.
\<close>

section \<open>Installing and uninstalling\<close>

text \<open>
  C4: \<open>install_uninstall_restores\<close>. On x86_64 Linux, when the system allows the changes of
  protection, \<open>funchook_install\<close> on a handle that is not installed returns 0 and writes
  exactly the patches of its entries; \<open>funchook_uninstall\<close> after it returns 0 and leaves
  every byte of memory as it was before installing.
\<close>

theorem install_uninstall_restores:
  assumes "unix_ok env s" and "handle_inv (x86_64_ops disasm hc) s" and "\<not> installed s"
    and "kernel_grants env" and "list_all (code_mapped (x86_64_ops disasm hc) s) (entries_of (page_list s))"
  shows "\<exists>s1 s2. funchook_install_internal (x86_64_ops disasm hc) (unix_ops_64 env resolve) s = (Inr (), s1) \<and>
    installed s1 \<and> mem s1 = patched (x86_64_ops disasm hc) new_code (entries_of (page_list s)) (mem s) \<and>
    funchook_uninstall_internal (x86_64_ops disasm hc) (unix_ops_64 env resolve) s1 = (Inr (), s2) \<and>
    \<not> installed s2 \<and> page_list s2 = page_list s \<and> mem s2 = mem s"
  using unix64_grants.install_uninstall_succeed [OF assms(1,3) handle_inv_ready_64 [OF assms(2,5,4)]
      handle_inv_saved [OF assms(2)]] .

theorem install_uninstall_restores_witness:
  "\<exists>s s1 s2. funchook_prepare_internal sample_arch sample_os 0x401000 sample_params sample_state =
       (Inr 0x402058, s) \<and>
     funchook_install_internal sample_arch sample_os s = (Inr (), s1) \<and>
     funchook_uninstall_internal sample_arch sample_os s1 = (Inr (), s2) \<and> mem s2 = mem s"
proof -
  obtain s where s: "funchook_prepare_internal sample_arch sample_os 0x401000 sample_params sample_state =
      (Inr 0x402058, s)"
    "handle_inv sample_arch s" "unix_ok sample_env s" "\<not> installed s"
    "list_all (code_mapped sample_arch s) (entries_of (page_list s))"
    using sample_prepared by metis
  from install_uninstall_restores [OF s(3,2,4) sample_grants s(5)] s(1) show ?thesis by blast
qed

section \<open>Every sequence of calls\<close>

text \<open>
  C5: \<open>called_code_kept\<close>. Let calls of \<open>funchook_prepare\<close>, \<open>funchook_install\<close> and
  \<open>funchook_uninstall\<close>, in any order and whether they return 0 or an error code, have brought a
  fresh handle to the state \<open>s\<close> on x86_64 Linux (\<open>called\<close>). Memory that was mapped at the start is
  still mapped, and every byte of it outside the patches of the handle's entries is what it was.
  A call of \<open>funchook_uninstall\<close> that returns 0 makes all of it what it was. It also is while the
  handle is not installed, unless a call of \<open>funchook_install\<close> or \<open>funchook_uninstall\<close> has returned
  an error code (\<open>reachable\<close>; what is left then is C12). The handle's own pages lie where nothing
  was mapped. A function that is prepared with success is assumed to be mapped, apart from the
  handle's pages, free of patches that a failed call has left in it, and not one of the NOP-padded
  functions of C20, for which the trampoline is incomplete (\<open>x86_fits\<close>).
\<close>

theorem called_code_kept:
  assumes "called (x86_64_ops disasm hc) (unix_ops_64 env resolve) x86_fits s0 s"
    and "fresh_handle (x86_64_ops disasm hc) s0" and "unix_ok env s0" and "mprot s0 x \<noteq> None"
  shows "mprot s x \<noteq> None \<and>
    (\<not> in_patch (x86_64_ops disasm hc) (entries_of (page_list s)) x \<longrightarrow> mem s x = mem s0 x) \<and>
    (\<forall>s'. funchook_uninstall_internal (x86_64_ops disasm hc) (unix_ops_64 env resolve) s = (Inr (), s') \<longrightarrow>
      mem s' x = mem s0 x) \<and>
    (reachable (x86_64_ops disasm hc) (unix_ops_64 env resolve) x86_fits s0 s \<and> \<not> installed s \<longrightarrow>
      mem s x = mem s0 x) \<and>
    list_all (\<lambda>page. \<not> in_region (page_addr page) (unat (page_size s)) x) (page_list s)"
  using linux_x86_64.called_memory [OF assms] by blast

lemma sample_apart_fit:
  "apart sample_arch sample_state (os_resolve_func sample_os 0x401000 sample_state)"
  "arch_make_trampoline sample_arch (mem sample_state) (os_resolve_func sample_os 0x401000 sample_state) = Inr r \<Longrightarrow>
     x86_fits (os_resolve_func sample_os 0x401000 sample_state) r"
  using sample_apart sample_fit by (simp_all add: unix_ops_64_def)

lemma sample_reachable:
  assumes "funchook_prepare_internal sample_arch sample_os 0x401000 sample_params sample_state = (Inr t, s1)"
  shows "reachable sample_arch sample_os x86_fits sample_state s1"
  by (rule reachable.prepare [OF reachable.start sample_apart_fit(1) _ assms]) (rule sample_apart_fit(2))

lemma sample_called:
  assumes "funchook_prepare_internal sample_arch sample_os 0x401000 sample_params sample_state = (Inr t, s1)"
  shows "called sample_arch sample_os x86_fits sample_state s1"
  by (rule linux_x86_64.reachable_called [OF sample_reachable [OF assms] sample_fresh sample_unix_ok])

theorem called_code_kept_witness:
  "\<exists>s1 s2 s3. funchook_prepare_internal sample_arch sample_os 0x401000 sample_params sample_state = (Inr 0x402058, s1) \<and>
     funchook_install_internal sample_arch sample_os s1 = (Inr (), s2) \<and>
     funchook_uninstall_internal sample_arch sample_os s2 = (Inr (), s3) \<and>
     mprot s2 0x401000 \<noteq> None \<and> mem s1 0x401000 = mem sample_state 0x401000 \<and>
     mem s3 0x401000 = mem sample_state 0x401000 \<and>
     list_all (\<lambda>page. \<not> in_region (page_addr page) (unat (page_size s2)) 0x401000) (page_list s2)"
proof -
  obtain s1 where p:
    "funchook_prepare_internal sample_arch sample_os 0x401000 sample_params sample_state = (Inr 0x402058, s1)"
    and k: "handle_inv sample_arch s1" "unix_ok sample_env s1" "\<not> installed s1"
    "list_all (code_mapped sample_arch s1) (entries_of (page_list s1))"
    using sample_prepared by metis
  obtain s2 s3 where i: "funchook_install_internal sample_arch sample_os s1 = (Inr (), s2)"
    and u: "funchook_uninstall_internal sample_arch sample_os s2 = (Inr (), s3)"
    using unix64_grants.install_uninstall_succeed [OF k(2,3) handle_inv_ready_64 [OF k(1,4) sample_grants]
        handle_inv_saved [OF k(1)]] by blast
  have m: "mprot sample_state 0x401000 \<noteq> None"
    by (simp add: sample_state_def in_region_def)
  have c2: "called sample_arch sample_os x86_fits sample_state s2"
    by (rule called_install [OF sample_called [OF p] i]) simp
  note first = called_code_kept [OF sample_called [OF p] sample_fresh sample_unix_ok m]
  note second = called_code_kept [OF c2 sample_fresh sample_unix_ok m]
  show ?thesis using p i u first second sample_reachable [OF p] k(3) by blast
qed

text \<open>
  C11: \<open>called_install_no_crash\<close>. In every state that calls with any outcome have brought a fresh
  handle to (\<open>called\<close>, with its conditions on the prepared functions: complete trampolines, so no
  NOP-padded function as in C20), and as long as no prepared function lies within a page and
  twenty bytes of the end of the address space, \<open>funchook_install\<close> never reads or writes past its
  buffers or writes to memory it has not made writable: it returns 0 or an error code, whatever
  the system answers.
\<close>

theorem called_install_no_crash:
  assumes "called (x86_64_ops disasm hc) (unix_ops_64 env resolve) x86_fits s0 s"
    and "fresh_handle (x86_64_ops disasm hc) s0" and "unix_ok env s0"
    and "list_all (\<lambda>e. unat (target_func e) + MAX_PATCH_CODE_SIZE + unat (page_size s) < 2 ^ 64)
      (entries_of (page_list s))"
  shows "fst (funchook_install_internal (x86_64_ops disasm hc) (unix_ops_64 env resolve) s) \<noteq> Inl Crash"
  using linux_x86_64.called_install_returns [OF assms(1-3)] assms(4) by (simp add: window_def)

theorem called_install_no_crash_witness:
  "\<exists>s1. funchook_prepare_internal sample_arch sample_os 0x401000 sample_params sample_state = (Inr 0x402058, s1) \<and>
     fst (funchook_install_internal sample_arch sample_os s1) \<noteq> Inl Crash"
proof -
  obtain s1 e where s:
    "funchook_prepare_internal sample_arch sample_os 0x401000 sample_params sample_state = (Inr 0x402058, s1)"
    "set (entries_of (page_list s1)) = {e}" "target_func e = 0x401000" "page_size s1 = 4096"
    using sample_prepared by metis
  then have "list_all (\<lambda>e. unat (target_func e) + MAX_PATCH_CODE_SIZE + unat (page_size s1) < 2 ^ 64)
      (entries_of (page_list s1))"
    by (simp add: list_all_iff x86_sizes)
  from called_install_no_crash [OF sample_called [OF s(1)] sample_fresh sample_unix_ok this] s(1)
  show ?thesis by blast
qed

section \<open>Preparing\<close>



text \<open>
  C13: \<open>prepare_error_keeps\<close>. When \<open>funchook_prepare\<close> returns an error code, the handle is
  as it was (no entry and no page has been added, it is still not installed) and all memory
  the program had mapped keeps its contents and its protection; a page obtained from the
  system out of reach of the function has been given back.
\<close>

theorem prepare_error_keeps:
  assumes "unix_ok env s" and "handle_inv (x86_64_ops disasm hc) s"
    and "funchook_prepare_internal (x86_64_ops disasm hc) (unix_ops_64 env resolve) target params s = (Inl (Err c), s')"
  shows "same_handle s s' \<and> keeps_mapped s s' \<and> handle_inv (x86_64_ops disasm hc) s' \<and> unix_ok env s'"
  using linux_x86_64.prepare_error [OF assms] by blast

theorem prepare_error_keeps_witness:
  "\<exists>c s'. funchook_prepare_internal (x86_64_ops (\<lambda>m f k. Inl (Err ERROR_DISASSEMBLY, [])) 0) sample_os
       0x401000 sample_params sample_state = (Inl (Err c), s') \<and>
     same_handle sample_state s' \<and> keeps_mapped sample_state s'"
proof -
  let ?arch = "x86_64_ops (\<lambda>m f k. Inl (Err ERROR_DISASSEMBLY, [])) 0"
  have "handle_inv ?arch sample_state"
    using sample_inv by (simp add: handle_inv_def sample_state_def layout_ok_def window_def)
      (simp add: x86_64_ops_def)
  moreover obtain s' where "funchook_prepare_internal ?arch sample_os 0x401000 sample_params sample_state =
      (Inl (Err ERROR_DISASSEMBLY), s')"
    by (simp add: funchook_prepare_internal_def sample_state_def funchook_make_trampoline_def)
  ultimately show ?thesis using prepare_error_keeps [OF sample_unix_ok, of _ 0] by blast
qed

section \<open>When installing fails\<close>

text \<open>
  C12: \<open>failed_install\<close>. When \<open>funchook_install\<close> on a handle that is not installed returns
  an error, the patches of the first \<open>k\<close> entries, for some \<open>k\<close>, have been written and the
  handle still counts as not installed, so that \<open>funchook_uninstall\<close> refuses to take them
  back. A further call of \<open>funchook_install\<close> that succeeds gives the same memory as a
  first call would have given, and uninstalling after it restores all of it.
\<close>

theorem failed_install:
  assumes "unix_ok env s" and "handle_inv (x86_64_ops disasm hc) s" and "\<not> installed s"
    and "funchook_install_internal (x86_64_ops disasm hc) (unix_ops_64 env resolve) s = (Inl f, s1)"
  shows "\<not> installed s1 \<and> page_list s1 = page_list s \<and>
    (\<exists>k \<le> length (entries_of (page_list s)).
       mem s1 = patched (x86_64_ops disasm hc) new_code (take k (entries_of (page_list s))) (mem s)) \<and>
    funchook_uninstall_internal (x86_64_ops disasm hc) (unix_ops_64 env resolve) s1 =
      (Inl (Err ERROR_NOT_INSTALLED), s1) \<and>
    (\<forall>s2. funchook_install_internal (x86_64_ops disasm hc) (unix_ops_64 env resolve) s1 = (Inr (), s2) \<longrightarrow>
       mem s2 = patched (x86_64_ops disasm hc) new_code (entries_of (page_list s)) (mem s) \<and>
       (\<forall>s3. funchook_uninstall_internal (x86_64_ops disasm hc) (unix_ops_64 env resolve) s2 = (Inr (), s3) \<longrightarrow>
          mem s3 = mem s))"
proof -
  let ?arch = "x86_64_ops disasm hc" and ?os = "unix_ops_64 env resolve"
  let ?es = "entries_of (page_list s)"
  note ok = unix64.install_error(1) [OF assms(1,3,4)]
  obtain k where k: "k \<le> length ?es" "after_patch s (patched ?arch new_code (take k ?es) (mem s)) s1"
    using unix64.install_error(2) [OF assms(1,3,4)] by blast
  have h: "\<not> installed s1" "page_list s1 = page_list s" "mem s1 = patched ?arch new_code (take k ?es) (mem s)"
    using k(2) assms(3) by (simp_all add: after_patch_def same_handle_def)
  have again: "mem s2 = patched ?arch new_code ?es (mem s)"
    if "funchook_install_internal ?arch ?os s1 = (Inr (), s2)" for s2
    using unix64.install_ok(4) [OF ok that] by (simp add: h(2,3) patched_again)
  moreover have "mem s3 = mem s"
    if i: "funchook_install_internal ?arch ?os s1 = (Inr (), s2)"
      and u: "funchook_uninstall_internal ?arch ?os s2 = (Inr (), s3)" for s2 s3
  proof -
    note io = unix64.install_ok [OF ok i]
    show ?thesis
      using unix64.uninstall_ok(4) [OF io(5) u] again [OF i] io(3) h(2)
        patched_restored [OF handle_inv_saved [OF assms(2)]] by simp
  qed
  moreover have "funchook_uninstall_internal ?arch ?os s1 = (Inl (Err ERROR_NOT_INSTALLED), s1)"
    using h(1) by (simp add: funchook_uninstall_internal_def)
  ultimately show ?thesis using h k(1) by blast
qed

text \<open>A kernel that makes the page of the handle executable and then refuses every change.\<close>

definition strict_env :: "u64 unix_env" where
  "strict_env = sample_env\<lparr>env_mprotect := (\<lambda>n pr a sz p. if n = 2 \<and> region_mapped pr a (unat sz) then None else Some 12)\<rparr>"

abbreviation strict_os where "strict_os \<equiv> unix_ops_64 strict_env (\<lambda>f s. f)"

lemma strict_unix_ok: "unix_ok sample_env s \<Longrightarrow> unix_ok strict_env s"
proof -
  have "unix_kernel strict_env"
    using sample_kernel region_mappedD
    by (fastforce simp: unix_kernel_def strict_env_def split: if_splits)
  then show "unix_ok sample_env s \<Longrightarrow> unix_ok strict_env s"
    by (simp add: unix_ok_def strict_env_def)
qed

lemma sample_mapped_fields:
  "now sample_mapped_state = 2" "page_size sample_mapped_state = 4096" "installed sample_mapped_state = False"
  "num_entries_in_page sample_mapped_state = 28"
  "\<And>x. in_region 0x401000 4096 x \<Longrightarrow> mem sample_mapped_state x = sample_mem x"
proof -
  have st: "sample_mapped_state = set_prot 0x402000 4096 (Some PROT_RW)
      (tick (tick sample_state\<lparr>mem := mem_write (mem sample_state) 0x402000 (replicate 4096 0)\<rparr>))"
    using sample_region_free
    by (simp add: sample_mapped_state_def sys_mmap_def Let_def sample_env_def MAP_FAILED_def tick_def)
  show "now sample_mapped_state = 2" "page_size sample_mapped_state = 4096"
    "installed sample_mapped_state = False" "num_entries_in_page sample_mapped_state = 28"
    by (simp_all add: st set_prot_def tick_def sample_state_def)
  fix x :: u64
  assume "in_region 0x401000 4096 x"
  then have "\<not> in_region 0x402000 4096 x"
    by (rule regions_apart [rotated 2]) simp_all
  then show "mem sample_mapped_state x = sample_mem x"
    by (simp add: st set_prot_def tick_def mem_write_other) (simp add: sample_state_def)
qed

lemma strict_install:
  assumes s1: "s1 = sample_mapped_state\<lparr>mem := m, page_list := [\<lparr>page_addr = 0x402000, used = 1, entries = [e]\<rparr>]\<rparr>"
  obtains s2 where "funchook_install_internal sample_arch strict_os s1 = (Inl (Err ERROR_MEMORY_FUNCTION), s2)"
    and "mem s2 = m" and "page_list s2 = page_list s1" and "\<not> installed s2" and "num_entries_in_page s2 = 28"
    and "mprot s2 0x4020a0 = Some PROT_RX"
proof -
  have "region_mapped (mprot s1) 0x402000 4096"
    using sample_page_rw by (intro region_mapped_of) (simp_all add: s1)
  then have p: "os_page_protect strict_os 0x402000 s1 =
      (Inr (), set_prot 0x402000 4096 (Some PROT_RX) (tick s1))" (is "_ = (_, ?t)")
    by (simp add: unix_ops_64_def funchook_page_protect_def sys_mprotect_def strict_env_def s1 sample_mapped_fields)
  have n: "now ?t = 3" "installed ?t = False" "num_entries_in_page ?t = 28" "mem ?t = m"
    "page_list ?t = page_list s1" "mprot ?t 0x4020a0 = Some PROT_RX"
    by (simp_all add: set_prot_def tick_def s1 sample_mapped_fields in_region_def)
  have mp: "sys_mprotect strict_env a sz q ?t = (Some 12, tick ?t)" for a sz q
    by (simp add: sys_mprotect_def strict_env_def n(1))
  obtain msg where b: "funchook_unprotect_begin strict_env (target_func e) (of_nat (patch_code_byte_size sample_arch e)) ?t =
      (Inl (Err ERROR_MEMORY_FUNCTION), funchook_set_error_message msg (tick ?t))"
    by (simp add: funchook_unprotect_begin_def Let_def mp EACCES_def)
  have "funchook_install_internal sample_arch strict_os s1 =
      (Inl (Err ERROR_MEMORY_FUNCTION), funchook_set_error_message msg (tick ?t))"
    using p b by (simp add: funchook_install_internal_def s1 sample_mapped_fields patch_entry_def)
      (simp add: unix_ops_64_def)
  then show ?thesis
    by (rule that) (use n in \<open>simp_all add: funchook_set_error_message_def tick_def\<close>)
qed

theorem failed_install_witness:
  "\<exists>s f s1. funchook_prepare_internal sample_arch sample_os 0x401000 sample_params sample_state = (Inr 0x402058, s) \<and>
     funchook_install_internal sample_arch strict_os s = (Inl f, s1) \<and> \<not> installed s1 \<and>
     funchook_uninstall_internal sample_arch strict_os s1 = (Inl (Err ERROR_NOT_INSTALLED), s1)"
proof -
  obtain e where p: "funchook_prepare_internal sample_arch sample_os 0x401000 sample_params sample_state =
      (Inr 0x402058, sample_mapped_state
         \<lparr>mem := mem_write (mem sample_mapped_state) 0x402010 (entry_bytes_x86_64 e),
           page_list := [\<lparr>page_addr = 0x402000, used = 1, entries = [e]\<rparr>]\<rparr>)" (is "_ = (_, ?s)")
    using sample_prepare_state .
  obtain s1 where i: "funchook_install_internal sample_arch strict_os ?s = (Inl (Err ERROR_MEMORY_FUNCTION), s1)"
    using strict_install [OF refl] by metis
  have "handle_inv sample_arch ?s" "unix_ok strict_env ?s" "\<not> installed ?s"
    using linux_x86_64.prepare_ok(1,2,4) [OF sample_unix_ok sample_inv refl sample_apart_fit p] strict_unix_ok
    by blast+
  from failed_install [OF this(2,1,3) i] p i show ?thesis by blast
qed

lemma sample_code_kept:
  "same_code (mem_write (mem sample_mapped_state) 0x402010 (entry_bytes_x86_64 e)) sample_mem 0x401000"
  if "length (entry_bytes_x86_64 e) = 144"
  unfolding same_code_def
proof (intro allI impI)
  fix i assume "i < MAX_PATCH_CODE_SIZE"
  then have i: "i < 20" by (simp add: x86_sizes)
  then have r: "in_region 0x401000 4096 (0x401000 + of_nat i :: u64)"
    by (simp add: in_region_def unat_of_nat)
  have "in_region 0x401000 20 (0x401000 + of_nat i :: u64)"
    using i by (simp add: in_region_def unat_of_nat)
  then have "\<not> in_region 0x402010 144 (0x401000 + of_nat i :: u64)"
    by (rule regions_apart [rotated 2]) simp_all
  then show "mem_write (mem sample_mapped_state) 0x402010 (entry_bytes_x86_64 e) (0x401000 + of_nat i) =
      sample_mem (0x401000 + of_nat i)"
    using sample_mapped_fields(5) [OF r] that by (simp add: mem_write_other)
qed

text \<open>
  There is a run of three calls in which a
  failing \<open>funchook_install\<close> makes a later \<open>funchook_prepare\<close> write to read-only memory:
  the failing call has already made the handle's page read-only and executable, leaves it
  so, and the next hook is put into the same page.
\<close>

theorem prepare_after_failed_install_faults:
  "\<exists>s1 s2. unix_ok strict_env s1 \<and> handle_inv sample_arch s1 \<and>
     funchook_prepare_internal sample_arch sample_os 0x401000 sample_params sample_state = (Inr 0x402058, s1) \<and>
     funchook_install_internal sample_arch strict_os s1 = (Inl (Err ERROR_MEMORY_FUNCTION), s2) \<and>
     \<not> installed s2 \<and> mem s2 = mem s1 \<and>
     fst (funchook_prepare_internal sample_arch strict_os 0x401000 sample_params s2) = Inl Crash"
proof -
  obtain e where p: "funchook_prepare_internal sample_arch sample_os 0x401000 sample_params sample_state =
      (Inr 0x402058, sample_mapped_state
         \<lparr>mem := mem_write (mem sample_mapped_state) 0x402010 (entry_bytes_x86_64 e),
           page_list := [\<lparr>page_addr = 0x402000, used = 1, entries = [e]\<rparr>]\<rparr>)" (is "_ = (_, ?s)")
    using sample_prepare_state .
  have inv: "handle_inv sample_arch ?s" and ok: "unix_ok strict_env ?s"
    using linux_x86_64.prepare_ok(1,2) [OF sample_unix_ok sample_inv refl sample_apart_fit p] strict_unix_ok
    by blast+
  from inv have "mem_read (mem ?s) (entry_address CPU_X86_64 0x402000 0) 144 = entry_bytes_x86_64 e"
    by (simp add: handle_inv_def page_ok_def)
  then have len: "length (entry_bytes_x86_64 e) = 144"
    by (metis length_mem_read)
  obtain s2 where i: "funchook_install_internal sample_arch strict_os ?s = (Inl (Err ERROR_MEMORY_FUNCTION), s2)"
    and m2: "mem s2 = mem_write (mem sample_mapped_state) 0x402010 (entry_bytes_x86_64 e)"
    and s2: "page_list s2 = page_list ?s" "\<not> installed s2" "num_entries_in_page s2 = 28"
      "mprot s2 0x4020a0 = Some PROT_RX"
    using strict_install [OF refl] .
  have "make_trampoline_x86_64 sample_disasm (mem s2) 0x401000 = make_trampoline_x86_64 sample_disasm sample_mem 0x401000"
    using sample_code_kept [OF len] sample_disasm_ok sample_wf
    by (intro make_trampoline_same_code) (simp_all add: m2)
  then have mt: "make_trampoline_x86_64 sample_disasm (mem s2) 0x401000 = Inr (sample_disp, sample_trampoline, 16)"
    by (simp only: sample_run)
  have av: "funchook_page_avail 0x402000 1 0x401000 sample_disp" by code_simp
  have ea: "entry_address CPU_X86_64 0x402000 1 = 0x4020a0"
    by (simp add: entry_address_def CPU_X86_64_def)
  have g: "get_page sample_arch strict_os 0x401000 sample_disp s2 =
      (Inr \<lparr>page_addr = 0x402000, used = 1, entries = [e]\<rparr>, s2)"
    using av s2(1,3) by (simp add: get_page_def)
  have rf: "os_resolve_func (strict_os :: (u64, u64 ip_displacement, _, _) os_ops) 0x401000 s2 = 0x401000" by (simp add: unix_ops_64_def)
  have "\<not> writable s2 0x4020a0 144"
    using s2(4) by (auto simp: writable_iff PROT_RX_def intro!: exI [of _ 0])
  then have "fst (funchook_prepare_internal sample_arch strict_os 0x401000 sample_params s2) = Inl Crash"
    using mt rf g ea s2(2) by (simp add: funchook_prepare_internal_def Let_def)
  moreover have "mem s2 = mem ?s" by (simp add: m2)
  ultimately show ?thesis using ok inv p i s2(2) by blast
qed

section \<open>The call of a prehook\<close>

text \<open>
  \<open>funchook_hook_caller\<close>, entered with the address of the
  transit code of the \<open>i\<close>-th entry of a page, calls the prehook of that entry with the
  data of that entry (the original and the resolved function, the trampoline in the entry,
  the hook, the user data, the saved registers and the flags), and returns the hook function
  the prehook has left in the record, or the trampoline when that is null.
\<close>

theorem hook_caller_dispatch:
  assumes "handle_inv (x86_64_ops disasm hc) s" and "page \<in> set (page_list s)" and "i < used page"
  shows "funchook_hook_caller (x86_64_ops disasm hc) call (page_list s)
      (entry_address CPU_X86_64 (page_addr page) i) base =
    (let e = entries page ! i;
         tramp = entry_address CPU_X86_64 (page_addr page) i + 72;
         info = call (prehook e)
           \<lparr>fi_original_target_func = original_target_func e, fi_target_func = target_func e,
            fi_trampoline_func = tramp, fi_hook_func = hook_func e, fi_user_data = user_data e,
            fi_arg_handle = (base, eflags e)\<rparr>
     in Some (if fi_hook_func info \<noteq> 0 then fi_hook_func info else tramp))"
  using x86_64_code.find_entry_ok [OF assms] by (simp add: funchook_hook_caller_def Let_def)

theorem hook_caller_dispatch_witness:
  "\<exists>s. funchook_prepare_internal sample_arch sample_os 0x401000 sample_params sample_state = (Inr 0x402058, s) \<and>
     funchook_hook_caller sample_arch (\<lambda>f info. info\<lparr>fi_hook_func := 0\<rparr>) (page_list s) 0x402010 0 = Some 0x402058"
proof -
  obtain e where p: "funchook_prepare_internal sample_arch sample_os 0x401000 sample_params sample_state =
      (Inr 0x402058, sample_mapped_state
         \<lparr>mem := mem_write (mem sample_mapped_state) 0x402010 (entry_bytes_x86_64 e),
           page_list := [\<lparr>page_addr = 0x402000, used = 1, entries = [e]\<rparr>]\<rparr>)" (is "_ = (_, ?s)")
    using sample_prepare_state .
  have inv: "handle_inv sample_arch ?s"
    using linux_x86_64.prepare_ok(1) [OF sample_unix_ok sample_inv refl sample_apart_fit p] by blast
  have "entry_address CPU_X86_64 0x402000 0 = 0x402010"
    by (simp add: entry_address_def CPU_X86_64_def)
  with hook_caller_dispatch [OF inv, of "\<lparr>page_addr = 0x402000, used = 1, entries = [e]\<rparr>" 0
      "\<lambda>f info. info\<lparr>fi_hook_func := 0\<rparr>" 0]
  have "funchook_hook_caller sample_arch (\<lambda>f info. info\<lparr>fi_hook_func := 0\<rparr>) (page_list ?s) 0x402010 0 = Some 0x402058"
    by simp
  with p show ?thesis by blast
qed

section \<open>Creating and destroying a handle\<close>

lemma sample_heap_free: "region_free (mprot sample_state) 0x500000 4096"
proof -
  have "\<not> in_region (0x401000 :: u64) 4096 (0x500000 + of_nat i)" if "i < 4096" for i
    using that by (intro not_in_region_beyond) simp_all
  moreover have "\<not> in_region (MAP_FAILED :: u64) 4096 (0x500000 + of_nat i)" if "i < 4096" for i
    using that by (intro not_in_region_beyond) (simp_all add: MAP_FAILED_def)
  ultimately show ?thesis
    by (simp add: region_free_def list_all_iff sample_state_def)
qed

text \<open>
  On x86_64 Linux, \<open>funchook_create\<close> either returns \<open>NULL\<close>,
  when the system has no memory, or a handle that is not installed and has no pages, whose
  pages will hold as many entries of 144 bytes as fit behind their 16-byte header; memory
  that was mapped is unchanged.
\<close>

theorem create_fresh_handle:
  assumes "unix_ok env (s\<lparr>page_size := env_page_size env\<rparr>)" and "page_size s \<in> {0, env_page_size env}"
    and "0x1000 \<le> env_page_size env" and "num_entries_in_page s = 0"
    and "funchook_create_internal (x86_64_ops disasm hc) (funchook_alloc env handle_size) s = (h, s')"
  shows "keeps_mapped s s' \<and> unix_ok env s' \<and>
    (h = 0 \<or> fresh_handle (x86_64_ops disasm hc) s' \<and>
       num_entries_in_page s' = (unat (env_page_size env) - 16) div 144)"
proof -
  let ?arch = "x86_64_ops disasm hc" and ?s = "s\<lparr>page_size := env_page_size env\<rparr>"
  let ?sz = "ROUND_UP handle_size (env_page_size env)"
  obtain m s1 where a: "sys_mmap env 0 ?sz ?s = (m, s1)"
    by (cases "sys_mmap env 0 ?sz ?s")
  have psz: "env_page_size env \<noteq> 0" using assms(3) by auto
  then have "(if page_size s = 0 then s\<lparr>page_size := env_page_size env\<rparr> else s) = ?s"
    using assms(2) by auto
  then have al: "funchook_alloc env handle_size s = (if m = -1 then 0 else m, s1)"
    using a by (simp add: funchook_alloc_def Let_def)
  note mm = mmap_ok(1-3) [OF assms(1) a]
  have k: "keeps_mapped s s1" using mm(3) by (simp add: keeps_mapped_def)
  have f: "page_size s1 = env_page_size env" "num_entries_in_page s1 = 0"
    using mm(1) assms(4) by (simp_all add: same_handle_def)
  define n where "n = (unat (env_page_size env) - 16) div 144"
  have u: "unat (env_page_size env - 16) = unat (env_page_size env) - 16"
    using assms(3) by (simp add: unat_sub_if_size word_le_nat_alt)
  have ge: "0x1000 \<le> unat (env_page_size env)"
    using assms(3) by (simp add: word_le_nat_alt)
  have n: "entries_in_page ?arch (env_page_size env) = n"
    by (simp add: entries_in_page_def n_def u) (simp add: x86_64_ops_def u)
  show ?thesis
  proof (cases "m = -1 \<or> m = 0")
    case True
    then have "h = 0 \<and> s' = s1"
      using assms(5) al by (auto simp: funchook_create_internal_def)
    then show ?thesis using k mm(2) by simp
  next
    case False
    then have s': "s' = s1\<lparr>installed := False, page_list := [], error_message := [], num_entries_in_page := n\<rparr>"
      using assms(5) al f n by (simp add: funchook_create_internal_def Let_def)
    have "n * 144 + 16 \<le> unat (env_page_size env)" "0 < n"
      using ge by (simp_all add: n_def)
    then have "layout_ok ?arch (env_page_size env) n"
      by (simp add: layout_ok_def window_def x86_sizes) (simp add: x86_64_ops_def)
    then have "fresh_handle ?arch s'" using f by (simp add: fresh_handle_def s')
    moreover have "unix_ok env s'" by (rule unix64.os_ok_cong [OF mm(2)]) (simp_all add: s')
    moreover have "keeps_mapped s s'" using k by (simp add: keeps_mapped_def s')
    ultimately show ?thesis by (simp add: s' n_def)
  qed
qed

theorem create_fresh_handle_witness:
  "\<exists>s'. funchook_create_internal sample_arch (funchook_alloc sample_env 344)
       (sample_state\<lparr>page_size := 0, num_entries_in_page := 0\<rparr>) = (0x500000, s') \<and>
     fresh_handle sample_arch s' \<and> num_entries_in_page s' = 28"
proof -
  let ?s = "sample_state\<lparr>page_size := 0, num_entries_in_page := 0\<rparr>"
  have pg: "env_page_size sample_env = 4096" by (simp add: sample_env_def)
  have ok: "unix_ok sample_env (?s\<lparr>page_size := env_page_size sample_env\<rparr>)"
    by (rule unix64.os_ok_cong [OF sample_unix_ok]) (simp_all add: pg, simp add: sample_state_def)
  obtain h s' where c: "funchook_create_internal sample_arch (funchook_alloc sample_env 344) ?s = (h, s')"
    by (cases "funchook_create_internal sample_arch (funchook_alloc sample_env 344) ?s")
  have "ROUND_UP (344 :: u64) 4096 = 4096" by code_simp
  then have "fst (funchook_alloc sample_env 344 ?s) = 0x500000"
    using sample_heap_free by (simp add: funchook_alloc_def pg sys_mmap_def Let_def)
      (simp add: sample_env_def MAP_FAILED_def)
  with c have "h = 0x500000"
    by (auto simp: funchook_create_internal_def Let_def split: prod.splits)
  with create_fresh_handle [OF ok _ _ _ c] c show ?thesis by (auto simp: pg)
qed

abbreviation linux_ops ::
    "u64 unix_env \<Rightarrow> (u64 \<Rightarrow> (u64, prot, u8) fh_state \<Rightarrow> u64) \<Rightarrow>
      (u64, u64 ip_displacement, u64 mem_state, (u64, prot, u8) fh_state) os_ops" where
  "linux_ops \<equiv> unix_ops_64"

text \<open>
  C17: \<open>destroy_releases\<close>. \<open>funchook_destroy\<close> refuses a null handle and an installed one
  and changes nothing then. Otherwise, when the system unmaps what it is asked to, no page
  of the handle and no part of the handle itself stays mapped; all other memory keeps its
  protection, and no byte of memory is changed.
\<close>

theorem destroy_releases:
  assumes "unix_ok env s" and "\<And>n a sz. env_munmap env n a sz = None"
    and "funchook_destroy_internal (linux_ops env resolve) (funchook_free env handle_size) handle s = (r, s')"
  shows "if handle = 0 then r = Inl (Err ERROR_INTERNAL_ERROR) \<and> s' = s
    else if installed s then r = Inl (Err ERROR_ALREADY_INSTALLED) \<and> s' = s
    else r = Inr () \<and> mem s' = mem s \<and>
      (\<forall>x. mprot s' x =
         (if in_region handle (unat (ROUND_UP handle_size (page_size s))) x \<or>
             list_ex (\<lambda>page. in_region (page_addr page) (unat (page_size s)) x) (page_list s)
          then None else mprot s x))"
proof (cases "handle = 0 \<or> installed s")
  case True
  then show ?thesis using assms(3) by (auto simp: funchook_destroy_internal_def)
next
  case False
  let ?os = "linux_ops env resolve" and ?t = "free_pages (linux_ops env resolve) (page_list s) s"
  note k = unix64_frees.free_pages_keeps [OF assms(1) refl [of ?t]]
  have "fst (os_page_free ?os p t) = Inr ()" for p and t :: "(u64, prot, u8) fh_state"
    by (simp add: unix_ops_64_def funchook_page_free_def sys_munmap_def assms(2))
  then have un: "mprot ?t x = None"
    if "list_ex (\<lambda>page. in_region (page_addr page) (unat (page_size s)) x) (page_list s)" for x
    using unix64_frees.free_pages_unmaps [OF _ assms(1) that] by blast
  have eq: "mprot ?t x = mprot s x"
    if "\<not> list_ex (\<lambda>page. in_region (page_addr page) (unat (page_size s)) x) (page_list s)" for x
    using k that by (simp add: list_ex_iff list_all_iff)
  have "page_size ?t = page_size s" using k by (simp add: same_handle_def)
  then have "r = Inr ()" "s' = set_prot handle (ROUND_UP handle_size (page_size s)) None (tick ?t)"
    using assms(3) False
    by (simp_all add: funchook_destroy_internal_def funchook_free_def sys_munmap_def assms(2))
  then show ?thesis
    using False k un eq by (auto simp: set_prot_def tick_def)
qed

theorem destroy_releases_witness:
  "\<exists>s s'. funchook_prepare_internal sample_arch sample_os 0x401000 sample_params sample_state = (Inr 0x402058, s) \<and>
     funchook_destroy_internal (linux_ops sample_env (\<lambda>f s. f)) (funchook_free sample_env 344) 0x500000 s = (Inr (), s') \<and>
     mprot s 0x402000 = Some PROT_RW \<and> mprot s' 0x402000 = None"
proof -
  obtain e where p: "funchook_prepare_internal sample_arch sample_os 0x401000 sample_params sample_state =
      (Inr 0x402058, sample_mapped_state
         \<lparr>mem := mem_write (mem sample_mapped_state) 0x402010 (entry_bytes_x86_64 e),
           page_list := [\<lparr>page_addr = 0x402000, used = 1, entries = [e]\<rparr>]\<rparr>)" (is "_ = (_, ?s)")
    using sample_prepare_state .
  have ok: "unix_ok sample_env ?s"
    using linux_x86_64.prepare_ok(2) [OF sample_unix_ok sample_inv refl sample_apart_fit p] by blast
  have un: "\<And>n a sz. env_munmap sample_env n a sz = None" by (simp add: sample_env_def)
  obtain r s' where d: "funchook_destroy_internal (linux_ops sample_env (\<lambda>f s. f)) (funchook_free sample_env 344) 0x500000 ?s = (r, s')"
    by (cases "funchook_destroy_internal (linux_ops sample_env (\<lambda>f s. f)) (funchook_free sample_env 344) 0x500000 ?s")
  have rg: "in_region (0x402000 :: u64) 4096 0x402000" by (simp add: in_region_def)
  from destroy_releases [OF ok un d] rg sample_mapped_fields
  have "r = Inr ()" "mprot s' 0x402000 = None" by simp_all
  moreover have "mprot ?s 0x402000 = Some PROT_RW" using sample_page_rw [OF rg] by simp
  ultimately show ?thesis using p d by blast
qed

end
