(* ===== verification/Hook_Caller.thy ===== *)
theory Hook_Caller
  imports Arch_X86 Arch_ARM64
begin

text \<open>
  The assembly routines \<open>funchook_hook_caller_asm\<close>: src/src/prehook-x86_64-sysv.S,
  src/src/prehook-x86_64-ms.S, src/src/prehook-i686-gas.S, src/src/prehook-i686-ms.asm and
  src/src/prehook-arm64-gas.S. The transit code of an entry jumps to them; they save the argument
  registers below the frame pointer, call the C function \<open>funchook_hook_caller\<close> with the address of the transit code and the frame
  pointer, restore the argument registers and jump to the address it returned.

  The x86 machine has the sixteen general registers, the vector registers and memory, and one
  instruction per mnemonic the routines use (Intel SDM); the ARM64 machine has the general
  registers, the stack pointer, the vector registers and memory (Arm ARM). The called function
  is a parameter. src/src/prehook-x86_64-ms.asm and src/src/prehook-arm64-ms.asm hold the same
  instructions as their gas counterparts for another assembler.
\<close>

section \<open>The machine\<close>

datatype gpr = AX | BX | CX | DX | SI | DI | BP | SP | R8 | R9 | R10 | R11 | R12 | R13 | R14 | R15

type_synonym xmm = "128 word"

record 'w machine =
  gprs :: "gpr \<Rightarrow> 'w"
  xmms :: "nat \<Rightarrow> xmm"
  ram :: "'w \<Rightarrow> u8"

text \<open>Operands in the order of the Intel manual, the destination first.\<close>

datatype 'w asm_insn =
    Endbr
  | Push gpr
  | Mov gpr gpr
  | Pop gpr
  | Add_imm gpr 'w
  | Sub_imm gpr 'w
  | And_imm gpr 'w
  | Store gpr int gpr
  | Load gpr gpr int
  | Store_xmm gpr int nat
  | Load_xmm nat gpr int
  | Call_hook_caller
  | Leave

definition word_bytes :: "'a::len itself \<Rightarrow> nat" where
  "word_bytes t = LENGTH('a) div 8"

definition load_word :: "('a::len word \<Rightarrow> u8) \<Rightarrow> 'a word \<Rightarrow> 'a word" where
  "load_word m a = of_le_bytes (mem_read m a (word_bytes TYPE('a)))"

definition store_word :: "'a::len word \<Rightarrow> 'a word \<Rightarrow> ('a word \<Rightarrow> u8) \<Rightarrow> 'a word \<Rightarrow> u8" where
  "store_word a v m = mem_write m a (le_bytes (word_bytes TYPE('a)) v)"

definition load_xmm :: "('a::len word \<Rightarrow> u8) \<Rightarrow> 'a word \<Rightarrow> xmm" where
  "load_xmm m a = of_le_bytes (mem_read m a 16)"

definition store_xmm :: "'a::len word \<Rightarrow> xmm \<Rightarrow> ('a word \<Rightarrow> u8) \<Rightarrow> 'a word \<Rightarrow> u8" where
  "store_xmm a v m = mem_write m a (le_bytes 16 v)"

definition set_gpr :: "gpr \<Rightarrow> 'w \<Rightarrow> 'w machine \<Rightarrow> 'w machine" where
  "set_gpr r v st = st\<lparr>gprs := (gprs st)(r := v)\<rparr>"

definition push_word :: "'a::len word \<Rightarrow> 'a word machine \<Rightarrow> 'a word machine" where
  "push_word v st =
     (let sp' = gprs st SP - of_nat (word_bytes TYPE('a))
      in (set_gpr SP sp' st)\<lparr>ram := store_word sp' v (ram st)\<rparr>)"

text \<open>
  \<open>callee\<close> takes the state in which the called function starts, with the return address
  \<open>ret\<close> pushed, to the state after its return.
\<close>

fun asm_step ::
    "('a::len word machine \<Rightarrow> 'a word machine) \<Rightarrow> 'a word \<Rightarrow> 'a word asm_insn \<Rightarrow>
      'a word machine \<Rightarrow> 'a word machine" where
  "asm_step callee ret Endbr st = st"
| "asm_step callee ret (Push r) st = push_word (gprs st r) st"
| "asm_step callee ret (Mov d r) st = set_gpr d (gprs st r) st"
| "asm_step callee ret (Pop d) st =
     set_gpr d (load_word (ram st) (gprs st SP)) (set_gpr SP (gprs st SP + of_nat (word_bytes TYPE('a))) st)"
| "asm_step callee ret (Add_imm d v) st = set_gpr d (gprs st d + v) st"
| "asm_step callee ret (Sub_imm d v) st = set_gpr d (gprs st d - v) st"
| "asm_step callee ret (And_imm d v) st = set_gpr d (gprs st d AND v) st"
| "asm_step callee ret (Store b off r) st =
     st\<lparr>ram := store_word (gprs st b + of_int off) (gprs st r) (ram st)\<rparr>"
| "asm_step callee ret (Load d b off) st = set_gpr d (load_word (ram st) (gprs st b + of_int off)) st"
| "asm_step callee ret (Store_xmm b off x) st =
     st\<lparr>ram := store_xmm (gprs st b + of_int off) (xmms st x) (ram st)\<rparr>"
| "asm_step callee ret (Load_xmm x b off) st =
     st\<lparr>xmms := (xmms st)(x := load_xmm (ram st) (gprs st b + of_int off))\<rparr>"
| "asm_step callee ret Call_hook_caller st = callee (push_word ret st)"
| "asm_step callee ret Leave st =
     set_gpr SP (gprs st BP + of_nat (word_bytes TYPE('a)))
       (set_gpr BP (load_word (ram st) (gprs st BP)) st)"

definition asm_run ::
    "('a::len word machine \<Rightarrow> 'a word machine) \<Rightarrow> 'a word \<Rightarrow> 'a word asm_insn list \<Rightarrow>
      'a word machine \<Rightarrow> 'a word machine" where
  "asm_run callee ret = fold (asm_step callee ret)"

text \<open>A routine: straight-line code and the register its final jump goes through.\<close>

type_synonym 'w routine = "'w asm_insn list \<times> gpr"

definition run_routine ::
    "('a::len word machine \<Rightarrow> 'a word machine) \<Rightarrow> 'a word \<Rightarrow> 'a word routine \<Rightarrow>
      'a word machine \<Rightarrow> 'a word \<times> 'a word machine" where
  "run_routine callee ret routine st =
     (let st' = asm_run callee ret (fst routine) st in (gprs st' (snd routine), st'))"

section \<open>The routines\<close>

definition hook_caller_sysv_save :: "u64 asm_insn list" where
  "hook_caller_sysv_save =
    [Endbr, Push BP, Mov BP SP, Sub_imm SP 0xc0,
     Store BP (-0xc0) DI, Store BP (-0xb8) SI, Store BP (-0xb0) DX, Store BP (-0xa8) CX,
     Store BP (-0xa0) R8, Store BP (-0x98) R9, Store BP (-0x90) AX, Store BP (-0x88) R10,
     Store_xmm BP (-0x80) 0, Store_xmm BP (-0x70) 1, Store_xmm BP (-0x60) 2, Store_xmm BP (-0x50) 3,
     Store_xmm BP (-0x40) 4, Store_xmm BP (-0x30) 5, Store_xmm BP (-0x20) 6, Store_xmm BP (-0x10) 7,
     And_imm SP 0xfffffffffffffff0, Mov DI R11, Mov SI BP]"

definition hook_caller_sysv_restore :: "u64 asm_insn list" where
  "hook_caller_sysv_restore =
    [Mov R11 AX,
     Load DI BP (-0xc0), Load SI BP (-0xb8), Load DX BP (-0xb0), Load CX BP (-0xa8),
     Load R8 BP (-0xa0), Load R9 BP (-0x98), Load AX BP (-0x90), Load R10 BP (-0x88),
     Load_xmm 0 BP (-0x80), Load_xmm 1 BP (-0x70), Load_xmm 2 BP (-0x60), Load_xmm 3 BP (-0x50),
     Load_xmm 4 BP (-0x40), Load_xmm 5 BP (-0x30), Load_xmm 6 BP (-0x20), Load_xmm 7 BP (-0x10),
     Leave]"

definition funchook_hook_caller_asm_sysv :: "u64 routine" where
  "funchook_hook_caller_asm_sysv =
     (hook_caller_sysv_save @ [Call_hook_caller] @ hook_caller_sysv_restore, R11)"

definition hook_caller_ms_save :: "u64 asm_insn list" where
  "hook_caller_ms_save =
    [Push BP, Mov BP SP, Sub_imm SP 0xa0,
     Store BP (-0x80) CX, Store BP (-0x78) DX, Store BP (-0x70) R8, Store BP (-0x68) R9,
     Store_xmm BP (-0x60) 0, Store_xmm BP (-0x50) 1, Store_xmm BP (-0x40) 2, Store_xmm BP (-0x30) 3,
     Store_xmm BP (-0x20) 4, Store_xmm BP (-0x10) 5,
     And_imm SP 0xfffffffffffffff0, Mov CX R11, Mov DX BP]"

definition hook_caller_ms_restore :: "u64 asm_insn list" where
  "hook_caller_ms_restore =
    [Load CX BP (-0x80), Load DX BP (-0x78), Load R8 BP (-0x70), Load R9 BP (-0x68),
     Load_xmm 0 BP (-0x60), Load_xmm 1 BP (-0x50), Load_xmm 2 BP (-0x40), Load_xmm 3 BP (-0x30),
     Load_xmm 4 BP (-0x20), Load_xmm 5 BP (-0x10),
     Leave]"

definition funchook_hook_caller_asm_ms :: "u64 routine" where
  "funchook_hook_caller_asm_ms =
     (hook_caller_ms_save @ [Call_hook_caller] @ hook_caller_ms_restore, AX)"

definition hook_caller_i686_save :: "u32 asm_insn list" where
  "hook_caller_i686_save =
    [Endbr, Push BP, Mov BP SP, Push DX, Push CX,
     And_imm SP 0xfffffff0, Sub_imm SP 8, Push BP, Push AX]"

definition hook_caller_i686_restore :: "u32 asm_insn list" where
  "hook_caller_i686_restore = [Load CX BP (-8), Load DX BP (-4), Leave]"

definition funchook_hook_caller_asm_i686 :: "u32 routine" where
  "funchook_hook_caller_asm_i686 =
     (hook_caller_i686_save @ [Call_hook_caller] @ hook_caller_i686_restore, AX)"

text \<open>The routine for the Microsoft tools: no alignment, and the registers are popped.\<close>

definition hook_caller_i686_ms_save :: "u32 asm_insn list" where
  "hook_caller_i686_ms_save = [Push BP, Mov BP SP, Push DX, Push CX, Push BP, Push AX]"

definition hook_caller_i686_ms_restore :: "u32 asm_insn list" where
  "hook_caller_i686_ms_restore = [Add_imm SP 8, Pop CX, Pop DX, Leave]"

definition funchook_hook_caller_asm_i686_ms :: "u32 routine" where
  "funchook_hook_caller_asm_i686_ms =
     (hook_caller_i686_ms_save @ [Call_hook_caller] @ hook_caller_i686_ms_restore, AX)"

section \<open>The machine and the routine for ARM64\<close>

datatype a64_reg = X nat | XSP

record a64_machine =
  xregs :: "a64_reg \<Rightarrow> u64"
  qregs :: "nat \<Rightarrow> xmm"
  a64_ram :: "u64 \<Rightarrow> u8"

datatype a64_insn =
    Stp_pre nat nat int
  | Stp nat nat int
  | Stp_q nat nat int
  | Ldp nat nat int
  | Ldp_q nat nat int
  | Ldp_post nat nat int
  | Mov_x a64_reg a64_reg
  | Bl_hook_caller

definition set_x :: "a64_reg \<Rightarrow> u64 \<Rightarrow> a64_machine \<Rightarrow> a64_machine" where
  "set_x r v st = st\<lparr>xregs := (xregs st)(r := v)\<rparr>"

definition store_pair :: "u64 \<Rightarrow> u64 \<Rightarrow> u64 \<Rightarrow> (u64 \<Rightarrow> u8) \<Rightarrow> u64 \<Rightarrow> u8" where
  "store_pair a v w m = store_word (a + 8) w (store_word a v m)"

text \<open>
  All addresses are relative to the stack pointer; \<open>callee\<close> takes the state at the entry of
  the called function, with the return address in X30, to the state after its return.
\<close>

fun a64_step ::
    "(a64_machine \<Rightarrow> a64_machine) \<Rightarrow> u64 \<Rightarrow> a64_insn \<Rightarrow> a64_machine \<Rightarrow> a64_machine" where
  "a64_step callee ret (Stp_pre r s off) st =
     (let a = xregs st XSP + of_int off
      in (set_x XSP a st)\<lparr>a64_ram := store_pair a (xregs st (X r)) (xregs st (X s)) (a64_ram st)\<rparr>)"
| "a64_step callee ret (Stp r s off) st =
     st\<lparr>a64_ram := store_pair (xregs st XSP + of_int off) (xregs st (X r)) (xregs st (X s)) (a64_ram st)\<rparr>"
| "a64_step callee ret (Stp_q r s off) st =
     (let a = xregs st XSP + of_int off
      in st\<lparr>a64_ram := store_xmm (a + 16) (qregs st s) (store_xmm a (qregs st r) (a64_ram st))\<rparr>)"
| "a64_step callee ret (Ldp r s off) st =
     (let a = xregs st XSP + of_int off
      in set_x (X s) (load_word (a64_ram st) (a + 8)) (set_x (X r) (load_word (a64_ram st) a) st))"
| "a64_step callee ret (Ldp_q r s off) st =
     (let a = xregs st XSP + of_int off
      in st\<lparr>qregs := (qregs st)(r := load_xmm (a64_ram st) a, s := load_xmm (a64_ram st) (a + 16))\<rparr>)"
| "a64_step callee ret (Ldp_post r s off) st =
     (let a = xregs st XSP
      in set_x XSP (a + of_int off)
           (set_x (X s) (load_word (a64_ram st) (a + 8)) (set_x (X r) (load_word (a64_ram st) a) st)))"
| "a64_step callee ret (Mov_x d r) st = set_x d (xregs st r) st"
| "a64_step callee ret Bl_hook_caller st = callee (set_x (X 30) ret st)"

definition a64_run ::
    "(a64_machine \<Rightarrow> a64_machine) \<Rightarrow> u64 \<Rightarrow> a64_insn list \<Rightarrow> a64_machine \<Rightarrow> a64_machine" where
  "a64_run callee ret = fold (a64_step callee ret)"

definition hook_caller_arm64_save :: "a64_insn list" where
  "hook_caller_arm64_save =
    [Stp_pre 29 30 (-0xe0), Mov_x (X 29) XSP,
     Stp 0 1 0x10, Stp 2 3 0x20, Stp 4 5 0x30, Stp 6 7 0x40, Stp 8 18 0x50,
     Stp_q 0 1 0x60, Stp_q 2 3 0x80, Stp_q 4 5 0xa0, Stp_q 6 7 0xc0,
     Mov_x (X 0) (X 10), Mov_x (X 1) (X 29)]"

definition hook_caller_arm64_restore :: "a64_insn list" where
  "hook_caller_arm64_restore =
    [Mov_x (X 9) (X 0),
     Ldp 0 1 0x10, Ldp 2 3 0x20, Ldp 4 5 0x30, Ldp 6 7 0x40, Ldp 8 18 0x50,
     Ldp_q 0 1 0x60, Ldp_q 2 3 0x80, Ldp_q 4 5 0xa0, Ldp_q 6 7 0xc0,
     Ldp_post 29 30 0xe0]"

text \<open>The straight-line code and the register of the final \<open>br\<close>.\<close>

definition funchook_hook_caller_asm_arm64 :: "a64_insn list \<times> nat" where
  "funchook_hook_caller_asm_arm64 =
     (hook_caller_arm64_save @ [Bl_hook_caller] @ hook_caller_arm64_restore, 9)"

definition run_routine_arm64 ::
    "(a64_machine \<Rightarrow> a64_machine) \<Rightarrow> u64 \<Rightarrow> a64_insn list \<times> nat \<Rightarrow> a64_machine \<Rightarrow>
      u64 \<times> a64_machine" where
  "run_routine_arm64 callee ret routine st =
     (let st' = a64_run callee ret (fst routine) st in (xregs st' (X (snd routine)), st'))"

end
