(* ===== verification/Hook_Caller_Correct.thy ===== *)
theory Hook_Caller_Correct
  imports Hook_Caller
begin

text \<open>
  What the assembly routines of the hook callers do: the state in which
  \<open>funchook_hook_caller\<close> is called (arguments, alignment of the stack, saved registers where
  the accessors of src/src/arch_x86.c look for them) and the state in which control reaches
  the hook.
\<close>

section \<open>Memory behind the saved registers\<close>

text \<open>
  Reading a word past writes to other slots. Slots are given by offsets from one register,
  so both distances between two of them are numerals.
\<close>

named_theorems frame_simps

lemma word_bytes_64 [frame_simps]: "word_bytes TYPE(64) = 8"
  and word_bytes_32 [frame_simps]: "word_bytes TYPE(32) = 4"
  by (simp_all add: word_bytes_def)

lemma load_store_same64 [frame_simps]: "load_word (store_word a v m) a = (v :: u64)"
  using mem_read_write_same [of "le_bytes 8 v" m a]
  by (simp add: load_word_def store_word_def word_bytes_64)

lemma load_store_other64 [frame_simps]:
  "8 \<le> unat (b - a) \<Longrightarrow> 8 \<le> unat (a - b) \<Longrightarrow> load_word (store_word b v m) a = load_word m (a :: u64)"
  by (simp add: load_word_def store_word_def word_bytes_64 mem_read_write_disjoint disjoint_blocks_def)

lemma load_store_xmm_other64 [frame_simps]:
  "8 \<le> unat (b - a) \<Longrightarrow> 16 \<le> unat (a - b) \<Longrightarrow> load_word (store_xmm b v m) a = load_word m (a :: u64)"
  by (simp add: load_word_def store_xmm_def word_bytes_64 mem_read_write_disjoint disjoint_blocks_def)

lemma load_xmm_store_same [frame_simps]: "load_xmm (store_xmm a v m) (a :: u64) = v"
  using mem_read_write_same [of "le_bytes 16 v" m a]
  by (simp add: load_xmm_def store_xmm_def of_le_bytes_le_bytes)

lemma load_xmm_store_other [frame_simps]:
  "16 \<le> unat (b - a) \<Longrightarrow> 16 \<le> unat (a - b) \<Longrightarrow> load_xmm (store_xmm b v m) a = load_xmm m (a :: u64)"
  by (simp add: load_xmm_def store_xmm_def mem_read_write_disjoint disjoint_blocks_def)

lemma load_xmm_store_word_other [frame_simps]:
  "16 \<le> unat (b - a) \<Longrightarrow> 8 \<le> unat (a - b) \<Longrightarrow> load_xmm (store_word b v m) a = load_xmm m (a :: u64)"
  by (simp add: load_xmm_def store_word_def word_bytes_64 mem_read_write_disjoint disjoint_blocks_def)

lemma load_store_same32 [frame_simps]: "load_word (store_word a v m) a = (v :: u32)"
  using mem_read_write_same [of "le_bytes 4 v" m a]
  by (simp add: load_word_def store_word_def word_bytes_32)

lemma load_store_other32 [frame_simps]:
  "4 \<le> unat (b - a) \<Longrightarrow> 4 \<le> unat (a - b) \<Longrightarrow> load_word (store_word b v m) a = load_word m (a :: u32)"
  by (simp add: load_word_def store_word_def word_bytes_32 mem_read_write_disjoint disjoint_blocks_def)

lemma store_word_outside64:
  "\<not> in_region b 8 x \<Longrightarrow> store_word b (v :: u64) m x = m x"
  by (simp add: store_word_def word_bytes_64 mem_write_other)

lemma store_word_outside32:
  "\<not> in_region b 4 x \<Longrightarrow> store_word b (v :: u32) m x = m x"
  by (simp add: store_word_def word_bytes_32 mem_write_other)

lemma store_xmm_outside: "\<not> in_region b 16 x \<Longrightarrow> store_xmm b v m x = m x"
  by (simp add: store_xmm_def mem_write_other)

section \<open>The stack pointer rounded down to 16\<close>

text \<open>Rounding moves it by at most 15 bytes, so it stays below the saved registers.\<close>

lemma round16_64:
  fixes w :: u64
  shows "unat (w - (w AND 0xfffffffffffffff0)) < 16" and "(w AND 0xfffffffffffffff0) AND 15 = 0"
proof -
  have u: "pow2_unit (16 :: u64)" using pow2_unitI [of 4, where 'a = 64] by simp
  have e: "(0xfffffffffffffff0 :: u64) = - 16" by simp
  have "w AND 0xfffffffffffffff0 = ROUND_DOWN w 16" unfolding e by (simp add: ROUND_DOWN_def)
  with unat_diff_ROUND_DOWN [OF u, of w] show "unat (w - (w AND 0xfffffffffffffff0)) < 16" by simp
  show "(w AND 0xfffffffffffffff0) AND 15 = 0" by (simp add: and.assoc)
qed

lemma round16_32:
  fixes w :: u32
  shows "unat (w - (w AND 0xfffffff0)) < 16" and "(w AND 0xfffffff0) AND 15 = 0"
proof -
  have u: "pow2_unit (16 :: u32)" using pow2_unitI [of 4, where 'a = 32] by simp
  have e: "(0xfffffff0 :: u32) = - 16" by simp
  have "w AND 0xfffffff0 = ROUND_DOWN w 16" unfolding e by (simp add: ROUND_DOWN_def)
  with unat_diff_ROUND_DOWN [OF u, of w] show "unat (w - (w AND 0xfffffff0)) < 16" by simp
  show "(w AND 0xfffffff0) AND 15 = 0" by (simp add: and.assoc)
qed

lemma and_15_minus_16: "(w - 16) AND 15 = w AND 15" for w :: u32
proof -
  have m: "unat (v AND 15) = unat v mod 16" for v :: u32
  proof -
    have "v AND 15 = take_bit 4 v" by (simp add: take_bit_eq_mask mask_eq_exp_minus_1)
    then have "unat (v AND 15) = take_bit 4 (unat v)" by (simp add: unsigned_take_bit_eq)
    then show ?thesis by (simp add: take_bit_eq_mod)
  qed
  have "unat (w - 16) mod 16 = unat w mod 16"
  proof (cases "16 \<le> unat w")
    case True
    then show ?thesis by (simp add: unat_sub_if' le_mod_geq)
  next
    case False
    then have "unat (w - 16) = unat w + 268435455 * 16" by (simp add: unat_sub_if')
    then show ?thesis by (simp only: mod_mult_self1)
  qed
  then show ?thesis by (simp add: word_unat_eq_iff m)
qed

text \<open>What is written below an address, not too far, leaves what is above it.\<close>

lemma written_below:
  fixes b :: "'a::len word"
  assumes "unat (b - a) \<le> j" and "k \<le> unat (b - a)" and "j + n \<le> 2 ^ LENGTH('a)" and "in_region b n x"
  shows "\<not> in_region a k x"
proof -
  have "unat (b - a) + unat (x - b) < 2 ^ LENGTH('a)"
    using assms(1,3,4) by (simp add: in_region_def)
  from unat_offset [OF this] show ?thesis
    using assms(2) by (simp add: in_region_def)
qed

lemma in_region_trans:
  assumes "in_region a k x" and "unat (a - b) + k \<le> n"
  shows "in_region b n x"
proof -
  have "x - b = (a - b) + (x - a)" by simp
  then have "unat (x - b) \<le> unat (a - b) + unat (x - a)"
    by (simp only: unat_word_ariths(1) mod_less_eq_dividend)
  then show ?thesis using assms by (simp add: in_region_def)
qed

lemma mem_read_region:
  fixes b :: "'a::len word"
  assumes "\<And>x. in_region b n x \<Longrightarrow> m x = m' x" and "unat (a - b) + k \<le> n" and "k \<le> 2 ^ LENGTH('a)"
  shows "mem_read m a k = mem_read m' a k"
  using assms in_region_trans [OF _ assms(2)] by (intro mem_read_cong) blast+

lemma load_region64:
  fixes b :: u64
  assumes "\<And>x. in_region b n x \<Longrightarrow> m x = m' x"
  shows "unat (a - b) + 8 \<le> n \<Longrightarrow> load_word m a = load_word m' a"
    and "unat (a - b) + 16 \<le> n \<Longrightarrow> load_xmm m a = load_xmm m' a"
  using mem_read_region [where m = m and m' = m' and b = b and n = n and a = a, OF assms]
  by (simp_all add: load_word_def load_xmm_def word_bytes_64)

lemma load_region32:
  fixes b :: u32
  assumes "\<And>x. in_region b n x \<Longrightarrow> m x = m' x"
  shows "unat (a - b) + 4 \<le> n \<Longrightarrow> load_word m a = load_word m' a"
  using mem_read_region [where m = m and m' = m' and b = b and n = n and a = a, OF assms]
  by (simp add: load_word_def word_bytes_32)

section \<open>The state in which the C function is called, x86_64\<close>

definition save_part :: "bool \<Rightarrow> u64 asm_insn list" where
  "save_part win32 = (if win32 then hook_caller_ms_save else hook_caller_sysv_save)"

definition restore_part :: "bool \<Rightarrow> u64 asm_insn list" where
  "restore_part win32 = (if win32 then hook_caller_ms_restore else hook_caller_sysv_restore)"

definition hook_caller_asm :: "bool \<Rightarrow> u64 routine" where
  "hook_caller_asm win32 =
     (if win32 then funchook_hook_caller_asm_ms else funchook_hook_caller_asm_sysv)"

text \<open>The registers in the order of the slots of \<open>funchook_arg_get_int_reg_addr\<close>.\<close>

definition saved_gprs :: "bool \<Rightarrow> gpr list" where
  "saved_gprs win32 = (if win32 then [CX, DX, R8, R9] else [DI, SI, DX, CX, R8, R9, AX, R10])"

definition saved_xmms :: "bool \<Rightarrow> nat" where
  "saved_xmms win32 = (if win32 then 6 else 8)"

definition first_arg :: "bool \<Rightarrow> gpr" where "first_arg win32 = (if win32 then CX else DI)"
definition second_arg :: "bool \<Rightarrow> gpr" where "second_arg win32 = (if win32 then DX else SI)"

definition args_saved :: "bool \<Rightarrow> (u64 \<Rightarrow> u8) \<Rightarrow> u64 \<Rightarrow> u64 machine \<Rightarrow> bool" where
  "args_saved win32 m base st \<longleftrightarrow>
     (\<forall>i < length (saved_gprs win32).
        load_word m (funchook_arg_get_int_reg_addr_x86_64 win32 base (int i)) = gprs st (saved_gprs win32 ! i)) \<and>
     (\<forall>i < saved_xmms win32.
        load_xmm m (funchook_arg_get_flt_reg_addr_x86_64 win32 base (int i)) = xmms st i)"

lemma all_less_simps:
  "(\<forall>i < 4. P i) \<longleftrightarrow> P 0 \<and> P 1 \<and> P 2 \<and> P (3::nat)"
  "(\<forall>i < 6. P i) \<longleftrightarrow> P 0 \<and> P 1 \<and> P 2 \<and> P 3 \<and> P 4 \<and> P (5::nat)"
  "(\<forall>i < 8. P i) \<longleftrightarrow> P 0 \<and> P 1 \<and> P 2 \<and> P 3 \<and> P 4 \<and> P 5 \<and> P 6 \<and> P (7::nat)"
  by (simp_all add: eval_nat_numeral All_less_Suc conj_assoc conj_comms)

lemma length_saved_gprs: "length (saved_gprs True) = 4" "length (saved_gprs False) = 8"
  by (simp_all add: saved_gprs_def)

lemmas asm_run_simps = asm_run_def set_gpr_def push_word_def Let_def

text \<open>The slots, as distances from the stack pointer at entry.\<close>

lemma args_saved_sysv:
  "args_saved False m (b - 8) st \<longleftrightarrow>
     load_word m (b - 200) = gprs st DI \<and> load_word m (b - 192) = gprs st SI \<and>
     load_word m (b - 184) = gprs st DX \<and> load_word m (b - 176) = gprs st CX \<and>
     load_word m (b - 168) = gprs st R8 \<and> load_word m (b - 160) = gprs st R9 \<and>
     load_word m (b - 152) = gprs st AX \<and> load_word m (b - 144) = gprs st R10 \<and>
     load_xmm m (b - 136) = xmms st 0 \<and> load_xmm m (b - 120) = xmms st 1 \<and>
     load_xmm m (b - 104) = xmms st 2 \<and> load_xmm m (b - 88) = xmms st 3 \<and>
     load_xmm m (b - 72) = xmms st 4 \<and> load_xmm m (b - 56) = xmms st 5 \<and>
     load_xmm m (b - 40) = xmms st 6 \<and> load_xmm m (b - 24) = xmms st 7"
  unfolding args_saved_def length_saved_gprs saved_xmms_def if_True if_False all_less_simps conj_assoc
  by (simp add: saved_gprs_def funchook_arg_get_int_reg_addr_x86_64_def
      funchook_arg_get_flt_reg_addr_x86_64_def arg_slot_def)

lemma args_saved_ms:
  "args_saved True m (b - 8) st \<longleftrightarrow>
     load_word m (b - 136) = gprs st CX \<and> load_word m (b - 128) = gprs st DX \<and>
     load_word m (b - 120) = gprs st R8 \<and> load_word m (b - 112) = gprs st R9 \<and>
     load_xmm m (b - 104) = xmms st 0 \<and> load_xmm m (b - 88) = xmms st 1 \<and>
     load_xmm m (b - 72) = xmms st 2 \<and> load_xmm m (b - 56) = xmms st 3 \<and>
     load_xmm m (b - 40) = xmms st 4 \<and> load_xmm m (b - 24) = xmms st 5"
  unfolding args_saved_def length_saved_gprs saved_xmms_def if_True if_False all_less_simps conj_assoc
  by (simp add: saved_gprs_def funchook_arg_get_int_reg_addr_x86_64_def
      funchook_arg_get_flt_reg_addr_x86_64_def arg_slot_def)

lemma sysv_saved: "args_saved False (ram (asm_run callee ret hook_caller_sysv_save st)) (gprs st SP - 8) st"
  unfolding args_saved_sysv
  by (intro conjI; simp add: asm_run_simps hook_caller_sysv_save_def frame_simps)

lemma ms_saved: "args_saved True (ram (asm_run callee ret hook_caller_ms_save st)) (gprs st SP - 8) st"
  unfolding args_saved_ms
  by (intro conjI; simp add: asm_run_simps hook_caller_ms_save_def frame_simps)

lemma save_part_regs:
  fixes callee ret st win32
  defines "b \<equiv> asm_run callee ret (save_part win32) st"
  shows "gprs b (first_arg win32) = gprs st R11" and "gprs b (second_arg win32) = gprs st SP - 8"
    and "gprs b BP = gprs st SP - 8" and "load_word (ram b) (gprs st SP - 8) = gprs st BP"
    and "gprs b SP = (gprs st SP - (if win32 then 168 else 200)) AND 0xfffffffffffffff0"
  unfolding b_def save_part_def first_arg_def second_arg_def
  by (simp_all add: asm_run_simps hook_caller_ms_save_def hook_caller_sysv_save_def frame_simps)

lemma save_part_outside:
  fixes callee ret st win32
  defines "b \<equiv> asm_run callee ret (save_part win32) st"
  assumes "\<not> in_region (gprs st SP - 200) 200 x"
  shows "ram b x = ram st x"
proof -
  have o: "\<not> in_region (gprs st SP - k) n x" if "unat (gprs st SP - k - (gprs st SP - 200)) + n \<le> 200" for k n
    using assms(2) in_region_trans [OF _ that] by blast
  show ?thesis
    unfolding b_def save_part_def
    by (simp add: asm_run_simps hook_caller_ms_save_def hook_caller_sysv_save_def word_bytes_64
        store_word_outside64 store_xmm_outside o)
qed

text \<open>
  \<open>c\<close> is the state in which \<open>funchook_hook_caller\<close> is entered: its two arguments, the
  alignment the calling conventions ask for, the saved registers, the saved frame pointer
  and, on Windows, the 32 bytes above the return address that belong to the called function
  and are apart from the saved registers. Nothing but at most 224 bytes below the stack
  pointer has been written.
\<close>

definition hook_caller_called :: "bool \<Rightarrow> u64 machine \<Rightarrow> u64 machine \<Rightarrow> bool" where
  "hook_caller_called win32 st c \<longleftrightarrow>
     (let base = gprs st SP - 8 in
        gprs c (first_arg win32) = gprs st R11 \<and> gprs c (second_arg win32) = base \<and>
        gprs c BP = base \<and> (gprs c SP + 8) AND 15 = 0 \<and>
        args_saved win32 (ram c) base st \<and> load_word (ram c) base = gprs st BP \<and>
        (win32 \<longrightarrow> 8 + 32 \<le> unat (funchook_arg_get_int_reg_addr_x86_64 True base 0 - gprs c SP)) \<and>
        (\<forall>x. \<not> in_region (gprs st SP - 224) 224 x \<longrightarrow> ram c x = ram st x))"

definition call_state :: "bool \<Rightarrow> u64 \<Rightarrow> u64 machine \<Rightarrow> u64 machine" where
  "call_state win32 ret st = push_word ret (asm_run id ret (save_part win32) st)"

text \<open>The part before the call does not depend on the called function.\<close>

lemma asm_run_no_call:
  "Call_hook_caller \<notin> set is \<Longrightarrow> asm_run callee ret is st = asm_run callee' ret is st"
proof (induction "is" arbitrary: st)
  case (Cons i "is")
  then have "asm_step callee ret i st = asm_step callee' ret i st" by (cases i) auto
  with Cons show ?case by (simp add: asm_run_def)
qed (simp add: asm_run_def)

lemma asm_run_append: "asm_run callee ret (is @ js) st = asm_run callee ret js (asm_run callee ret is st)"
  by (simp add: asm_run_def)

lemma asm_run_call: "asm_run callee ret [Call_hook_caller] st = callee (push_word ret st)"
  by (simp add: asm_run_def)

lemma hook_caller_asm_parts:
  "hook_caller_asm win32 =
     (save_part win32 @ [Call_hook_caller] @ restore_part win32, if win32 then AX else R11)"
  by (simp add: hook_caller_asm_def save_part_def restore_part_def funchook_hook_caller_asm_ms_def
      funchook_hook_caller_asm_sysv_def)

lemma run_hook_caller_asm:
  "run_routine callee ret (hook_caller_asm win32) st =
     (let r = asm_run callee ret (restore_part win32) (callee (call_state win32 ret st))
      in (gprs r (if win32 then AX else R11), r))"
proof -
  have "asm_run callee ret (save_part win32) st = asm_run id ret (save_part win32) st"
    by (rule asm_run_no_call)
      (simp add: save_part_def hook_caller_ms_save_def hook_caller_sysv_save_def)
  then show ?thesis
    unfolding run_routine_def hook_caller_asm_parts call_state_def fst_conv snd_conv
      asm_run_append asm_run_call by simp
qed

text \<open>Only the bytes below the stack pointer at entry matter for the saved registers.\<close>

lemma args_saved_cong:
  assumes "\<And>x. in_region (b - (if win32 then 168 else 200)) 200 x \<Longrightarrow> m x = m' x"
  shows "args_saved win32 m (b - 8) st = args_saved win32 m' (b - 8) st"
proof -
  let ?low = "b - (if win32 then 168 else 200)"
  have w: "load_word m a = load_word m' a" if "unat (a - ?low) + 8 \<le> 200" for a
    using load_region64(1) [OF assms that] .
  have x: "load_xmm m a = load_xmm m' a" if "unat (a - ?low) + 16 \<le> 200" for a
    using load_region64(2) [OF assms that] .
  show ?thesis
  proof (cases win32)
    case True
    then show ?thesis by (simp add: args_saved_ms w x)
  next
    case False
    then show ?thesis by (simp add: args_saved_sysv w x)
  qed
qed

lemma call_state_called: "hook_caller_called win32 st (call_state win32 ret st)"
proof -
  let ?b = "asm_run id ret (save_part win32) st" and ?c = "call_state win32 ret st"
  let ?base = "gprs st SP - 8" and ?low = "gprs st SP - (if win32 then 168 else 200)"
  note r = save_part_regs [of id ret win32 st]
  define d where "d = ?low - (?low AND 0xfffffffffffffff0)"
  have d: "unat d < 16" unfolding d_def by (rule round16_64)
  have sp: "gprs ?b SP = ?low - d" by (simp add: r(5) d_def)
  have c: "gprs ?c = (gprs ?b)(SP := ?low - d - 8)"
      "ram ?c = store_word (?low - d - 8) ret (ram ?b)"
    by (simp_all only: call_state_def push_word_def set_gpr_def Let_def sp word_bytes_64) simp_all
  have db: "unat (?low - (?low - d - 8)) = unat d + 8"
  proof -
    have "?low - (?low - d - 8) = d + 8" by simp
    moreover have "unat (d + 8) = unat d + unat (8 :: u64)"
      using d by (intro unat_add_lem [THEN iffD1]) simp
    ultimately show ?thesis by simp
  qed
  have keep: "ram ?c x = ram ?b x" if "in_region ?low 200 x" for x
    unfolding c(2) using written_below [of ?low "?low - d - 8" 24 8 200 x] db d that
    by (intro store_word_outside64) simp
  have "args_saved win32 (ram ?b) ?base st"
    using sysv_saved [of id ret st] ms_saved [of id ret st]
    by (simp add: save_part_def)
  then have saved: "args_saved win32 (ram ?c) ?base st"
    using args_saved_cong [of "gprs st SP" win32 "ram ?c" "ram ?b" st, OF keep] by simp
  have link: "load_word (ram ?c) ?base = gprs st BP"
    using r(4) load_region64(1) [where m = "ram ?c" and m' = "ram ?b" and b = ?low and n = 200 and a = ?base, OF keep]
    by simp
  have spc: "gprs ?c SP = ?low - d - 8" by (simp add: c(1))
  have al: "(gprs ?c SP + 8) AND 15 = 0"
    using round16_64(2) [of ?low] by (simp add: c(1) d_def)
  have home: "8 + 32 \<le> unat (funchook_arg_get_int_reg_addr_x86_64 True ?base 0 - gprs ?c SP)" if win32
  proof -
    have "funchook_arg_get_int_reg_addr_x86_64 True ?base 0 - gprs ?c SP = d + 40"
      unfolding spc using that by (simp add: funchook_arg_get_int_reg_addr_x86_64_def arg_slot_def)
    moreover have "unat (d + 40) = unat d + unat (40 :: u64)"
      using d by (intro unat_add_lem [THEN iffD1]) simp
    ultimately show ?thesis by simp
  qed
  have out: "ram ?c x = ram st x" if x: "\<not> in_region (gprs st SP - 224) 224 x" for x
  proof -
    have o: "\<not> in_region a k x" if "unat (a - (gprs st SP - 224)) + k \<le> 224" for a k
      using x in_region_trans [OF _ that] by blast
    have "?low - d - 8 - (gprs st SP - 224) = (if win32 then 48 else 16) - d"
      by simp
    moreover have "unat ((if win32 then 48 else 16) - d) \<le> 48"
      using d by (auto simp: unat_sub word_le_nat_alt)
    ultimately have "\<not> in_region (?low - d - 8) 8 x"
      by (intro o) (cases win32; simp)
    moreover have "ram ?b x = ram st x"
      by (rule save_part_outside, rule o) simp
    ultimately show ?thesis by (simp add: c(2) store_word_outside64)
  qed
  have ne: "first_arg win32 \<noteq> SP" "second_arg win32 \<noteq> SP"
    by (simp_all add: first_arg_def second_arg_def)
  show ?thesis
    unfolding hook_caller_called_def Let_def
    using r(1-3) saved link al home out ne by (simp add: c(1))
qed

section \<open>The state in which the hook is entered, x86_64\<close>

text \<open>
  \<open>r\<close> is the state after the return of the called function. It has kept the frame pointer,
  a callee-saved register in both calling conventions, and the word it points to, which
  belongs to the frame of its caller.
\<close>

definition keeps_frame :: "u64 machine \<Rightarrow> u64 machine \<Rightarrow> bool" where
  "keeps_frame c r \<longleftrightarrow>
     gprs r BP = gprs c BP \<and> load_word (ram r) (gprs c BP) = load_word (ram c) (gprs c BP)"

text \<open>
  The registers a hook is entered with: stack and frame pointer as the patched function was
  entered with, the argument registers as the slots hold them now, the rest as the called
  function left it.
\<close>

definition hook_entered :: "bool \<Rightarrow> u64 machine \<Rightarrow> u64 machine \<Rightarrow> u64 machine \<Rightarrow> bool" where
  "hook_entered win32 st r h \<longleftrightarrow>
     gprs h SP = gprs st SP \<and> gprs h BP = gprs st BP \<and>
     args_saved win32 (ram r) (gprs st SP - 8) h \<and> ram h = ram r \<and>
     (\<forall>g. g \<notin> set (saved_gprs win32) \<union> {SP, BP, R11} \<longrightarrow> gprs h g = gprs r g) \<and>
     (\<forall>i. saved_xmms win32 \<le> i \<longrightarrow> xmms h i = xmms r i)"

lemma restore_part_entered:
  fixes callee ret win32
  assumes "gprs r BP = gprs st SP - 8" and "load_word (ram r) (gprs st SP - 8) = gprs st BP"
  defines "h \<equiv> asm_run callee ret (restore_part win32) r"
  shows "hook_entered win32 st r h" and "gprs h (if win32 then AX else R11) = gprs r AX"
  using assms(1,2) unfolding h_def hook_entered_def restore_part_def
  by (cases win32, simp_all add: args_saved_ms args_saved_sysv saved_gprs_def saved_xmms_def
      asm_run_simps hook_caller_ms_restore_def hook_caller_sysv_restore_def frame_simps)

lemma hook_caller_asm_runs:
  assumes "\<And>c. hook_caller_called win32 st c \<Longrightarrow> keeps_frame c (callee c)"
  shows "\<exists>c. hook_caller_called win32 st c \<and>
    (\<exists>h. run_routine callee ret (hook_caller_asm win32) st = (gprs (callee c) AX, h) \<and>
       hook_entered win32 st (callee c) h)"
proof -
  let ?c = "call_state win32 ret st"
  have c: "hook_caller_called win32 st ?c" by (rule call_state_called)
  have "gprs ?c BP = gprs st SP - 8" "load_word (ram ?c) (gprs st SP - 8) = gprs st BP"
    using c by (simp_all add: hook_caller_called_def Let_def)
  then have k: "gprs (callee ?c) BP = gprs st SP - 8"
      "load_word (ram (callee ?c)) (gprs st SP - 8) = gprs st BP"
    using assms [OF c] by (simp_all add: keeps_frame_def)
  show ?thesis
    using c by (auto simp: run_hook_caller_asm Let_def restore_part_entered [OF k])
qed

lemma args_saved_unique:
  assumes "args_saved win32 m base st" and "args_saved win32 m base st'"
  shows "g \<in> set (saved_gprs win32) \<Longrightarrow> gprs st g = gprs st' g"
    and "i < saved_xmms win32 \<Longrightarrow> xmms st i = xmms st' i"
  using assms by (auto simp: args_saved_def in_set_conv_nth)

text \<open>R11 is not among the saved registers.\<close>

lemma args_saved_R11: "args_saved win32 m base (st\<lparr>gprs := (gprs st)(R11 := v)\<rparr>) = args_saved win32 m base st"
proof -
  have "saved_gprs win32 ! i \<noteq> R11" if "i < length (saved_gprs win32)" for i
    using nth_mem [OF that] by (auto simp: saved_gprs_def split: if_splits)
  then show ?thesis by (simp add: args_saved_def)
qed

text \<open>
  C14: \<open>hook_caller_asm_x86_64\<close>. The hook callers for the two calling conventions of x86_64, for
  every state they are entered in: they call \<open>funchook_hook_caller\<close> exactly in a state with the
  transit address and the base pointer as arguments, an aligned stack and every argument register
  in the slot where \<open>funchook_arg_get_int_reg_addr\<close> and \<open>funchook_arg_get_flt_reg_addr\<close> look for
  it, having written only below the stack pointer; and they jump to the returned address with the
  stack and frame pointers restored and the argument registers as the slots then hold them.
\<close>

theorem hook_caller_asm_x86_64:
  assumes "\<And>c. hook_caller_called win32 st c \<Longrightarrow> keeps_frame c (callee c)"
  shows "\<exists>c. hook_caller_called win32 st c \<and>
    (\<exists>h. run_routine callee ret (hook_caller_asm win32) st = (gprs (callee c) AX, h) \<and>
       hook_entered win32 st (callee c) h)"
  by (rule hook_caller_asm_runs [OF assms])

definition sample_machine :: "u64 machine" where
  "sample_machine =
     \<lparr>gprs = (\<lambda>g. 0)(SP := 0x7fff1008, BP := 0x7fff2000, DI := 1, SI := 2, DX := 3, CX := 4, R8 := 5, R9 := 6),
      xmms = \<lambda>i. 9, ram = \<lambda>a. 0\<rparr>"

definition sample_callee :: "u64 machine \<Rightarrow> u64 machine" where
  "sample_callee c =
     c\<lparr>gprs := (gprs c)(AX := 0x600000, CX := 0, DI := 0, R8 := 0, SP := gprs c SP + 8), xmms := \<lambda>i. 0\<rparr>"

lemma sample_callee_frame: "keeps_frame c (sample_callee c)"
  by (simp add: keeps_frame_def sample_callee_def)

theorem hook_caller_asm_x86_64_witness:
  "\<exists>h. run_routine sample_callee 0x710000 (hook_caller_asm True) sample_machine = (0x600000, h) \<and>
     gprs h SP = 0x7fff1008 \<and> gprs h BP = 0x7fff2000 \<and> gprs h CX = 4 \<and> gprs h R8 = 5 \<and> xmms h 3 = 9"
proof -
  obtain c h where c: "hook_caller_called True sample_machine c"
    and h: "run_routine sample_callee 0x710000 (hook_caller_asm True) sample_machine = (gprs (sample_callee c) AX, h)"
      "hook_entered True sample_machine (sample_callee c) h"
    using hook_caller_asm_x86_64 [of True sample_machine sample_callee "0x710000", OF sample_callee_frame] by blast
  have r: "ram (sample_callee c) = ram c" and ax: "gprs (sample_callee c) AX = 0x600000"
    by (simp_all add: sample_callee_def)
  have a: "args_saved True (ram c) (gprs sample_machine SP - 8) h"
      "args_saved True (ram c) (gprs sample_machine SP - 8) sample_machine"
    using c h(2) by (simp_all add: hook_caller_called_def Let_def hook_entered_def r)
  have "gprs h CX = 4" "gprs h R8 = 5" "xmms h 3 = 9"
    using args_saved_unique(1) [OF a, of CX] args_saved_unique(1) [OF a, of R8]
      args_saved_unique(2) [OF a, of 3]
    by (simp_all add: saved_gprs_def saved_xmms_def sample_machine_def)
  moreover have "gprs h SP = 0x7fff1008" "gprs h BP = 0x7fff2000"
    using h(2) by (simp_all add: hook_entered_def sample_machine_def)
  ultimately show ?thesis using h(1) by (simp add: ax)
qed

section \<open>The routine for i686\<close>

text \<open>
  The arguments are on the stack; ECX and EDX, the register arguments of fastcall, are saved
  where \<open>funchook_arg_get_int_reg_addr\<close> finds them.
\<close>

definition args_saved_x86 :: "(u32 \<Rightarrow> u8) \<Rightarrow> u32 \<Rightarrow> u32 machine \<Rightarrow> bool" where
  "args_saved_x86 m base st \<longleftrightarrow>
     load_word m (funchook_arg_get_int_reg_addr_x86 base 0) = gprs st CX \<and>
     load_word m (funchook_arg_get_int_reg_addr_x86 base 1) = gprs st DX"

definition hook_caller_called_x86 :: "bool \<Rightarrow> u32 machine \<Rightarrow> u32 machine \<Rightarrow> bool" where
  "hook_caller_called_x86 win32 st c \<longleftrightarrow>
     (let base = gprs st SP - 4 in
        load_word (ram c) (gprs c SP + 4) = gprs st AX \<and> load_word (ram c) (gprs c SP + 8) = base \<and>
        gprs c BP = base \<and>
        (if win32 then gprs c SP = base - 20 else (gprs c SP + 4) AND 15 = 0) \<and>
        args_saved_x86 (ram c) base st \<and> load_word (ram c) base = gprs st BP \<and>
        (\<forall>x. \<not> in_region (gprs st SP - 48) 48 x \<longrightarrow> ram c x = ram st x))"

text \<open>The routine for the Microsoft tools also relies on the stack pointer the called function leaves.\<close>

definition keeps_frame_x86 :: "bool \<Rightarrow> u32 machine \<Rightarrow> u32 machine \<Rightarrow> bool" where
  "keeps_frame_x86 win32 c r \<longleftrightarrow>
     gprs r BP = gprs c BP \<and> load_word (ram r) (gprs c BP) = load_word (ram c) (gprs c BP) \<and>
     (win32 \<longrightarrow> gprs r SP = gprs c SP + 4)"

definition hook_entered_x86 :: "u32 machine \<Rightarrow> u32 machine \<Rightarrow> u32 machine \<Rightarrow> bool" where
  "hook_entered_x86 st r h \<longleftrightarrow>
     gprs h SP = gprs st SP \<and> gprs h BP = gprs st BP \<and>
     args_saved_x86 (ram r) (gprs st SP - 4) h \<and> ram h = ram r \<and>
     (\<forall>g. g \<notin> {CX, DX, SP, BP} \<longrightarrow> gprs h g = gprs r g) \<and> xmms h = xmms r"

definition hook_caller_asm_x86 :: "bool \<Rightarrow> u32 routine" where
  "hook_caller_asm_x86 win32 =
     (if win32 then funchook_hook_caller_asm_i686_ms else funchook_hook_caller_asm_i686)"

definition call_state_x86 :: "bool \<Rightarrow> u32 \<Rightarrow> u32 machine \<Rightarrow> u32 machine" where
  "call_state_x86 win32 ret st =
     push_word ret (asm_run id ret (if win32 then hook_caller_i686_ms_save else hook_caller_i686_save) st)"

lemma args_saved_x86_slots:
  "args_saved_x86 m (b - 4) st \<longleftrightarrow>
     load_word m (b - 12) = gprs st CX \<and> load_word m (b - 8) = gprs st DX"
  by (simp add: args_saved_x86_def funchook_arg_get_int_reg_addr_x86_def arg_slot_def)

lemma call_state_x86_called_gas: "hook_caller_called_x86 False st (call_state_x86 False ret st)"
proof -
  let ?c = "call_state_x86 False ret st" and ?low = "gprs st SP - 12"
  define d where "d = ?low - (?low AND 0xfffffff0)"
  have d: "unat d < 16" unfolding d_def by (rule round16_32)
  have and_d: "?low AND 0xfffffff0 = ?low - d" by (simp add: d_def)
  let ?m = "store_word (gprs st SP - 12) (gprs st CX) (store_word (gprs st SP - 8) (gprs st DX)
    (store_word (gprs st SP - 4) (gprs st BP) (ram st)))"
  have c: "gprs ?c = (gprs st)(BP := gprs st SP - 4, SP := ?low - d - 20)"
    "ram ?c = store_word (?low - d - 20) ret (store_word (?low - d - 16) (gprs st AX)
       (store_word (?low - d - 12) (gprs st SP - 4) ?m))"
    by (simp_all add: call_state_x86_def asm_run_simps hook_caller_i686_save_def word_bytes_32 and_d)
  have db: "unat (?low - (?low - d - k)) = unat d + unat k" if "unat k \<le> 20" for k
  proof -
    have "?low - (?low - d - k) = d + k" by simp
    moreover have "unat (d + k) = unat d + unat k"
      using d that by (intro unat_add_lem [THEN iffD1]) simp
    ultimately show ?thesis by simp
  qed
  have keep: "ram ?c x = ?m x" if x: "in_region ?low 12 x" for x
  proof -
    have "\<not> in_region (?low - d - k) 4 x" if "4 \<le> unat k" "unat k \<le> 20" for k
      using written_below [of ?low "?low - d - k" 40 4 12 x] db [OF that(2)] d x that by simp
    from this [of 20] this [of 16] this [of 12] show ?thesis
      unfolding c(2) by (simp add: store_word_outside32)
  qed
  have l: "load_word (ram ?c) a = load_word ?m a" if "unat (a - ?low) + 4 \<le> 12" for a
    using load_region32 [OF keep that] .
  have out: "ram ?c x = ram st x" if x: "\<not> in_region (gprs st SP - 48) 48 x" for x
  proof -
    have o: "\<not> in_region a 4 x" if "unat (a - (gprs st SP - 48)) + 4 \<le> 48" for a
      using x in_region_trans [OF _ that] by blast
    have "unat (k - d) \<le> unat k" if "16 \<le> unat k" for k :: u32
      using d that by (simp add: unat_sub word_le_nat_alt)
    from this [of 16] this [of 20] this [of 24] show ?thesis
      unfolding c(2) by (simp add: store_word_outside32 o)
  qed
  have al: "(gprs ?c SP + 4) AND 15 = 0"
    using round16_32(2) [of ?low] and_15_minus_16 [of "?low - d"] by (simp add: c(1) and_d)
  show ?thesis
    unfolding hook_caller_called_x86_def Let_def args_saved_x86_slots
    using out al by (simp add: l frame_simps) (simp add: c and_d frame_simps)
qed

lemma call_state_x86_called_ms: "hook_caller_called_x86 True st (call_state_x86 True ret st)"
proof -
  let ?c = "call_state_x86 True ret st"
  have out: "ram ?c x = ram st x" if x: "\<not> in_region (gprs st SP - 48) 48 x" for x
  proof -
    have o: "\<not> in_region a 4 x" if "unat (a - (gprs st SP - 48)) + 4 \<le> 48" for a
      using x in_region_trans [OF _ that] by blast
    show ?thesis
      by (simp add: call_state_x86_def asm_run_simps hook_caller_i686_ms_save_def word_bytes_32
          store_word_outside32 o)
  qed
  then show ?thesis
    unfolding hook_caller_called_x86_def Let_def args_saved_x86_slots
    by (simp add: call_state_x86_def asm_run_simps hook_caller_i686_ms_save_def frame_simps)
qed

lemma call_state_x86_called: "hook_caller_called_x86 win32 st (call_state_x86 win32 ret st)"
  by (cases win32) (simp_all add: call_state_x86_called_gas call_state_x86_called_ms)

definition hook_caller_restore_x86 :: "bool \<Rightarrow> u32 asm_insn list" where
  "hook_caller_restore_x86 win32 =
     (if win32 then hook_caller_i686_ms_restore else hook_caller_i686_restore)"

lemma run_hook_caller_asm_i686:
  "run_routine callee ret (hook_caller_asm_x86 win32) st =
     (let r = asm_run callee ret (hook_caller_restore_x86 win32) (callee (call_state_x86 win32 ret st))
      in (gprs r AX, r))"
proof -
  have "asm_run callee ret code st = asm_run id ret code st"
    if "code = (if win32 then hook_caller_i686_ms_save else hook_caller_i686_save)" for code
    unfolding that by (rule asm_run_no_call) (simp add: hook_caller_i686_save_def hook_caller_i686_ms_save_def)
  then show ?thesis
    unfolding run_routine_def hook_caller_asm_x86_def hook_caller_restore_x86_def call_state_x86_def
      funchook_hook_caller_asm_i686_def funchook_hook_caller_asm_i686_ms_def
    by (cases win32) (simp_all only: if_True if_False fst_conv snd_conv asm_run_append asm_run_call)
qed

lemma i686_restore_entered:
  fixes callee ret
  assumes "gprs r BP = gprs st SP - 4" and "load_word (ram r) (gprs st SP - 4) = gprs st BP"
    and "win32 \<Longrightarrow> gprs r SP = gprs st SP - 20"
  defines "h \<equiv> asm_run callee ret (hook_caller_restore_x86 win32) r"
  shows "hook_entered_x86 st r h" and "gprs h AX = gprs r AX"
  using assms(1-3) unfolding h_def hook_entered_x86_def hook_caller_restore_x86_def
  by (cases win32; simp add: args_saved_x86_slots asm_run_simps hook_caller_i686_restore_def
      hook_caller_i686_ms_restore_def frame_simps)+

lemma hook_caller_asm_i686_runs:
  assumes "\<And>c. hook_caller_called_x86 win32 st c \<Longrightarrow> keeps_frame_x86 win32 c (callee c)"
  shows "\<exists>c. hook_caller_called_x86 win32 st c \<and>
    (\<exists>h. run_routine callee ret (hook_caller_asm_x86 win32) st = (gprs (callee c) AX, h) \<and>
       hook_entered_x86 st (callee c) h)"
proof -
  let ?c = "call_state_x86 win32 ret st"
  have c: "hook_caller_called_x86 win32 st ?c" by (rule call_state_x86_called)
  have k: "gprs (callee ?c) BP = gprs st SP - 4"
      "load_word (ram (callee ?c)) (gprs st SP - 4) = gprs st BP"
      "win32 \<Longrightarrow> gprs (callee ?c) SP = gprs st SP - 20"
    using assms [OF c] c by (simp_all add: keeps_frame_x86_def hook_caller_called_x86_def Let_def)
  show ?thesis
    using c by (auto simp: run_hook_caller_asm_i686 Let_def i686_restore_entered [OF k])
qed

text \<open>
  C16: \<open>hook_caller_asm_i686\<close>. The hook callers for i686 (gas and Microsoft tools), for every state
  they are entered in: they call \<open>funchook_hook_caller\<close> with its two arguments on the stack (aligned
  in the gas version) and with ECX and EDX where \<open>funchook_arg_get_int_reg_addr\<close> finds them, and
  jump to the returned address with the stack and frame pointers restored and ECX and EDX as the
  slots then hold them.
\<close>

theorem hook_caller_asm_i686:
  assumes "\<And>c. hook_caller_called_x86 win32 st c \<Longrightarrow> keeps_frame_x86 win32 c (callee c)"
  shows "\<exists>c. hook_caller_called_x86 win32 st c \<and>
    (\<exists>h. run_routine callee ret (hook_caller_asm_x86 win32) st = (gprs (callee c) AX, h) \<and>
       hook_entered_x86 st (callee c) h)"
  by (rule hook_caller_asm_i686_runs [OF assms])

theorem hook_caller_asm_i686_witness:
  "\<exists>h. run_routine (\<lambda>c. c\<lparr>gprs := (gprs c)(AX := 0x600000, CX := 0, DX := 0, SP := gprs c SP + 4)\<rparr>) 0x710000
       (hook_caller_asm_x86 True)
       \<lparr>gprs = (\<lambda>g. 0)(SP := 0x7fff1004, CX := 4, DX := 3), xmms = \<lambda>i. 0, ram = \<lambda>a. 0\<rparr> = (0x600000, h) \<and>
     gprs h SP = 0x7fff1004 \<and> gprs h CX = 4 \<and> gprs h DX = 3"
proof -
  let ?st = "\<lparr>gprs = (\<lambda>g. 0)(SP := 0x7fff1004, CX := 4, DX := 3), xmms = \<lambda>i. 0, ram = \<lambda>a. 0\<rparr> :: u32 machine"
  let ?callee = "\<lambda>c :: u32 machine. c\<lparr>gprs := (gprs c)(AX := 0x600000, CX := 0, DX := 0, SP := gprs c SP + 4)\<rparr>"
  have k: "keeps_frame_x86 True c (?callee c)" for c by (simp add: keeps_frame_x86_def)
  obtain c h where c: "hook_caller_called_x86 True ?st c"
    and h: "run_routine ?callee 0x710000 (hook_caller_asm_x86 True) ?st = (gprs (?callee c) AX, h)"
      "hook_entered_x86 ?st (?callee c) h"
    using hook_caller_asm_i686 [of True ?st ?callee "0x710000", OF k] by blast
  have "args_saved_x86 (ram c) (gprs ?st SP - 4) ?st" "args_saved_x86 (ram c) (gprs ?st SP - 4) h"
    using c h(2) by (simp_all add: hook_caller_called_x86_def Let_def hook_entered_x86_def)
  then have "gprs h CX = 4" "gprs h DX = 3"
    by (simp_all add: args_saved_x86_def)
  moreover have "gprs h SP = 0x7fff1004"
    using h(2) by (simp add: hook_entered_x86_def)
  ultimately show ?thesis using h(1) by simp
qed

end
