(* ===== verification/Session_X86.thy ===== *)
theory Session_X86
  imports Session_Correct Hook_Caller_Correct
begin

text \<open>
  The library on x86_64 Linux from end to end: what executing a function does after
  \<open>funchook_prepare\<close> and \<open>funchook_install\<close> have returned 0, and, with a prehook, what the hook
  caller of src/src/prehook-x86_64-sysv.S then does.
\<close>

section \<open>From preparing a hook to running it\<close>

text \<open>What the disassembler must give for a function that can be hooked.\<close>

lemma complete_trampoline:
  assumes "disasm m func MAX_INSN_CHECK_SIZE = Inr is" and "list_all wf_insn is"
    and "REL2G_JUMP_SIZE \<le> insns_size is"
    and "arch_make_trampoline (x86_64_ops disasm hc) m func = Inr r"
  shows "x86_fits func r"
proof -
  obtain d buf n where r: "r = (d, buf, n)" by (cases r)
  have mt: "make_trampoline_x86_64 disasm m func = Inr (d, buf, n)"
    using assms(4) by (simp add: r)
  have "trampoline_ok func r"
    using x86_64.make_trampoline_ok [of disasm m func "is", OF assms(1,2)] mt by (simp add: r)
  moreover have "n \<noteq> 0"
    by (rule make_trampoline_x86_64_jump [OF assms(1,2) mt assms(3)])
  ultimately show ?thesis by (simp add: x86_fits_def r)
qed

text \<open>
  What the function and its entry then do. The hypotheses from the third on are what
  \<open>prepared_installed\<close> gives for any system layer.
\<close>

lemma prepared_function_runs:
  assumes dis: "disasm mm func MAX_INSN_CHECK_SIZE = Inr insns" and wf: "list_all wf_insn insns"
    and sz: "REL2G_JUMP_SIZE \<le> insns_size insns"
    and mt: "make_trampoline_x86_64 disasm mm func = Inr (d, tramp, n)"
    and av: "funchook_page_avail pa idx func d"
    and fc: "funchook_fix_code CPU_X86_64 hc (entry_address CPU_X86_64 pa idx)
      (new_entry (x86_64_ops disasm hc) m target func params tramp) d = Some e"
    and t: "t = entry_address CPU_X86_64 pa idx + of_nat 72"
    and page: "code_at m2 (entry_address CPU_X86_64 pa idx) (entry_bytes_x86_64 e)"
    and pb: "mem_read m2 func (patch_code_byte_size (x86_64_ops disasm hc) e) =
      patch_bytes (x86_64_ops disasm hc) (new_code e) e"
  shows "(\<exists>n \<le> 3. x86_run n m2 (func, r) = Some
      (if p_prehook params \<noteq> 0 then (hc, t - 72)
       else if p_hook_func params \<noteq> 0 then (p_hook_func params, r) else (t, r)))
    \<and> x86_step m2 (t + of_nat (patch_size insns), r) = Some (func + of_nat (patch_size insns), r)"
proof -
  have patch: "code_at m2 func (take (unat (patch_code_size e)) (new_code e))"
    using pb by (intro code_atI [where n = "unat (patch_code_size e)"])
      (simp add: patch_code_byte_size_def patch_bytes_def)
  let ?e = "new_entry (x86_64_ops disasm hc) m target func params tramp"
  let ?ea = "entry_address CPU_X86_64 pa idx"
  have ft: "x86_fits func (d, tramp, n)"
    by (rule complete_trampoline [where disasm = disasm and m = mm and hc = hc, OF dis wf sz]) (simp add: mt)
  note sh = new_entry_shape [where disasm = disasm and hc = hc and m = m and target = target
      and params = params, OF ft]
  have b: "disp_in_bounds (fst d)" "disp_in_bounds (snd d)" and n: "n \<noteq> 0"
    using ft by (simp_all add: x86_fits_def trampoline_ok_def)
  have ev: "target_func ?e = func" "trampoline ?e = tramp" "prehook ?e = p_prehook params"
    "hook_func ?e = p_hook_func params"
    by (simp_all add: new_entry_x86_64)
  note x = make_trampoline_x86_64_expected [OF dis wf mt n]
  have ne: "insns \<noteq> []" using sz by (auto simp: insns_size_def x86_sizes)
  have k: "5 \<le> unat (patch_code_size e)"
    using patch_code_size_x86_64 [OF wf ne x(1,3) sh b fc ev(1)] x(2) by (simp add: x86_sizes)
  have run: "\<exists>n \<le> 3. x86_run n m2 (target_func ?e, r) = Some (hook_reached hc ?ea ?e r)"
    using run_patched [OF sh b _ refl fc page _ k] av patch by (simp add: ev)
  have step: "x86_step m2 (?ea + 72 + of_nat (patch_size insns), r) =
      Some (func + of_nat (patch_size insns), r)"
    using resume_trampoline [OF dis wf ne mt n sh ev(2) av refl fc page] by blast
  from run step show ?thesis
    by (simp add: ev hook_reached_def jump_target_def t split: if_splits)
qed

text \<open>\<open>os\<close> is any system layer that keeps its contract.\<close>

lemma hooked_function_runs:
  assumes lib: "handle_library os os_ok (x86_64_ops disasm hc) x86_fits"
    and ok: "os_ok s" and inv: "handle_inv (x86_64_ops disasm hc) s"
    and func: "func = os_resolve_func os target s" and ap: "apart (x86_64_ops disasm hc) s func"
    and dis: "disasm (mem s) func MAX_INSN_CHECK_SIZE = Inr insns" and wf: "list_all wf_insn insns"
    and sz: "REL2G_JUMP_SIZE \<le> insns_size insns"
    and sep: "list_all (\<lambda>e. disjoint_blocks func MAX_PATCH_CODE_SIZE (target_func e) MAX_PATCH_CODE_SIZE)
      (entries_of (page_list s))"
    and p: "funchook_prepare_internal (x86_64_ops disasm hc) os target params s = (Inr t, s1)"
    and i: "funchook_install_internal (x86_64_ops disasm hc) os s1 = (Inr u, s2)"
  shows "(\<exists>n \<le> 3. x86_run n (mem s2) (func, r) = Some
      (if p_prehook params \<noteq> 0 then (hc, t - 72)
       else if p_hook_func params \<noteq> 0 then (p_hook_func params, r) else (t, r)))
    \<and> x86_step (mem s2) (t + of_nat (patch_size insns), r) = Some (func + of_nat (patch_size insns), r)"
proof -
  have fits: "x86_fits func r"
    if "arch_make_trampoline (x86_64_ops disasm hc) (mem s) func = Inr r" for r
    by (rule complete_trampoline [where disasm = disasm and m = "mem s" and hc = hc, OF dis wf sz that])
  have others: "list_all (\<lambda>e. disjoint_blocks func (window (x86_64_ops disasm hc)) (target_func e)
      (window (x86_64_ops disasm hc))) (entries_of (page_list s))"
    using sep by (simp add: window_def)
  obtain pa idx e d tramp n m where
    mt: "make_trampoline_x86_64 disasm (mem s) func = Inr (d, tramp, n)"
    and av: "funchook_page_avail pa idx func d" and "idx < num_entries_in_page s"
    and fc: "funchook_fix_code CPU_X86_64 hc (entry_address CPU_X86_64 pa idx)
      (new_entry (x86_64_ops disasm hc) m target func params tramp) d = Some e"
    and t: "t = entry_address CPU_X86_64 pa idx + of_nat 72"
    and page: "code_at (mem s2) (entry_address CPU_X86_64 pa idx) (entry_bytes_x86_64 e)"
    and pb: "mem_read (mem s2) func (patch_code_byte_size (x86_64_ops disasm hc) e) =
      patch_bytes (x86_64_ops disasm hc) (new_code e) e"
    by (rule handle_library.prepared_installed [OF lib ok inv func ap fits others p i,
          unfolded x86_64_ops_simps])
  from prepared_function_runs [OF dis wf sz mt av fc t page pb] show ?thesis .
qed

section \<open>The entries of a page in memory\<close>

text \<open>
  \<open>funchook_entry_t\<close> at the address \<open>ea\<close>: each field at its offset. The transit code and the
  hook caller find the fields there.
\<close>

definition entry_in_memory :: "(u64 \<Rightarrow> u8) \<Rightarrow> u64 \<Rightarrow> (u64, u8) funchook_entry \<Rightarrow> bool" where
  "entry_in_memory m ea e \<longleftrightarrow>
     mem_read m ea 21 = transit e \<and>
     load_word m (ea + 24) = original_target_func e \<and> load_word m (ea + 32) = target_func e \<and>
     load_word m (ea + 40) = hook_func e \<and> load_word m (ea + 48) = prehook e \<and>
     load_word m (ea + 56) = user_data e \<and>
     of_le_bytes (mem_read m (ea + 64) 4) = eflags e \<and> of_le_bytes (mem_read m (ea + 68) 4) = patch_code_size e \<and>
     mem_read m (ea + 72) TRAMPOLINE_SIZE = trampoline e \<and>
     mem_read m (ea + 97) MAX_PATCH_CODE_SIZE = old_code e \<and>
     mem_read m (ea + 117) MAX_PATCH_CODE_SIZE = new_code e"

text \<open>The lengths of its arrays are those the struct declares.\<close>

definition entry_typed :: "(u64, u8) funchook_entry \<Rightarrow> bool" where
  "entry_typed e \<longleftrightarrow> length (transit e) = 21 \<and> length (trampoline e) = TRAMPOLINE_SIZE \<and>
     length (old_code e) = MAX_PATCH_CODE_SIZE \<and> length (new_code e) = MAX_PATCH_CODE_SIZE \<and>
     unat (patch_code_size e) \<le> MAX_PATCH_CODE_SIZE"

lemma code_at_word: "code_at m a (le_bytes 8 v) \<Longrightarrow> load_word m a = (v :: u64)"
  by (simp add: code_at_def load_word_def word_bytes_64)

lemma code_at_word32: "code_at m a (le_bytes 4 v) \<Longrightarrow> of_le_bytes (mem_read m a 4) = (v :: u32)"
  by (simp add: code_at_def)

lemma entry_in_memory_bytes:
  assumes "entry_typed e" and "code_at m ea (entry_bytes_x86_64 e)"
  shows "entry_in_memory m ea e"
  using assms
  by (simp add: entry_in_memory_def entry_typed_def entry_bytes_x86_64_def code_at_append code_at_Cons add.assoc x86_sizes
      code_at_word code_at_word32 code_at_read)

lemma made_entry_typed:
  assumes "x86_fits func (d, tramp, n)"
    and "arch_fix_code (x86_64_ops disasm hc) ea (new_entry (x86_64_ops disasm hc) m target func params tramp) d = Some e"
  shows "entry_typed e"
proof -
  let ?e = "new_entry (x86_64_ops disasm hc) m target func params tramp"
  have c: "funchook_fix_code CPU_X86_64 hc ea ?e d = Some e" using assms(2) by simp
  have b: "disp_in_bounds (fst d)" "disp_in_bounds (snd d)"
    using assms(1) by (simp_all add: x86_fits_def trampoline_ok_def)
  have "entry_shape e" using fix_code_fields [OF new_entry_shape [OF assms(1)] b c] by blast
  moreover have "length (old_code e) = MAX_PATCH_CODE_SIZE \<and> length (new_code e) = MAX_PATCH_CODE_SIZE"
    using fix_code_keeps [OF c] by (auto simp: new_entry_x86_64 x86_sizes)
  ultimately show ?thesis
    using x86_64_fix_code_fits(1) [OF assms(1) c] by (simp add: entry_typed_def entry_shape_def transit_sizes)
qed

text \<open>
  C6: \<open>reachable_entries_typed\<close>. The data of a handle on x86_64 Linux after any sequence of
  calls, installed or not: a page counts as many entries as it has, at most
  \<open>num_entries_in_page\<close>; the arrays of each entry have their declared lengths, the number of
  bytes to patch fits them, and every field is in memory at its offset in
  \<open>funchook_entry_t\<close>, where the transit code and the hook caller read it.
\<close>

theorem reachable_entries_typed:
  assumes "reachable (x86_64_ops disasm hc) (unix_ops_64 env resolve) x86_fits s0 s"
    and "fresh_handle (x86_64_ops disasm hc) s0" and "unix_ok env s0"
    and "page \<in> set (page_list s)"
  shows "used page = length (entries page) \<and> used page \<le> num_entries_in_page s \<and>
    (\<forall>i < used page. entry_typed (entries page ! i) \<and>
       entry_in_memory (mem s) (entry_address CPU_X86_64 (page_addr page) i) (entries page ! i))"
proof -
  note b = linux_x86_64.reachable_entry_bytes [OF assms]
  have "entry_typed (entries page ! i) \<and>
      entry_in_memory (mem s) (entry_address CPU_X86_64 (page_addr page) i) (entries page ! i)"
    if i: "i < used page" for i
  proof -
    have "entries page ! i \<in> set (entries_of (page_list s))"
      using i b(1) assms(4) by (force simp: entries_of_def)
    then have t: "entry_typed (entries page ! i)"
      using linux_x86_64.reachable_entries [OF assms(1-3), of entry_typed] made_entry_typed by blast
    have "code_at (mem s) (entry_address CPU_X86_64 (page_addr page) i) (entry_bytes_x86_64 (entries page ! i))"
      using b(3) [OF i] by (intro code_atI) simp
    with t show ?thesis using entry_in_memory_bytes by blast
  qed
  with b(1,2) show ?thesis by blast
qed

theorem reachable_entries_typed_witness:
  "\<exists>s1 e. funchook_prepare_internal sample_arch sample_os 0x401000 sample_params sample_state = (Inr 0x402058, s1) \<and>
     page_list s1 = [\<lparr>page_addr = 0x402000, used = 1, entries = [e]\<rparr>] \<and>
     entry_typed e \<and> entry_in_memory (mem s1) 0x402010 e"
proof -
  obtain e where p: "funchook_prepare_internal sample_arch sample_os 0x401000 sample_params sample_state =
      (Inr 0x402058, sample_mapped_state
       \<lparr>mem := mem_write (mem sample_mapped_state) 0x402010 (entry_bytes_x86_64 e),
         page_list := [\<lparr>page_addr = 0x402000, used = 1, entries = [e]\<rparr>]\<rparr>)" (is "_ = (_, ?s1)")
    by (rule sample_prepare_state)
  have pl: "page_list ?s1 = [\<lparr>page_addr = 0x402000, used = 1, entries = [e]\<rparr>]" by simp
  have ea: "entry_address CPU_X86_64 0x402000 0 = 0x402010"
    by (simp add: entry_address_def CPU_X86_64_def)
  from reachable_entries_typed [OF sample_reachable [OF p] sample_fresh sample_unix_ok,
      of "\<lparr>page_addr = 0x402000, used = 1, entries = [e]\<rparr>"]
  have "entry_typed e \<and> entry_in_memory (mem ?s1) (entry_address CPU_X86_64 0x402000 0) e"
    by simp
  then have "entry_typed e \<and> entry_in_memory (mem ?s1) 0x402010 e" by (simp only: ea)
  with p pl show ?thesis by blast
qed

section \<open>With a prehook\<close>

text \<open>What the prehook of a hook is given, and where the hook caller goes afterwards.\<close>

definition prehook_target ::
    "('ad \<Rightarrow> 'ad::zero funchook_info \<Rightarrow> 'ad funchook_info) \<Rightarrow> 'ad funchook_params \<Rightarrow>
      'ad \<Rightarrow> 'ad \<Rightarrow> 'ad \<Rightarrow> 'ad \<Rightarrow> 'ad" where
  "prehook_target call params target func tramp base =
    (let info = call (p_prehook params)
       \<lparr>fi_original_target_func = target, fi_target_func = func, fi_trampoline_func = tramp,
        fi_hook_func = p_hook_func params, fi_user_data = p_user_data params,
        fi_arg_handle = (base, p_flags params)\<rparr>
     in if fi_hook_func info \<noteq> 0 then fi_hook_func info else tramp)"

text \<open>
  \<open>callee\<close> behaves as compiled code of \<open>funchook_hook_caller\<close> does when the hook caller calls
  it: it keeps the frame of its caller and returns what the C function returns.
\<close>

definition runs_hook_caller ::
    "bool \<Rightarrow> (u64, u8, u64 ip_displacement) arch_ops \<Rightarrow> (u64 \<Rightarrow> u64 funchook_info \<Rightarrow> u64 funchook_info) \<Rightarrow>
      (u64, u8) funchook_page list \<Rightarrow> u64 machine \<Rightarrow> (u64 machine \<Rightarrow> u64 machine) \<Rightarrow> bool" where
  "runs_hook_caller win32 arch call pages st callee \<longleftrightarrow>
     (\<forall>c. hook_caller_called win32 st c \<longrightarrow> keeps_frame c (callee c) \<and>
        funchook_hook_caller arch call pages (gprs c (first_arg win32)) (gprs c (second_arg win32)) =
          Some (gprs (callee c) AX))"

text \<open>
  The hook caller, entered with the transit address in R11, goes where the prehook of the
  hook says. \<open>win32\<close> tells which of the two calling conventions the build has.
\<close>

definition prehook_dispatched ::
    "bool \<Rightarrow> (u64 machine \<Rightarrow> u64 machine) \<Rightarrow> u64 \<Rightarrow> u64 machine \<Rightarrow> u64 \<Rightarrow> bool" where
  "prehook_dispatched win32 callee ret st goal \<longleftrightarrow>
     (\<exists>c. hook_caller_called win32 st c \<and>
       (\<exists>h. run_routine callee ret (hook_caller_asm win32) st = (goal, h) \<and>
         gprs h SP = gprs st SP \<and> gprs h BP = gprs st BP \<and>
         (args_saved win32 (ram (callee c)) (gprs st SP - 8) st \<longrightarrow>
           (\<forall>g \<in> set (saved_gprs win32). gprs h g = gprs st g) \<and>
           (\<forall>i < saved_xmms win32. xmms h i = xmms st i))))"

lemma prehook_run:
  assumes lib: "handle_library os os_ok (x86_64_ops disasm hc) x86_fits"
    and ok: "os_ok s" and inv: "handle_inv (x86_64_ops disasm hc) s"
    and func: "func = os_resolve_func os target s" and ap: "apart (x86_64_ops disasm hc) s func"
    and dis: "disasm (mem s) func MAX_INSN_CHECK_SIZE = Inr insns" and wf: "list_all wf_insn insns"
    and sz: "REL2G_JUMP_SIZE \<le> insns_size insns"
    and p: "funchook_prepare_internal (x86_64_ops disasm hc) os target params s = (Inr t, s1)"
    and i: "funchook_install_internal (x86_64_ops disasm hc) os s1 = (Inr u, s2)"
    and callee: "runs_hook_caller win32 (x86_64_ops disasm hc) call (page_list s2) (set_gpr R11 (t - 72) st) callee"
  shows "prehook_dispatched win32 callee ret (set_gpr R11 (t - 72) st)
    (prehook_target call params target func t (gprs st SP - 8))"
proof -
  let ?st = "set_gpr R11 (t - 72) st"
  have fits: "x86_fits func r"
    if "arch_make_trampoline (x86_64_ops disasm hc) (mem s) func = Inr r" for r
    by (rule complete_trampoline [where disasm = disasm and m = "mem s" and hc = hc, OF dis wf sz that])
  have hcaller: "funchook_hook_caller (x86_64_ops disasm hc) call (page_list s2) (t - 72) base =
      Some (prehook_target call params target func t base)" for base
    using handle_library.prepared_hook_caller [OF lib ok inv func ap fits p i, of call base]
    by (simp add: prehook_target_def Let_def)
  have "keeps_frame c (callee c)" if "hook_caller_called win32 ?st c" for c
    using callee that by (simp add: runs_hook_caller_def)
  from hook_caller_asm_runs [of win32 ?st callee ret, OF this] obtain c h where
    c: "hook_caller_called win32 ?st c"
    and h: "run_routine callee ret (hook_caller_asm win32) ?st = (gprs (callee c) AX, h)"
      "hook_entered win32 ?st (callee c) h"
    by blast
  have "gprs c (first_arg win32) = t - 72" "gprs c (second_arg win32) = gprs st SP - 8"
    using c by (simp_all add: hook_caller_called_def Let_def set_gpr_def)
  moreover have "funchook_hook_caller (x86_64_ops disasm hc) call (page_list s2) (gprs c (first_arg win32))
      (gprs c (second_arg win32)) = Some (gprs (callee c) AX)"
    using callee c by (simp add: runs_hook_caller_def)
  ultimately have ax: "gprs (callee c) AX = prehook_target call params target func t (gprs st SP - 8)"
    by (simp add: hcaller)
  have e: "gprs h SP = gprs ?st SP" "gprs h BP = gprs ?st BP"
    "args_saved win32 (ram (callee c)) (gprs ?st SP - 8) h"
    using h(2) by (simp_all add: hook_entered_def)
  have "(\<forall>g \<in> set (saved_gprs win32). gprs h g = gprs ?st g) \<and> (\<forall>i < saved_xmms win32. xmms h i = xmms ?st i)"
    if "args_saved win32 (ram (callee c)) (gprs ?st SP - 8) ?st"
    using args_saved_unique [OF e(3) that] by blast
  with c h(1) e ax show ?thesis
    unfolding prehook_dispatched_def by (intro exI [of _ c] conjI exI [of _ h]) simp_all
qed

text \<open>
  C2: \<open>prehook_chooses_target\<close>. The path through a prehook on x86_64 Linux, from the C code to
  the assembly and back: after prepare and install have returned 0 for a function with a
  prehook, executing the function reaches the hook caller in at most three instructions. The
  hook caller calls \<open>funchook_hook_caller\<close> with the address of the transit code and a base
  pointer from which the accessors find the argument registers; the entry of exactly this hook
  is found, its prehook is called with what \<open>funchook_prepare\<close> was given, and control goes to
  the hook function the prehook left, or to the trampoline, with the stack and the frame
  pointer of the caller. If the saved registers were not changed, all argument registers are
  those of the caller.
\<close>

theorem prehook_chooses_target:
  assumes "unix_ok env s" and "handle_inv (x86_64_ops disasm hc) s"
    and "func = resolve target s" and "apart (x86_64_ops disasm hc) s func"
    and "disasm (mem s) func MAX_INSN_CHECK_SIZE = Inr insns" and "list_all wf_insn insns"
    and "REL2G_JUMP_SIZE \<le> insns_size insns"
    and "list_all (\<lambda>e. disjoint_blocks func MAX_PATCH_CODE_SIZE (target_func e) MAX_PATCH_CODE_SIZE)
      (entries_of (page_list s))"
    and "funchook_prepare_internal (x86_64_ops disasm hc) (unix_ops_64 env resolve) target params s = (Inr t, s1)"
    and "funchook_install_internal (x86_64_ops disasm hc) (unix_ops_64 env resolve) s1 = (Inr u, s2)"
    and "p_prehook params \<noteq> 0"
    and "runs_hook_caller False (x86_64_ops disasm hc) call (page_list s2) (set_gpr R11 (t - 72) st) callee"
  shows "(\<exists>n \<le> 3. x86_run n (mem s2) (func, gprs st R11) = Some (hc, t - 72)) \<and>
    prehook_dispatched False callee ret (set_gpr R11 (t - 72) st)
      (prehook_target call params target func t (gprs st SP - 8))"
proof -
  have o: "func = os_resolve_func (unix_ops_64 env resolve) target s"
    using assms(3) by (simp add: unix_ops_64_def)
  note lib = linux_x86_64.handle_library_axioms
  show ?thesis
    using hooked_function_runs [OF lib assms(1,2) o assms(4-10), of "gprs st R11"] assms(11)
      prehook_run [OF lib assms(1,2) o assms(4-7,9,10,12), of ret]
    by simp
qed

text \<open>A prehook that replaces the hook function, and compiled code that behaves as the C code.\<close>

definition prehook_params :: "u64 funchook_params" where
  "prehook_params = \<lparr>p_hook_func = 0x600000, p_prehook = 0x610000, p_user_data = 7, p_flags = 0\<rparr>"

definition redirect :: "u64 \<Rightarrow> u64 funchook_info \<Rightarrow> u64 funchook_info" where
  "redirect f info = info\<lparr>fi_hook_func := fi_hook_func info + fi_user_data info\<rparr>"

definition compiled_hook_caller :: "bool \<Rightarrow> (u64, u8) funchook_page list \<Rightarrow> u64 machine \<Rightarrow> u64 machine" where
  "compiled_hook_caller win32 pages c =
     set_gpr AX (case funchook_hook_caller sample_arch redirect pages (gprs c (first_arg win32)) (gprs c (second_arg win32)) of
       Some a \<Rightarrow> a | None \<Rightarrow> 0)
       (set_gpr (first_arg win32) 0 (set_gpr SP (gprs c SP + 8) (c\<lparr>xmms := \<lambda>i. 0\<rparr>)))"

lemma compiled_hook_caller_runs:
  assumes "\<And>base. \<exists>a. funchook_hook_caller sample_arch redirect pages v base = Some a"
  shows "runs_hook_caller win32 sample_arch redirect pages (set_gpr R11 v st) (compiled_hook_caller win32 pages)"
proof -
  have "\<exists>a. funchook_hook_caller sample_arch redirect pages (gprs c (first_arg win32)) (gprs c (second_arg win32)) =
      Some a" if "hook_caller_called win32 (set_gpr R11 v st) c" for c
    using that assms by (simp add: hook_caller_called_def Let_def set_gpr_def)
  then show ?thesis
    by (fastforce simp: runs_hook_caller_def keeps_frame_def compiled_hook_caller_def set_gpr_def first_arg_def)
qed

lemma compiled_hook_caller_args:
  assumes "prehook_dispatched win32 (compiled_hook_caller win32 pages) ret (set_gpr R11 v st) goal"
  shows "\<exists>h. run_routine (compiled_hook_caller win32 pages) ret (hook_caller_asm win32) (set_gpr R11 v st) = (goal, h) \<and>
    gprs h SP = gprs st SP \<and> (\<forall>g \<in> set (saved_gprs win32). gprs h g = gprs st g) \<and>
    (\<forall>i < saved_xmms win32. xmms h i = xmms st i)"
proof -
  let ?st = "set_gpr R11 v st"
  obtain c h where c: "hook_caller_called win32 ?st c"
    and h: "run_routine (compiled_hook_caller win32 pages) ret (hook_caller_asm win32) ?st = (goal, h)"
      "gprs h SP = gprs ?st SP"
    and args: "args_saved win32 (ram (compiled_hook_caller win32 pages c)) (gprs ?st SP - 8) ?st \<longrightarrow>
        (\<forall>g \<in> set (saved_gprs win32). gprs h g = gprs ?st g) \<and> (\<forall>i < saved_xmms win32. xmms h i = xmms ?st i)"
    using assms unfolding prehook_dispatched_def by blast
  have "args_saved win32 (ram (compiled_hook_caller win32 pages c)) (gprs ?st SP - 8) ?st"
    using c by (simp add: hook_caller_called_def Let_def compiled_hook_caller_def set_gpr_def)
  moreover have "g \<noteq> R11" if "g \<in> set (saved_gprs win32)" for g
    using that by (auto simp: saved_gprs_def split: if_splits)
  ultimately show ?thesis using args h by (auto simp: set_gpr_def)
qed

lemma prehook_params_target: "prehook_target redirect prehook_params target func t base = 0x600007"
  by (simp add: prehook_target_def redirect_def prehook_params_def)

theorem prehook_chooses_target_witness:
  "\<exists>s1 s2 n h. funchook_prepare_internal sample_arch sample_os 0x401000 prehook_params sample_state = (Inr 0x402058, s1)
     \<and> funchook_install_internal sample_arch sample_os s1 = (Inr (), s2)
     \<and> n \<le> 3 \<and> x86_run n (mem s2) (0x401000, 0) = Some (0x700000, 0x402010)
     \<and> run_routine (compiled_hook_caller False (page_list s2)) 0x710000 (hook_caller_asm False)
         (set_gpr R11 0x402010 sample_machine) = (0x600007, h)
     \<and> gprs h DI = 1 \<and> xmms h 0 = 9 \<and> gprs h SP = 0x7fff1008"
proof -
  obtain s1 s2 where
    p: "funchook_prepare_internal sample_arch sample_os 0x401000 prehook_params sample_state = (Inr 0x402058, s1)"
    and i: "funchook_install_internal sample_arch sample_os s1 = (Inr (), s2)"
    using sample_installed .
  have m: "mem sample_state = sample_mem" and pl: "page_list sample_state = []"
    by (simp_all add: sample_state_def)
  have sz: "REL2G_JUMP_SIZE \<le> insns_size sample_insns" by code_simp
  have dis: "sample_disasm (mem sample_state) 0x401000 MAX_INSN_CHECK_SIZE = Inr sample_insns"
    using sample_disasm_ok by (simp add: m)
  have ph: "p_prehook prehook_params \<noteq> 0" by (simp add: prehook_params_def)
  have others: "list_all (\<lambda>e. disjoint_blocks 0x401000 MAX_PATCH_CODE_SIZE (target_func e) MAX_PATCH_CODE_SIZE)
      (entries_of (page_list sample_state))"
    by (simp add: pl entries_of_def)
  have rf: "0x401000 = os_resolve_func sample_os 0x401000 sample_state"
    by (simp add: unix_ops_64_def)
  have "\<exists>a. funchook_hook_caller sample_arch redirect (page_list s2) (0x402058 - 72) base = Some a" for base
    using linux_x86_64.prepared_hook_caller [OF sample_unix_ok sample_inv rf sample_apart sample_fit p i,
        of redirect base]
    by (simp add: Let_def)
  note callee = compiled_hook_caller_runs [where pages = "page_list s2", OF this]
  from prehook_chooses_target [where s = sample_state and disasm = sample_disasm and env = sample_env
      and hc = "0x700000" and func = "0x401000" and target = "0x401000" and resolve = "\<lambda>f s. f"
      and insns = sample_insns and st = sample_machine and ret = "0x710000",
      OF sample_unix_ok sample_inv refl sample_apart dis sample_wf sz others p i ph callee]
  obtain n where n: "n \<le> 3" "x86_run n (mem s2) (0x401000, gprs sample_machine R11) = Some (0x700000, 0x402058 - 72)"
    and d: "prehook_dispatched False (compiled_hook_caller False (page_list s2)) 0x710000
      (set_gpr R11 (0x402058 - 72) sample_machine) 0x600007"
    unfolding prehook_params_target by blast
  from compiled_hook_caller_args [OF d] p i n show ?thesis
    by (auto simp: sample_machine_def saved_gprs_def saved_xmms_def)
qed

end
