(* ===== verification/Session_Windows.thy ===== *)
theory Session_Windows
  imports OS_Windows_Correct Session_X86
begin

text \<open>
  The library on x86_64 Windows from end to end: the interpretation of \<open>granting_os\<close> for
  src/src/os_windows.c, and what a call of \<open>funchook_prepare\<close>, \<open>funchook_install\<close> and
  \<open>funchook_uninstall\<close> together do, with the hook caller of src/src/prehook-x86_64-ms.S.
\<close>

section \<open>A system that allows the changes of protection\<close>

text \<open>\<open>VirtualProtect\<close> on this region of committed memory succeeds, whatever the protections are.\<close>

definition win_grants ::
    "'a word win_env \<Rightarrow> ('a::len word, 'p, 'i) fh_state \<Rightarrow> 'a word \<Rightarrow> 'a word \<Rightarrow> bool" where
  "win_grants env s a sz \<longleftrightarrow>
     mprot s a \<noteq> None \<and> (\<forall>x. in_region a (unat sz) x \<longrightarrow> mprot s x \<noteq> None) \<and>
     (\<forall>n pr p. (\<forall>x. in_region a (unat sz) x \<longrightarrow> pr x \<noteq> None) \<longrightarrow> win_protect env n pr a sz p)"

definition win_can_patch ::
    "'a word win_env \<Rightarrow> ('a::len word, 'p, 'i) fh_state \<Rightarrow> 'a word \<Rightarrow> 'a word \<Rightarrow> bool" where
  "win_can_patch env s a n \<longleftrightarrow> (case code_pages_windows (page_size s) a n of (b, sz) \<Rightarrow> win_grants env s b sz)"

definition win_can_protect :: "'a word win_env \<Rightarrow> ('a::len word, 'p, 'i) fh_state \<Rightarrow> 'a word \<Rightarrow> bool" where
  "win_can_protect env s p \<longleftrightarrow> win_grants env s p (page_size s)"

lemma win_grants_cong: "same_mapping s s' \<Longrightarrow> win_grants env s' a sz = win_grants env s a sz"
  by (simp add: win_grants_def same_mapping_def)

lemma win_can_cong:
  "same_mapping s s' \<Longrightarrow> page_size s' = page_size s \<Longrightarrow>
     win_can_patch env s' = win_can_patch env s \<and> win_can_protect env s' = win_can_protect env s"
  by (simp add: win_can_patch_def win_can_protect_def win_grants_cong fun_eq_iff)

lemma sys_protect_granted:
  "win_grants env s a sz \<Longrightarrow> \<exists>old. sys_protect env a sz p s = (Some old, set_committed a sz (Some p) (win_tick s))"
  by (auto simp: win_grants_def sys_protect_def)

lemma unprotect_begin_windows_granted:
  assumes "win_can_patch env s a n"
  shows "\<exists>ms s'. funchook_unprotect_begin_windows env a n s = (Inr ms, s') \<and>
    code_pages_windows (page_size s) a n = (wms_addr ms, wms_size ms)"
proof -
  obtain b sz where c: "code_pages_windows (page_size s) a n = (b, sz)"
    by (cases "code_pages_windows (page_size s) a n")
  then have "win_grants env s b sz" using assms by (simp add: win_can_patch_def)
  then obtain old where "sys_protect env b sz PROT_RWX s = (Some old, set_committed b sz (Some PROT_RWX) (win_tick s))"
    using sys_protect_granted by blast
  then show ?thesis by (simp add: funchook_unprotect_begin_windows_def c)
qed

lemma unprotect_end_windows_granted:
  assumes "win_can_patch env s a n" and "funchook_unprotect_begin_windows env a n s = (Inr ms, s')"
    and "same_mapping s t"
  shows "\<exists>t'. funchook_unprotect_end_windows env ms t = (Inr (), t')"
proof -
  have "code_pages_windows (page_size s) a n = (wms_addr ms, wms_size ms)"
    using unprotect_begin_windows_granted [OF assms(1)] assms(2) by auto
  then have "win_grants env t (wms_addr ms) (wms_size ms)"
    using assms(1) win_grants_cong [OF assms(3), of env] by (simp add: win_can_patch_def)
  from sys_protect_granted [OF this, of "wms_protect ms"] show ?thesis
    by (auto simp: funchook_unprotect_end_windows_def)
qed

lemma page_protect_windows_granted:
  "win_can_protect env s p \<Longrightarrow> \<exists>s'. funchook_page_protect_windows env p s = (Inr (), s')"
  using sys_protect_granted [of env s p "page_size s" PROT_RX]
  by (auto simp: win_can_protect_def funchook_page_protect_windows_def)

interpretation windows64_grants: granting_os "windows_ops (alloc_page_info_64 env) avail env resolve" "win_ok env"
    "win_can_patch env" "win_can_protect env"
  for env :: "u64 win_env" and avail :: "u64 \<Rightarrow> u64 \<Rightarrow> 'd \<Rightarrow> bool"
    and resolve :: "u64 \<Rightarrow> (u64, u64 win_data, 'i) fh_state \<Rightarrow> u64"
proof (unfold_locales, goal_cases)
  case (1 s s') then show ?case by (rule win_can_cong)
next
  case (2 s a n)
  then show ?case using unprotect_begin_windows_granted [of env s a n] by (auto simp: windows_ops_def)
next
  case (3 s a n ms s' t)
  then show ?case using unprotect_end_windows_granted [of env s a n ms s' t] by (simp add: windows_ops_def)
next
  case (4 s p) then show ?case using page_protect_windows_granted [of env s p] by (simp add: windows_ops_def)
qed

interpretation windows32_grants: granting_os "windows_ops (alloc_page_info_32 env) avail env resolve" "win_ok env"
    "win_can_patch env" "win_can_protect env"
  for env :: "u32 win_env" and avail :: "u32 \<Rightarrow> u32 \<Rightarrow> 'd \<Rightarrow> bool"
    and resolve :: "u32 \<Rightarrow> (u32, u32 win_data, 'i) fh_state \<Rightarrow> u32"
proof (unfold_locales, goal_cases)
  case (1 s s') then show ?case by (rule win_can_cong)
next
  case (2 s a n)
  then show ?case using unprotect_begin_windows_granted [of env s a n] by (auto simp: windows_ops_def)
next
  case (3 s a n ms s' t)
  then show ?case using unprotect_end_windows_granted [of env s a n ms s' t] by (simp add: windows_ops_def)
next
  case (4 s p) then show ?case using page_protect_windows_granted [of env s p] by (simp add: windows_ops_def)
qed

text \<open>The code that an entry patches can be unprotected, and does not reach the top of memory.\<close>

definition win_patch_granted ::
    "'a word win_env \<Rightarrow> ('a::len word, 'i, 'd) arch_ops \<Rightarrow> ('a word, 'p, 'i) fh_state \<Rightarrow>
      ('a word, 'i) funchook_entry \<Rightarrow> bool" where
  "win_patch_granted env arch s e \<longleftrightarrow>
     unat (target_func e) + patch_code_byte_size arch e + unat (page_size s) < 2 ^ LENGTH('a) \<and>
     win_can_patch env s (target_func e) (of_nat (patch_code_byte_size arch e))"

lemma handle_inv_ready_windows:
  assumes "handle_inv arch s" and "list_all (win_patch_granted env arch s) (entries_of (page_list s))"
  shows "list_all (windows64_grants.ready env arch s) (entries_of (page_list s))"
  using assms
  by (auto simp: handle_inv_def list_all_iff windows64_grants.ready_def patchable_def entry_ok_def
      win_patch_granted_def)

section \<open>Preparing, installing, running, uninstalling\<close>

text \<open>
  C3: \<open>windows_hook_lifecycle\<close>. The library on x86_64 Windows from end to end: a function whose
  first instructions decode to at least five bytes has been prepared, no other prepared function
  overlaps it, and \<open>VirtualProtect\<close> accepts the pages of the handle and of the prepared functions.
  Then \<open>funchook_install\<close> returns 0; executing the function reaches in at most three
  instructions the hook, the trampoline or the hook caller; the end of the trampoline continues
  behind the replaced instructions; with a prehook, the hook caller of the Microsoft calling
  convention goes where the prehook of this hook says; and \<open>funchook_uninstall\<close> returns 0 and
  restores every byte that was committed before outside the handle's pages.
\<close>

theorem windows_hook_lifecycle:
  assumes "win_ok env s" and "handle_inv (x86_64_ops disasm hc) s"
    and "func = resolve target s" and "apart (x86_64_ops disasm hc) s func"
    and "disasm (mem s) func MAX_INSN_CHECK_SIZE = Inr insns" and "list_all wf_insn insns"
    and "REL2G_JUMP_SIZE \<le> insns_size insns"
    and "list_all (\<lambda>e. disjoint_blocks func MAX_PATCH_CODE_SIZE (target_func e) MAX_PATCH_CODE_SIZE)
      (entries_of (page_list s))"
    and "funchook_prepare_internal (x86_64_ops disasm hc) (windows_x86_64_os env resolve) target params s =
      (Inr t, s1)"
    and "list_all (win_patch_granted env (x86_64_ops disasm hc) s1) (entries_of (page_list s1))"
    and "list_all (\<lambda>page. win_can_protect env s1 (page_addr page)) (page_list s1)"
  shows "\<exists>s2 s3. funchook_install_internal (x86_64_ops disasm hc) (windows_x86_64_os env resolve) s1 = (Inr (), s2) \<and>
    (\<exists>n \<le> 3. x86_run n (mem s2) (func, r) = Some
      (if p_prehook params \<noteq> 0 then (hc, t - 72)
       else if p_hook_func params \<noteq> 0 then (p_hook_func params, r) else (t, r))) \<and>
    x86_step (mem s2) (t + of_nat (patch_size insns), r) = Some (func + of_nat (patch_size insns), r) \<and>
    (runs_hook_caller True (x86_64_ops disasm hc) call (page_list s2) (set_gpr R11 (t - 72) st) callee \<longrightarrow>
      prehook_dispatched True callee ret (set_gpr R11 (t - 72) st)
        (prehook_target call params target func t (gprs st SP - 8))) \<and>
    funchook_uninstall_internal (x86_64_ops disasm hc) (windows_x86_64_os env resolve) s2 = (Inr (), s3) \<and>
    (\<forall>x. mprot s x = None \<or> list_ex (\<lambda>page. in_region (page_addr page) (unat (page_size s)) x) (page_list s) \<or>
       mem s3 x = mem s x)"
proof -
  let ?arch = "x86_64_ops disasm hc" and ?os = "windows_x86_64_os env resolve"
  note lib = windows_x86_64.handle_library_axioms
  have fits: "x86_fits func r" if "arch_make_trampoline ?arch (mem s) func = Inr r" for r
    by (rule complete_trampoline [where disasm = disasm and m = "mem s" and hc = hc, OF assms(5-7) that])
  have f: "func = os_resolve_func ?os target s"
    using assms(3) by (simp add: windows_ops_def)
  note po = windows_x86_64.prepare_ok [OF assms(1,2) f assms(4) fits assms(9)]
  obtain s2 s3 where i: "funchook_install_internal ?arch ?os s1 = (Inr (), s2)"
    and u: "funchook_uninstall_internal ?arch ?os s2 = (Inr (), s3)" and m: "mem s3 = mem s1"
    using windows64_grants.install_uninstall_succeed [OF po(2,4) handle_inv_ready_windows [OF po(1) assms(10)]
        assms(11) handle_inv_saved [OF po(1)]] by blast
  have keep: "mprot s x = None \<or> list_ex (\<lambda>page. in_region (page_addr page) (unat (page_size s)) x) (page_list s) \<or>
      mem s3 x = mem s x" for x
    using po(5) [of x] by (auto simp: m list_all_iff list_ex_iff)
  show ?thesis
    using i u keep hooked_function_runs [OF lib assms(1,2) f assms(4-9) i, of r]
      prehook_run [OF lib assms(1,2) f assms(4-7,9) i, of True call st callee ret] by blast
qed

lemma sample_win_grants:
  assumes "\<And>x. in_region a 4096 x \<Longrightarrow> mprot s x \<noteq> None"
  shows "win_grants sample_win_env s a 4096"
proof -
  have "mprot s a \<noteq> None" by (rule assms) (simp add: in_region_def)
  then show ?thesis
    using assms region_mapped_of [of a 4096] by (simp add: win_grants_def sample_win_env_def)
qed

lemma sample_win_granted:
  assumes p: "funchook_prepare_internal sample_arch sample_win_os 0x401000 params sample_win_state = (Inr t, s1)"
  shows "list_all (win_patch_granted sample_win_env sample_arch s1) (entries_of (page_list s1))"
    and "list_all (\<lambda>page. win_can_protect sample_win_env s1 (page_addr page)) (page_list s1)"
proof -
  have f: "0x401000 = os_resolve_func sample_win_os 0x401000 sample_win_state"
    by (simp add: windows_ops_def)
  note inv = fresh_handle_inv [OF sample_win_fresh]
  have hi: "handle_inv sample_arch sample_win_state"
    using inv by (simp add: library_inv_def unpatched_mem_def sample_win_state_def)
  note po = windows_x86_64.prepare_ok [OF sample_win_ok hi f sample_win_apart sample_win_fit p]
  have ps: "page_size s1 = 4096" using po(6) by (simp add: sample_win_state_def)
  obtain e where e: "set (entries_of (page_list s1)) = {e}" "target_func e = 0x401000"
    "patch_code_byte_size sample_arch e = 11"
    by (rule sample_prepared_entry [OF windows_x86_64.handle_library_axioms sample_win_ok hi f sample_win_apart _ _ p])
      (simp_all add: sample_win_state_def)
  have "mprot s1 x \<noteq> None" if "in_region 0x401000 4096 x" for x
    using po(10) [of x] that by (simp add: sample_win_state_def)
  then have "win_grants sample_win_env s1 0x401000 4096" by (rule sample_win_grants)
  moreover have "code_pages_windows 4096 (0x401000 :: u64) 11 = (0x401000, 4096)" by code_simp
  ultimately have "win_patch_granted sample_win_env sample_arch s1 e"
    by (simp add: win_patch_granted_def e(2,3) win_can_patch_def ps)
  then show "list_all (win_patch_granted sample_win_env sample_arch s1) (entries_of (page_list s1))"
    by (simp add: list_all_iff e(1))
  have "win_can_protect sample_win_env s1 (page_addr page)" if "page \<in> set (page_list s1)" for page
    using po(1) that by (auto simp: handle_inv_def list_all_iff page_ok_def mapped_def win_can_protect_def ps
        intro!: sample_win_grants)
  then show "list_all (\<lambda>page. win_can_protect sample_win_env s1 (page_addr page)) (page_list s1)"
    by (simp add: list_all_iff)
qed

theorem windows_hook_lifecycle_witness:
  "\<exists>s1 s2 s3 n h. funchook_prepare_internal sample_arch sample_win_os 0x401000 prehook_params sample_win_state =
       (Inr 0x411058, s1) \<and>
     funchook_install_internal sample_arch sample_win_os s1 = (Inr (), s2) \<and>
     n \<le> 3 \<and> x86_run n (mem s2) (0x401000, 0) = Some (0x700000, 0x411010) \<and>
     run_routine (compiled_hook_caller True (page_list s2)) 0x710000 (hook_caller_asm True)
         (set_gpr R11 0x411010 sample_machine) = (0x600007, h) \<and> gprs h CX = 4 \<and> gprs h SP = 0x7fff1008 \<and>
     funchook_uninstall_internal sample_arch sample_win_os s2 = (Inr (), s3) \<and>
     mem s3 0x401000 = mem sample_win_state 0x401000"
proof -
  have i: "page_list sample_win_state = []" "\<not> installed sample_win_state" "mem sample_win_state = sample_mem"
    by (simp_all add: sample_win_state_def)
  obtain s1 where p: "funchook_prepare_internal sample_arch sample_win_os 0x401000 prehook_params sample_win_state =
      (Inr 0x411058, s1)"
    using gives_page_prepare [OF sample_win_gives i] by auto
  have hi: "handle_inv sample_arch sample_win_state"
    using fresh_handle_inv [OF sample_win_fresh] by (simp add: library_inv_def unpatched_mem_def i(2))
  have sz: "REL2G_JUMP_SIZE \<le> insns_size sample_insns" by code_simp
  have dis: "sample_disasm (mem sample_win_state) 0x401000 MAX_INSN_CHECK_SIZE = Inr sample_insns"
    using sample_disasm_ok by (simp add: i(3))
  have others: "list_all (\<lambda>e. disjoint_blocks 0x401000 MAX_PATCH_CODE_SIZE (target_func e) MAX_PATCH_CODE_SIZE)
      (entries_of (page_list sample_win_state))"
    by (simp add: i(1) entries_of_def)
  have ph: "p_prehook prehook_params \<noteq> 0" by (simp add: prehook_params_def)
  have rf: "0x401000 = os_resolve_func sample_win_os 0x401000 sample_win_state"
    by (simp add: windows_ops_def)
  have mp: "mprot sample_win_state 0x401000 \<noteq> None" "\<not> list_ex P (page_list sample_win_state)" for P
    by (simp_all add: sample_win_state_def in_region_def)
  obtain s2 s3 where inst: "funchook_install_internal sample_arch sample_win_os s1 = (Inr (), s2)"
    and run: "\<exists>n \<le> 3. x86_run n (mem s2) (0x401000, 0) = Some
      (if p_prehook prehook_params \<noteq> 0 then (0x700000, 0x411058 - 72)
       else if p_hook_func prehook_params \<noteq> 0 then (p_hook_func prehook_params, 0) else (0x411058, 0))"
    and disp: "runs_hook_caller True sample_arch redirect (page_list s2) (set_gpr R11 (0x411058 - 72) sample_machine)
        (compiled_hook_caller True (page_list s1)) \<longrightarrow>
      prehook_dispatched True (compiled_hook_caller True (page_list s1)) 0x710000
        (set_gpr R11 (0x411058 - 72) sample_machine) 0x600007"
    and u: "funchook_uninstall_internal sample_arch sample_win_os s2 = (Inr (), s3)"
    and keep: "\<forall>x. mprot sample_win_state x = None \<or> list_ex (\<lambda>page. in_region (page_addr page)
        (unat (page_size sample_win_state)) x) (page_list sample_win_state) \<or> mem s3 x = mem sample_win_state x"
    using windows_hook_lifecycle [where s = sample_win_state and disasm = sample_disasm and env = sample_win_env
      and hc = "0x700000" and func = "0x401000" and target = "0x401000" and resolve = "\<lambda>f s. f"
      and insns = sample_insns and r = 0 and call = redirect and st = sample_machine and ret = "0x710000"
      and callee = "compiled_hook_caller True (page_list s1)",
      OF sample_win_ok hi refl sample_win_apart dis sample_wf sz others p sample_win_granted [OF p]]
    unfolding prehook_params_target by blast
  have m: "mem s3 0x401000 = mem sample_win_state 0x401000"
    using keep [THEN spec, of "0x401000"] mp by blast
  obtain n where n: "n \<le> 3" "x86_run n (mem s2) (0x401000, 0) = Some (0x700000, 0x411058 - 72)"
    using run ph by auto
  have "page_list s2 = page_list s1"
    using windows64.install_ok(3) [OF windows_x86_64.prepare_ok(2) [OF sample_win_ok hi rf sample_win_apart
        sample_win_fit p] inst] .
  moreover have "\<exists>a. funchook_hook_caller sample_arch redirect (page_list s2) (0x411058 - 72) base = Some a" for base
    using windows_x86_64.prepared_hook_caller [OF sample_win_ok hi rf sample_win_apart sample_win_fit p inst,
        of redirect base]
    by (simp add: Let_def)
  from compiled_hook_caller_runs [of "page_list s2" _ True, OF this]
  have "runs_hook_caller True sample_arch redirect (page_list s2) (set_gpr R11 (0x411058 - 72) sample_machine)
      (compiled_hook_caller True (page_list s2))" .
  ultimately have "prehook_dispatched True (compiled_hook_caller True (page_list s2)) 0x710000
        (set_gpr R11 (0x411058 - 72) sample_machine) 0x600007"
    using disp by simp
  from compiled_hook_caller_args [OF this] p inst n u m show ?thesis
    by (auto simp: sample_machine_def saved_gprs_def)
qed

end
