(* ===== verification/OS_Unix_Correct.thy ===== *)
theory OS_Unix_Correct
  imports Sample_Session
begin

text \<open>
  Properties of the search for memory near a function (src/src/os_unix.c): the reader of
  \<open>/proc/self/maps\<close> inverts the format of the kernel, the loop of \<open>get_free_address\<close> picks
  the nearest gaps below and above the function, and a page that \<open>funchook_page_alloc\<close>
  returns is fresh and in reach of the function, unless \<open>mmap\<close> failed.
\<close>

section \<open>Reading a line\<close>

lemma hex_digit_code: "d < 16 \<Longrightarrow> (of_char (hex_digit d) :: nat) = (if d < 10 then 48 + d else 87 + d)"
  by (simp add: hex_digit_def)

lemma scan_digit: "d < 16 \<Longrightarrow> scan_address (hex_digit d # s) a = scan_address s (a * 16 + of_nat d)"
  by (simp add: hex_digit_code)

lemma scan_fmt_nat: "scan_address (fmt_nat 16 n @ s) 0 = scan_address s (of_nat n)"
proof (induction n arbitrary: s rule: less_induct)
  case (less n)
  show ?case
  proof (cases "n < 16")
    case True
    then show ?thesis
      by (simp add: fmt_nat.simps [of 16 n] scan_digit del: scan_address.simps)
  next
    case False
    then have "fmt_nat 16 n = fmt_nat 16 (n div 16) @ [hex_digit (n mod 16)]"
      by (subst fmt_nat.simps) simp
    moreover have "scan_address (fmt_nat 16 (n div 16) @ hex_digit (n mod 16) # s) 0 =
        scan_address (hex_digit (n mod 16) # s) (of_nat (n div 16))"
      using False by (intro less.IH) simp
    moreover have "of_nat (n div 16) * 16 + of_nat (n mod 16) = (of_nat n :: u64)"
      by (metis div_mult_mod_eq of_nat_add of_nat_mult of_nat_numeral)
    ultimately show ?thesis by (simp add: scan_digit del: scan_address.simps)
  qed
qed

lemma scan_zeros: "scan_address (replicate k CHR ''0'' @ s) 0 = scan_address s 0"
  by (induction k) simp_all

text \<open>The addresses of a line are printed with at least eight digits.\<close>

lemma scan_fmt_08x: "scan_address (fmt_08x n @ s) 0 = scan_address s (of_nat n)"
  by (simp add: fmt_08x_def Let_def scan_zeros fmt_x_def scan_fmt_nat)

text \<open>The line of a mapping from \<open>start\<close> to \<open>end\<close>, as proc(5) gives its format.\<close>

definition map_line :: "u64 \<Rightarrow> u64 \<Rightarrow> string \<Rightarrow> string" where
  "map_line start end rest =
     fmt_08x (unat start) @ ''-'' @ fmt_08x (unat end) @ '' '' @ rest"

lemma parse_map_line_line: "parse_map_line (map_line start end t) = Some (start, end)"
  by (simp add: map_line_def parse_map_line_def scan_fmt_08x)

lemma length_fmt_nat_16: "n < 16 ^ Suc k \<Longrightarrow> length (fmt_nat 16 n) \<le> Suc k"
proof (induction k arbitrary: n)
  case 0
  then show ?case by (subst fmt_nat.simps) simp
next
  case (Suc k)
  then have "n div 16 < 16 ^ Suc k" by (simp add: less_mult_imp_div_less mult.commute)
  from Suc.IH [OF this] show ?case by (subst fmt_nat.simps) simp
qed

lemma length_fmt_08x: "length (fmt_08x (unat (w :: u64))) \<le> 16"
proof -
  have "unat w < 16 ^ Suc 15" using unsigned_less [of w, where 'a = nat] by simp
  from length_fmt_nat_16 [OF this] show ?thesis
    by (simp add: fmt_08x_def fmt_x_def Let_def)
qed

lemma take_beyond: "length p \<le> n \<Longrightarrow> take n (p @ t) = p @ take (n - length p) t"
  by simp

text \<open>The part of a long line that is read still has the bounds of the mapping.\<close>

lemma take_map_line: "\<exists>u. take (PATH_MAX - 1) (map_line start end t) = map_line start end u"
proof -
  let ?p = "fmt_08x (unat start) @ ''-'' @ fmt_08x (unat end) @ '' ''"
  have "length ?p \<le> PATH_MAX - 1"
    using length_fmt_08x [of start] length_fmt_08x [of "end"] by (simp add: PATH_MAX_def)
  then have "take (PATH_MAX - 1) (?p @ t) = ?p @ take (PATH_MAX - 1 - length ?p) t"
    by (rule take_beyond)
  then show ?thesis
    by (intro exI [of _ "take (PATH_MAX - 1 - length ?p) t"]) (simp add: map_line_def)
qed

text \<open>The addresses themselves hold no end of line.\<close>

lemma hex_digit_no_newline: "d < 16 \<Longrightarrow> hex_digit d \<noteq> CHR 0x0A"
proof
  assume d: "d < 16" and "hex_digit d = CHR 0x0A"
  then have "(of_char (hex_digit d) :: nat) = 10" by simp
  then show False using hex_digit_code [OF d] by (simp split: if_splits)
qed

lemma fmt_nat_no_newline: "CHR 0x0A \<notin> set (fmt_nat 16 n)"
proof (induction n rule: less_induct)
  case (less n)
  show ?case
  proof (cases "n < 16")
    case True
    then show ?thesis using hex_digit_no_newline [of n] by (subst fmt_nat.simps) auto
  next
    case False
    have "n mod 16 < 16" by simp
    with False less.IH [of "n div 16"] hex_digit_no_newline [of "n mod 16"] show ?thesis
      by (subst fmt_nat.simps) auto
  qed
qed

lemma map_line_no_newline: "CHR 0x0A \<notin> set t \<Longrightarrow> CHR 0x0A \<notin> set (map_line start end t)"
  using fmt_nat_no_newline by (auto simp: map_line_def fmt_08x_def fmt_x_def Let_def)

text \<open>The addresses take up to sixteen digits each.\<close>

lemma short_map_line:
  assumes "CHR 0x0A \<notin> set t" and "length t \<le> 4060"
  shows "short_line (map_line start end t)"
  using assms(2) map_line_no_newline [OF assms(1), of start "end"] length_fmt_08x [of start] length_fmt_08x [of "end"]
  by (simp add: short_line_def PATH_MAX_def) (simp add: map_line_def)

lemma next_map_line:
  assumes "CHR 0x0A \<notin> set t"
  shows "memory_map_next (map_line start end t @ newline @ tail) =
    (Some (start, end), drop (PATH_MAX - 1) (map_line start end t @ newline) @ tail)"
proof (cases "short_line (map_line start end t)")
  case True
  then have "length (map_line start end t @ newline) \<le> PATH_MAX - 1"
    by (simp add: short_line_def PATH_MAX_def)
  then have "drop (PATH_MAX - 1) (map_line start end t @ newline) = []" by (rule drop_all)
  then show ?thesis by (simp only: next_short_line [OF True] parse_map_line_line append_Nil)
next
  case False
  note nl = map_line_no_newline [OF assms, of start "end"]
  with False have l: "PATH_MAX - 1 \<le> length (map_line start end t)"
    by (simp add: short_line_def)
  obtain u where u: "take (PATH_MAX - 1) (map_line start end t) = map_line start end u"
    using take_map_line by blast
  have "drop (PATH_MAX - 1) (map_line start end t @ newline) = drop (PATH_MAX - 1) (map_line start end t) @ newline"
    using l by simp
  then show ?thesis
    by (simp only: next_long_line [OF nl l] u parse_map_line_line append_assoc)
qed

text \<open>
  C32: \<open>memory_map_round_trip\<close>. Reading the memory map gives back the mappings the kernel
  printed: \<open>memory_map_next\<close>, on a file whose first line is the line of a mapping, returns the
  bounds of the mapping, for every pair of 64-bit addresses and whatever follows them on the line
  (permissions, file name). It consumes this line when it fits into the buffer of \<open>PATH_MAX\<close>
  bytes; of a longer one it consumes \<open>PATH_MAX - 1\<close> characters and leaves the rest to the next call.
\<close>

theorem memory_map_round_trip:
  assumes "CHR 0x0A \<notin> set rest"
  shows "memory_map_next (map_line start end rest @ newline @ tail) =
      (Some (start, end), drop (PATH_MAX - 1) (map_line start end rest @ newline) @ tail) \<and>
    (short_line (map_line start end rest) \<longrightarrow>
      memory_map_next (map_line start end rest @ newline @ tail) = (Some (start, end), tail))"
proof (intro conjI impI)
  show "memory_map_next (map_line start end rest @ newline @ tail) = (Some (start, end), tail)"
    if "short_line (map_line start end rest)"
    by (simp only: next_short_line [OF that] parse_map_line_line)
qed (rule next_map_line [OF assms])

theorem memory_map_round_trip_witness:
  "memory_map_next (map_line 0x401000 0x7fff00402000 ''r-xp /bin/a'' @ newline @ ''00500000'') =
     (Some (0x401000, 0x7fff00402000), ''00500000'')"
proof -
  have "CHR 0x0A \<notin> set ''r-xp /bin/a''" by simp
  moreover from this have "short_line (map_line 0x401000 0x7fff00402000 ''r-xp /bin/a'')"
    by (rule short_map_line) simp
  ultimately show ?thesis
    using memory_map_round_trip [of "''r-xp /bin/a''" "0x401000" "0x7fff00402000" "''00500000''"] by blast
qed

section \<open>The gaps near a function\<close>

text \<open>
  The mappings in the order the kernel lists them: they do not overlap, and a page fits
  behind each of them in the address space.
\<close>

fun maps_sorted :: "u64 \<Rightarrow> u64 \<Rightarrow> (u64 \<times> u64) list \<Rightarrow> bool" where
  "maps_sorted psz prev [] \<longleftrightarrow> True"
| "maps_sorted psz prev ((start, end) # rs) \<longleftrightarrow>
     prev \<le> start \<and> start \<le> end \<and> unat end + unat psz < 2 ^ 64 \<and> maps_sorted psz end rs"

text \<open>
  The gaps between mappings that have room for a page, the end of the last mapping, and the
  reference definition of the search: the last gap that ends below the function and in
  reach, and the first end of a mapping above the function that a gap follows.
\<close>

fun gaps :: "u64 \<Rightarrow> u64 \<Rightarrow> (u64 \<times> u64) list \<Rightarrow> (u64 \<times> u64) list" where
  "gaps psz prev [] = []"
| "gaps psz prev ((start, end) # rs) =
     (if unat prev + unat psz \<le> unat start then [(prev, start)] else []) @ gaps psz end rs"

fun last_end :: "u64 \<Rightarrow> (u64 \<times> u64) list \<Rightarrow> u64" where
  "last_end prev [] = prev"
| "last_end prev ((start, end) # rs) = last_end end rs"

definition below :: "u64 \<Rightarrow> u64 \<Rightarrow> (u64 \<times> u64) list \<Rightarrow> u64 list" where
  "below psz func gs =
     map (\<lambda>(lo, hi). hi - psz) (filter (\<lambda>(lo, hi). hi < func \<and> func - (hi - psz) < INT32_MAX) gs)"

definition above :: "u64 \<Rightarrow> u64 list \<Rightarrow> u64 option" where
  "above func = List.find (\<lambda>lo. func < lo)"

definition nearest_gaps :: "u64 \<Rightarrow> u64 \<Rightarrow> (u64 \<times> u64) list \<Rightarrow> (u64 \<times> u64) option" where
  "nearest_gaps psz func rs =
     (case above func (map fst (gaps psz 0 rs) @ [last_end 0 rs]) of
        None \<Rightarrow> None
      | Some hi \<Rightarrow>
          Some (last (0 # below psz func (gaps psz 0 rs)), if hi - func < INT32_MAX then hi else 0))"

definition map_lines :: "(u64 \<times> u64 \<times> string) list \<Rightarrow> string list" where
  "map_lines ms = map (\<lambda>(start, end, rest). map_line start end rest) ms"

definition bounds_of :: "(u64 \<times> u64 \<times> string) list \<Rightarrow> (u64 \<times> u64) list" where
  "bounds_of ms = map (\<lambda>(start, end, rest). (start, end)) ms"

lemma below_simps [simp]:
  "below psz func [] = []"
  "below psz func ((lo, hi) # gs) =
     (if hi < func \<and> func - (hi - psz) < INT32_MAX then [hi - psz] else []) @ below psz func gs"
  by (simp_all add: below_def)

lemma above_simps [simp]:
  "above func [] = None"
  "above func (lo # los) = (if func < lo then Some lo else above func los)"
  by (simp_all add: above_def)

lemma gaps_fit:
  assumes "maps_sorted psz prev rs" and "(lo, hi) \<in> set (gaps psz prev rs)"
  shows "prev \<le> lo \<and> unat lo + unat psz \<le> unat hi \<and>
    (\<forall>(start, end) \<in> set rs. end \<le> lo \<or> hi \<le> start)"
  using assms
proof (induction rs arbitrary: prev)
  case Nil
  then show ?case by simp
next
  case (Cons r rs)
  obtain start "end" where r: "r = (start, end)" by (cases r)
  have later: "(\<forall>(s', e') \<in> set rs. end \<le> s')"
    using Cons.prems(1) unfolding r
  proof (induction rs arbitrary: start "end" prev)
    case (Cons q rs)
    obtain s' e' where q: "q = (s', e')" by (cases q)
    from Cons.prems have "end \<le> s'" "s' \<le> e'" "\<forall>(s'', e'') \<in> set rs. e' \<le> s''"
      using Cons.IH [of s' s' e'] by (simp_all add: q)
    then show ?case by (fastforce simp: q)
  qed simp
  show ?case
  proof (cases "(lo, hi) \<in> set (gaps psz end rs)")
    case True
    with Cons.IH [of "end"] Cons.prems(1) show ?thesis by (fastforce simp: r)
  next
    case False
    with Cons.prems have lo: "lo = prev" "hi = start" "unat prev + unat psz \<le> unat start"
      by (auto simp: r split: if_splits)
    have "hi \<le> s'" if "(s', e') \<in> set rs" for s' e'
      using later that Cons.prems(1) by (fastforce simp: r lo)
    with lo show ?thesis by (auto simp: r)
  qed
qed

lemma last_end_above:
  "maps_sorted psz prev rs \<Longrightarrow> prev \<le> last_end prev rs \<and> (\<forall>(start, end) \<in> set rs. end \<le> last_end prev rs)
     \<and> (unat prev + unat psz < 2 ^ 64 \<longrightarrow> unat (last_end prev rs) + unat psz < 2 ^ 64)"
  by (induction psz prev rs rule: maps_sorted.induct) fastforce+

lemma below_beyond:
  assumes "maps_sorted psz prev rs" and "func < prev"
  shows "below psz func (gaps psz prev rs) = []"
proof -
  have "\<not> hi < func" if "(lo, hi) \<in> set (gaps psz prev rs)" for lo hi
    using gaps_fit [OF assms(1) that] assms(2) by (auto simp: word_less_nat_alt word_le_nat_alt)
  then show ?thesis by (auto simp: below_def filter_empty_conv)
qed

text \<open>The loop computes the reference definition.\<close>

lemma no_wrap_le:
  "unat (prev :: u64) + unat psz < 2 ^ 64 \<Longrightarrow> prev + psz \<le> start \<longleftrightarrow> unat prev + unat psz \<le> unat start"
  by (simp add: word_le_nat_alt unat_word_ariths)

lemma free_address_loop_gaps:
  assumes "maps_sorted psz prev (bounds_of ms)" and "unat prev + unat psz < 2 ^ 64"
    and "list_all short_line (map_lines ms)"
  shows "free_address_loop psz func (file_of (map_lines ms)) prev a0 0 =
    (case above func (map fst (gaps psz prev (bounds_of ms)) @ [last_end prev (bounds_of ms)]) of
       None \<Rightarrow> None
     | Some hi \<Rightarrow> Some (last (a0 # below psz func (gaps psz prev (bounds_of ms))),
         if hi - func < INT32_MAX then hi else 0))"
  using assms
proof (induction ms arbitrary: prev a0)
  case Nil
  then show ?case by (simp add: map_lines_def bounds_of_def free_address_loop_end)
next
  case (Cons r ms)
  obtain start "end" rest where r: "r = (start, end, rest)" by (cases r)
  have b: "bounds_of (r # ms) = (start, end) # bounds_of ms"
    and l: "map_lines (r # ms) = map_line start end rest # map_lines ms"
    by (simp_all add: bounds_of_def map_lines_def r)
  have short: "short_line (map_line start end rest)" "list_all short_line (map_lines ms)"
    using Cons.prems(3) by (simp_all add: l)
  have fl: "file_of (map_lines (r # ms)) = map_line start end rest @ newline @ file_of (map_lines ms)"
    by (simp add: l)
  note line = free_address_loop_line [OF short(1) parse_map_line_line]
  have so: "prev \<le> start" "start \<le> end" "unat end + unat psz < 2 ^ 64" "maps_sorted psz end (bounds_of ms)"
    using Cons.prems(1) by (simp_all add: b)
  note IH = Cons.IH [OF so(4,3) short(2)]
  show ?case
  proof (cases "unat prev + unat psz \<le> unat start")
    case False
    then show ?thesis
      using IH Cons.prems(2)
      unfolding fl line by (simp add: b no_wrap_le split: option.splits)
  next
    case True
    show ?thesis
    proof (cases "func < prev")
      case f: True
      then have "func < end" "\<not> start < func" using so(1,2) by auto
      with below_beyond [OF so(4)] True f Cons.prems(2) show ?thesis
        unfolding fl line by (simp add: b no_wrap_le Let_def split: option.splits)
    next
      case f: False
      with IH True Cons.prems(2) show ?thesis
        unfolding fl line by (simp add: b no_wrap_le Let_def split: option.splits)
    qed
  qed
qed

lemma find_SomeD: "List.find P xs = Some x \<Longrightarrow> P x \<and> x \<in> set xs"
  by (induction xs) (auto split: if_splits)

text \<open>What the reference definition gives: free pages in reach, and a result for mapped code.\<close>

lemma last_cons_mem: "last (x # xs) = x \<or> last (x # xs) \<in> set xs"
  by (induction xs arbitrary: x) auto

lemma below_free:
  assumes "maps_sorted psz 0 rs" and "a \<in> set (below psz func (gaps psz 0 rs))"
  shows "a \<le> func \<and> func - a < INT32_MAX \<and>
    (\<forall>(start, end) \<in> set rs. end \<le> a \<or> unat a + unat psz \<le> unat start)"
proof -
  obtain lo hi where g: "(lo, hi) \<in> set (gaps psz 0 rs)" and a: "a = hi - psz" "hi < func" "func - a < INT32_MAX"
    using assms(2) by (auto simp: below_def)
  note fit = gaps_fit [OF assms(1) g]
  then have "psz \<le> hi" by (simp add: word_le_nat_alt)
  then have ua: "unat a = unat hi - unat psz" by (simp add: a(1) unat_sub)
  then have "a \<le> func" using a(2) by (simp add: word_le_nat_alt word_less_nat_alt)
  moreover have "end \<le> a \<or> unat a + unat psz \<le> unat start" if "(start, end) \<in> set rs" for start "end"
  proof -
    have "end \<le> lo \<or> hi \<le> start" using fit that by blast
    then show ?thesis using fit ua by (auto simp: word_le_nat_alt)
  qed
  ultimately show ?thesis using a(3) by blast
qed

lemma above_free:
  assumes "maps_sorted psz 0 rs" and "above func (map fst (gaps psz 0 rs) @ [last_end 0 rs]) = Some a"
  shows "func < a \<and> (\<forall>(start, end) \<in> set rs. end \<le> a \<or> unat a + unat psz \<le> unat start)"
proof -
  have "func < a" and "a \<in> fst ` set (gaps psz 0 rs) \<or> a = last_end 0 rs"
    using assms(2) find_SomeD [of "\<lambda>lo. func < lo" "map fst (gaps psz 0 rs) @ [last_end 0 rs]" a]
    by (auto simp: above_def)
  then show ?thesis
  proof (elim disjE)
    assume "a \<in> fst ` set (gaps psz 0 rs)"
    then obtain hi where g: "(a, hi) \<in> set (gaps psz 0 rs)" by auto
    from gaps_fit [OF assms(1) g] \<open>func < a\<close> show ?thesis by (fastforce simp: word_le_nat_alt)
  next
    assume "a = last_end 0 rs"
    with last_end_above [OF assms(1)] \<open>func < a\<close> show ?thesis by auto
  qed
qed

lemma nearest_gaps_free:
  assumes "maps_sorted psz 0 rs" and "nearest_gaps psz func rs = Some (a0, a1)"
    and "a = a0 \<or> a = a1" and "a \<noteq> 0"
  shows "(func - a < INT32_MAX \<or> a - func < INT32_MAX) \<and>
    (\<forall>(start, end) \<in> set rs. end \<le> a \<or> unat a + unat psz \<le> unat start)"
proof -
  obtain hi where hi: "above func (map fst (gaps psz 0 rs) @ [last_end 0 rs]) = Some hi"
    and a0: "a0 = last (0 # below psz func (gaps psz 0 rs))"
    and a1: "a1 = (if hi - func < INT32_MAX then hi else 0)"
    using assms(2) by (auto simp: nearest_gaps_def split: option.splits)
  from assms(3) show ?thesis
  proof
    assume "a = a0"
    then have "a \<in> set (below psz func (gaps psz 0 rs))"
      using last_cons_mem [of 0 "below psz func (gaps psz 0 rs)"] assms(4) a0 by auto
    from below_free [OF assms(1) this] show ?thesis by blast
  next
    assume "a = a1"
    with above_free [OF assms(1) hi] assms(4) a1 show ?thesis by (auto split: if_splits)
  qed
qed

lemma nearest_gaps_mapped:
  assumes "maps_sorted psz 0 rs" and "(start, end) \<in> set rs" and "func < end"
  shows "nearest_gaps psz func rs \<noteq> None"
proof -
  have "end \<le> last_end 0 rs" using last_end_above [OF assms(1)] assms(2) by auto
  with assms(3) have "func < last_end 0 rs" by simp
  then have "above func (map fst (gaps psz 0 rs) @ [last_end 0 rs]) \<noteq> None"
    by (auto simp: above_def find_None_iff)
  then show ?thesis by (auto simp: nearest_gaps_def)
qed

text \<open>
  C30: \<open>get_free_address_nearest\<close>. When \<open>/proc/self/maps\<close> lists mappings in ascending order, each
  on a line that fits into the buffer of \<open>PATH_MAX\<close> bytes,
  \<open>get_free_address\<close> offers exactly the reference choice \<open>nearest_gaps\<close>: the last gap with room
  for a page that ends below the function and is in reach, and the start of the first gap above it.
  An address it offers (0 stands for none) is less than 2^31 - 1 bytes away from the function
  and a page there meets no mapping, and for a function inside a listed mapping it does not fail.
  What a longer line does is \<open>long_map_line_hides_rest\<close> in \<open>OS_Unix_Maps\<close>.
\<close>

theorem get_free_address_nearest:
  assumes "env_maps env (now s) (mprot s) = Inr (file_of (map_lines ms))"
    and "list_all short_line (map_lines ms)" and "maps_sorted (page_size s) 0 (bounds_of ms)"
    and "get_free_address env func s = (r, s')"
  shows "(case nearest_gaps (page_size s) func (bounds_of ms) of
       Some addrs \<Rightarrow> r = Inr addrs | None \<Rightarrow> r = Inl (Err ERROR_MEMORY_ALLOCATION))
    \<and> (\<forall>a0 a1 a. r = Inr (a0, a1) \<longrightarrow> (a = a0 \<or> a = a1) \<and> a \<noteq> 0 \<longrightarrow>
        (func - a < INT32_MAX \<or> a - func < INT32_MAX) \<and>
        (\<forall>(start, end) \<in> set (bounds_of ms). end \<le> a \<or> unat a + unat (page_size s) \<le> unat start))
    \<and> ((\<exists>(start, end) \<in> set (bounds_of ms). start \<le> func \<and> func < end) \<longrightarrow> (\<exists>addrs. r = Inr addrs))"
proof -
  let ?n = "nearest_gaps (page_size s) func (bounds_of ms)"
  have "unat (0 :: u64) + unat (page_size s) < 2 ^ 64"
    using unsigned_less [of "page_size s", where 'a = nat] by simp
  from free_address_loop_gaps [OF assms(3) this assms(2)]
  have "free_address_loop (page_size s) func (file_of (map_lines ms)) 0 0 0 = ?n"
    by (simp add: nearest_gaps_def)
  then have r: "case ?n of Some addrs \<Rightarrow> r = Inr addrs | None \<Rightarrow> r = Inl (Err ERROR_MEMORY_ALLOCATION)"
    using assms(1,4) by (auto simp: get_free_address_def split: option.splits)
  have n: "?n = Some (a0, a1)" if "r = Inr (a0, a1)" for a0 a1
    using that r by (auto split: option.splits)
  have "?n \<noteq> None" if "\<exists>(start, end) \<in> set (bounds_of ms). start \<le> func \<and> func < end"
    using that nearest_gaps_mapped [OF assms(3)] by blast
  with r have ok: "(\<exists>(start, end) \<in> set (bounds_of ms). start \<le> func \<and> func < end) \<longrightarrow> (\<exists>addrs. r = Inr addrs)"
    by (auto split: option.splits)
  have free: "\<forall>a0 a1 a. r = Inr (a0, a1) \<longrightarrow> (a = a0 \<or> a = a1) \<and> a \<noteq> 0 \<longrightarrow>
        (func - a < INT32_MAX \<or> a - func < INT32_MAX) \<and>
        (\<forall>(start, end) \<in> set (bounds_of ms). end \<le> a \<or> unat a + unat (page_size s) \<le> unat start)"
    using nearest_gaps_free [OF assms(3) n] by blast
  from r free ok show ?thesis by (intro conjI)
qed

text \<open>A map with a gap on either side of the function.\<close>

definition sample_maps :: "(u64 \<times> u64 \<times> string) list" where
  "sample_maps =
     [(0x400000, 0x401000, ''r--p 00000000 08:02 1 /bin/a''),
      (0x405000, 0x408000, ''r-xp 00005000 08:02 1 /bin/a''),
      (0x40a000, 0x40b000, ''rw-p 0000a000 08:02 1 /bin/a'')]"

theorem get_free_address_nearest_witness:
  "fst (get_free_address (sample_env\<lparr>env_maps := (\<lambda>n pr. Inr (file_of (map_lines sample_maps)))\<rparr>) 0x406000 sample_state)
     = Inr (0x404000, 0x408000)"
proof -
  let ?env = "sample_env\<lparr>env_maps := (\<lambda>n pr. Inr (file_of (map_lines sample_maps)))\<rparr>"
  have ps: "page_size sample_state = 4096" by (simp add: sample_state_def)
  obtain r s' where g: "get_free_address ?env 0x406000 sample_state = (r, s')"
    by (cases "get_free_address ?env 0x406000 sample_state")
  have "maps_sorted 4096 0 (bounds_of sample_maps)"
    and n: "nearest_gaps 4096 0x406000 (bounds_of sample_maps) = Some (0x404000, 0x408000)"
    by (simp_all add: sample_maps_def bounds_of_def nearest_gaps_def INT32_MAX_def)
  moreover have "list_all short_line (map_lines sample_maps)"
    by (simp add: sample_maps_def map_lines_def short_map_line)
  ultimately have "r = Inr (0x404000, 0x408000)"
    using get_free_address_nearest [of ?env sample_state sample_maps "0x406000" r s'] g by (auto simp: ps)
  with g show ?thesis by simp
qed

section \<open>The page that is returned\<close>

lemma try_address_hit:
  assumes "try_address env func addr s = (Some (Inr p), s')"
  shows "sys_mmap env addr (page_size s) s = (p, s') \<and>
    (SAFE_JUMP_DISTANCE (page_size s) func p \<or> SAFE_JUMP_DISTANCE (page_size s) p func)"
  using assms by (auto simp: try_address_def split: if_splits prod.splits)

text \<open>A page comes from one of the calls of \<open>mmap\<close>, and is in reach.\<close>

lemma page_alloc_loop_hit:
  "unix_ok env s \<Longrightarrow> page_alloc_loop env func n s = (Inr p, s') \<Longrightarrow>
     \<exists>addr t. alloc_ok env s t \<and> sys_mmap env addr (page_size s) t = (p, s') \<and>
       (SAFE_JUMP_DISTANCE (page_size s) func p \<or> SAFE_JUMP_DISTANCE (page_size s) p func)"
proof (induction n arbitrary: s)
  case 0
  then show ?case by simp
next
  case (Suc n)
  obtain a s1 where g: "get_free_address env func s = (Inr a, s1)"
    and k: "(\<lambda>(a0, a1) s1. case try_address env func a1 s1 of
          (Some r, s2) \<Rightarrow> (r, s2)
        | (None, s2) \<Rightarrow>
            (case try_address env func a0 s2 of
               (Some r, s3) \<Rightarrow> (r, s3)
             | (None, s3) \<Rightarrow> page_alloc_loop env func n s3)) a s1 = (Inr p, s')"
    using Suc.prems(2) unfolding page_alloc_loop.simps then_ok_eq_Inr by blast
  have s1: "alloc_ok env s s1" using get_free_address_ok [OF Suc.prems(1) g] by blast
  have ps: "page_size t = page_size s" if "alloc_ok env s t" for t
    using that by (simp add: alloc_ok_def same_handle_def)
  obtain r1 s2 where t1: "try_address env func (snd a) s1 = (r1, s2)"
    by (cases "try_address env func (snd a) s1")
  have s2: "alloc_ok env s s2"
    using try_address_ok [OF _ t1] alloc_ok_trans [OF s1] s1 by (auto simp: alloc_ok_def)
  show ?case
  proof (cases r1)
    case (Some r)
    with k t1 have "try_address env func (snd a) s1 = (Some (Inr p), s')"
      by (simp add: case_prod_unfold)
    from try_address_hit [OF this] s1 ps [OF s1] show ?thesis by metis
  next
    case None
    obtain r2 s3 where t2: "try_address env func (fst a) s2 = (r2, s3)"
      by (cases "try_address env func (fst a) s2")
    have s3: "alloc_ok env s s3"
      using try_address_ok [OF _ t2] alloc_ok_trans [OF s2] s2 by (auto simp: alloc_ok_def)
    show ?thesis
    proof (cases r2)
      case (Some r)
      with k t1 t2 None have "try_address env func (fst a) s2 = (Some (Inr p), s')"
        by (simp add: case_prod_unfold)
      from try_address_hit [OF this] s2 ps [OF s2] show ?thesis by metis
    next
      case None2: None
      with k t1 t2 None have "page_alloc_loop env func n s3 = (Inr p, s')"
        by (simp add: case_prod_unfold)
      moreover have "unix_ok env s3" using s3 by (simp add: alloc_ok_def)
      ultimately obtain addr t where t: "alloc_ok env s3 t" "sys_mmap env addr (page_size s3) t = (p, s')"
        "SAFE_JUMP_DISTANCE (page_size s3) func p \<or> SAFE_JUMP_DISTANCE (page_size s3) p func"
        using Suc.IH by blast
      with alloc_ok_trans [OF s3 t(1)] ps [OF s3] show ?thesis by metis
    qed
  qed
qed

lemma sint_of_int_64: "- (9223372036854775808) \<le> k \<Longrightarrow> k < 9223372036854775808 \<Longrightarrow> sint (of_int k :: u64) = k"
  by (simp add: sint_sbintrunc' signed_take_bit_int_eq_self)

lemma safe_distance:
  assumes "unat psz < 2147483647" and "i < unat psz"
    and "SAFE_JUMP_DISTANCE psz func p \<or> SAFE_JUMP_DISTANCE psz p func"
  shows "- (2147483648) < sint (p + of_nat i - func) \<and> sint (p + of_nat i - func) < 2147483648"
proof -
  have m: "unat (INT32_MAX - psz) = 2147483647 - unat psz"
    using assms(1) by (simp add: INT32_MAX_def unat_sub word_le_nat_alt)
  from assms(3) show ?thesis
  proof
    let ?d = "func - p"
    assume "SAFE_JUMP_DISTANCE psz func p"
    then have d: "unat ?d < 2147483647 - unat psz"
      by (simp add: SAFE_JUMP_DISTANCE_def word_less_nat_alt m)
    have "p + of_nat i - func = of_int (int i - int (unat ?d))"
      by (simp add: algebra_simps)
    moreover have "sint (of_int (int i - int (unat ?d)) :: u64) = int i - int (unat ?d)"
      using d assms(1,2) by (intro sint_of_int_64) linarith+
    ultimately have "sint (p + of_nat i - func) = int i - int (unat ?d)" by (simp only:)
    then show ?thesis using d assms(1,2) by (intro conjI) linarith+
  next
    let ?d = "p - func"
    assume "SAFE_JUMP_DISTANCE psz p func"
    then have d: "unat ?d < 2147483647 - unat psz"
      by (simp add: SAFE_JUMP_DISTANCE_def word_less_nat_alt m)
    have "p + of_nat i - func = of_int (int i + int (unat ?d))"
      by (simp add: algebra_simps)
    moreover have "sint (of_int (int i + int (unat ?d)) :: u64) = int i + int (unat ?d)"
      using d assms(1,2) by (intro sint_of_int_64) linarith+
    ultimately have "sint (p + of_nat i - func) = int i + int (unat ?d)" by (simp only:)
    then show ?thesis using d assms(1,2) by (intro conjI) linarith+
  qed
qed

text \<open>The page as a whole, and what was mapped before.\<close>

lemma page_alloc_fresh_in_reach:
  assumes "unix_ok env s" and "unat (page_size s) < 2 ^ 31 - 1"
    and "funchook_page_alloc_64 env func s = (Inr p, s')" and "p \<noteq> MAP_FAILED"
  shows "(\<forall>i < unat (page_size s).
        mprot s (p + of_nat i) = None \<and> mprot s' (p + of_nat i) = Some PROT_RW \<and> mem s' (p + of_nat i) = 0 \<and>
        - (2 ^ 31) < sint (p + of_nat i - func) \<and> sint (p + of_nat i - func) < 2 ^ 31)
    \<and> (\<forall>x. mprot s x \<noteq> None \<longrightarrow> mprot s' x = mprot s x \<and> mem s' x = mem s x)"
proof -
  have run: "page_alloc_loop env func 3 s = (Inr p, s')"
    using assms(3) by (simp add: funchook_page_alloc_64_def)
  have fresh: "fresh_page s p s'" and keeps: "keeps_mapped s s'"
    using page_alloc_loop_ok [OF assms(1) run] by (auto simp: alloc_ok_def)
  obtain addr t where t: "alloc_ok env s t" "sys_mmap env addr (page_size s) t = (p, s')"
    and d: "SAFE_JUMP_DISTANCE (page_size s) func p \<or> SAFE_JUMP_DISTANCE (page_size s) p func"
    using page_alloc_loop_hit [OF assms(1) run] by blast
  have ok: "unix_ok env t" using t(1) by (simp add: alloc_ok_def)
  have "mprot s (p + of_nat i) = None \<and> mprot s' (p + of_nat i) = Some PROT_RW \<and> mem s' (p + of_nat i) = 0 \<and>
      - (2 ^ 31) < sint (p + of_nat i - func) \<and> sint (p + of_nat i - func) < 2 ^ 31"
    if i: "i < unat (page_size s)" for i
  proof -
    have r: "in_region p (unat (page_size s)) (p + of_nat i)"
      using i assms(2) by (simp add: in_region_def unat_of_nat)
    have rw: "mprot s' (p + of_nat i) = Some PROT_RW"
      using mmap_ok(4) [OF ok t(2) assms(4) r] by blast
    then have "mprot s (p + of_nat i) = None"
      using fresh_pageD [OF fresh r _ r] by simp
    moreover have "mem s' = mem_write (mem t) p (replicate (unat (page_size s)) 0)"
      using t(2) assms(4) by (auto simp: sys_mmap_def Let_def split: if_splits)
    then have "mem s' (p + of_nat i) = 0"
      using r i assms(2) by (simp add: mem_write_apply in_region_def)
    ultimately show ?thesis
      using rw safe_distance [OF _ i d] assms(2) by simp
  qed
  with keeps show ?thesis by (auto simp: keeps_mapped_def)
qed

text \<open>
  C29: \<open>page_alloc_in_reach\<close>. A page that \<open>funchook_page_alloc\<close> returns on 64-bit Unix, other
  than \<open>MAP_FAILED\<close>, was unmapped before, is now zero, readable and writable but not
  executable, and every byte of it is less than 2^31 bytes from the function, so that 32-bit
  relative operands reach it; whatever was mapped before is unchanged, also after the pages
  out of reach that were tried and released on the way.
\<close>

theorem page_alloc_in_reach:
  assumes "unix_ok env s" and "unat (page_size s) < 2 ^ 31 - 1"
    and "funchook_page_alloc_64 env func s = (Inr p, s')" and "p \<noteq> MAP_FAILED"
  shows "(\<forall>i < unat (page_size s).
        mprot s (p + of_nat i) = None \<and> mprot s' (p + of_nat i) = Some PROT_RW \<and> mem s' (p + of_nat i) = 0 \<and>
        - (2 ^ 31) < sint (p + of_nat i - func) \<and> sint (p + of_nat i - func) < 2 ^ 31)
    \<and> (\<forall>x. mprot s x \<noteq> None \<longrightarrow> mprot s' x = mprot s x \<and> mem s' x = mem s x)"
  by (rule page_alloc_fresh_in_reach [OF assms])

theorem page_alloc_in_reach_witness:
  "mprot sample_state 0x402fff = None \<and> mprot sample_mapped_state 0x402fff = Some PROT_RW \<and>
     mem sample_mapped_state 0x402fff = 0 \<and> mprot sample_mapped_state 0x401000 = Some PROT_RX"
proof -
  have "page_size sample_state = 4096" and rx: "mprot sample_state 0x401000 = Some PROT_RX"
    by (simp_all add: sample_state_def in_region_def)
  then have a: "unat (page_size sample_state) < 2 ^ 31 - 1" "4095 < unat (page_size sample_state)"
    by simp_all
  have "(0x402000 :: u64) \<noteq> MAP_FAILED" by (simp add: MAP_FAILED_def)
  note r = page_alloc_in_reach [OF sample_unix_ok a(1) sample_page_alloc this]
  from r [THEN conjunct1, rule_format, OF a(2)] r [THEN conjunct2, rule_format, of "0x401000"] rx
  show ?thesis by simp
qed

section \<open>A failing mmap\<close>

definition near_ends :: "u64 \<Rightarrow> u64 \<Rightarrow> bool" where
  "near_ends psz func \<longleftrightarrow>
     unat func + 1 < 2 ^ 31 - 1 - unat psz \<or> 2 ^ 64 - 1 - unat func < 2 ^ 31 - 1 - unat psz"

lemma safe_distance_failed:
  assumes "unat psz < 2 ^ 31 - 1"
  shows "SAFE_JUMP_DISTANCE psz func MAP_FAILED \<or> SAFE_JUMP_DISTANCE psz MAP_FAILED func \<longleftrightarrow>
    near_ends psz func"
proof -
  have m: "unat (INT32_MAX - psz) = 2 ^ 31 - 1 - unat psz"
    using assms by (simp add: INT32_MAX_def unat_sub word_le_nat_alt)
  have "unat (- 1 - func) = unat (- 1 :: u64) - unat func"
    by (rule unat_sub) simp
  then have "unat (- 1 - func) = 2 ^ 64 - 1 - unat func"
    by (simp add: unsigned_minus_1_eq_mask mask_eq_exp_minus_1)
  moreover have "unat (func + 1) = (if unat func = 2 ^ 64 - 1 then 0 else unat func + 1)"
    using unsigned_less [of func, where 'a = nat] by (auto simp: unat_word_ariths)
  ultimately show ?thesis
    using assms by (auto simp: near_ends_def SAFE_JUMP_DISTANCE_def word_less_nat_alt m MAP_FAILED_def)
qed

text \<open>
  C31: \<open>map_failed_taken_for_page\<close>. What \<open>funchook_page_alloc\<close> does when \<open>mmap\<close> fails at the
  first address it tries: it compares the distance of the result before it looks for
  \<open>MAP_FAILED\<close>, so that for a function in the lowest or the highest 2 GiB of the address space
  (a program that is not position-independent) it reports success with the page
  \<open>MAP_FAILED\<close>, and \<open>funchook_prepare\<close> faults when it writes the header of that page;
  elsewhere it returns \<open>FUNCHOOK_ERROR_MEMORY_ALLOCATION\<close>.
\<close>

theorem map_failed_taken_for_page:
  assumes "unix_ok env s" and "unat (page_size s) < 2 ^ 31 - 1"
    and "get_free_address env func s = (Inr (a0, a1), s1)" and "a1 \<noteq> 0"
    and "fst (sys_mmap env a1 (page_size s1) s1) = MAP_FAILED"
  shows "fst (funchook_page_alloc_64 env func s) =
      (if near_ends (page_size s) func then Inr MAP_FAILED else Inl (Err ERROR_MEMORY_ALLOCATION))
    \<and> (near_ends (page_size s) func \<and>
        find_page (x86_64_ops disasm hc) (num_entries_in_page s) func disp (page_list s) = None \<longrightarrow>
        fst (get_page (x86_64_ops disasm hc) (unix_ops_64 env resolve) func disp s) = Inl Crash)"
proof -
  obtain s2 where m: "sys_mmap env a1 (page_size s1) s1 = (MAP_FAILED, s2)"
    using assms(5) by (cases "sys_mmap env a1 (page_size s1) s1") simp
  have ok1: "unix_ok env s1" and ps: "page_size s1 = page_size s"
    using get_free_address_ok [OF assms(1,3)] by (auto simp: alloc_ok_def same_handle_def)
  have ok2: "unix_ok env s2" by (rule mmap_ok(2) [OF ok1 m])
  have tried: "try_address env func a1 s1 = (Some (if near_ends (page_size s) func then Inr MAP_FAILED
      else Inl (Err ERROR_MEMORY_ALLOCATION)), if near_ends (page_size s) func then s2 else
        snd (try_address env func a1 s1))"
    using safe_distance_failed [OF assms(2), of func] assms(4) m by (simp add: try_address_def ps)
  have alloc: "funchook_page_alloc_64 env func s = (if near_ends (page_size s) func then Inr MAP_FAILED
      else Inl (Err ERROR_MEMORY_ALLOCATION), if near_ends (page_size s) func then s2 else
        snd (try_address env func a1 s1))"
    by (simp add: funchook_page_alloc_64_def numeral_3_eq_3 assms(3) tried)
  have "in_region MAP_FAILED (unat (env_page_size env)) (MAP_FAILED :: u64)"
    using ok2 pow2_unit_pos [of "env_page_size env"] by (simp add: in_region_def unix_ok_def)
  then have "mprot s2 MAP_FAILED = None"
    using ok2 by (simp add: unix_ok_def)
  then have "\<not> writable s2 MAP_FAILED 16"
    by (auto simp: writable_iff intro!: exI [of _ 0])
  then have "fst (get_page (x86_64_ops disasm hc) (unix_ops_64 env resolve) func disp s) = Inl Crash"
    if "near_ends (page_size s) func"
      "find_page (x86_64_ops disasm hc) (num_entries_in_page s) func disp (page_list s) = None"
    using that alloc by (simp add: get_page_def unix_ops_64_def x86_64_ops_def)
  with alloc show ?thesis by simp
qed

definition exhausted_env :: "u64 unix_env" where
  "exhausted_env = sample_env\<lparr>env_mmap := (\<lambda>n pr hint sz. MAP_FAILED)\<rparr>"

theorem map_failed_taken_for_page_witness:
  "fst (funchook_page_alloc_64 exhausted_env 0x401000 sample_state) = Inr MAP_FAILED
    \<and> fst (get_page sample_arch (unix_ops_64 exhausted_env (\<lambda>f s. f)) 0x401000 sample_disp sample_state) = Inl Crash"
proof -
  have k: "unix_kernel exhausted_env"
    using sample_kernel by (simp add: unix_kernel_def exhausted_env_def)
  have ok: "unix_ok exhausted_env sample_state"
    using sample_unix_ok k by (simp add: unix_ok_def) (simp add: exhausted_env_def)
  have ps: "page_size sample_state = 4096" and pl: "page_list sample_state = []"
    by (simp_all add: sample_state_def)
  have a: "unat (page_size sample_state) < 2 ^ 31 - 1" by (simp add: ps)
  have g: "get_free_address exhausted_env 0x401000 sample_state = (Inr (0, 0x402000), tick sample_state)"
    using sample_free_address by (simp add: get_free_address_def ps exhausted_env_def sample_env_def)
  have "fst (sys_mmap exhausted_env 0x402000 (page_size (tick sample_state)) (tick sample_state)) = MAP_FAILED"
    by (simp add: sys_mmap_def exhausted_env_def Let_def)
  from map_failed_taken_for_page [OF ok a g _ this, where disasm = sample_disasm and hc = "0x700000"
      and disp = sample_disp and resolve = "\<lambda>f s. f"]
  show ?thesis by (simp add: near_ends_def ps pl)
qed

end
