(* ===== verification/Session_ARM64.thy ===== *)
theory Session_ARM64
  imports Arch_ARM64_Contract OS_Unix_Correct
begin

text \<open>
  The library on ARM64 Linux from preparing a hook to running it: the page of the entry is in
  reach of the function because \<open>funchook_page_alloc\<close> puts it there.
\<close>

section \<open>The page of an entry\<close>

text \<open>mmap(2): a mapping starts at a page boundary, and a page is a multiple of 4096 bytes.\<close>

definition mmap_aligned :: "u64 unix_env \<Rightarrow> bool" where
  "mmap_aligned env \<longleftrightarrow> (\<forall>n pr hint sz. env_mmap env n pr hint sz \<noteq> MAP_FAILED \<longrightarrow>
     env_mmap env n pr hint sz AND 0xFFF = 0)"

lemma mmap_page_aligned:
  assumes "mmap_aligned env" and "sys_mmap env hint sz s = (p, s')" and "p \<noteq> MAP_FAILED"
  shows "p AND 0xFFF = 0"
proof -
  have "p = env_mmap env (now s) (mprot s) hint sz"
    using assms(2) by (auto simp: sys_mmap_def Let_def split: if_splits)
  with assms(1,3) show ?thesis unfolding mmap_aligned_def by blast
qed

lemma split_mask: "(w AND NOT m) + (w AND m) = (w :: u64)"
proof -
  have "(w AND NOT m) + (w AND m) = (w AND NOT m) OR (w AND m)"
    by (rule disjunctive_add) (auto simp: bit_simps)
  also have "\<dots> = w" by (rule bit_word_eqI) (auto simp: bit_simps)
  finally show ?thesis .
qed

text \<open>From the page of the function, a page in its reach is within the range of ADRP.\<close>

lemma power_int_32: "(2 :: int) ^ 32 = 4294967296"
  by simp

lemma page_in_adrp_range:
  fixes p func :: u64
  assumes "- 2147483648 < sint (p - func)" and "sint (p - func) < 2147483648"
  shows "- (2 ^ 32) \<le> sint (p - (func AND NOT 0xFFF)) \<and> sint (p - (func AND NOT 0xFFF)) < 2 ^ 32"
proof -
  let ?l = "func AND 0xFFF"
  have "func AND NOT 0xFFF = func - ?l"
    using split_mask [of func "0xFFF"] by (simp add: eq_diff_eq)
  then have "p - (func AND NOT 0xFFF) = (p - func) + ?l" by simp
  also have "\<dots> = of_int (sint (p - func)) + of_int (int (unat ?l))" by simp
  finally have e: "p - (func AND NOT 0xFFF) = of_int (sint (p - func) + int (unat ?l))"
    by (simp only: of_int_add)
  have "?l \<le> 0xFFF" by (rule word_and_le1)
  then have l: "unat ?l \<le> 4095" by (simp add: word_le_nat_alt)
  have "sint (of_int (sint (p - func) + int (unat ?l)) :: u64) = sint (p - func) + int (unat ?l)"
    using assms l by (intro sint_of_int_64) linarith+
  then have "sint (p - (func AND NOT 0xFFF)) = sint (p - func) + int (unat ?l)"
    by (simp only: e)
  then show ?thesis using assms l unfolding power_int_32 by (intro conjI) linarith+
qed

lemma new_page_in_reach:
  assumes "unix_ok env s" and "unat (page_size s) < 2 ^ 31 - 1" and "mmap_aligned env"
    and "funchook_page_alloc_64 env func s = (Inr p, s')" and "p \<noteq> MAP_FAILED"
  shows "p AND 0xFFF = 0 \<and> - (2 ^ 32) \<le> sint (p - (func AND NOT 0xFFF)) \<and>
    sint (p - (func AND NOT 0xFFF)) < 2 ^ 32"
proof -
  have run: "page_alloc_loop env func 3 s = (Inr p, s')"
    using assms(4) by (simp add: funchook_page_alloc_64_def)
  obtain addr t where t: "sys_mmap env addr (page_size s) t = (p, s')"
    and d: "SAFE_JUMP_DISTANCE (page_size s) func p \<or> SAFE_JUMP_DISTANCE (page_size s) p func"
    using page_alloc_loop_hit [OF assms(1) run] by blast
  have "0 < unat (page_size s)"
    using assms(1) pow2_unit_pos [of "env_page_size env"] by (simp add: unix_ok_def)
  with safe_distance [OF _ _ d, of 0] assms(2)
  have "- 2147483648 < sint (p - func)" "sint (p - func) < 2147483648" by simp_all
  from page_in_adrp_range [OF this] mmap_page_aligned [OF assms(3) t assms(5)] show ?thesis by blast
qed

section \<open>From preparing a hook to running it\<close>

lemma new_entry_arm64_target: "target_func (new_entry arch m target func params tramp) = func"
  by (simp add: new_entry_def)

lemma find_page_full:
  "list_all (\<lambda>page. num \<le> used page) pages \<Longrightarrow> find_page arch num f d pages = None"
  by (induction pages) auto

text \<open>The parts of an entry in memory.\<close>

lemma entry_code_arm64:
  assumes "code_at m ea (entry_bytes_arm64 e)" and "length (transit e) = 6"
  shows "code_at m ea (insn_bytes (transit e))" and "code_at m (ea + 72) (insn_bytes (trampoline e))"
proof -
  note c = assms(1) [unfolded entry_bytes_arm64_def code_at_append]
  show "code_at m ea (insn_bytes (transit e))" using c by simp
  show "code_at m (ea + 72) (insn_bytes (trampoline e))"
    using c assms(2) by (simp add: add.assoc)
qed

text \<open>
  C28: \<open>arm64_hooked_function_runs_hook\<close>. The library on ARM64 Linux from end to end: a
  function is prepared in a handle whose pages are all in use and the handle installed, both
  returning 0, while no other prepared function overlaps it. The new page is then in reach of the jump:
  executing the function reaches, in at most five instructions and changing no register but
  x9 and x10, the hook (the trampoline when there is no hook function; with a prehook the hook
  caller, with the transit address in x10); and the trampoline whose address
  \<open>funchook_prepare\<close> returned refines the moved instructions and continues behind them.
\<close>

theorem arm64_hooked_function_runs_hook:
  assumes "unix_ok env s" and "unat (page_size s) < 2 ^ 31 - 1" and "mmap_aligned env"
    and "handle_inv (arm64_ops disasm hc) s" and "func = resolve target s"
    and "apart (arm64_ops disasm hc) s func"
    and "list_all (\<lambda>page. num_entries_in_page s \<le> used page) (page_list s)"
    and "disasm (mem s) func ARM64_MAX_INSN_CHECK_SIZE = Inr infos"
    and "list_all (\<lambda>e. disjoint_blocks func 8 (target_func e) 8) (entries_of (page_list s))"
    and "funchook_prepare_internal (arm64_ops disasm hc) (unix_ops_64 env resolve) target params s = (Inr t, s1)"
    and "funchook_install_internal (arm64_ops disasm hc) (unix_ops_64 env resolve) s1 = (Inr u, s2)"
    and "pc r = func"
  shows "(\<exists>n \<le> 5. \<exists>r'. arm_run n (mem s2) r = Some r' \<and>
      pc r' = (if p_prehook params \<noteq> 0 then hc else if p_hook_func params \<noteq> 0 then p_hook_func params else t) \<and>
      get_x r' 10 = (if p_prehook params \<noteq> 0 then t - 72 else get_x r 10) \<and>
      (\<forall>q. q \<noteq> 9 \<and> q \<noteq> 10 \<longrightarrow> get_x r' q = get_x r q) \<and> nzcv r' = nzcv r \<and> vr r' = vr r)
    \<and> (\<exists>k ps. 1 \<le> k \<and> k \<le> REL4G_JUMP_SIZE \<and> k \<le> length infos \<and> ps ! 0 = 0 \<and>
      (\<forall>i < k. moved_insn (mem s) (mem s2) func t i (insn_id (infos ! i))
        (free_regs FUNCHOOK_ARM64_CORRUPTIBLE_REGS infos i) (ps ! i) (ps ! Suc i)) \<and>
      (\<forall>r. pc r = insn_addr t (ps ! k) \<longrightarrow>
        (\<exists>r'. arm_run 2 (mem s2) r = Some r' \<and> pc r' = insn_addr func REL4G_JUMP_SIZE)))"
proof -
  let ?arch = "arm64_ops disasm hc"
  have o: "func = os_resolve_func (unix_ops_64 env resolve) target s"
    by (simp add: assms(5) unix_ops_64_def)
  have fits: "arm64_fits func q" if "arch_make_trampoline ?arch (mem s) func = Inr q" for q
    using make_trampoline_arm64_bounds [of disasm "mem s" func, OF assms(8)] that
    by (cases q) (simp add: arm64_fits_def)
  have others: "list_all (\<lambda>e. disjoint_blocks func (window ?arch) (target_func e) (window ?arch))
      (entries_of (page_list s))"
    using assms(9) by (simp add: window_def arm64_sizes)
  obtain pa idx e d tramp n m where
    mt: "funchook_make_trampoline_arm64 disasm (mem s) func = Inr (d, tramp, n)"
    and "True" and "idx < num_entries_in_page s"
    and fc: "funchook_fix_code_arm64 hc (pa + of_nat (idx * 144)) (new_entry ?arch m target func params tramp) d = Some e"
    and t: "t = pa + of_nat (idx * 144) + of_nat 72"
    and page: "code_at (mem s2) (pa + of_nat (idx * 144)) (entry_bytes_arm64 e)"
    and pb: "mem_read (mem s2) func (patch_code_byte_size ?arch e) = patch_bytes ?arch (new_code e) e"
    by (rule linux_arm64.prepared_installed [OF assms(1,4) o assms(6) fits others assms(10,11),
          unfolded arm64_ops_simps])
  define ea where "ea = pa + of_nat (idx * 144)"
  have none: "find_page ?arch (num_entries_in_page s) func d (page_list s) = None" for d
    by (rule find_page_full [OF assms(7)])
  obtain d' p s' where al: "funchook_page_alloc_64 env func s = (Inr p, s')"
    and w: "writable s' (p + 144) 16" and tp: "t = p + 72"
    using prepare_in_new_page [OF assms(10) o none] by (auto simp: unix_ops_64_def)
  have ea: "ea = p" using t tp by (simp add: ea_def)
  have os: "unix_ok env s'" and ps: "page_size s' = page_size s"
    using page_alloc_loop_ok [OF assms(1), of func 3 "Inr p" s'] al
    by (auto simp: funchook_page_alloc_64_def alloc_ok_def same_handle_def)
  have l: "layout_ok ?arch (page_size s) (num_entries_in_page s)"
    using assms(4) by (simp add: handle_inv_def)
  have mf: "p \<noteq> MAP_FAILED"
  proof
    assume p: "p = MAP_FAILED"
    have "in_region (MAP_FAILED :: u64) (unat (page_size s)) (MAP_FAILED + 144)"
      using arm64_code.header [OF l, of "MAP_FAILED"] by simp
    then have "mprot s' (p + 144) = None"
      using os ps by (simp add: unix_ok_def p)
    with w show False by (auto simp: writable_iff dest: spec [of _ "0 :: nat"])
  qed
  note range = new_page_in_reach [OF assms(1-3) al mf, folded ea]
  let ?e = "new_entry ?arch m target func params tramp"
  obtain c w where e: "e = ?e\<lparr>new_code := c, transit := w\<rparr>" "length c = 2" "length w = 6"
    using fix_code_arm64_shape [of ?e hc ea d] fc by (auto simp: new_entry_arm64 ea_def)
  note parts = entry_code_arm64 [OF page [folded ea_def]]
  have tr: "code_at (mem s2) ea (insn_bytes (transit e))"
    and tm: "code_at (mem s2) t (insn_bytes tramp)"
    using parts e t by (simp_all add: ea_def new_entry_arm64)
  have "patch_code_byte_size ?arch e = 8"
    by (simp add: patch_code_byte_size_def e(1) new_entry_arm64)
  with pb have nc: "code_at (mem s2) func (insn_bytes (new_code e))"
    by (intro code_atI [where n = 8]) (simp add: patch_bytes_def e)
  have run: "\<exists>n \<le> 5. \<exists>r'. arm_run n (mem s2) r = Some r' \<and>
      pc r' = (if prehook ?e \<noteq> 0 then hc else if hook_func ?e \<noteq> 0 then hook_func ?e else ea + 72) \<and>
      get_x r' 10 = (if prehook ?e \<noteq> 0 then ea else get_x r 10) \<and>
      (\<forall>q. q \<noteq> 9 \<and> q \<noteq> 10 \<longrightarrow> get_x r' q = get_x r q) \<and> nzcv r' = nzcv r \<and> vr r' = vr r"
    using range nc tr fc assms(12)
    by (intro arm64_patched_function_reaches [where e = e]) (simp_all add: new_entry_arm64 arm64_sizes ea_def)
  have tea: "t = ea + 72" "t - 72 = ea" using t by (simp_all add: ea_def)
  have tramp: "\<exists>k ps. 1 \<le> k \<and> k \<le> REL4G_JUMP_SIZE \<and> k \<le> length infos \<and> ps ! 0 = 0 \<and> ps ! k + 2 = n \<and>
      (\<forall>i < k. moved_insn (mem s) (mem s2) func t i (insn_id (infos ! i))
        (free_regs FUNCHOOK_ARM64_CORRUPTIBLE_REGS infos i) (ps ! i) (ps ! Suc i)) \<and>
      (\<forall>s. pc s = insn_addr t (ps ! k) \<longrightarrow>
        (\<exists>r. 9 \<le> r \<and> r \<le> 15 \<and> bit (free_regs FUNCHOOK_ARM64_CORRUPTIBLE_REGS infos (k - 1)) r \<and>
          arm_run 2 (mem s2) s = Some ((set_x r (insn_addr func REL4G_JUMP_SIZE) s)\<lparr>pc := insn_addr func REL4G_JUMP_SIZE\<rparr>)))"
    by (rule arm64_trampoline_refines [where disasm = disasm, OF assms(8) mt tm])
  have "\<exists>k ps. 1 \<le> k \<and> k \<le> REL4G_JUMP_SIZE \<and> k \<le> length infos \<and> ps ! 0 = 0 \<and>
      (\<forall>i < k. moved_insn (mem s) (mem s2) func t i (insn_id (infos ! i))
        (free_regs FUNCHOOK_ARM64_CORRUPTIBLE_REGS infos i) (ps ! i) (ps ! Suc i)) \<and>
      (\<forall>r. pc r = insn_addr t (ps ! k) \<longrightarrow>
        (\<exists>r'. arm_run 2 (mem s2) r = Some r' \<and> pc r' = insn_addr func REL4G_JUMP_SIZE))"
    using tramp by (elim exE conjE, intro exI conjI; (assumption | fastforce)?)
  moreover have "prehook ?e = p_prehook params" "hook_func ?e = p_hook_func params"
    by (simp_all add: new_entry_arm64)
  ultimately show ?thesis
    using run unfolding tea(2) by (simp only: tea(1))
qed

section \<open>A session\<close>

text \<open>
  The sample function of \<open>Arch_ARM64_Correct\<close> in a page at 0x400000, and a kernel as in
  \<open>Sample_Session\<close> that only maps at page boundaries.
\<close>

definition arm64_env :: "u64 unix_env" where
  "arm64_env = sample_env
     \<lparr>env_mmap := (\<lambda>n pr hint sz.
         if hint AND 0xFFF = 0 \<and> region_free pr hint (unat sz) then hint else MAP_FAILED),
      env_maps := (\<lambda>n pr. Inr (''00400000-00401000 r-xp 00000000 08:02 1 /bin/sample'' @ newline))\<rparr>"

definition arm64_state :: "(u64, prot, u32) fh_state" where
  "arm64_state =
     \<lparr>mem = sample_arm64_mem,
      mprot = (\<lambda>x. if in_region 0x400000 4096 x then Some PROT_RX else None),
      now = 0, page_size = 4096, error_message = [], os_data = PROT_RWX,
      installed = False, page_list = [], num_entries_in_page = 1\<rparr>"

abbreviation arm64_lib where "arm64_lib \<equiv> arm64_ops sample_arm64_disasm 0x700000"
abbreviation arm64_os where "arm64_os \<equiv> unix_ops_64 arm64_env (\<lambda>f s. f)"

lemma arm64_env_aligned: "mmap_aligned arm64_env"
  by (simp add: mmap_aligned_def arm64_env_def)

lemma arm64_kernel: "unix_kernel arm64_env"
proof -
  have "pr x = None \<and> \<not> in_region MAP_FAILED 4096 x"
    if "region_free pr hint (unat sz)" "in_region hint (unat sz) x" for pr hint and sz :: u64 and x
    using region_freeD [OF that] .
  then show ?thesis
    using sample_kernel by (auto simp: unix_kernel_def arm64_env_def) (auto simp: sample_env_def)
qed

lemma arm64_unix_ok: "unix_ok arm64_env arm64_state"
proof -
  have "pow2_unit (4096 :: u64)"
    using pow2_unitI [of 12, where 'a = 64] by simp
  moreover have "in_region MAP_FAILED 4096 x \<Longrightarrow> \<not> in_region (0x400000 :: u64) 4096 x" for x
    by (rule regions_apart) (simp_all add: MAP_FAILED_def)
  ultimately show ?thesis
    by (simp add: unix_ok_def arm64_kernel)
      (simp add: arm64_state_def arm64_env_def sample_env_def PROT_RWX_def)
qed

lemma arm64_inv: "handle_inv arm64_lib arm64_state"
  by (simp add: handle_inv_def arm64_state_def layout_ok_def window_def arm64_sizes)

lemma arm64_apart: "apart arm64_lib arm64_state 0x400000"
  by (auto simp: apart_def mapped_def arm64_state_def window_def arm64_sizes in_region_def)

lemma arm64_region_free: "region_free (mprot arm64_state) 0x401000 4096"
proof -
  have "\<not> in_region (0x400000 :: u64) 4096 (0x401000 + of_nat i)" if "i < 4096" for i
    using that by (intro not_in_region_beyond) simp_all
  moreover have "\<not> in_region (MAP_FAILED :: u64) 4096 (0x401000 + of_nat i)" if "i < 4096" for i
    using that by (intro not_in_region_beyond) (simp_all add: MAP_FAILED_def)
  ultimately show ?thesis
    by (simp add: region_free_def list_all_iff arm64_state_def)
qed

lemma arm64_page_alloc:
  obtains s1 where "funchook_page_alloc_64 arm64_env 0x400000 arm64_state = (Inr 0x401000, s1)"
proof -
  have ps: "page_size arm64_state = 4096" by (simp add: arm64_state_def)
  let ?l = "''00400000-00401000 r-xp 00000000 08:02 1 /bin/sample''"
  have "short_line ?l" by (simp add: short_line_def PATH_MAX_def)
  moreover have "parse_map_line ?l = Some (0x400000, 0x401000)" by code_simp
  ultimately have "free_address_loop 4096 0x400000 (?l @ newline) 0 0 0 = Some (0, 0x401000)"
    using free_address_loop_line [of ?l "0x400000" "0x401000" 4096 "0x400000" "[]" 0 0 0]
    by (simp add: free_address_loop_end INT32_MAX_def)
  then have g: "get_free_address arm64_env 0x400000 arm64_state = (Inr (0, 0x401000), tick arm64_state)"
    by (simp add: get_free_address_def ps) (simp add: arm64_env_def ps)
  have "fst (sys_mmap arm64_env 0x401000 4096 (tick arm64_state)) = 0x401000"
    using arm64_region_free by (simp add: sys_mmap_def Let_def arm64_env_def)
  then obtain s1 where "sys_mmap arm64_env 0x401000 4096 (tick arm64_state) = (0x401000, s1)"
    by (metis prod.collapse)
  then have "try_address arm64_env 0x400000 0x401000 (tick arm64_state) = (Some (Inr 0x401000), s1)"
    by (simp add: try_address_def ps SAFE_JUMP_DISTANCE_def INT32_MAX_def)
  with g show ?thesis
    by (intro that) (simp add: funchook_page_alloc_64_def numeral_3_eq_3)
qed

lemma arm64_prepare:
  obtains s1 where "funchook_prepare_internal arm64_lib arm64_os 0x400000 sample_params arm64_state = (Inr 0x401048, s1)"
proof -
  obtain s1 where al: "funchook_page_alloc_64 arm64_env 0x400000 arm64_state = (Inr 0x401000, s1)"
    using arm64_page_alloc .
  have ps: "page_size arm64_state = 4096" and nf: "(0x401000 :: u64) \<noteq> MAP_FAILED"
    and i: "\<not> installed arm64_state"
    by (simp_all add: arm64_state_def MAP_FAILED_def)
  have "mprot s1 (0x401000 + of_nat j) = Some PROT_RW" if "j < 4096" for j
    using page_alloc_fresh_in_reach [OF arm64_unix_ok _ al nf] that by (simp add: ps)
  then have w: "writable s1 (0x401000 + of_nat k) n" if "k + n \<le> 4096" for k n
    using that by (auto simp: writable_iff PROT_RW_def add.assoc simp flip: of_nat_add)
  let ?pg = "\<lparr>page_addr = 0x401000, used = 0, entries = []\<rparr> :: (u64, u32) funchook_page"
  let ?s1 = "s1\<lparr>page_list := ?pg # page_list s1\<rparr>"
  have g: "get_page arm64_lib arm64_os 0x400000 d arm64_state = (Inr ?pg, ?s1)" for d
    using al w [of 144 16] by (simp add: get_page_def unix_ops_64_def arm64_state_def Let_def)
  have mt: "arch_make_trampoline arm64_lib (mem arm64_state) 0x400000 = Inr ((), sample_arm64_trampoline, 7)"
    using sample_arm64_run by (simp add: arm64_state_def)
  have ft: "arm64_fits 0x400000 ((), sample_arm64_trampoline, 7)"
    by (simp add: arm64_fits_def sample_arm64_trampoline_def arm64_sizes)
  obtain e where e: "arch_fix_code arm64_lib 0x401000
      (new_entry arm64_lib (mem ?s1) 0x400000 0x400000 sample_params sample_arm64_trampoline) () = Some e"
    using arm64_code.fix_code_total [OF ft, where disasm = sample_arm64_disasm and hc = "0x700000"
        and ea = "0x401000" and m = "mem ?s1" and target = "0x400000" and params = sample_params] by blast
  have r: "os_resolve_func arm64_os 0x400000 arm64_state = 0x400000"
    by (simp add: unix_ops_64_def)
  have wr: "writable ?s1 0x401000 144" using w [of 0 144] by (simp add: writable_def)
  have "funchook_prepare_internal arm64_lib arm64_os 0x400000 sample_params arm64_state =
      (Inr 0x401048, ?s1\<lparr>mem := mem_write (mem ?s1) 0x401000 (entry_bytes_arm64 e),
         page_list := add_entry 0x401000 e (page_list ?s1)\<rparr>)"
    unfolding funchook_prepare_internal_def Let_def r mt
    by (simp add: i g wr [simplified] e [simplified])
  then show ?thesis by (rule that)
qed

lemma arm64_grants: "kernel_grants arm64_env"
  using sample_grants by (simp add: kernel_grants_def arm64_env_def)

lemma arm64_code_pages: "code_pages 4096 (0x400000 :: u64) 8 = \<lparr>ms_addr = 0x400000, ms_size = 4096\<rparr>"
  by code_simp

lemma arm64_installed:
  obtains s1 s2 where
    "funchook_prepare_internal arm64_lib arm64_os 0x400000 sample_params arm64_state = (Inr 0x401048, s1)"
    and "funchook_install_internal arm64_lib arm64_os s1 = (Inr (), s2)"
proof -
  obtain s1 where p: "funchook_prepare_internal arm64_lib arm64_os 0x400000 sample_params arm64_state = (Inr 0x401048, s1)"
    using arm64_prepare .
  have o: "0x400000 = os_resolve_func arm64_os 0x400000 arm64_state"
    by (simp add: unix_ops_64_def)
  have fits: "arm64_fits 0x400000 r" if "arch_make_trampoline arm64_lib (mem arm64_state) 0x400000 = Inr r" for r
    using that sample_arm64_run
    by (auto simp: arm64_state_def arm64_fits_def sample_arm64_trampoline_def arm64_sizes)
  note po = linux_arm64.prepare_ok [OF arm64_unix_ok arm64_inv o arm64_apart fits p]
  obtain pa i e d tramp n where pr: "prepared arm64_lib 0x400000 0x400000 sample_params arm64_state
      0x401048 s1 pa i e (d, tramp, n)"
    using po(8) by (metis prod_cases3)
  have "entries_of (page_list arm64_state) = []" by (simp add: arm64_state_def entries_of_def)
  with pr have es: "set (entries_of (page_list s1)) = {e}" and tf: "target_func e = 0x400000"
    by (auto simp: prepared_def)
  obtain m where "funchook_fix_code_arm64 0x700000 (pa + of_nat (i * 144))
      (new_entry arm64_lib m 0x400000 0x400000 sample_params tramp) d = Some e"
    using pr by (auto simp: prepared_def)
  from fix_code_arm64_keeps [OF this]
  have k: "patch_code_byte_size arm64_lib e = 8"
    by (auto simp: new_entry_arm64 patch_code_byte_size_def)
  have ps: "page_size s1 = 4096" using po(6) by (simp add: arm64_state_def)
  have "mprot s1 x \<noteq> None" if "in_region 0x400000 4096 x" for x
    using po(10) [of x] that by (simp add: arm64_state_def)
  then have "code_mapped arm64_lib s1 e"
    using arm64_code_pages by (simp add: code_mapped_def k tf ps)
  then have "list_all (code_mapped arm64_lib s1) (entries_of (page_list s1))"
    by (simp add: list_all_iff es)
  from unix64_grants.install_succeeds [OF po(2,4) handle_inv_ready_64 [OF po(1) this arm64_grants]] p
  show ?thesis using that by blast
qed

theorem arm64_hooked_function_runs_hook_witness:
  "\<exists>s1 s2 n r'. funchook_prepare_internal arm64_lib arm64_os 0x400000 sample_params arm64_state = (Inr 0x401048, s1)
     \<and> funchook_install_internal arm64_lib arm64_os s1 = (Inr (), s2)
     \<and> n \<le> 5 \<and> arm_run n (mem s2) sample_arm64_state = Some r' \<and> pc r' = 0x600000"
proof -
  obtain s1 s2 where
    p: "funchook_prepare_internal arm64_lib arm64_os 0x400000 sample_params arm64_state = (Inr 0x401048, s1)"
    and i: "funchook_install_internal arm64_lib arm64_os s1 = (Inr (), s2)"
    using arm64_installed .
  have m: "mem arm64_state = sample_arm64_mem" and pl: "page_list arm64_state = []"
    and ps: "unat (page_size arm64_state) < 2 ^ 31 - 1"
    by (simp_all add: arm64_state_def)
  have d: "sample_arm64_disasm (mem arm64_state) 0x400000 ARM64_MAX_INSN_CHECK_SIZE = Inr sample_arm64_infos"
    by (simp add: sample_arm64_disasm_def)
  have pc: "pc sample_arm64_state = 0x400000" by (simp add: sample_arm64_state_def)
  have full: "list_all (\<lambda>page. num_entries_in_page arm64_state \<le> used page) (page_list arm64_state)"
    and none: "list_all (\<lambda>e. disjoint_blocks 0x400000 8 (target_func e) 8) (entries_of (page_list arm64_state))"
    by (simp_all add: pl)
  have "p_prehook sample_params = 0" "p_hook_func sample_params = 0x600000"
    by (simp_all add: sample_params_def)
  with arm64_hooked_function_runs_hook [where func = "0x400000" and resolve = "\<lambda>f s. f" and target = "0x400000"
      and disasm = sample_arm64_disasm and hc = "0x700000",
      OF arm64_unix_ok ps arm64_env_aligned arm64_inv refl arm64_apart full d none p i pc]
  have "\<exists>n \<le> 5. \<exists>r'. arm_run n (mem s2) sample_arm64_state = Some r' \<and> pc r' = 0x600000"
    by auto
  with p i show ?thesis by blast
qed

end
