(* ===== verification/Hook_Caller_ARM64.thy ===== *)
theory Hook_Caller_ARM64
  imports Hook_Caller_Correct
begin

text \<open>
  What src/src/prehook-arm64-gas.S does: the state in which \<open>funchook_hook_caller\<close> is called,
  with the saved registers where the accessors of src/src/arch_arm64.c look for them, and the
  state in which control reaches the hook.
\<close>

section \<open>Saved registers\<close>

definition saved_xregs :: "nat list" where
  "saved_xregs = [0, 1, 2, 3, 4, 5, 6, 7, 8, 18]"

definition args_saved_arm64 :: "(u64 \<Rightarrow> u8) \<Rightarrow> u64 \<Rightarrow> a64_machine \<Rightarrow> bool" where
  "args_saved_arm64 m base st \<longleftrightarrow>
     (\<forall>i < length saved_xregs.
        load_word m (funchook_arg_get_int_reg_addr_arm64 base (int i)) = xregs st (X (saved_xregs ! i))) \<and>
     (\<forall>i < 8. load_xmm m (funchook_arg_get_flt_reg_addr_arm64 base (int i)) = qregs st i)"

lemma all_less_10:
  "(\<forall>i < 10. P i) \<longleftrightarrow> P 0 \<and> P 1 \<and> P 2 \<and> P 3 \<and> P 4 \<and> P 5 \<and> P 6 \<and> P 7 \<and> P 8 \<and> P (9::nat)"
  by (simp add: eval_nat_numeral All_less_Suc conj_assoc conj_comms)

lemma length_saved_xregs: "length saved_xregs = 10"
  by (simp add: saved_xregs_def)

lemma args_saved_arm64_slots:
  "args_saved_arm64 m b st \<longleftrightarrow>
     load_word m (b + 16) = xregs st (X 0) \<and> load_word m (b + 24) = xregs st (X 1) \<and>
     load_word m (b + 32) = xregs st (X 2) \<and> load_word m (b + 40) = xregs st (X 3) \<and>
     load_word m (b + 48) = xregs st (X 4) \<and> load_word m (b + 56) = xregs st (X 5) \<and>
     load_word m (b + 64) = xregs st (X 6) \<and> load_word m (b + 72) = xregs st (X 7) \<and>
     load_word m (b + 80) = xregs st (X 8) \<and> load_word m (b + 88) = xregs st (X 18) \<and>
     load_xmm m (b + 96) = qregs st 0 \<and> load_xmm m (b + 112) = qregs st 1 \<and>
     load_xmm m (b + 128) = qregs st 2 \<and> load_xmm m (b + 144) = qregs st 3 \<and>
     load_xmm m (b + 160) = qregs st 4 \<and> load_xmm m (b + 176) = qregs st 5 \<and>
     load_xmm m (b + 192) = qregs st 6 \<and> load_xmm m (b + 208) = qregs st 7"
  unfolding args_saved_arm64_def length_saved_xregs all_less_10 all_less_simps conj_assoc
  by (simp add: saved_xregs_def funchook_arg_get_int_reg_addr_arm64_def
      funchook_arg_get_flt_reg_addr_arm64_def)

section \<open>The state in which the C function is called\<close>

definition hook_caller_called_arm64 :: "a64_machine \<Rightarrow> a64_machine \<Rightarrow> bool" where
  "hook_caller_called_arm64 st c \<longleftrightarrow>
     (let base = xregs st XSP - 0xe0 in
        xregs c (X 0) = xregs st (X 10) \<and> xregs c (X 1) = base \<and>
        xregs c (X 29) = base \<and> xregs c XSP = base \<and>
        args_saved_arm64 (a64_ram c) base st \<and>
        load_word (a64_ram c) base = xregs st (X 29) \<and> load_word (a64_ram c) (base + 8) = xregs st (X 30) \<and>
        funchook_arg_get_stack_addr_arm64 base 0 = xregs st XSP \<and>
        (\<forall>x. \<not> in_region base 0xe0 x \<longrightarrow> a64_ram c x = a64_ram st x))"

text \<open>
  The called function returns with the stack pointer it was entered with and has not written
  the saved frame pointer and return address of its caller.
\<close>

definition keeps_frame_arm64 :: "a64_machine \<Rightarrow> a64_machine \<Rightarrow> bool" where
  "keeps_frame_arm64 c r \<longleftrightarrow>
     xregs r XSP = xregs c XSP \<and>
     load_word (a64_ram r) (xregs c XSP) = load_word (a64_ram c) (xregs c XSP) \<and>
     load_word (a64_ram r) (xregs c XSP + 8) = load_word (a64_ram c) (xregs c XSP + 8)"

definition hook_entered_arm64 :: "a64_machine \<Rightarrow> a64_machine \<Rightarrow> a64_machine \<Rightarrow> bool" where
  "hook_entered_arm64 st r h \<longleftrightarrow>
     xregs h XSP = xregs st XSP \<and> xregs h (X 29) = xregs st (X 29) \<and> xregs h (X 30) = xregs st (X 30) \<and>
     args_saved_arm64 (a64_ram r) (xregs st XSP - 0xe0) h \<and> a64_ram h = a64_ram r \<and>
     (\<forall>n. n \<notin> set saved_xregs \<union> {9, 29, 30} \<longrightarrow> xregs h (X n) = xregs r (X n)) \<and>
     (\<forall>i. 8 \<le> i \<longrightarrow> qregs h i = qregs r i)"

definition call_state_arm64 :: "u64 \<Rightarrow> a64_machine \<Rightarrow> a64_machine" where
  "call_state_arm64 ret st = set_x (X 30) ret (a64_run id ret hook_caller_arm64_save st)"

lemmas a64_run_simps = a64_run_def set_x_def store_pair_def Let_def

lemma call_state_arm64_regs:
  "xregs (call_state_arm64 ret st) =
     (xregs st)(XSP := xregs st XSP - 0xe0, X 29 := xregs st XSP - 0xe0, X 0 := xregs st (X 10),
       X 1 := xregs st XSP - 0xe0, X 30 := ret)"
  by (simp add: call_state_arm64_def a64_run_simps hook_caller_arm64_save_def)

lemma call_state_arm64_saved:
  "args_saved_arm64 (a64_ram (call_state_arm64 ret st)) (xregs st XSP - 0xe0) st"
  unfolding args_saved_arm64_slots
  by (intro conjI; simp add: call_state_arm64_def a64_run_simps hook_caller_arm64_save_def frame_simps)

lemma call_state_arm64_link:
  "load_word (a64_ram (call_state_arm64 ret st)) (xregs st XSP - 0xe0) = xregs st (X 29)"
  "load_word (a64_ram (call_state_arm64 ret st)) (xregs st XSP - 0xe0 + 8) = xregs st (X 30)"
  by (simp_all add: call_state_arm64_def a64_run_simps hook_caller_arm64_save_def frame_simps)

lemma call_state_arm64_outside:
  assumes "\<not> in_region (xregs st XSP - 0xe0) 0xe0 x"
  shows "a64_ram (call_state_arm64 ret st) x = a64_ram st x"
proof -
  have o: "\<not> in_region (xregs st XSP - k) n x"
    if "unat (xregs st XSP - k - (xregs st XSP - 0xe0)) + n \<le> 0xe0" for k n
    using assms in_region_trans [OF _ that] by blast
  show ?thesis
    by (simp add: call_state_arm64_def a64_run_simps hook_caller_arm64_save_def
        store_word_outside64 store_xmm_outside o)
qed

lemma call_state_arm64_called: "hook_caller_called_arm64 st (call_state_arm64 ret st)"
  unfolding hook_caller_called_arm64_def Let_def
  using call_state_arm64_saved call_state_arm64_link call_state_arm64_outside
  by (simp add: call_state_arm64_regs funchook_arg_get_stack_addr_arm64_def)

section \<open>The state in which the hook is entered\<close>

lemma arm64_restore_entered:
  fixes callee ret
  assumes "xregs r XSP = xregs st XSP - 0xe0"
    and "load_word (a64_ram r) (xregs st XSP - 0xe0) = xregs st (X 29)"
    and "load_word (a64_ram r) (xregs st XSP - 0xe0 + 8) = xregs st (X 30)"
  defines "h \<equiv> a64_run callee ret hook_caller_arm64_restore r"
  shows "hook_entered_arm64 st r h" and "xregs h (X 9) = xregs r (X 0)"
  using assms(1-3) unfolding h_def hook_entered_arm64_def
  by (simp_all add: args_saved_arm64_slots saved_xregs_def a64_run_simps hook_caller_arm64_restore_def)

lemma a64_run_append:
  "a64_run callee ret (is @ js) st = a64_run callee ret js (a64_run callee ret is st)"
  by (simp add: a64_run_def)

lemma a64_run_call: "a64_run callee ret [Bl_hook_caller] st = callee (set_x (X 30) ret st)"
  by (simp add: a64_run_def)

lemma run_hook_caller_asm_arm64:
  "run_routine_arm64 callee ret funchook_hook_caller_asm_arm64 st =
     (let r = a64_run callee ret hook_caller_arm64_restore (callee (call_state_arm64 ret st))
      in (xregs r (X 9), r))"
proof -
  have "a64_run callee ret hook_caller_arm64_save st = a64_run id ret hook_caller_arm64_save st"
    by (simp add: a64_run_def hook_caller_arm64_save_def)
  then show ?thesis
    unfolding run_routine_arm64_def funchook_hook_caller_asm_arm64_def call_state_arm64_def fst_conv snd_conv
      a64_run_append a64_run_call by simp
qed

lemma hook_caller_asm_arm64_runs:
  assumes "\<And>c. hook_caller_called_arm64 st c \<Longrightarrow> keeps_frame_arm64 c (callee c)"
  shows "\<exists>c. hook_caller_called_arm64 st c \<and>
    (\<exists>h. run_routine_arm64 callee ret funchook_hook_caller_asm_arm64 st = (xregs (callee c) (X 0), h) \<and>
       hook_entered_arm64 st (callee c) h)"
proof -
  let ?c = "call_state_arm64 ret st"
  have c: "hook_caller_called_arm64 st ?c" by (rule call_state_arm64_called)
  have "xregs (callee ?c) XSP = xregs st XSP - 0xe0"
      "load_word (a64_ram (callee ?c)) (xregs st XSP - 0xe0) = xregs st (X 29)"
      "load_word (a64_ram (callee ?c)) (xregs st XSP - 0xe0 + 8) = xregs st (X 30)"
    using c assms [OF c] by (simp_all add: keeps_frame_arm64_def hook_caller_called_arm64_def Let_def)
  note k = this
  show ?thesis
    using c by (auto simp: run_hook_caller_asm_arm64 Let_def arm64_restore_entered [OF k])
qed

text \<open>
  C15: \<open>hook_caller_asm_arm64\<close>. The hook caller for ARM64, for every state it is entered in: it
  calls \<open>funchook_hook_caller\<close> with the transit address and the base pointer, with X0 to X8, X18
  and Q0 to Q7 where the accessors of src/src/arch_arm64.c look for them and the first stack
  argument where \<open>funchook_arg_get_stack_addr\<close> looks for it, having written only the frame of
  224 bytes below the stack pointer; and it jumps to the returned address with the stack pointer,
  the frame pointer and the return address of the caller and the argument registers as the slots
  then hold them.
\<close>

theorem hook_caller_asm_arm64:
  assumes "\<And>c. hook_caller_called_arm64 st c \<Longrightarrow> keeps_frame_arm64 c (callee c)"
  shows "\<exists>c. hook_caller_called_arm64 st c \<and>
    (\<exists>h. run_routine_arm64 callee ret funchook_hook_caller_asm_arm64 st = (xregs (callee c) (X 0), h) \<and>
       hook_entered_arm64 st (callee c) h)"
  by (rule hook_caller_asm_arm64_runs [OF assms])

lemma args_saved_arm64_unique:
  assumes "args_saved_arm64 m base st" and "args_saved_arm64 m base st'"
  shows "n \<in> set saved_xregs \<Longrightarrow> xregs st (X n) = xregs st' (X n)" and "i < 8 \<Longrightarrow> qregs st i = qregs st' i"
  using assms by (auto simp: args_saved_arm64_def in_set_conv_nth)

definition sample_a64_machine :: a64_machine where
  "sample_a64_machine =
     \<lparr>xregs = (\<lambda>r. 0)(XSP := 0x7fff1000, X 29 := 0x7fff2000, X 30 := 0x400800, X 0 := 1, X 7 := 8, X 18 := 18),
      qregs = \<lambda>i. 9, a64_ram = \<lambda>a. 0\<rparr>"

definition sample_a64_callee :: "a64_machine \<Rightarrow> a64_machine" where
  "sample_a64_callee c =
     c\<lparr>xregs := (xregs c)(X 0 := 0x600000, X 7 := 0, X 18 := 0, X 30 := 0), qregs := \<lambda>i. 0\<rparr>"

theorem hook_caller_asm_arm64_witness:
  "\<exists>h. run_routine_arm64 sample_a64_callee 0x710000 funchook_hook_caller_asm_arm64 sample_a64_machine =
       (0x600000, h) \<and>
     xregs h XSP = 0x7fff1000 \<and> xregs h (X 30) = 0x400800 \<and> xregs h (X 0) = 1 \<and> xregs h (X 18) = 18 \<and>
     qregs h 7 = 9"
proof -
  have k: "keeps_frame_arm64 c (sample_a64_callee c)" for c
    by (simp add: keeps_frame_arm64_def sample_a64_callee_def)
  obtain c h where c: "hook_caller_called_arm64 sample_a64_machine c"
    and h: "run_routine_arm64 sample_a64_callee 0x710000 funchook_hook_caller_asm_arm64 sample_a64_machine =
        (xregs (sample_a64_callee c) (X 0), h)"
      "hook_entered_arm64 sample_a64_machine (sample_a64_callee c) h"
    using hook_caller_asm_arm64 [of sample_a64_machine sample_a64_callee "0x710000", OF k] by blast
  have r: "a64_ram (sample_a64_callee c) = a64_ram c" and x0: "xregs (sample_a64_callee c) (X 0) = 0x600000"
    by (simp_all add: sample_a64_callee_def)
  have a: "args_saved_arm64 (a64_ram c) (xregs sample_a64_machine XSP - 0xe0) h"
      "args_saved_arm64 (a64_ram c) (xregs sample_a64_machine XSP - 0xe0) sample_a64_machine"
    using c h(2) by (simp_all add: hook_caller_called_arm64_def Let_def hook_entered_arm64_def r)
  have "xregs h (X 0) = 1" "xregs h (X 18) = 18" "qregs h 7 = 9"
    using args_saved_arm64_unique(1) [OF a, of 0] args_saved_arm64_unique(1) [OF a, of 18]
      args_saved_arm64_unique(2) [OF a, of 7]
    by (simp_all add: saved_xregs_def sample_a64_machine_def)
  moreover have "xregs h XSP = 0x7fff1000" "xregs h (X 30) = 0x400800"
    using h(2) by (simp_all add: hook_entered_arm64_def sample_a64_machine_def)
  ultimately show ?thesis using h(1) by (simp add: x0)
qed

end
