(* ===== verification/Disasm_X86.thy ===== *)
theory Disasm_X86
  imports Arch_X86_Safety
begin

text \<open>
  The three disassembler back ends for x86: src/src/disasm_capstone.c, disasm_distorm.c and
  disasm_Zydis.c. What the disassembler libraries return is a parameter: the records below
  have the fields of their instruction types that the code reads. Each back end turns an
  instruction into its size, address, branch address and IP-relative fields.
\<close>

section \<open>Instructions kept in an array\<close>

text \<open>
  Capstone and distorm decode all instructions at once: the state of the iteration is the
  array and an index, and \<open>count\<close> is the length of the array.
\<close>

record 'i insn_array =
  ia_insns :: "'i list"
  ia_index :: nat

definition remaining :: "'i insn_array \<Rightarrow> 'i list" where
  "remaining st = drop (ia_index st) (ia_insns st)"

section \<open>Capstone\<close>

text \<open>
  The fields of \<open>cs_insn\<close> and \<open>cs_x86\<close>. An operand has a type, and its union is read as an
  immediate or as a memory reference with a base register. Registers and groups the code
  does not compare with are numbered.
\<close>

datatype x86_reg = X86_REG_RIP | X86_REG_OTHER nat

datatype x86_grp = X86_GRP_BRANCH_RELATIVE | X86_GRP_OTHER nat

datatype cs_op_type = X86_OP_INVALID | X86_OP_REG | X86_OP_IMM | X86_OP_MEM

record cs_x86_op =
  cs_type :: cs_op_type
  cs_imm :: int
  cs_mem_base :: x86_reg

record cs_insn =
  cs_address :: u64
  cs_size :: nat
  cs_bytes :: "u8 list"
  cs_groups :: "x86_grp list"
  cs_imm_offset :: nat
  cs_imm_size :: nat
  cs_disp_offset :: nat
  cs_disp_size :: nat
  cs_disp :: int
  cs_operands :: "cs_x86_op list"

text \<open>
  The library: the results of \<open>cs_open\<close>, \<open>cs_option\<close> and \<open>cs_disasm\<close>, with the texts
  of \<open>cs_strerror\<close>. An empty list of instructions stands for the count 0.
\<close>

record cs_lib =
  cs_open_error :: "string option"
  cs_option_error :: "string option"
  cs_disasm :: "u8 list \<Rightarrow> u64 \<Rightarrow> cs_insn list"
  cs_errno_text :: string

definition capstone_disasm_init ::
    "cs_lib \<Rightarrow> ('a::len word \<Rightarrow> u8) \<Rightarrow> 'a word \<Rightarrow> nat \<Rightarrow> cs_insn insn_array with_message" where
  "capstone_disasm_init lib m code code_size =
     (case cs_open_error lib of
        Some err \<Rightarrow> Inl (Err ERROR_INTERNAL_ERROR, ''cs_open error: '' @ err)
      | None \<Rightarrow>
          (case cs_option_error lib of
             Some err \<Rightarrow> Inl (Err ERROR_INTERNAL_ERROR, ''cs_option error: '' @ err)
           | None \<Rightarrow>
               (let insns = cs_disasm lib (mem_read m code code_size) (ucast code)
                in if length insns = 0
                   then Inl (Err ERROR_DISASSEMBLY, ''disassemble error: '' @ cs_errno_text lib)
                   else Inr \<lparr>ia_insns = insns, ia_index = 0\<rparr>)))"

definition capstone_disasm_next :: "cs_insn insn_array \<Rightarrow> (cs_insn \<times> cs_insn insn_array) option" where
  "capstone_disasm_next st =
     (if ia_index st < length (ia_insns st)
      then Some (ia_insns st ! ia_index st, st\<lparr>ia_index := ia_index st + 1\<rparr>)
      else None)"

interpretation capstone: insn_iterator capstone_disasm_next remaining
  by unfold_locales
    (auto simp: capstone_disasm_next_def remaining_def Cons_nth_drop_Suc split: if_splits)

text \<open>The immediate at \<open>insn->bytes + imm_offset\<close>; sizes other than 1 and 4 give 0.\<close>

definition capstone_imm :: "cs_insn \<Rightarrow> int" where
  "capstone_imm insn =
     (if cs_imm_size insn = 4 then
        sint (of_le_bytes (take 4 (drop (cs_imm_offset insn) (cs_bytes insn))) :: u32)
      else if cs_imm_size insn = 1 then
        sint (of_le_bytes (take 1 (drop (cs_imm_offset insn) (cs_bytes insn))) :: u8)
      else 0)"

definition capstone_rel_imm :: "cs_insn \<Rightarrow> 'a::len word rip_relative" where
  "capstone_rel_imm insn =
     (if cs_imm_offset insn \<noteq> 0 \<and> list_ex (\<lambda>g. g = X86_GRP_BRANCH_RELATIVE) (cs_groups insn) then
        \<lparr>rr_addr = ucast (cs_address insn + of_nat (cs_size insn) + of_int (capstone_imm insn)),
         rr_raddr = of_int (capstone_imm insn),
         rr_offset = int (cs_imm_offset insn),
         rr_size = int (cs_imm_size insn * 8)\<rparr>
      else no_rip_relative)"

definition capstone_rel_disp :: "cs_insn \<Rightarrow> 'a::len word rip_relative" where
  "capstone_rel_disp insn =
     (if cs_disp_offset insn \<noteq> 0 \<and>
         list_ex (\<lambda>op. cs_type op = X86_OP_MEM \<and> cs_mem_base op = X86_REG_RIP) (cs_operands insn) then
        \<lparr>rr_addr = ucast (cs_address insn + of_nat (cs_size insn) + of_int (cs_disp insn)),
         rr_raddr = of_int (cs_disp insn),
         rr_offset = int (cs_disp_offset insn),
         rr_size = int (cs_disp_size insn * 8)\<rparr>
      else no_rip_relative)"

text \<open>One instruction as the trampoline builder sees it.\<close>

definition capstone_insn :: "cs_insn \<Rightarrow> 'a::len word x86_insn" where
  "capstone_insn insn =
     \<lparr>insn_size = cs_size insn,
      insn_address = ucast (cs_address insn),
      insn_branch_address =
        (case cs_operands insn of [] \<Rightarrow> 0 | op # _ \<Rightarrow> of_int (cs_imm op)),
      rel_disp = capstone_rel_disp insn,
      rel_imm = capstone_rel_imm insn\<rparr>"

text \<open>All instructions of a function, one \<open>funchook_disasm_next\<close> after the other.\<close>

definition capstone_disasm ::
    "cs_lib \<Rightarrow> ('a::len word \<Rightarrow> u8) \<Rightarrow> 'a word \<Rightarrow> nat \<Rightarrow> 'a word x86_insn list with_message" where
  "capstone_disasm lib m func n =
     (case capstone_disasm_init lib m func n of
        Inl e \<Rightarrow> Inl e
      | Inr st \<Rightarrow>
          (case drain capstone_disasm_next (Suc (length (ia_insns st))) st of
             None \<Rightarrow> crash
           | Some insns \<Rightarrow> Inr (map capstone_insn insns)))"

lemma capstone_disasm_eq:
  "capstone_disasm lib m func n =
     (case capstone_disasm_init lib m func n of
        Inl e \<Rightarrow> Inl e | Inr st \<Rightarrow> Inr (map capstone_insn (remaining st)))"
  using capstone.drain_rest
  by (simp add: capstone_disasm_def remaining_def del: drain.simps split: sum.split)

section \<open>distorm\<close>

text \<open>
  The fields of \<open>_DInst\<close> and \<open>_Operand\<close>. Opcodes are the names of mnemonics.h; a register
  other than \<open>R_RIP\<close> is numbered. Sizes of operands and displacements are in bits. The
  array of operands has \<open>OPERANDS_NO\<close> elements.
\<close>

datatype d_op_type = O_NONE | O_REG | O_IMM | O_IMM1 | O_IMM2 | O_DISP | O_SMEM | O_MEM | O_PC | O_PTR

datatype d_reg = R_RIP | R_OTHER nat

record d_operand =
  d_type :: d_op_type
  d_index :: d_reg
  d_op_size :: nat

record d_insn =
  d_addr :: u64
  d_size :: nat
  d_opcode :: string
  d_ops :: "d_operand list"
  d_imm_addr :: int
  d_disp :: int
  d_dispSize :: nat

record d_lib =
  d_decompose :: "u8 list \<Rightarrow> u64 \<Rightarrow> int + d_insn list"
  d_target :: "d_insn \<Rightarrow> u64"

text \<open>
  \<open>distorm_decompose64\<close> fills at most \<open>MAX_INSN_CHECK_SIZE\<close> instructions; its error is a
  number. The feature \<open>DF_STOP_ON_RET\<close> makes it stop behind a return instruction.
\<close>

definition distorm_disasm_init ::
    "d_lib \<Rightarrow> ('a::len word \<Rightarrow> u8) \<Rightarrow> 'a word \<Rightarrow> nat \<Rightarrow> d_insn insn_array with_message" where
  "distorm_disasm_init lib m code code_size =
     (case d_decompose lib (mem_read m code code_size) (ucast code) of
        Inl decres \<Rightarrow> Inl (Err ERROR_DISASSEMBLY, ''Disassemble Error: '' @ fmt_d decres)
      | Inr insns \<Rightarrow> Inr \<lparr>ia_insns = insns, ia_index = 0\<rparr>)"

definition distorm_disasm_next :: "d_insn insn_array \<Rightarrow> (d_insn \<times> d_insn insn_array) option" where
  "distorm_disasm_next st =
     (if ia_index st < length (ia_insns st)
      then Some (ia_insns st ! ia_index st, st\<lparr>ia_index := ia_index st + 1\<rparr>)
      else None)"

interpretation distorm: insn_iterator distorm_disasm_next remaining
  by unfold_locales
    (auto simp: distorm_disasm_next_def remaining_def Cons_nth_drop_Suc split: if_splits)

text \<open>The loop over the operands: the bytes so far and the offsets of the two fields.\<close>

record 'ad d_scan =
  opsiz :: nat
  disp_offset :: nat
  imm_offset :: nat
  scan_disp :: "'ad rip_relative"
  scan_imm :: "'ad rip_relative"

definition scan_start :: "('a::len word) d_scan" where
  "scan_start = \<lparr>opsiz = 0, disp_offset = 0, imm_offset = 0,
     scan_disp = no_rip_relative, scan_imm = no_rip_relative\<rparr>"

definition scan_operand :: "d_insn \<Rightarrow> d_operand \<Rightarrow> 'a::len word d_scan \<Rightarrow> 'a word d_scan" where
  "scan_operand insn op sc =
     (case d_type op of
        O_IMM \<Rightarrow> sc\<lparr>opsiz := opsiz sc + d_op_size op div 8\<rparr>
      | O_PC \<Rightarrow>
          sc\<lparr>scan_imm := \<lparr>rr_addr = ucast (d_addr insn + of_nat (d_size insn) + of_int (d_imm_addr insn)),
                          rr_raddr = of_int (d_imm_addr insn), rr_offset = rr_offset (scan_imm sc),
                          rr_size = int (d_op_size op)\<rparr>,
             imm_offset := opsiz sc,
             opsiz := opsiz sc + d_op_size op div 8\<rparr>
      | O_SMEM \<Rightarrow>
          (if d_dispSize insn \<noteq> 0 \<and> d_index op = R_RIP then
             sc\<lparr>scan_disp := \<lparr>rr_addr = ucast (d_addr insn + of_nat (d_size insn) + of_int (d_disp insn)),
                              rr_raddr = of_int (d_disp insn), rr_offset = rr_offset (scan_disp sc),
                              rr_size = int (d_dispSize insn)\<rparr>,
                disp_offset := opsiz sc,
                opsiz := opsiz sc + d_dispSize insn div 8\<rparr>
           else sc\<lparr>opsiz := opsiz sc + d_dispSize insn div 8\<rparr>)
      | O_MEM \<Rightarrow> sc\<lparr>opsiz := opsiz sc + d_dispSize insn div 8\<rparr>
      | O_DISP \<Rightarrow> sc\<lparr>opsiz := opsiz sc + d_dispSize insn div 8\<rparr>
      | _ \<Rightarrow> sc)"

text \<open>The opcodes with one more byte behind their operands.\<close>

definition extra_byte_opcodes :: "string list" where
  "extra_byte_opcodes =
      [''I_CMPEQSD'', ''I_CMPLTSD'', ''I_CMPLESD'', ''I_CMPUNORDSD'', ''I_CMPNEQSD'',
       ''I_CMPNLTSD'', ''I_CMPNLESD'', ''I_CMPORDSD'', ''I_VCMPEQSD'', ''I_VCMPLTSD'',
       ''I_VCMPLESD'', ''I_VCMPUNORDSD'', ''I_VCMPNEQSD'', ''I_VCMPNLTSD'', ''I_VCMPNLESD'',
       ''I_VCMPORDSD'', ''I_VCMPEQ_UQSD'', ''I_VCMPNGESD'', ''I_VCMPNGTSD'', ''I_VCMPFALSESD'',
       ''I_VCMPNEQ_OQSD'', ''I_VCMPGESD'', ''I_VCMPGTSD'', ''I_VCMPTRUESD'', ''I_VCMPEQ_OSSD'',
       ''I_VCMPLT_OQSD'', ''I_VCMPLE_OQSD'', ''I_VCMPUNORD_SSD'', ''I_VCMPNEQ_USSD'',
       ''I_VCMPNLT_UQSD'', ''I_VCMPNLE_UQSD'', ''I_VCMPORD_SSD'', ''I_VCMPEQ_USSD'',
       ''I_VCMPNGE_UQSD'', ''I_VCMPNGT_UQSD'', ''I_VCMPFALSE_OSSD'', ''I_VCMPNEQ_OSSD'',
       ''I_VCMPGE_OQSD'', ''I_VCMPGT_OQSD'', ''I_CMPEQSS'', ''I_CMPLTSS'', ''I_CMPLESS'',
       ''I_CMPUNORDSS'', ''I_CMPNEQSS'', ''I_CMPNLTSS'', ''I_CMPNLESS'', ''I_CMPORDSS'',
       ''I_VCMPEQSS'', ''I_VCMPLTSS'', ''I_VCMPLESS'', ''I_VCMPUNORDSS'', ''I_VCMPNEQSS'',
       ''I_VCMPNLTSS'', ''I_VCMPNLESS'', ''I_VCMPORDSS'', ''I_VCMPEQ_UQSS'', ''I_VCMPNGESS'',
       ''I_VCMPNGTSS'', ''I_VCMPFALSESS'', ''I_VCMPNEQ_OQSS'', ''I_VCMPGESS'', ''I_VCMPGTSS'',
       ''I_VCMPTRUESS'', ''I_VCMPEQ_OSSS'', ''I_VCMPLT_OQSS'', ''I_VCMPLE_OQSS'',
       ''I_VCMPUNORD_SSS'', ''I_VCMPNEQ_USSS'', ''I_VCMPNLT_UQSS'', ''I_VCMPNLE_UQSS'',
       ''I_VCMPORD_SSS'', ''I_VCMPEQ_USSS'', ''I_VCMPNGE_UQSS'', ''I_VCMPNGT_UQSS'',
       ''I_VCMPFALSE_OSSS'', ''I_VCMPNEQ_OSSS'', ''I_VCMPGE_OQSS'', ''I_VCMPGT_OQSS'',
       ''I_CMPEQPD'', ''I_CMPLTPD'', ''I_CMPLEPD'', ''I_CMPUNORDPD'', ''I_CMPNEQPD'',
       ''I_CMPNLTPD'', ''I_CMPNLEPD'', ''I_CMPORDPD'', ''I_VCMPEQPD'', ''I_VCMPLTPD'',
       ''I_VCMPLEPD'', ''I_VCMPUNORDPD'', ''I_VCMPNEQPD'', ''I_VCMPNLTPD'', ''I_VCMPNLEPD'',
       ''I_VCMPORDPD'', ''I_VCMPEQ_UQPD'', ''I_VCMPNGEPD'', ''I_VCMPNGTPD'', ''I_VCMPFALSEPD'',
       ''I_VCMPNEQ_OQPD'', ''I_VCMPGEPD'', ''I_VCMPGTPD'', ''I_VCMPTRUEPD'', ''I_VCMPEQ_OSPD'',
       ''I_VCMPLT_OQPD'', ''I_VCMPLE_OQPD'', ''I_VCMPUNORD_SPD'', ''I_VCMPNEQ_USPD'',
       ''I_VCMPNLT_UQPD'', ''I_VCMPNLE_UQPD'', ''I_VCMPORD_SPD'', ''I_VCMPEQ_USPD'',
       ''I_VCMPNGE_UQPD'', ''I_VCMPNGT_UQPD'', ''I_VCMPFALSE_OSPD'', ''I_VCMPNEQ_OSPD'',
       ''I_VCMPGE_OQPD'', ''I_VCMPGT_OQPD'', ''I_VCMPTRUE_USPD'', ''I_CMPEQPS'', ''I_CMPLTPS'',
       ''I_CMPLEPS'', ''I_CMPUNORDPS'', ''I_CMPNEQPS'', ''I_CMPNLTPS'', ''I_CMPNLEPS'',
       ''I_CMPORDPS'', ''I_VCMPEQPS'', ''I_VCMPLTPS'', ''I_VCMPLEPS'', ''I_VCMPUNORDPS'',
       ''I_VCMPNEQPS'', ''I_VCMPNLTPS'', ''I_VCMPNLEPS'', ''I_VCMPORDPS'', ''I_VCMPEQ_UQPS'',
       ''I_VCMPNGEPS'', ''I_VCMPNGTPS'', ''I_VCMPFALSEPS'', ''I_VCMPNEQ_OQPS'', ''I_VCMPGEPS'',
       ''I_VCMPGTPS'', ''I_VCMPTRUEPS'', ''I_VCMPEQ_OSPS'', ''I_VCMPLT_OQPS'', ''I_VCMPLE_OQPS'',
       ''I_VCMPUNORD_SPS'', ''I_VCMPNEQ_USPS'', ''I_VCMPNLT_UQPS'', ''I_VCMPNLE_UQPS'',
       ''I_VCMPORD_SPS'', ''I_VCMPEQ_USPS'', ''I_VCMPNGE_UQPS'', ''I_VCMPNGT_UQPS'',
       ''I_VCMPFALSE_OSPS'', ''I_VCMPNEQ_OSPS'', ''I_VCMPGE_OQPS'', ''I_VCMPGT_OQPS'',
       ''I_VCMPTRUE_USPS'', ''I_PI2FD'', ''I_PI2FW'', ''I_PF2IW'', ''I_PF2ID'', ''I_PSWAPD'',
       ''I_VPBLENDVB'', ''I_PFNACC'']"

definition distorm_scan :: "d_insn \<Rightarrow> 'a::len word d_scan" where
  "distorm_scan insn =
     (let sc = fold (scan_operand insn)
          (takeWhile (\<lambda>op. d_type op \<noteq> O_NONE) (d_ops insn)) scan_start
      in if list_ex (\<lambda>opc. opc = d_opcode insn) extra_byte_opcodes then sc\<lparr>opsiz := opsiz sc + 1\<rparr> else sc)"

definition distorm_rip_relative :: "d_insn \<Rightarrow> 'a::len word rip_relative \<times> 'a word rip_relative" where
  "distorm_rip_relative insn =
     (let sc = distorm_scan insn;
          place = (\<lambda>rel off. if 0 < rr_size rel
            then rel\<lparr>rr_offset := int (d_size insn) - int (opsiz sc) + int off\<rparr> else rel)
      in (place (scan_disp sc) (disp_offset sc), place (scan_imm sc) (imm_offset sc)))"

definition distorm_insn :: "d_lib \<Rightarrow> d_insn \<Rightarrow> 'a::len word x86_insn" where
  "distorm_insn lib insn =
     \<lparr>insn_size = d_size insn,
      insn_address = ucast (d_addr insn),
      insn_branch_address = ucast (d_target lib insn),
      rel_disp = fst (distorm_rip_relative insn),
      rel_imm = snd (distorm_rip_relative insn)\<rparr>"

definition distorm_disasm ::
    "d_lib \<Rightarrow> ('a::len word \<Rightarrow> u8) \<Rightarrow> 'a word \<Rightarrow> nat \<Rightarrow> 'a word x86_insn list with_message" where
  "distorm_disasm lib m func n =
     (case distorm_disasm_init lib m func n of
        Inl e \<Rightarrow> Inl e
      | Inr st \<Rightarrow>
          (case drain distorm_disasm_next (Suc (length (ia_insns st))) st of
             None \<Rightarrow> crash
           | Some insns \<Rightarrow> Inr (map (distorm_insn lib) insns)))"

lemma distorm_disasm_eq:
  "distorm_disasm lib m func n =
     (case distorm_disasm_init lib m func n of
        Inl e \<Rightarrow> Inl e | Inr st \<Rightarrow> Inr (map (distorm_insn lib) (remaining st)))"
  using distorm.drain_rest
  by (simp add: distorm_disasm_def remaining_def del: drain.simps split: sum.split)

section \<open>Zydis\<close>

text \<open>
  The fields of \<open>ZydisDecodedInstruction\<close> (with \<open>raw.imm[0]\<close> and \<open>raw.disp\<close>) and of the
  operands. Registers other than RIP are numbered.
\<close>

datatype zy_reg = ZYDIS_REGISTER_RIP | ZYDIS_REGISTER_OTHER nat

record zy_operand =
  zy_has_displacement :: bool
  zy_mem_base :: zy_reg

record zy_insn =
  zy_length :: nat
  zy_is_branch :: bool
  zy_imm_offset :: nat
  zy_imm_size :: nat
  zy_imm_value :: int
  zy_disp_offset :: nat
  zy_disp_size :: nat
  zy_disp_value :: int
  zy_operands :: "zy_operand list"

record zy_lib =
  zy_version_built :: nat
  zy_version :: nat
  zy_decode :: "u8 list \<Rightarrow> zy_insn option"

text \<open>The bytes from \<open>code\<close> to \<open>code_end\<close>, and \<open>insn.next_address\<close>.\<close>

record 'ad zy_state =
  zs_code :: "u8 list"
  zs_next_address :: "'ad"

definition zydis_disasm_init ::
    "zy_lib \<Rightarrow> ('a::len word \<Rightarrow> u8) \<Rightarrow> 'a word \<Rightarrow> nat \<Rightarrow> 'a word zy_state with_message" where
  "zydis_disasm_init lib m code code_size =
     (if zy_version lib \<noteq> zy_version_built lib then
        Inl (Err ERROR_INTERNAL_ERROR,
          ''Invalid zydis version: expecte 0x'' @ fmt_x (zy_version_built lib) @
          '' but 0x'' @ fmt_x (zy_version lib))
      else Inr \<lparr>zs_code = mem_read m code code_size, zs_next_address = code\<rparr>)"

text \<open>The instruction comes with the address behind it (\<open>funchook_insn_t\<close>).\<close>

definition zydis_disasm_next ::
    "zy_lib \<Rightarrow> 'a::len word zy_state \<Rightarrow> ((zy_insn \<times> 'a word) \<times> 'a word zy_state) option" where
  "zydis_disasm_next lib st =
     (case zy_decode lib (zs_code st) of
        None \<Rightarrow> None
      | Some insn \<Rightarrow>
          (let next = zs_next_address st + of_nat (zy_length insn)
           in Some ((insn, next),
                \<lparr>zs_code = drop (zy_length insn) (zs_code st), zs_next_address = next\<rparr>)))"

definition zydis_rel_imm :: "zy_insn \<Rightarrow> 'a::len word \<Rightarrow> 'a word rip_relative" where
  "zydis_rel_imm insn next =
     (if zy_imm_offset insn \<noteq> 0 \<and> zy_is_branch insn then
        \<lparr>rr_addr = next + of_int (zy_imm_value insn), rr_raddr = of_int (zy_imm_value insn),
         rr_offset = int (zy_imm_offset insn), rr_size = int (zy_imm_size insn)\<rparr>
      else no_rip_relative)"

definition zydis_rel_disp :: "zy_insn \<Rightarrow> 'a::len word \<Rightarrow> 'a word rip_relative" where
  "zydis_rel_disp insn next =
     (if zy_disp_offset insn \<noteq> 0 \<and>
         list_ex (\<lambda>op. zy_has_displacement op \<and> zy_mem_base op = ZYDIS_REGISTER_RIP) (zy_operands insn) then
        \<lparr>rr_addr = next + of_int (zy_disp_value insn), rr_raddr = of_int (zy_disp_value insn),
         rr_offset = int (zy_disp_offset insn), rr_size = int (zy_disp_size insn)\<rparr>
      else no_rip_relative)"

definition zydis_insn :: "zy_insn \<times> 'a::len word \<Rightarrow> 'a word x86_insn" where
  "zydis_insn p =
     (case p of (insn, next) \<Rightarrow>
        \<lparr>insn_size = zy_length insn,
         insn_address = next - of_nat (zy_length insn),
         insn_branch_address = next + of_int (zy_imm_value insn),
         rel_disp = zydis_rel_disp insn next,
         rel_imm = zydis_rel_imm insn next\<rparr>)"

text \<open>
  The decoder is asked for at most as many instructions as there are bytes; a decoder that
  returned empty instructions would keep the loop running.
\<close>

definition zydis_disasm ::
    "zy_lib \<Rightarrow> ('a::len word \<Rightarrow> u8) \<Rightarrow> 'a word \<Rightarrow> nat \<Rightarrow> 'a word x86_insn list with_message" where
  "zydis_disasm lib m func n =
     (case zydis_disasm_init lib m func n of
        Inl e \<Rightarrow> Inl e
      | Inr st \<Rightarrow>
          (case drain (zydis_disasm_next lib) (Suc (length (zs_code st))) st of
             None \<Rightarrow> crash
           | Some insns \<Rightarrow> Inr (map zydis_insn insns)))"

section \<open>What the libraries document\<close>

text \<open>
  An instruction has 1 to 15 bytes, and its immediate and displacement lie inside it behind
  at least one byte of opcode. Zydis never reads past the bytes it is given. The operands of
  distorm take fewer bytes than the instruction has.
\<close>

definition cs_insn_ok :: "cs_insn \<Rightarrow> bool" where
  "cs_insn_ok insn \<longleftrightarrow> 0 < cs_size insn \<and> cs_size insn \<le> 15 \<and>
     cs_imm_offset insn + cs_imm_size insn \<le> cs_size insn \<and>
     cs_disp_offset insn + cs_disp_size insn \<le> cs_size insn"

definition cs_lib_ok :: "cs_lib \<Rightarrow> bool" where
  "cs_lib_ok lib \<longleftrightarrow> (\<forall>bs a. list_all cs_insn_ok (cs_disasm lib bs a))"

definition d_lib_ok :: "d_lib \<Rightarrow> bool" where
  "d_lib_ok lib \<longleftrightarrow> (\<forall>bs a is. d_decompose lib bs a = Inr is \<longrightarrow>
     list_all (\<lambda>i. d_size i \<le> 15 \<and> opsiz (distorm_scan i :: u64 d_scan) < d_size i) is)"

definition zy_insn_ok :: "nat \<Rightarrow> zy_insn \<Rightarrow> bool" where
  "zy_insn_ok n insn \<longleftrightarrow> 0 < zy_length insn \<and> zy_length insn \<le> 15 \<and> zy_length insn \<le> n \<and>
     zy_imm_offset insn + zy_imm_size insn div 8 \<le> zy_length insn \<and>
     zy_disp_offset insn + zy_disp_size insn div 8 \<le> zy_length insn"

definition zy_lib_ok :: "zy_lib \<Rightarrow> bool" where
  "zy_lib_ok lib \<longleftrightarrow> (\<forall>bs insn. zy_decode lib bs = Some insn \<longrightarrow> zy_insn_ok (length bs) insn)"

section \<open>The instructions are well-formed\<close>

lemma capstone_insn_wf: "cs_insn_ok i \<Longrightarrow> wf_insn (capstone_insn i)"
  by (auto simp: cs_insn_ok_def wf_insn_def capstone_insn_def wf_rel_def capstone_rel_disp_def
      capstone_rel_imm_def no_rip_relative_def x86_sizes)

lemma capstone_disasm_wf:
  assumes "cs_lib_ok lib" and "capstone_disasm lib m func n = Inr is"
  shows "list_all wf_insn is"
proof -
  obtain st where st: "capstone_disasm_init lib m func n = Inr st" "is = map capstone_insn (remaining st)"
    using assms(2) by (auto simp: capstone_disasm_eq split: sum.splits)
  then have "list_all cs_insn_ok (remaining st)"
    using assms(1) by (auto simp: capstone_disasm_init_def Let_def cs_lib_ok_def remaining_def
        split: option.splits if_splits)
  with st(2) show ?thesis by (auto simp: list_all_iff capstone_insn_wf)
qed

text \<open>In the scan of distorm a field ends before the bytes of the operands behind it.\<close>

definition scan_ok :: "('a::len word) d_scan \<Rightarrow> bool" where
  "scan_ok sc \<longleftrightarrow>
     (rr_size (scan_disp sc) = 32 \<longrightarrow> disp_offset sc + 4 \<le> opsiz sc) \<and>
     (rr_size (scan_imm sc) = 32 \<longrightarrow> imm_offset sc + 4 \<le> opsiz sc)"

lemma scan_operand_ok: "scan_ok sc \<Longrightarrow> scan_ok (scan_operand insn op sc)"
  by (auto simp: scan_ok_def scan_operand_def split: d_op_type.split)

lemma fold_scan_ok: "scan_ok sc \<Longrightarrow> scan_ok (fold (scan_operand insn) ops sc)"
  by (induction ops arbitrary: sc) (simp_all add: scan_operand_ok)

lemma distorm_scan_ok: "scan_ok (distorm_scan insn)"
  using fold_scan_ok [of scan_start insn "takeWhile (\<lambda>op. d_type op \<noteq> O_NONE) (d_ops insn)"]
  by (auto simp: distorm_scan_def Let_def scan_ok_def scan_start_def no_rip_relative_def)

lemma fold_opsiz_mono: "opsiz sc \<le> opsiz (fold (scan_operand insn) ops sc)"
proof (induction ops arbitrary: sc)
  case (Cons op ops)
  have "opsiz sc \<le> opsiz (scan_operand insn op sc)"
    by (auto simp: scan_operand_def split: d_op_type.split)
  with Cons.IH [of "scan_operand insn op sc"] show ?case by simp
qed simp

text \<open>The sizes and offsets of a scan do not depend on the width of addresses.\<close>

definition scan_shape :: "('a::len word) d_scan \<Rightarrow> nat \<times> nat \<times> nat \<times> int \<times> int" where
  "scan_shape sc =
     (opsiz sc, disp_offset sc, imm_offset sc, rr_size (scan_disp sc), rr_size (scan_imm sc))"

lemma scan_operand_shape:
  "scan_shape sc = scan_shape sc' \<Longrightarrow>
     scan_shape (scan_operand insn op sc) = scan_shape (scan_operand insn op sc')"
  by (auto simp: scan_shape_def scan_operand_def split: d_op_type.split)

lemma distorm_scan_shape:
  "scan_shape (distorm_scan insn :: ('a::len word) d_scan) = scan_shape (distorm_scan insn :: ('b::len word) d_scan)"
proof -
  have "scan_shape (fold (scan_operand insn) ops sc) = scan_shape (fold (scan_operand insn) ops sc')"
    if "scan_shape sc = scan_shape sc'" for ops and sc :: "'a word d_scan" and sc' :: "'b word d_scan"
    using that
  proof (induction ops arbitrary: sc sc')
    case (Cons op ops)
    from Cons.IH [OF scan_operand_shape [OF Cons.prems]] show ?case by simp
  qed simp
  from this [of scan_start scan_start "takeWhile (\<lambda>op. d_type op \<noteq> O_NONE) (d_ops insn)"]
  show ?thesis
    by (simp add: distorm_scan_def Let_def) (simp add: scan_shape_def scan_start_def no_rip_relative_def)
qed

lemma distorm_insn_wf:
  assumes "d_size i \<le> 15" and "opsiz (distorm_scan i :: u64 d_scan) < d_size i"
  shows "wf_insn (distorm_insn lib i :: ('a::len word) x86_insn)"
proof -
  have "opsiz (distorm_scan i :: 'a word d_scan) < d_size i"
    using assms(2) distorm_scan_shape [of i, where 'a = 'a and 'b = 64] by (simp add: scan_shape_def)
  with assms(1) distorm_scan_ok [of i, where 'a = 'a] show ?thesis
    by (auto simp: wf_insn_def distorm_insn_def distorm_rip_relative_def Let_def wf_rel_def scan_ok_def x86_sizes)
qed

lemma distorm_disasm_wf:
  assumes "d_lib_ok lib" and "distorm_disasm lib m func n = Inr is"
  shows "list_all wf_insn is"
proof -
  obtain st where st: "distorm_disasm_init lib m func n = Inr st" "is = map (distorm_insn lib) (remaining st)"
    using assms(2) by (auto simp: distorm_disasm_eq split: sum.splits)
  then have "list_all (\<lambda>i. d_size i \<le> 15 \<and> opsiz (distorm_scan i :: u64 d_scan) < d_size i) (remaining st)"
    using assms(1) by (auto simp: distorm_disasm_init_def d_lib_ok_def remaining_def split: sum.splits)
  with st(2) show ?thesis by (auto simp: list_all_iff distorm_insn_wf)
qed

lemma zydis_insn_wf: "zy_insn_ok n i \<Longrightarrow> wf_insn (zydis_insn (i, next))"
  by (auto simp: zy_insn_ok_def wf_insn_def zydis_insn_def wf_rel_def zydis_rel_disp_def
      zydis_rel_imm_def no_rip_relative_def x86_sizes)

text \<open>The loop over Zydis ends within as many rounds as there are bytes.\<close>

lemma zydis_drain:
  assumes "zy_lib_ok lib"
  shows "length (zs_code st) < fuel \<Longrightarrow>
    \<exists>is. drain (zydis_disasm_next lib) fuel st = Some is \<and>
      list_all (\<lambda>p. zy_insn_ok (length (zs_code st)) (fst p)) is \<and>
      sum_list (map (\<lambda>p. zy_length (fst p)) is) \<le> length (zs_code st) \<and>
      map snd is = map (\<lambda>k. zs_next_address st + of_nat (sum_list (map (\<lambda>p. zy_length (fst p)) (take (Suc k) is))))
        [0..<length is]"
proof (induction fuel arbitrary: st)
  case 0
  then show ?case by simp
next
  case (Suc fuel)
  show ?case
  proof (cases "zy_decode lib (zs_code st)")
    case None
    then show ?thesis by (simp add: zydis_disasm_next_def)
  next
    case (Some i)
    let ?next = "zs_next_address st + of_nat (zy_length i)"
    let ?st = "\<lparr>zs_code = drop (zy_length i) (zs_code st), zs_next_address = ?next\<rparr>"
    have ok: "zy_insn_ok (length (zs_code st)) i"
      using assms Some by (simp add: zy_lib_ok_def)
    then have l: "0 < zy_length i" "zy_length i \<le> length (zs_code st)"
      by (simp_all add: zy_insn_ok_def)
    with Suc.prems have "length (zs_code ?st) < fuel" by simp
    from Suc.IH [OF this] obtain "is" where dr: "drain (zydis_disasm_next lib) fuel ?st = Some is"
      "list_all (\<lambda>p. zy_insn_ok (length (zs_code ?st)) (fst p)) is"
      "sum_list (map (\<lambda>p. zy_length (fst p)) is) \<le> length (zs_code ?st)"
      "map snd is = map (\<lambda>k. zs_next_address ?st + of_nat (sum_list (map (\<lambda>p. zy_length (fst p)) (take (Suc k) is)))) [0..<length is]"
      by blast
    have "drain (zydis_disasm_next lib) (Suc fuel) st = Some ((i, ?next) # is)"
      using Some dr(1) by (simp add: zydis_disasm_next_def Let_def)
    moreover have "list_all (\<lambda>p. zy_insn_ok (length (zs_code st)) (fst p)) ((i, ?next) # is)"
      using ok dr(2) by (auto simp: list_all_iff zy_insn_ok_def)
    moreover have "map snd ((i, ?next) # is) =
        map (\<lambda>k. zs_next_address st + of_nat (sum_list (map (\<lambda>p. zy_length (fst p)) (take (Suc k) ((i, ?next) # is)))))
          [0..<length ((i, ?next) # is)]"
      using dr(4) by (simp add: upt_conv_Cons map_Suc_upt [symmetric] add.assoc del: upt_Suc)
    ultimately show ?thesis using dr(3) l(2) by (intro exI [of _ "(i, ?next) # is"]) simp
  qed
qed

lemma zydis_disasm_ok:
  fixes func :: "'a::len word"
  assumes "zy_lib_ok lib" and "zydis_disasm_init lib m func n = Inr st"
  obtains "is" where "zydis_disasm lib m func n = Inr is" and "list_all wf_insn is"
    and "sum_list (map insn_size is) \<le> n"
proof -
  have st: "length (zs_code st) = n"
    using assms(2) by (auto simp: zydis_disasm_init_def split: if_splits)
  obtain "is" where dr: "drain (zydis_disasm_next lib) (Suc n) st = Some is"
      "list_all (\<lambda>p. zy_insn_ok n (fst p)) is" "sum_list (map (\<lambda>p. zy_length (fst p)) is) \<le> n"
    using zydis_drain [OF assms(1), of st "Suc n"] st by auto
  have sz: "insn_size (zydis_insn p) = zy_length (fst p)" for p :: "zy_insn \<times> 'a word"
    by (simp add: zydis_insn_def split: prod.split)
  show ?thesis
  proof (rule that)
    show "zydis_disasm lib m func n = Inr (map zydis_insn is)"
      using assms(2) dr(1) st by (simp add: zydis_disasm_def del: drain.simps)
    show "list_all wf_insn (map zydis_insn is)"
      using dr(2) zydis_insn_wf by (fastforce simp: list_all_iff)
    show "sum_list (map insn_size (map zydis_insn is)) \<le> n"
      using dr(3) by (simp add: sz comp_def)
  qed
qed

end
