(* ===== verification/Disasm_X86_Correct.thy ===== *)
theory Disasm_X86_Correct
  imports Disasm_X86 Arch_X86_Correct
begin

text \<open>
  The properties of the three x86 disassembler back ends: they give the trampoline builder
  well-formed instructions, they terminate, and the IP-relative fields they report are where
  the instruction has them. The concrete cases use small libraries that decode one function.
\<close>

section \<open>Libraries that decode one function\<close>

text \<open>\<open>sub rsp, 8; mov rax, [rip + 0x2fd1]; ret\<close> as each library describes it.\<close>

definition sample_cs_lib :: cs_lib where
  "sample_cs_lib =
     \<lparr>cs_open_error = None, cs_option_error = None,
      cs_disasm = (\<lambda>bs a.
        [\<lparr>cs_address = a, cs_size = 4, cs_bytes = take 4 sample_code, cs_groups = [],
          cs_imm_offset = 3, cs_imm_size = 1, cs_disp_offset = 0, cs_disp_size = 0, cs_disp = 0,
          cs_operands = [\<lparr>cs_type = X86_OP_REG, cs_imm = 0, cs_mem_base = X86_REG_OTHER 0\<rparr>]\<rparr>,
         \<lparr>cs_address = a + 4, cs_size = 7, cs_bytes = take 7 (drop 4 sample_code), cs_groups = [],
          cs_imm_offset = 0, cs_imm_size = 0, cs_disp_offset = 3, cs_disp_size = 4, cs_disp = 0x2fd1,
          cs_operands = [\<lparr>cs_type = X86_OP_REG, cs_imm = 0, cs_mem_base = X86_REG_OTHER 0\<rparr>,
                         \<lparr>cs_type = X86_OP_MEM, cs_imm = 0, cs_mem_base = X86_REG_RIP\<rparr>]\<rparr>,
         \<lparr>cs_address = a + 11, cs_size = 1, cs_bytes = take 1 (drop 11 sample_code), cs_groups = [],
          cs_imm_offset = 0, cs_imm_size = 0, cs_disp_offset = 0, cs_disp_size = 0, cs_disp = 0,
          cs_operands = []\<rparr>]),
      cs_errno_text = []\<rparr>"

definition sample_d_mov :: "u64 \<Rightarrow> d_insn" where
  "sample_d_mov a =
     \<lparr>d_addr = a, d_size = 7, d_opcode = ''I_MOV'',
      d_ops = [\<lparr>d_type = O_REG, d_index = R_OTHER 0, d_op_size = 64\<rparr>,
               \<lparr>d_type = O_SMEM, d_index = R_RIP, d_op_size = 64\<rparr>],
      d_imm_addr = 0, d_disp = 0x2fd1, d_dispSize = 32\<rparr>"

definition sample_d_lib :: d_lib where
  "sample_d_lib =
     \<lparr>d_decompose = (\<lambda>bs a. Inr
        [\<lparr>d_addr = a, d_size = 4, d_opcode = ''I_SUB'',
          d_ops = [\<lparr>d_type = O_REG, d_index = R_OTHER 4, d_op_size = 64\<rparr>,
                   \<lparr>d_type = O_IMM, d_index = R_OTHER 0, d_op_size = 8\<rparr>],
          d_imm_addr = 0, d_disp = 0, d_dispSize = 0\<rparr>,
         sample_d_mov (a + 4),
         \<lparr>d_addr = a + 11, d_size = 1, d_opcode = ''I_RET'', d_ops = [],
          d_imm_addr = 0, d_disp = 0, d_dispSize = 0\<rparr>]),
      d_target = (\<lambda>i. 0)\<rparr>"

definition sample_zy_mov :: zy_insn where
  "sample_zy_mov =
     \<lparr>zy_length = 7, zy_is_branch = False, zy_imm_offset = 0, zy_imm_size = 0, zy_imm_value = 0,
      zy_disp_offset = 3, zy_disp_size = 32, zy_disp_value = 0x2fd1,
      zy_operands = [\<lparr>zy_has_displacement = True, zy_mem_base = ZYDIS_REGISTER_RIP\<rparr>]\<rparr>"

text \<open>A decoder of functions that consist of seven-byte instructions.\<close>

definition sample_zy_lib :: zy_lib where
  "sample_zy_lib =
     \<lparr>zy_version_built = 4, zy_version = 4,
      zy_decode = (\<lambda>bs. if 7 \<le> length bs then Some sample_zy_mov else None)\<rparr>"

lemma sample_cs_lib_ok: "cs_lib_ok sample_cs_lib"
  by (simp add: cs_lib_ok_def sample_cs_lib_def cs_insn_ok_def)

lemma sample_d_lib_ok: "d_lib_ok sample_d_lib"
proof -
  have e: "list_ex (\<lambda>opc. opc = ''I_SUB'') extra_byte_opcodes = False"
    "list_ex (\<lambda>opc. opc = ''I_MOV'') extra_byte_opcodes = False"
    "list_ex (\<lambda>opc. opc = ''I_RET'') extra_byte_opcodes = False"
    by code_simp+
  show ?thesis
    by (simp add: d_lib_ok_def sample_d_lib_def sample_d_mov_def distorm_scan_def scan_operand_def
        scan_start_def e)
qed

lemma sample_zy_lib_ok: "zy_lib_ok sample_zy_lib"
  by (simp add: zy_lib_ok_def sample_zy_lib_def sample_zy_mov_def zy_insn_ok_def)

section \<open>Building a trampoline with each back end\<close>

lemma backend_no_crash:
  assumes "cs_lib_ok cl" and "d_lib_ok dl" and "zy_lib_ok zl"
    and "disasm \<in> set [capstone_disasm cl, distorm_disasm dl, zydis_disasm zl]"
  shows "(\<exists>e msg. disasm m (func :: 'a::len word) n = Inl (Err e, msg)) \<or>
    (\<exists>is. disasm m func n = Inr is \<and> list_all wf_insn is)"
proof -
  from assms(4) consider (c) "disasm = capstone_disasm cl" | (d) "disasm = distorm_disasm dl"
    | (z) "disasm = zydis_disasm zl"
    by auto
  then show ?thesis
  proof cases
    case c
    then show ?thesis
      using capstone_disasm_wf [OF assms(1), of m func n]
      by (auto simp: capstone_disasm_eq capstone_disasm_init_def Let_def split: option.splits if_splits)
  next
    case d
    then show ?thesis
      using distorm_disasm_wf [OF assms(2), of m func n]
      by (auto simp: distorm_disasm_eq distorm_disasm_init_def split: sum.splits)
  next
    case z
    show ?thesis
    proof (cases "zy_version zl = zy_version_built zl")
      case True
      then have "zydis_disasm_init zl m func n = Inr \<lparr>zs_code = mem_read m func n, zs_next_address = func\<rparr>"
        by (simp add: zydis_disasm_init_def)
      then show ?thesis using zydis_disasm_ok [OF assms(3)] z by metis
    next
      case False
      then show ?thesis using z by (simp add: zydis_disasm_def zydis_disasm_init_def)
    qed
  qed
qed

text \<open>
  C21: \<open>backend_trampoline_safe\<close>. With each of the three disassembler back ends, whose
  library keeps to its documentation, building an x86_64 trampoline never leaves its buffers
  whatever the bytes of the function are, and a trampoline it returns is in bounds.
\<close>

theorem backend_trampoline_safe:
  assumes "cs_lib_ok cl" and "d_lib_ok dl" and "zy_lib_ok zl"
    and "disasm \<in> set [capstone_disasm cl, distorm_disasm dl, zydis_disasm zl]"
  shows "case make_trampoline_x86_64 disasm m func of
      Inl (f, msg) \<Rightarrow> f \<noteq> Crash | Inr r \<Rightarrow> trampoline_ok func r"
  using backend_no_crash [OF assms, of m func MAX_INSN_CHECK_SIZE]
proof (elim disjE exE conjE)
  fix e msg
  assume "disasm m func MAX_INSN_CHECK_SIZE = Inl (Err e, msg)"
  then show ?thesis by (simp add: funchook_make_trampoline_def)
next
  fix "is"
  assume d: "disasm m func MAX_INSN_CHECK_SIZE = Inr is" and wf: "list_all wf_insn is"
  show ?thesis
    using x86_64.make_trampoline_ok [of disasm m func "is", OF d wf]
    by (auto simp: x86_64.make_trampoline_no_crash [of disasm m func "is", OF d wf] split: sum.splits)
qed

theorem backend_trampoline_safe_witness:
  "case make_trampoline_x86_64 (capstone_disasm sample_cs_lib) sample_mem 0x401000 of
     Inl (f, msg) \<Rightarrow> f \<noteq> Crash | Inr r \<Rightarrow> trampoline_ok 0x401000 r"
  by (rule backend_trampoline_safe [OF sample_cs_lib_ok sample_d_lib_ok sample_zy_lib_ok]) simp

section \<open>Termination and order\<close>

text \<open>
  C22: \<open>zydis_disasm_total\<close>. When the version of Zydis is the expected one, the loop over
  \<open>funchook_disasm_next\<close> ends; the instructions it gives take no more than the bytes there
  are, and each is reported at the function's address plus the sizes of those before it.
\<close>

theorem zydis_disasm_total:
  assumes "zy_lib_ok lib" and "zy_version lib = zy_version_built lib"
  shows "\<exists>insns. zydis_disasm lib m (func :: 'a::len word) n = Inr insns \<and>
    sum_list (map insn_size insns) \<le> n \<and>
    list_all (\<lambda>k. insn_address (insns ! k) = func + of_nat (sum_list (map insn_size (take k insns))))
      [0..<length insns]"
proof -
  let ?st = "\<lparr>zs_code = mem_read m func n, zs_next_address = func\<rparr>"
  obtain d where dr: "drain (zydis_disasm_next lib) (Suc n) ?st = Some d"
      "sum_list (map (\<lambda>p. zy_length (fst p)) d) \<le> n"
      "map snd d = map (\<lambda>k. func + of_nat (sum_list (map (\<lambda>p. zy_length (fst p)) (take (Suc k) d)))) [0..<length d]"
    using zydis_drain [OF assms(1), of ?st "Suc n"] by auto
  have sz: "insn_size (zydis_insn p) = zy_length (fst p)" for p :: "zy_insn \<times> 'a word"
    by (simp add: zydis_insn_def split: prod.split)
  have "insn_address (zydis_insn (d ! k)) = func + of_nat (sum_list (map (\<lambda>p. zy_length (fst p)) (take k d)))"
    if k: "k < length d" for k
  proof -
    have "snd (d ! k) = map snd d ! k" using k by simp
    also have "\<dots> = func + of_nat (sum_list (map (\<lambda>p. zy_length (fst p)) (take (Suc k) d)))"
      using k by (simp add: dr(3))
    also have "\<dots> = func + of_nat (sum_list (map (\<lambda>p. zy_length (fst p)) (take k d))) + of_nat (zy_length (fst (d ! k)))"
      using k by (simp add: take_Suc_conv_app_nth)
    finally show ?thesis by (cases "d ! k") (simp add: zydis_insn_def)
  qed
  moreover have "zydis_disasm lib m func n = Inr (map zydis_insn d)"
    using dr(1) assms(2) by (simp add: zydis_disasm_def zydis_disasm_init_def del: drain.simps)
  ultimately show ?thesis
    using dr(2) by (intro exI [of _ "map zydis_insn d"]) (simp add: list_all_iff sz comp_def take_map)
qed

theorem zydis_disasm_total_witness:
  "\<exists>insns. zydis_disasm sample_zy_lib sample_mem (0x401000 :: u64) 256 = Inr insns \<and>
     sum_list (map insn_size insns) \<le> 256"
  using zydis_disasm_total [OF sample_zy_lib_ok, of sample_mem "0x401000" 256]
  by (auto simp: sample_zy_lib_def)

text \<open>
  Stepping with \<open>funchook_disasm_next\<close> through what Capstone
  or distorm decoded gives every instruction of the array once and in its order, for every
  result of the library: the array is exhausted and none is skipped or repeated.
\<close>

theorem array_backends_in_order:
  shows "capstone_disasm cl m func n = map_sum id (map capstone_insn \<circ> ia_insns) (capstone_disasm_init cl m func n) \<and>
    distorm_disasm dl m func n = map_sum id (map (distorm_insn dl) \<circ> ia_insns) (distorm_disasm_init dl m func n)"
  by (auto simp: capstone_disasm_eq distorm_disasm_eq capstone_disasm_init_def distorm_disasm_init_def
      Let_def remaining_def split: option.splits sum.splits)

section \<open>Where the fields are\<close>

text \<open>The bytes of an operand behind the opcode.\<close>

definition operand_bytes :: "d_insn \<Rightarrow> d_operand \<Rightarrow> nat" where
  "operand_bytes insn op =
     (if d_type op \<in> {O_IMM, O_PC} then d_op_size op div 8
      else if d_type op \<in> {O_SMEM, O_MEM, O_DISP} then d_dispSize insn div 8 else 0)"

definition d_rip_operand :: "d_insn \<Rightarrow> d_operand \<Rightarrow> bool" where
  "d_rip_operand insn op \<longleftrightarrow> d_type op = O_SMEM \<and> d_dispSize insn \<noteq> 0 \<and> d_index op = R_RIP"

lemma scan_opsiz: "opsiz (fold (scan_operand insn) ops sc) = opsiz sc + sum_list (map (operand_bytes insn) ops)"
  by (induction ops arbitrary: sc)
    (auto simp: scan_operand_def operand_bytes_def split: d_op_type.split)

lemma scan_imm_kept:
  "list_all (\<lambda>op. d_type op \<noteq> O_PC) ops \<Longrightarrow>
     scan_imm (fold (scan_operand insn) ops sc) = scan_imm sc \<and>
     imm_offset (fold (scan_operand insn) ops sc) = imm_offset sc"
  by (induction ops arbitrary: sc) (auto simp: scan_operand_def split: d_op_type.split)

lemma scan_disp_kept:
  "list_all (\<lambda>op. \<not> d_rip_operand insn op) ops \<Longrightarrow>
     scan_disp (fold (scan_operand insn) ops sc) = scan_disp sc \<and>
     disp_offset (fold (scan_operand insn) ops sc) = disp_offset sc"
  by (induction ops arbitrary: sc) (auto simp: scan_operand_def d_rip_operand_def split: d_op_type.split)

text \<open>
  distorm does not say where in an instruction its operands
  are. The offset the code computes for a branch operand, or for a RIP-relative memory
  operand, is such that exactly the bytes of the operands behind it and, for the listed
  opcodes, one more byte follow the field; the address is that of the next instruction plus
  the displacement.
\<close>

theorem distorm_field_position:
  assumes "d_ops insn = before @ op # after" and "list_all (\<lambda>op. d_type op \<noteq> O_NONE) (d_ops insn)"
    and "extra = (if d_opcode insn \<in> set extra_byte_opcodes then 1 else 0)"
  shows "(d_type op = O_PC \<and> 0 < d_op_size op \<and> list_all (\<lambda>op. d_type op \<noteq> O_PC) after \<longrightarrow>
      rr_offset (snd (distorm_rip_relative insn :: ('a::len word) rip_relative \<times> _)) + int (d_op_size op div 8) +
        int (sum_list (map (operand_bytes insn) after)) + extra = int (d_size insn) \<and>
      rr_addr (snd (distorm_rip_relative insn :: 'a word rip_relative \<times> _)) =
        ucast (d_addr insn + of_nat (d_size insn) + of_int (d_imm_addr insn))) \<and>
    (d_rip_operand insn op \<and> list_all (\<lambda>op. \<not> d_rip_operand insn op) after \<longrightarrow>
      rr_offset (fst (distorm_rip_relative insn :: 'a word rip_relative \<times> _)) + int (d_dispSize insn div 8) +
        int (sum_list (map (operand_bytes insn) after)) + extra = int (d_size insn) \<and>
      rr_addr (fst (distorm_rip_relative insn :: 'a word rip_relative \<times> _)) =
        ucast (d_addr insn + of_nat (d_size insn) + of_int (d_disp insn)))"
proof -
  have tw: "takeWhile (\<lambda>op. d_type op \<noteq> O_NONE) (d_ops insn) = before @ op # after"
    using assms(1,2) by (metis list_all_iff takeWhile_eq_all_conv)
  define sc0 where "sc0 = fold (scan_operand insn) before (scan_start :: 'a word d_scan)"
  define sc1 where "sc1 = scan_operand insn op sc0"
  define sc where "sc = fold (scan_operand insn) after sc1"
  have ex: "list_ex (\<lambda>opc. opc = d_opcode insn) extra_byte_opcodes \<longleftrightarrow> d_opcode insn \<in> set extra_byte_opcodes"
    by (auto simp: list_ex_iff)
  have scan: "distorm_scan insn = (if d_opcode insn \<in> set extra_byte_opcodes then sc\<lparr>opsiz := opsiz sc + 1\<rparr> else sc)"
    by (simp add: distorm_scan_def tw sc_def sc1_def sc0_def ex Let_def)
  have o1: "opsiz sc = opsiz sc1 + sum_list (map (operand_bytes insn) after)"
    by (simp add: sc_def scan_opsiz)
  show ?thesis
  proof (intro conjI impI; elim conjE)
    assume op: "d_type op = O_PC" "0 < d_op_size op" "list_all (\<lambda>op. d_type op \<noteq> O_PC) after"
    have k: "scan_imm sc = scan_imm sc1" "imm_offset sc = imm_offset sc1"
      using scan_imm_kept [OF op(3), of insn sc1] by (simp_all add: sc_def)
    have s1: "imm_offset sc1 = opsiz sc0" "opsiz sc1 = opsiz sc0 + d_op_size op div 8"
      "rr_size (scan_imm sc1) = int (d_op_size op)"
      "rr_addr (scan_imm sc1) = ucast (d_addr insn + of_nat (d_size insn) + of_int (d_imm_addr insn))"
      using op(1) by (simp_all add: sc1_def scan_operand_def)
    show "rr_offset (snd (distorm_rip_relative insn :: 'a word rip_relative \<times> _)) + int (d_op_size op div 8) +
        int (sum_list (map (operand_bytes insn) after)) + extra = int (d_size insn)"
      and "rr_addr (snd (distorm_rip_relative insn :: 'a word rip_relative \<times> _)) =
        ucast (d_addr insn + of_nat (d_size insn) + of_int (d_imm_addr insn))"
      using op(2) by (simp_all add: distorm_rip_relative_def Let_def scan o1 k s1 assms(3))
  next
    assume op: "d_rip_operand insn op" "list_all (\<lambda>op. \<not> d_rip_operand insn op) after"
    have k: "scan_disp sc = scan_disp sc1" "disp_offset sc = disp_offset sc1"
      using scan_disp_kept [OF op(2), of sc1] by (simp_all add: sc_def)
    have s1: "disp_offset sc1 = opsiz sc0" "opsiz sc1 = opsiz sc0 + d_dispSize insn div 8"
      "rr_size (scan_disp sc1) = int (d_dispSize insn)"
      "rr_addr (scan_disp sc1) = ucast (d_addr insn + of_nat (d_size insn) + of_int (d_disp insn))"
      using op(1) by (simp_all add: sc1_def scan_operand_def d_rip_operand_def)
    have "0 < d_dispSize insn" using op(1) by (simp add: d_rip_operand_def)
    then show "rr_offset (fst (distorm_rip_relative insn :: 'a word rip_relative \<times> _)) + int (d_dispSize insn div 8) +
        int (sum_list (map (operand_bytes insn) after)) + extra = int (d_size insn)"
      and "rr_addr (fst (distorm_rip_relative insn :: 'a word rip_relative \<times> _)) =
        ucast (d_addr insn + of_nat (d_size insn) + of_int (d_disp insn))"
      by (simp_all add: distorm_rip_relative_def Let_def scan o1 k s1 assms(3))
  qed
qed

theorem distorm_field_position_witness:
  "rr_offset (fst (distorm_rip_relative (sample_d_mov 0x401004) :: u64 rip_relative \<times> _)) = 3 \<and>
   rr_addr (fst (distorm_rip_relative (sample_d_mov 0x401004) :: u64 rip_relative \<times> _)) = 0x403fdc"
proof -
  have e: "''I_MOV'' \<notin> set extra_byte_opcodes" by code_simp
  show ?thesis
    using distorm_field_position [of "sample_d_mov 0x401004" "[\<lparr>d_type = O_REG, d_index = R_OTHER 0, d_op_size = 64\<rparr>]"
        "\<lparr>d_type = O_SMEM, d_index = R_RIP, d_op_size = 64\<rparr>" "[]" 0, where 'a = 64] e
    by (simp add: sample_d_mov_def d_rip_operand_def)
qed

text \<open>The instruction, its next address and its fields as both libraries describe them.\<close>

definition same_insn :: "cs_insn \<Rightarrow> zy_insn \<Rightarrow> bool" where
  "same_insn c z \<longleftrightarrow> cs_size c = zy_length z \<and>
     cs_imm_offset c = zy_imm_offset z \<and> cs_imm_size c * 8 = zy_imm_size z \<and>
     capstone_imm c = zy_imm_value z \<and>
     cs_disp_offset c = zy_disp_offset z \<and> cs_disp_size c * 8 = zy_disp_size z \<and> cs_disp c = zy_disp_value z \<and>
     (X86_GRP_BRANCH_RELATIVE \<in> set (cs_groups c) \<longleftrightarrow> zy_is_branch z) \<and>
     (list_ex (\<lambda>op. cs_type op = X86_OP_MEM \<and> cs_mem_base op = X86_REG_RIP) (cs_operands c) \<longleftrightarrow>
      list_ex (\<lambda>op. zy_has_displacement op \<and> zy_mem_base op = ZYDIS_REGISTER_RIP) (zy_operands z))"

text \<open>
  For an instruction that Capstone and Zydis describe in the
  same way, the two back ends report the same size, the same address and the same two
  IP-relative fields, so that the trampoline does not depend on which of them was built in.
\<close>

theorem capstone_zydis_agree:
  assumes "same_insn c z" and "next = cs_address c + of_nat (cs_size c)"
  shows "insn_size (capstone_insn c :: u64 x86_insn) = insn_size (zydis_insn (z, next)) \<and>
    insn_address (capstone_insn c :: u64 x86_insn) = insn_address (zydis_insn (z, next)) \<and>
    rel_disp (capstone_insn c :: u64 x86_insn) = rel_disp (zydis_insn (z, next)) \<and>
    rel_imm (capstone_insn c :: u64 x86_insn) = rel_imm (zydis_insn (z, next))"
proof -
  have "list_ex (\<lambda>g. g = X86_GRP_BRANCH_RELATIVE) (cs_groups c) \<longleftrightarrow> zy_is_branch z"
    using assms(1) by (auto simp: same_insn_def list_ex_iff)
  then have "capstone_rel_imm c = zydis_rel_imm z next"
    using assms by (simp add: same_insn_def capstone_rel_imm_def zydis_rel_imm_def)
  moreover have "capstone_rel_disp c = zydis_rel_disp z next"
    using assms by (simp add: same_insn_def capstone_rel_disp_def zydis_rel_disp_def)
  ultimately show ?thesis
    using assms by (simp add: same_insn_def capstone_insn_def zydis_insn_def)
qed

theorem capstone_zydis_agree_witness:
  "rel_disp (capstone_insn (cs_disasm sample_cs_lib [] 0x401000 ! 1) :: u64 x86_insn) =
     rel_disp (zydis_insn (sample_zy_mov, 0x40100b))"
proof -
  have "same_insn (cs_disasm sample_cs_lib [] 0x401000 ! 1) sample_zy_mov" by code_simp
  moreover have "cs_address (cs_disasm sample_cs_lib [] 0x401000 ! 1) +
      of_nat (cs_size (cs_disasm sample_cs_lib [] 0x401000 ! 1)) = 0x40100b" by code_simp
  ultimately show ?thesis using capstone_zydis_agree by metis
qed

end
