(* ===== verification/FH_Log.thy ===== *)
theory FH_Log
  imports FH_Core
begin

text \<open>
  The debug log and the functions of the public interface, src/src/funchook.c: each function
  logs a line, does its work and logs another line before it returns. Streams of the C library
  are numbers; what is written goes to the end of the file a stream was opened for. A write to
  a stream that is not open, or closing one, is undefined behaviour: the result is \<open>None\<close>.
\<close>

section \<open>Streams and the debug file\<close>

record log_state =
  debug_file :: string
  handle_fp :: "nat option"
  streams :: "nat \<Rightarrow> string option"
  opens :: nat
  files :: "string \<Rightarrow> string"

text \<open>
  \<open>handle_fp\<close> is the member \<open>fp\<close> of the handle. The argument \<open>fopen_ok\<close> of the functions
  below says which calls of \<open>fopen\<close> succeed, by the number of calls before.
\<close>

definition fopen :: "(nat \<Rightarrow> string \<Rightarrow> bool) \<Rightarrow> string \<Rightarrow> log_state \<Rightarrow> nat option \<times> log_state" where
  "fopen fopen_ok name L =
     (if fopen_ok (opens L) name
      then (Some (opens L), L\<lparr>streams := (streams L)(opens L \<mapsto> name), opens := Suc (opens L)\<rparr>)
      else (None, L\<lparr>opens := Suc (opens L)\<rparr>))"

definition fclose :: "nat \<Rightarrow> log_state \<Rightarrow> log_state option" where
  "fclose f L = (if streams L f = None then None else Some (L\<lparr>streams := (streams L)(f := None)\<rparr>))"

definition fputs :: "string \<Rightarrow> nat \<Rightarrow> log_state \<Rightarrow> log_state option" where
  "fputs text f L =
     (case streams L f of
        None \<Rightarrow> None
      | Some name \<Rightarrow> Some (L\<lparr>files := (files L)(name := files L name @ text)\<rparr>))"

definition funchook_set_debug_file :: "string option \<Rightarrow> log_state \<Rightarrow> log_state" where
  "funchook_set_debug_file name L =
     L\<lparr>debug_file := (case name of None \<Rightarrow> [] | Some n \<Rightarrow> take (PATH_MAX - 1) n)\<rparr>"

text \<open>\<open>funchook_logv\<close>; \<open>handle\<close> says whether its first argument is a handle or \<open>NULL\<close>.\<close>

definition log_stream :: "(nat \<Rightarrow> string \<Rightarrow> bool) \<Rightarrow> bool \<Rightarrow> log_state \<Rightarrow> nat option \<times> log_state" where
  "log_stream fopen_ok handle L =
     (if \<not> handle then fopen fopen_ok (debug_file L) L
      else (case handle_fp L of
              None \<Rightarrow> (case fopen fopen_ok (debug_file L) L of (f, L1) \<Rightarrow> (f, L1\<lparr>handle_fp := f\<rparr>))
            | Some f \<Rightarrow> (Some f, L)))"

definition funchook_logv ::
    "(nat \<Rightarrow> string \<Rightarrow> bool) \<Rightarrow> bool \<Rightarrow> bool \<Rightarrow> string \<Rightarrow> log_state \<Rightarrow> log_state option" where
  "funchook_logv fopen_ok handle set_error text L =
     (if debug_file L = [] then Some L
      else (case log_stream fopen_ok handle L of
              (None, L1) \<Rightarrow> Some L1
            | (Some f, L1) \<Rightarrow>
                Option.bind (if set_error then fputs ''  '' f L1 else Some L1) (\<lambda>L2.
                Option.bind (fputs text f L2) (\<lambda>L3.
                Option.bind (if set_error then fputs newline f L3 else Some L3) (\<lambda>L4.
                  if handle then Some L4 else fclose f L4)))))"

definition funchook_log :: "(nat \<Rightarrow> string \<Rightarrow> bool) \<Rightarrow> bool \<Rightarrow> string \<Rightarrow> log_state \<Rightarrow> log_state option" where
  "funchook_log fopen_ok handle text L = funchook_logv fopen_ok handle False text L"

text \<open>Closing the stream of the handle, in \<open>funchook_log_end\<close> and \<open>funchook_destroy_internal\<close>.\<close>

definition close_handle_fp :: "log_state \<Rightarrow> log_state option" where
  "close_handle_fp L =
     (case handle_fp L of
        None \<Rightarrow> Some L
      | Some f \<Rightarrow> map_option (\<lambda>L1. L1\<lparr>handle_fp := None\<rparr>) (fclose f L))"

definition funchook_log_end :: "(nat \<Rightarrow> string \<Rightarrow> bool) \<Rightarrow> bool \<Rightarrow> string \<Rightarrow> log_state \<Rightarrow> log_state option" where
  "funchook_log_end fopen_ok handle text L =
     Option.bind (funchook_logv fopen_ok handle False text L) (\<lambda>L1. if handle then close_handle_fp L1 else Some L1)"

section \<open>The public functions\<close>

text \<open>
  What the internal functions log while they run is an argument \<open>msgs\<close>: each message with
  the flag \<open>set_error\<close>, which is set for the messages of \<open>funchook_set_error_message\<close>.
\<close>

fun log_messages ::
    "(nat \<Rightarrow> string \<Rightarrow> bool) \<Rightarrow> bool \<Rightarrow> (bool \<times> string) list \<Rightarrow> log_state \<Rightarrow> log_state option" where
  "log_messages fopen_ok handle [] L = Some L"
| "log_messages fopen_ok handle ((set_error, text) # msgs) L =
     Option.bind (funchook_logv fopen_ok handle set_error text L) (log_messages fopen_ok handle msgs)"

text \<open>The first and last lines of each function.\<close>

definition enter_create :: string where
  "enter_create = ''Enter funchook_create()'' @ newline"

definition leave_create :: "'a::len word \<Rightarrow> string" where
  "leave_create h = ''Leave funchook_create() => '' @ fmt_p h @ newline"

definition enter_prepare :: "'a::len word \<Rightarrow> 'a word \<Rightarrow> 'a word \<Rightarrow> string" where
  "enter_prepare h tp hook =
     ''Enter funchook_prepare('' @ fmt_p h @ '', '' @ fmt_p tp @ '', '' @ fmt_p hook @ '')'' @ newline"

definition enter_params :: "'a::len word \<Rightarrow> 'a word \<Rightarrow> 'a word funchook_params \<Rightarrow> string" where
  "enter_params h tp params =
     ''Enter funchook_prepare_with_params('' @ fmt_p h @ '', '' @ fmt_p tp @ '', {'' @ fmt_p (p_hook_func params) @
     '', '' @ fmt_p (p_prehook params) @ '', '' @ fmt_p (p_user_data params) @ ''})'' @ newline"

definition leave_prepare :: "string \<Rightarrow> 'a::len word \<Rightarrow> 'a word \<Rightarrow> int \<Rightarrow> string" where
  "leave_prepare name orig new rv =
     ''Leave '' @ name @ ''(..., ['' @ fmt_p orig @ ''->'' @ fmt_p new @ ''],...) => '' @ fmt_d rv @ newline"

definition enter_flags :: "string \<Rightarrow> 'a::len word \<Rightarrow> u32 \<Rightarrow> string" where
  "enter_flags name h flags =
     ''Enter funchook_'' @ name @ ''('' @ fmt_p h @ '', 0x'' @ fmt_x (unat flags) @ '')'' @ newline"

definition enter_destroy :: "'a::len word \<Rightarrow> string" where
  "enter_destroy h = ''Enter funchook_destroy('' @ fmt_p h @ '')'' @ newline"

definition leave_rv :: "string \<Rightarrow> int \<Rightarrow> string" where
  "leave_rv name rv = ''Leave funchook_'' @ name @ ''() => '' @ fmt_d rv @ newline"

definition call_log ::
    "(nat \<Rightarrow> string \<Rightarrow> bool) \<Rightarrow> bool \<Rightarrow> bool \<Rightarrow> string \<Rightarrow> (bool \<times> string) list \<Rightarrow> string \<Rightarrow>
      log_state \<Rightarrow> log_state option" where
  "call_log fopen_ok handle handle_end enter msgs leave L =
     Option.bind (funchook_log fopen_ok handle enter L) (\<lambda>L1.
     Option.bind (log_messages fopen_ok handle msgs L1) (\<lambda>L2.
       funchook_log_end fopen_ok handle_end leave L2))"

text \<open>
  The log of each function, from its arguments and what the internal function returned:
  \<open>tp\<close> is the pointer to the variable \<open>*target_func\<close>, whose value changes from \<open>orig\<close> to
  \<open>new\<close>. A new handle has no stream yet. \<open>funchook_create_internal\<close> logs with the new handle.
\<close>

definition funchook_create_log ::
    "(nat \<Rightarrow> string \<Rightarrow> bool) \<Rightarrow> (bool \<times> string) list \<Rightarrow> 'a::len word \<Rightarrow> log_state \<Rightarrow> log_state option" where
  "funchook_create_log fopen_ok msgs h L =
     Option.bind (funchook_log fopen_ok False enter_create L) (\<lambda>L1.
     Option.bind (log_messages fopen_ok (h \<noteq> 0) msgs L1) (\<lambda>L2.
       funchook_log_end fopen_ok (h \<noteq> 0) (leave_create h) L2))"

definition funchook_prepare_log ::
    "(nat \<Rightarrow> string \<Rightarrow> bool) \<Rightarrow> (bool \<times> string) list \<Rightarrow> 'a::len word \<Rightarrow> 'a word \<Rightarrow> 'a word \<Rightarrow> 'a word \<Rightarrow>
      'a word \<Rightarrow> int \<Rightarrow> log_state \<Rightarrow> log_state option" where
  "funchook_prepare_log fopen_ok msgs h tp hook orig new rv =
     call_log fopen_ok (h \<noteq> 0) (h \<noteq> 0)
       (enter_prepare h tp hook) msgs
       (leave_prepare ''funchook_prepare'' orig new rv)"

definition funchook_prepare_with_params_log ::
    "(nat \<Rightarrow> string \<Rightarrow> bool) \<Rightarrow> (bool \<times> string) list \<Rightarrow> 'a::len word \<Rightarrow> 'a word \<Rightarrow> 'a word funchook_params \<Rightarrow>
      'a word \<Rightarrow> 'a word \<Rightarrow> int \<Rightarrow> log_state \<Rightarrow> log_state option" where
  "funchook_prepare_with_params_log fopen_ok msgs h tp params orig new rv =
     call_log fopen_ok (h \<noteq> 0) (h \<noteq> 0)
       (enter_params h tp params) msgs
       (leave_prepare ''funchook_prepare_with_prehook'' orig new rv)"

definition funchook_install_log ::
    "(nat \<Rightarrow> string \<Rightarrow> bool) \<Rightarrow> (bool \<times> string) list \<Rightarrow> 'a::len word \<Rightarrow> u32 \<Rightarrow> int \<Rightarrow>
      log_state \<Rightarrow> log_state option" where
  "funchook_install_log fopen_ok msgs h flags rv =
     call_log fopen_ok (h \<noteq> 0) (h \<noteq> 0)
       (enter_flags ''install'' h flags) msgs
       (leave_rv ''install'' rv)"

text \<open>\<open>funchook_uninstall\<close> passes \<open>NULL\<close> to \<open>funchook_log_end\<close>.\<close>

definition funchook_uninstall_log ::
    "(nat \<Rightarrow> string \<Rightarrow> bool) \<Rightarrow> (bool \<times> string) list \<Rightarrow> 'a::len word \<Rightarrow> u32 \<Rightarrow> int \<Rightarrow>
      log_state \<Rightarrow> log_state option" where
  "funchook_uninstall_log fopen_ok msgs h flags rv =
     call_log fopen_ok (h \<noteq> 0) False
       (enter_flags ''uninstall'' h flags) msgs
       (leave_rv ''uninstall'' rv)"

text \<open>
  \<open>funchook_destroy\<close>: the internal function closes the stream of the handle before it frees
  it, when it returns 0. The code does not clear \<open>fp\<close>, since the handle is gone; there being no
  handle is \<open>handle_fp = None\<close> here. The model of the log does not keep track of which handles
  exist: a later call on the freed handle, undefined behaviour of the caller, is not made one of
  the library.
\<close>

definition funchook_destroy_log ::
    "(nat \<Rightarrow> string \<Rightarrow> bool) \<Rightarrow> (bool \<times> string) list \<Rightarrow> 'a::len word \<Rightarrow> int \<Rightarrow> log_state \<Rightarrow> log_state option" where
  "funchook_destroy_log fopen_ok msgs h rv L =
     Option.bind (funchook_log fopen_ok (h \<noteq> 0) (enter_destroy h) L) (\<lambda>L1.
     Option.bind (log_messages fopen_ok (h \<noteq> 0) msgs L1) (\<lambda>L2.
     Option.bind (if rv = 0 then close_handle_fp L2 else Some L2) (\<lambda>L3.
       funchook_log_end fopen_ok (rv \<noteq> 0 \<and> h \<noteq> 0) (leave_rv ''destroy'' rv) L3)))"

definition funchook_error_message :: "('a::len word, 'p, 'z) os_state_scheme \<Rightarrow> string" where
  "funchook_error_message s = error_message s"

text \<open>A call on a handle, with what the internal function logs and returns.\<close>

datatype 'ad api_call =
    Prepare "(bool \<times> string) list" 'ad 'ad 'ad 'ad int
  | PrepareWithParams "(bool \<times> string) list" 'ad "'ad funchook_params" 'ad 'ad int
  | Install "(bool \<times> string) list" u32 int
  | Uninstall "(bool \<times> string) list" u32 int
  | Destroy "(bool \<times> string) list" int

fun api_log :: "(nat \<Rightarrow> string \<Rightarrow> bool) \<Rightarrow> 'a::len word \<Rightarrow> 'a word api_call \<Rightarrow> log_state \<Rightarrow> log_state option" where
  "api_log fopen_ok h (Prepare msgs tp hook orig new rv) = funchook_prepare_log fopen_ok msgs h tp hook orig new rv"
| "api_log fopen_ok h (PrepareWithParams msgs tp params orig new rv) =
     funchook_prepare_with_params_log fopen_ok msgs h tp params orig new rv"
| "api_log fopen_ok h (Install msgs flags rv) = funchook_install_log fopen_ok msgs h flags rv"
| "api_log fopen_ok h (Uninstall msgs flags rv) = funchook_uninstall_log fopen_ok msgs h flags rv"
| "api_log fopen_ok h (Destroy msgs rv) = funchook_destroy_log fopen_ok msgs h rv"

fun api_logs :: "(nat \<Rightarrow> string \<Rightarrow> bool) \<Rightarrow> 'a::len word \<Rightarrow> 'a word api_call list \<Rightarrow> log_state \<Rightarrow> log_state option" where
  "api_logs fopen_ok h [] L = Some L"
| "api_logs fopen_ok h (c # cs) L = Option.bind (api_log fopen_ok h c L) (api_logs fopen_ok h cs)"

fun is_uninstall :: "'ad api_call \<Rightarrow> bool" where
  "is_uninstall (Uninstall msgs flags rv) = True"
| "is_uninstall c = False"

section \<open>What the log promises\<close>

text \<open>
  The only stream open between two calls is the one in the handle, and it was opened for the
  debug file.
\<close>

definition log_ok :: "log_state \<Rightarrow> bool" where
  "log_ok L \<longleftrightarrow> (\<forall>f. streams L f = (if handle_fp L = Some f then Some (debug_file L) else None)) \<and>
     (\<forall>f. handle_fp L = Some f \<longrightarrow> f < opens L)"

text \<open>\<open>L'\<close> comes from \<open>L\<close> by writing \<open>text\<close>, or a part of it when \<open>fopen\<close> fails.\<close>

definition logged :: "(nat \<Rightarrow> string \<Rightarrow> bool) \<Rightarrow> string \<Rightarrow> log_state \<Rightarrow> log_state \<Rightarrow> bool" where
  "logged fopen_ok text L L' \<longleftrightarrow> log_ok L' \<and> debug_file L' = debug_file L \<and>
     (debug_file L = [] \<longrightarrow> files L' = files L \<and> (handle_fp L = None \<longrightarrow> handle_fp L' = None)) \<and>
     (debug_file L \<noteq> [] \<and> (\<forall>n name. fopen_ok n name) \<longrightarrow>
        files L' = (files L)(debug_file L := files L (debug_file L) @ text)) \<and>
     (\<forall>name. name \<noteq> debug_file L \<longrightarrow> files L' name = files L name)"

lemma logged_trans:
  "logged fopen_ok t L L1 \<Longrightarrow> logged fopen_ok u L1 L2 \<Longrightarrow> logged fopen_ok (t @ u) L L2"
  by (auto simp: logged_def)

definition message_text :: "bool \<Rightarrow> string \<Rightarrow> string" where
  "message_text set_error text = (if set_error then ''  '' @ text @ newline else text)"

lemma logv_logged:
  assumes "log_ok L"
  shows "\<exists>L'. funchook_logv fopen_ok handle set_error text L = Some L' \<and>
    logged fopen_ok (message_text set_error text) L L' \<and> (\<not> handle \<longrightarrow> handle_fp L' = handle_fp L) \<and>
    (handle \<and> debug_file L \<noteq> [] \<and> (\<forall>n name. fopen_ok n name) \<longrightarrow> handle_fp L' \<noteq> None)"
  using assms
  by (cases "handle_fp L"; cases set_error; cases handle)
    (auto simp: funchook_logv_def log_stream_def fopen_def fputs_def fclose_def logged_def log_ok_def
      message_text_def fun_eq_iff split: option.splits if_splits)

lemma logv_step:
  assumes "logged fopen_ok t L L1"
  obtains L2 where "funchook_logv fopen_ok handle set_error u L1 = Some L2"
    and "logged fopen_ok (t @ message_text set_error u) L L2"
    and "\<not> handle \<Longrightarrow> handle_fp L2 = handle_fp L1"
    and "handle \<and> debug_file L \<noteq> [] \<and> (\<forall>n name. fopen_ok n name) \<Longrightarrow> handle_fp L2 \<noteq> None"
proof -
  have "log_ok L1" and d: "debug_file L1 = debug_file L" using assms by (simp_all add: logged_def)
  from logv_logged [OF this(1), of fopen_ok handle set_error u] that logged_trans [OF assms] d
  show ?thesis by metis
qed

lemmas logv_plain = logv_step [where set_error = False, unfolded message_text_def if_False]

definition messages_text :: "(bool \<times> string) list \<Rightarrow> string" where
  "messages_text msgs = concat (map (\<lambda>(set_error, text). message_text set_error text) msgs)"

lemma log_messages_logged:
  "logged fopen_ok t L L1 \<Longrightarrow> \<exists>L2. log_messages fopen_ok handle msgs L1 = Some L2 \<and>
     logged fopen_ok (t @ messages_text msgs) L L2 \<and> (\<not> handle \<longrightarrow> handle_fp L2 = handle_fp L1) \<and>
     (handle \<and> debug_file L \<noteq> [] \<and> (\<forall>n name. fopen_ok n name) \<and> handle_fp L1 \<noteq> None \<longrightarrow> handle_fp L2 \<noteq> None)"
proof (induction msgs arbitrary: t L1)
  case Nil
  then show ?case by (simp add: messages_text_def)
next
  case (Cons m msgs)
  obtain set_error u where m: "m = (set_error, u)" by (cases m)
  obtain L2 where l: "funchook_logv fopen_ok handle set_error u L1 = Some L2"
    "logged fopen_ok (t @ message_text set_error u) L L2"
    "\<not> handle \<Longrightarrow> handle_fp L2 = handle_fp L1"
    "handle \<and> debug_file L \<noteq> [] \<and> (\<forall>n name. fopen_ok n name) \<Longrightarrow> handle_fp L2 \<noteq> None"
    using logv_step [OF Cons.prems] by metis
  from Cons.IH [OF l(2)] l show ?case
    by (auto simp: m messages_text_def)
qed

lemma close_handle_fp_logged:
  assumes "logged fopen_ok t L L1"
  shows "\<exists>L2. close_handle_fp L1 = Some L2 \<and> logged fopen_ok t L L2 \<and> handle_fp L2 = None"
  using assms
  by (cases "handle_fp L1") (auto simp: close_handle_fp_def fclose_def logged_def log_ok_def fun_eq_iff)

lemma log_end_logged:
  assumes "logged fopen_ok t L L1"
  obtains L2 where "funchook_log_end fopen_ok handle u L1 = Some L2" and "logged fopen_ok (t @ u) L L2"
    and "handle_fp L2 = (if handle then None else handle_fp L1)"
proof -
  obtain L2 where l: "funchook_logv fopen_ok handle False u L1 = Some L2"
    "logged fopen_ok (t @ u) L L2" "\<not> handle \<Longrightarrow> handle_fp L2 = handle_fp L1"
    using logv_plain [OF assms] by metis
  obtain L3 where "close_handle_fp L2 = Some L3" "logged fopen_ok (t @ u) L L3" "handle_fp L3 = None"
    using close_handle_fp_logged [OF l(2)] by blast
  with l that show ?thesis by (cases handle) (simp_all add: funchook_log_end_def)
qed

lemma imp_trans: "(P \<longrightarrow> Q) \<Longrightarrow> (Q \<longrightarrow> R) \<Longrightarrow> P \<longrightarrow> R"
  by simp

lemma logged_start: "log_ok L \<Longrightarrow> logged fopen_ok [] L L"
  by (simp add: logged_def)

lemma call_log_logged:
  assumes "log_ok L"
  obtains L' where "call_log fopen_ok handle handle_end enter msgs leave L = Some L'"
    and "logged fopen_ok (enter @ messages_text msgs @ leave) L L'"
    and "handle_end \<Longrightarrow> handle_fp L' = None"
    and "handle \<and> \<not> handle_end \<and> debug_file L \<noteq> [] \<and> (\<forall>n name. fopen_ok n name) \<Longrightarrow> handle_fp L' \<noteq> None"
proof -
  obtain L1 where l1: "funchook_log fopen_ok handle enter L = Some L1" "logged fopen_ok enter L L1"
    "handle \<and> debug_file L \<noteq> [] \<and> (\<forall>n name. fopen_ok n name) \<Longrightarrow> handle_fp L1 \<noteq> None"
    using logv_plain [OF logged_start [OF assms]] unfolding funchook_log_def append_Nil by metis
  obtain L2 where l2: "log_messages fopen_ok handle msgs L1 = Some L2"
    "logged fopen_ok (enter @ messages_text msgs) L L2"
    "handle \<and> debug_file L \<noteq> [] \<and> (\<forall>n name. fopen_ok n name) \<and> handle_fp L1 \<noteq> None \<Longrightarrow> handle_fp L2 \<noteq> None"
    using log_messages_logged [OF l1(2), of handle msgs] by blast
  obtain L3 where l3: "funchook_log_end fopen_ok handle_end leave L2 = Some L3"
    "logged fopen_ok ((enter @ messages_text msgs) @ leave) L L3"
    "handle_fp L3 = (if handle_end then None else handle_fp L2)"
    by (rule log_end_logged [OF l2(2)])
  show ?thesis
    by (rule that [of L3]) (use l1 l2 l3 in \<open>simp_all add: call_log_def\<close>)
qed

lemma create_log_logged:
  assumes "log_ok L" and "h \<noteq> 0"
  obtains L' where "funchook_create_log fopen_ok msgs h L = Some L'"
    and "logged fopen_ok (enter_create @ messages_text msgs @
      leave_create h) L L'"
    and "handle_fp L' = None"
proof -
  obtain L1 where l1: "funchook_log fopen_ok False enter_create L = Some L1"
    "logged fopen_ok enter_create L L1"
    using logv_plain [OF logged_start [OF assms(1)]] unfolding funchook_log_def append_Nil by metis
  obtain L2 where l2: "log_messages fopen_ok True msgs L1 = Some L2"
    "logged fopen_ok (enter_create @ messages_text msgs) L L2"
    using log_messages_logged [OF l1(2), of True msgs] by blast
  obtain L3 where "funchook_log_end fopen_ok True (leave_create h) L2 = Some L3"
    "logged fopen_ok ((enter_create @ messages_text msgs) @
      leave_create h) L L3"
    "handle_fp L3 = (if True then None else handle_fp L2)"
    by (rule log_end_logged [OF l2(2)])
  then show ?thesis
    by (intro that [of L3]) (use l1 l2 assms(2) in \<open>simp_all add: funchook_create_log_def\<close>)
qed

lemma destroy_log_logged:
  assumes "log_ok L" and "h \<noteq> 0"
  obtains L' where "funchook_destroy_log fopen_ok msgs h rv L = Some L'"
    and "logged fopen_ok (enter_destroy h @ messages_text msgs @
      leave_rv ''destroy'' rv) L L'"
    and "handle_fp L' = None"
proof -
  let ?enter = "enter_destroy h"
  let ?leave = "leave_rv ''destroy'' rv"
  obtain L1 where l1: "funchook_log fopen_ok True ?enter L = Some L1" "logged fopen_ok ?enter L L1"
    using logv_plain [OF logged_start [OF assms(1)]] unfolding funchook_log_def append_Nil by metis
  obtain L2 where l2: "log_messages fopen_ok True msgs L1 = Some L2"
    "logged fopen_ok (?enter @ messages_text msgs) L L2"
    using log_messages_logged [OF l1(2), of True msgs] by blast
  obtain L3 where l3: "(if rv = 0 then close_handle_fp L2 else Some L2) = Some L3"
    "logged fopen_ok (?enter @ messages_text msgs) L L3" "rv = 0 \<Longrightarrow> handle_fp L3 = None"
    using close_handle_fp_logged [OF l2(2)] l2(2) by (cases "rv = 0") auto
  obtain L4 where "funchook_log_end fopen_ok (rv \<noteq> 0) ?leave L3 = Some L4"
    "logged fopen_ok ((?enter @ messages_text msgs) @ ?leave) L L4"
    "handle_fp L4 = (if rv \<noteq> 0 then None else handle_fp L3)"
    by (rule log_end_logged [OF l3(2)])
  then show ?thesis
    by (intro that [of L4]) (use l1 l2 l3 assms(2) in \<open>simp_all add: funchook_destroy_log_def\<close>)
qed

text \<open>The lines a call should leave in the debug file.\<close>

fun api_text :: "'a::len word \<Rightarrow> 'a word api_call \<Rightarrow> string" where
  "api_text h (Prepare msgs tp hook orig new rv) =
     enter_prepare h tp hook @
     messages_text msgs @ leave_prepare ''funchook_prepare'' orig new rv"
| "api_text h (PrepareWithParams msgs tp params orig new rv) =
     enter_params h tp params @
     messages_text msgs @ leave_prepare ''funchook_prepare_with_prehook'' orig new rv"
| "api_text h (Install msgs flags rv) =
     enter_flags ''install'' h flags @
     messages_text msgs @ leave_rv ''install'' rv"
| "api_text h (Uninstall msgs flags rv) =
     enter_flags ''uninstall'' h flags @
     messages_text msgs @ leave_rv ''uninstall'' rv"
| "api_text h (Destroy msgs rv) =
     enter_destroy h @
     messages_text msgs @ leave_rv ''destroy'' rv"

lemma api_log_logged:
  fixes h :: "'a::len word"
  assumes "log_ok L" and "h \<noteq> 0"
  shows "\<exists>L'. api_log fopen_ok h c L = Some L' \<and> logged fopen_ok (api_text h c) L L' \<and>
    (\<not> is_uninstall c \<longrightarrow> handle_fp L' = None) \<and>
    (is_uninstall c \<and> debug_file L \<noteq> [] \<and> (\<forall>n name. fopen_ok n name) \<longrightarrow> handle_fp L' \<noteq> None)"
proof (cases c)
  case (Prepare msgs tp hook orig new rv)
  show ?thesis
    by (rule call_log_logged [OF assms(1), of fopen_ok True True
          "enter_prepare h tp hook" msgs
          "leave_prepare ''funchook_prepare'' orig new rv"])
      (simp add: Prepare funchook_prepare_log_def assms(2))
next
  case (PrepareWithParams msgs tp params orig new rv)
  show ?thesis
    by (rule call_log_logged [OF assms(1), of fopen_ok True True
          "enter_params h tp params" msgs
          "leave_prepare ''funchook_prepare_with_prehook'' orig new rv"])
      (simp add: PrepareWithParams funchook_prepare_with_params_log_def assms(2))
next
  case (Install msgs flags rv)
  show ?thesis
    by (rule call_log_logged [OF assms(1), of fopen_ok True True
          "enter_flags ''install'' h flags" msgs
          "leave_rv ''install'' rv"])
      (simp add: Install funchook_install_log_def assms(2))
next
  case (Uninstall msgs flags rv)
  show ?thesis
    by (rule call_log_logged [OF assms(1), of fopen_ok True False
          "enter_flags ''uninstall'' h flags" msgs
          "leave_rv ''uninstall'' rv"])
      (auto simp: Uninstall funchook_uninstall_log_def assms(2))
next
  case (Destroy msgs rv)
  show ?thesis
    by (rule destroy_log_logged [OF assms, of fopen_ok msgs rv]) (simp add: Destroy)
qed

lemma api_logs_logged:
  fixes h :: "'a::len word"
  assumes "logged fopen_ok t L L1" and "h \<noteq> 0" and "cs = [] \<longrightarrow> handle_fp L1 = None"
  shows "\<exists>L2. api_logs fopen_ok h cs L1 = Some L2 \<and> logged fopen_ok (t @ concat (map (api_text h) cs)) L L2 \<and>
    (cs = [] \<or> \<not> is_uninstall (last cs) \<longrightarrow> handle_fp L2 = None) \<and>
    (cs \<noteq> [] \<and> is_uninstall (last cs) \<and> debug_file L \<noteq> [] \<and> (\<forall>n name. fopen_ok n name) \<longrightarrow> handle_fp L2 \<noteq> None)"
  using assms(1,3)
proof (induction cs arbitrary: t L1)
  case Nil
  then show ?case by simp
next
  case (Cons c cs)
  have L1: "log_ok L1" "debug_file L1 = debug_file L" using Cons.prems(1) by (simp_all add: logged_def)
  obtain L2 where c: "api_log fopen_ok h c L1 = Some L2" "logged fopen_ok (api_text h c) L1 L2"
    "\<not> is_uninstall c \<longrightarrow> handle_fp L2 = None"
    "is_uninstall c \<and> debug_file L1 \<noteq> [] \<and> (\<forall>n name. fopen_ok n name) \<longrightarrow> handle_fp L2 \<noteq> None"
    using api_log_logged [OF L1(1) assms(2), of fopen_ok c] by blast
  note l2 = logged_trans [OF Cons.prems(1) c(2)]
  show ?case
  proof (cases "cs = []")
    case True
    with c l2 L1(2) show ?thesis by simp
  next
    case False
    from Cons.IH [OF l2] False show ?thesis by (simp add: c(1))
  qed
qed

text \<open>
  C40: \<open>log_written_in_order\<close>. From \<open>funchook_create\<close> on, whatever the calls on the handle
  log and return, no function writes to a closed stream or closes one twice, whichever calls of
  \<open>fopen\<close> fail. With a debug file that can be opened, the file gets every line and every error
  message, in order. When a call other than \<open>funchook_uninstall\<close> has returned, no stream is open; after
  \<open>funchook_uninstall\<close> the stream of the handle still is.
\<close>

theorem log_written_in_order:
  fixes h :: "'a::len word"
  assumes "log_ok L" and "h \<noteq> 0"
  shows "\<exists>L1 L2. funchook_create_log fopen_ok msgs h L = Some L1 \<and> api_logs fopen_ok h cs L1 = Some L2 \<and>
    (debug_file L \<noteq> [] \<and> (\<forall>n name. fopen_ok n name) \<longrightarrow>
       files L2 = (files L)(debug_file L := files L (debug_file L) @
         enter_create @ messages_text msgs @ leave_create h @ concat (map (api_text h) cs))) \<and>
    (debug_file L = [] \<longrightarrow> files L2 = files L) \<and>
    (cs = [] \<or> \<not> is_uninstall (last cs) \<longrightarrow> streams L2 = (\<lambda>f. None)) \<and>
    (cs \<noteq> [] \<and> is_uninstall (last cs) \<and> debug_file L \<noteq> [] \<and> (\<forall>n name. fopen_ok n name) \<longrightarrow>
       (\<exists>f. handle_fp L2 = Some f \<and> streams L2 f = Some (debug_file L)))"
proof -
  let ?t = "enter_create @ messages_text msgs @ leave_create h"
  obtain L1 where l1: "funchook_create_log fopen_ok msgs h L = Some L1" "logged fopen_ok ?t L L1" "handle_fp L1 = None"
    by (rule create_log_logged [OF assms])
  have start: "cs = [] \<longrightarrow> handle_fp L1 = None" by (simp add: l1(3))
  obtain L2 where L2: "api_logs fopen_ok h cs L1 = Some L2 \<and>
      logged fopen_ok (?t @ concat (map (api_text h) cs)) L L2 \<and>
      (cs = [] \<or> \<not> is_uninstall (last cs) \<longrightarrow> handle_fp L2 = None) \<and>
      (cs \<noteq> [] \<and> is_uninstall (last cs) \<and> debug_file L \<noteq> [] \<and> (\<forall>n name. fopen_ok n name) \<longrightarrow> handle_fp L2 \<noteq> None)"
    using api_logs_logged [OF l1(2) assms(2) start] by (rule exE)
  note l2 = L2 [THEN conjunct1] and lg = L2 [THEN conjunct2, THEN conjunct1]
    and cl = L2 [THEN conjunct2, THEN conjunct2, THEN conjunct1]
    and op = L2 [THEN conjunct2, THEN conjunct2, THEN conjunct2]
  have ok: "log_ok L2" "debug_file L2 = debug_file L" using lg by (simp_all add: logged_def)
  have c: "handle_fp L2 = None \<longrightarrow> streams L2 = (\<lambda>f. None)"
    using ok(1) by (simp add: log_ok_def fun_eq_iff)
  have closed: "cs = [] \<or> \<not> is_uninstall (last cs) \<longrightarrow> streams L2 = (\<lambda>f. None)"
    by (rule imp_trans [OF cl c])
  have o: "handle_fp L2 \<noteq> None \<longrightarrow> (\<exists>f. handle_fp L2 = Some f \<and> streams L2 f = Some (debug_file L))"
    using ok by (auto simp: log_ok_def)
  have still: "cs \<noteq> [] \<and> is_uninstall (last cs) \<and> debug_file L \<noteq> [] \<and> (\<forall>n name. fopen_ok n name) \<longrightarrow>
      (\<exists>f. handle_fp L2 = Some f \<and> streams L2 f = Some (debug_file L))"
    by (rule imp_trans [OF op o])
  have written: "debug_file L \<noteq> [] \<and> (\<forall>n name. fopen_ok n name) \<longrightarrow>
      files L2 = (files L)(debug_file L := files L (debug_file L) @
        enter_create @ messages_text msgs @ leave_create h @ concat (map (api_text h) cs))"
    and silent: "debug_file L = [] \<longrightarrow> files L2 = files L"
    using lg by (simp_all add: logged_def)
  show ?thesis
    by (intro exI [of _ L1] exI [of _ L2] conjI) (fact l1(1) l2 written silent closed still)+
qed

definition sample_log :: log_state where
  "sample_log = \<lparr>debug_file = ''fh.log'', handle_fp = None, streams = (\<lambda>f. None), opens = 0, files = (\<lambda>name. [])\<rparr>"

theorem log_written_in_order_witness:
  "\<exists>L1 L2. funchook_create_log (\<lambda>n name. True) [] (0x5000 :: u64) sample_log = Some L1 \<and>
     api_logs (\<lambda>n name. True) (0x5000 :: u64) [Uninstall [] 0 10] L1 = Some L2 \<and> (\<exists>f. handle_fp L2 = Some f)"
proof -
  have "log_ok sample_log" "debug_file sample_log \<noteq> []" by (simp_all add: log_ok_def sample_log_def)
  from log_written_in_order [OF this(1), of "0x5000 :: u64" "\<lambda>n name. True" "[]" "[Uninstall [] 0 10]"] this(2)
  show ?thesis by fastforce
qed

text \<open>
  While the stream is open, a new debug file has no effect: the next message still goes to the
  old one.
\<close>

lemma log_to_old_file:
  assumes "handle_fp L = Some f" and "streams L f = Some old" and "new \<noteq> []"
  shows "\<exists>L'. funchook_log fopen_ok True t (funchook_set_debug_file (Some new) L) = Some L' \<and>
    files L' = (files L)(old := files L old @ t)"
proof -
  have "take (PATH_MAX - 1) new \<noteq> []" using assms(3) by (simp add: PATH_MAX_def)
  then show ?thesis
    using assms
    by (simp add: funchook_log_def funchook_logv_def funchook_set_debug_file_def log_stream_def fputs_def)
qed

end
