(* ===== verification/Disasm_Log.thy ===== *)
theory Disasm_Log
  imports Disasm_X86 FH_Log
begin

text \<open>
  What the library logs about instructions: \<open>funchook_disasm_log_instruction\<close> and
  \<open>funchook_disasm_cleanup\<close> of src/src/disasm_capstone.c, disasm_distorm.c and
  disasm_Zydis.c, and \<open>funchook_log_trampoline\<close> of src/src/funchook.c. The texts that the
  libraries make of an instruction are arguments. As in \<open>FH_Log\<close>, undefined behaviour (a write
  outside the array of hexadecimal digits, a stream that is not open) is \<open>None\<close>.
\<close>

section \<open>Conversions\<close>

text \<open>\<open>ADDR_FMT\<close>, \<open>%02d\<close>, \<open>%02x\<close> and \<open>%-24s\<close>.\<close>

definition pad_left :: "nat \<Rightarrow> string \<Rightarrow> string" where
  "pad_left n s = replicate (n - length s) CHR ''0'' @ s"

definition ADDR_FMT :: "'a::len word \<Rightarrow> string" where
  "ADDR_FMT w = pad_left (LENGTH('a) div 4) (fmt_x (unat w))"

definition fmt_02d :: "nat \<Rightarrow> string" where
  "fmt_02d n = pad_left 2 (fmt_nat 10 n)"

definition fmt_02x :: "nat \<Rightarrow> string" where
  "fmt_02x n = pad_left 2 (fmt_x n)"

definition fmt_minus_24s :: "string \<Rightarrow> string" where
  "fmt_minus_24s s = s @ replicate (24 - length s) CHR '' ''"

section \<open>The bytes of an instruction as hexadecimal digits\<close>

definition HEX :: "nat \<Rightarrow> char" where
  "HEX x = (if x < 10 then char_of (x + 48) else char_of (x - 10 + 65))"

abbreviation NUL :: char where "NUL \<equiv> CHR 0x00"

text \<open>The loop over the bytes, writing into the array \<open>hex\<close>.\<close>

fun hex_loop :: "u8 list \<Rightarrow> nat \<Rightarrow> char list \<Rightarrow> char list option" where
  "hex_loop [] i hex = Some hex"
| "hex_loop (b # bs) i hex =
     Option.bind (buf_write (i * 3 + 0) [HEX (unat (drop_bit 4 b))] hex) (\<lambda>hex.
     Option.bind (buf_write (i * 3 + 1) [HEX (unat (b AND 0x0F))] hex) (\<lambda>hex.
     Option.bind (buf_write (i * 3 + 2) [CHR '' ''] hex) (hex_loop bs (i + 1))))"

text \<open>\<open>hex[size * 3 - 1] = 0\<close> is outside the array when \<open>size\<close> is 0.\<close>

definition hex_dump :: "u8 list \<Rightarrow> char list \<Rightarrow> char list option" where
  "hex_dump bs hex =
     Option.bind (hex_loop bs 0 hex) (\<lambda>hex.
       if length bs = 0 then None else buf_write (length bs * 3 - 1) [NUL] hex)"

definition c_string :: "char list \<Rightarrow> string" where
  "c_string = takeWhile (\<lambda>c. c \<noteq> NUL)"

section \<open>The line of an instruction\<close>

definition instruction_line :: "'a::len word \<Rightarrow> nat \<Rightarrow> string \<Rightarrow> string \<Rightarrow> string" where
  "instruction_line addr n hex insn_text =
     ''    '' @ ADDR_FMT addr @ '' ('' @ fmt_02d n @ '') '' @ fmt_minus_24s hex @ '' '' @ insn_text @ newline"

text \<open>
  Capstone: \<open>mnemonic\<close> and \<open>op_str\<close> are members of the instruction. The array has three
  characters for each byte of the member \<open>bytes\<close>; \<open>junk\<close> is what it holds before.
\<close>

definition capstone_log_instruction ::
    "(cs_insn \<Rightarrow> string) \<Rightarrow> (cs_insn \<Rightarrow> string) \<Rightarrow> (nat \<Rightarrow> char) \<Rightarrow> cs_insn \<Rightarrow> 'a::len itself \<Rightarrow> string option" where
  "capstone_log_instruction mnemonic op_str junk insn t =
     map_option (\<lambda>hex. instruction_line (ucast (cs_address insn) :: 'a word) (cs_size insn) (c_string hex)
         (mnemonic insn @ (if op_str insn \<noteq> [] then '' '' else '''') @ op_str insn))
       (hex_dump (take (cs_size insn) (cs_bytes insn)) (map junk [0..<length (cs_bytes insn) * 3]))"

text \<open>distorm: \<open>distorm_format64\<close> gives all parts of the line.\<close>

record d_decoded =
  dec_offset :: u64
  dec_size :: nat
  dec_instructionHex :: string
  dec_mnemonic :: string
  dec_operands :: string

definition distorm_log_instruction :: "(d_insn \<Rightarrow> d_decoded) \<Rightarrow> d_insn \<Rightarrow> 'a::len itself \<Rightarrow> string option" where
  "distorm_log_instruction fmt insn t =
     (let dec = fmt insn
      in Some (instruction_line (ucast (dec_offset dec) :: 'a word) (dec_size dec) (dec_instructionHex dec)
           (dec_mnemonic dec @ (if length (dec_operands dec) \<noteq> 0 then '' '' else '''') @ dec_operands dec)))"

text \<open>
  Zydis: the bytes are read from memory behind the start of the instruction (code and address
  advance together), and the formatter writes the text.
\<close>

definition zydis_log_instruction ::
    "(zy_insn \<Rightarrow> 'a::len word \<Rightarrow> string) \<Rightarrow> (nat \<Rightarrow> char) \<Rightarrow> ('a word \<Rightarrow> u8) \<Rightarrow> zy_insn \<times> 'a word \<Rightarrow> string option" where
  "zydis_log_instruction formatter junk m p =
     (case p of (insn, next) \<Rightarrow>
        let addr = next - of_nat (zy_length insn)
        in map_option (\<lambda>hex. instruction_line addr (zy_length insn) (c_string hex) (formatter insn addr))
             (hex_dump (mem_read m addr (zy_length insn)) (map junk [0..<24 * 3])))"

section \<open>What a disassembler holds\<close>

text \<open>
  Capstone: the number of open handles and of arrays of instructions not yet freed.
  \<open>funchook_disasm_init\<close> closes the handle before it returns an error.
\<close>

record cs_heap =
  cs_handles :: nat
  cs_arrays :: nat

definition cs_close :: "cs_heap \<Rightarrow> cs_heap" where
  "cs_close H = H\<lparr>cs_handles := cs_handles H - 1\<rparr>"

definition capstone_init_heap :: "cs_lib \<Rightarrow> u8 list \<Rightarrow> u64 \<Rightarrow> cs_heap \<Rightarrow> cs_heap" where
  "capstone_init_heap lib code address H =
     (case cs_open_error lib of
        Some err \<Rightarrow> H
      | None \<Rightarrow>
          (let H1 = H\<lparr>cs_handles := cs_handles H + 1\<rparr>
           in case cs_option_error lib of
                Some err \<Rightarrow> cs_close H1
              | None \<Rightarrow> if length (cs_disasm lib code address) = 0 then cs_close H1
                        else H1\<lparr>cs_arrays := cs_arrays H1 + 1\<rparr>))"

definition capstone_disasm_cleanup :: "cs_insn insn_array \<Rightarrow> cs_heap \<Rightarrow> cs_heap" where
  "capstone_disasm_cleanup st H =
     cs_close (if length (ia_insns st) \<noteq> 0 then H\<lparr>cs_arrays := cs_arrays H - 1\<rparr> else H)"

text \<open>distorm and Zydis hold nothing.\<close>

definition distorm_disasm_cleanup :: "d_insn insn_array \<Rightarrow> 'h \<Rightarrow> 'h" where
  "distorm_disasm_cleanup st H = H"

definition zydis_disasm_cleanup :: "'ad zy_state \<Rightarrow> 'h \<Rightarrow> 'h" where
  "zydis_disasm_cleanup st H = H"

section \<open>Logging a trampoline\<close>

primrec log_instructions ::
    "(nat \<Rightarrow> string \<Rightarrow> bool) \<Rightarrow> ('s \<Rightarrow> ('insn \<times> 's) option) \<Rightarrow> ('insn \<Rightarrow> string option) \<Rightarrow> nat \<Rightarrow> 's \<Rightarrow>
      log_state \<Rightarrow> log_state option" where
  "log_instructions fopen_ok disasm_next line 0 st L = None"
| "log_instructions fopen_ok disasm_next line (Suc fuel) st L =
     (case disasm_next st of
        None \<Rightarrow> Some L
      | Some (insn, st') \<Rightarrow>
          Option.bind (line insn) (\<lambda>text.
          Option.bind (funchook_log fopen_ok True text L) (log_instructions fopen_ok disasm_next line fuel st')))"

fun log_words :: "(nat \<Rightarrow> string \<Rightarrow> bool) \<Rightarrow> nat list \<Rightarrow> log_state \<Rightarrow> log_state option" where
  "log_words fopen_ok [] L = Some L"
| "log_words fopen_ok (w # ws) L =
     Option.bind (funchook_log fopen_ok True ('' '' @ fmt_02x w) L) (log_words fopen_ok ws)"

text \<open>
  \<open>funchook_log_trampoline\<close>. \<open>init\<close> is the result of \<open>funchook_disasm_init\<close>, \<open>heap\<close> what the
  disassembler holds after it, \<open>fuel\<close> a bound on the rounds of the loop for a state of the
  disassembler, \<open>words\<close> the words of the trampoline. \<open>funchook_disasm_init\<close> logs its error.
\<close>

definition funchook_log_trampoline ::
    "(nat \<Rightarrow> string \<Rightarrow> bool) \<Rightarrow> 's with_message \<Rightarrow> ('s \<Rightarrow> ('insn \<times> 's) option) \<Rightarrow> ('insn \<Rightarrow> string option) \<Rightarrow>
      ('s \<Rightarrow> 'h \<Rightarrow> 'h) \<Rightarrow> ('h \<Rightarrow> 'h) \<Rightarrow> ('s \<Rightarrow> nat) \<Rightarrow> nat list \<Rightarrow> 'h \<Rightarrow> log_state \<Rightarrow> (log_state \<times> 'h) option" where
  "funchook_log_trampoline fopen_ok init disasm_next line cleanup heap fuel words H L =
     (if debug_file L = [] then Some (L, H)
      else
        Option.bind (funchook_log fopen_ok True (''  Trampoline Instructions:'' @ newline) L) (\<lambda>L1.
          case init of
            Inl (e, msg) \<Rightarrow>
              Option.bind (funchook_logv fopen_ok True True msg L1) (\<lambda>L2.
              Option.bind (funchook_log fopen_ok True (''  Failed to decode trampoline'' @ newline @ ''    '') L2) (\<lambda>L3.
              Option.bind (log_words fopen_ok words L3) (\<lambda>L4.
                map_option (\<lambda>L5. (L5, heap H)) (funchook_log fopen_ok True newline L4))))
          | Inr st \<Rightarrow>
              map_option (\<lambda>L2. (L2, cleanup st (heap H)))
                (log_instructions fopen_ok disasm_next line (fuel st) st L1)))"

definition capstone_log_trampoline ::
    "(nat \<Rightarrow> string \<Rightarrow> bool) \<Rightarrow> cs_lib \<Rightarrow> (cs_insn \<Rightarrow> string) \<Rightarrow> (cs_insn \<Rightarrow> string) \<Rightarrow> (nat \<Rightarrow> char) \<Rightarrow>
      ('a::len word \<Rightarrow> u8) \<Rightarrow> 'a word \<Rightarrow> nat \<Rightarrow> nat list \<Rightarrow> cs_heap \<Rightarrow> log_state \<Rightarrow> (log_state \<times> cs_heap) option" where
  "capstone_log_trampoline fopen_ok lib mnemonic op_str junk m tramp n words =
     funchook_log_trampoline fopen_ok (capstone_disasm_init lib m tramp n) capstone_disasm_next
       (\<lambda>insn. capstone_log_instruction mnemonic op_str junk insn TYPE('a))
       capstone_disasm_cleanup (capstone_init_heap lib (mem_read m tramp n) (ucast tramp))
       (\<lambda>st. Suc (length (ia_insns st))) words"

definition distorm_log_trampoline ::
    "(nat \<Rightarrow> string \<Rightarrow> bool) \<Rightarrow> d_lib \<Rightarrow> (d_insn \<Rightarrow> d_decoded) \<Rightarrow> ('a::len word \<Rightarrow> u8) \<Rightarrow> 'a word \<Rightarrow> nat \<Rightarrow>
      nat list \<Rightarrow> log_state \<Rightarrow> (log_state \<times> unit) option" where
  "distorm_log_trampoline fopen_ok lib fmt m tramp n words =
     funchook_log_trampoline fopen_ok (distorm_disasm_init lib m tramp n) distorm_disasm_next
       (\<lambda>insn. distorm_log_instruction fmt insn TYPE('a)) distorm_disasm_cleanup id
       (\<lambda>st. Suc (length (ia_insns st))) words ()"

definition zydis_log_trampoline ::
    "(nat \<Rightarrow> string \<Rightarrow> bool) \<Rightarrow> zy_lib \<Rightarrow> (zy_insn \<Rightarrow> 'a::len word \<Rightarrow> string) \<Rightarrow> (nat \<Rightarrow> char) \<Rightarrow>
      ('a word \<Rightarrow> u8) \<Rightarrow> 'a word \<Rightarrow> nat \<Rightarrow> nat list \<Rightarrow> log_state \<Rightarrow> (log_state \<times> unit) option" where
  "zydis_log_trampoline fopen_ok lib formatter junk m tramp n words =
     funchook_log_trampoline fopen_ok (zydis_disasm_init lib m tramp n) (zydis_disasm_next lib)
       (zydis_log_instruction formatter junk m) zydis_disasm_cleanup id
       (\<lambda>st. Suc (length (zs_code st))) words ()"

section \<open>The digits\<close>

text \<open>The two digits of a byte, written without bit operations.\<close>

definition hex_byte :: "u8 \<Rightarrow> string" where
  "hex_byte b = [''0123456789ABCDEF'' ! (unat b div 16), ''0123456789ABCDEF'' ! (unat b mod 16)]"

lemma HEX_digit: "x < 16 \<Longrightarrow> HEX x = ''0123456789ABCDEF'' ! x \<and> HEX x \<noteq> NUL"
proof -
  assume "x < 16"
  moreover have "list_all (\<lambda>x. HEX x = ''0123456789ABCDEF'' ! x \<and> HEX x \<noteq> NUL) [0..<16]" by code_simp
  moreover have "x \<in> set [0..<16] \<longleftrightarrow> x < 16" by simp
  ultimately show ?thesis unfolding list_all_iff by blast
qed

lemma hex_byte_digits: "hex_byte b = [HEX (unat (drop_bit 4 b)), HEX (unat (b AND 0x0F))]"
proof -
  have "b AND 0x0F = take_bit 4 b" by (simp add: take_bit_eq_mask mask_eq_exp_minus_1)
  then have "unat (b AND 0x0F) = unat b mod 16"
    by (simp only: unsigned_take_bit_eq) (simp add: take_bit_eq_mod)
  moreover have "unat (drop_bit 4 b) = unat b div 16" and "unat b div 16 < 16"
    using unsigned_less [of b, where 'a = nat] by (simp_all add: drop_bit_eq_div unat_div)
  ultimately show ?thesis by (simp add: hex_byte_def HEX_digit)
qed

text \<open>The reference: the digits of all bytes, separated by spaces.\<close>

fun hex_text :: "u8 list \<Rightarrow> string" where
  "hex_text [] = []"
| "hex_text [b] = hex_byte b"
| "hex_text (b # bs) = hex_byte b @ '' '' @ hex_text bs"

lemma hex_loop_eq:
  "length pre = i * 3 \<Longrightarrow> length a = length bs * 3 \<Longrightarrow>
     hex_loop bs i (pre @ a @ post) = Some (pre @ concat (map (\<lambda>b. hex_byte b @ '' '') bs) @ post)"
proof (induction bs arbitrary: i pre a)
  case (Cons b bs)
  then obtain x y z a' where a: "a = x # y # z # a'" and l: "length a' = length bs * 3"
    by (auto simp: length_Suc_conv eval_nat_numeral)
  have "hex_loop (b # bs) i (pre @ a @ post) = hex_loop bs (Suc i) ((pre @ hex_byte b @ '' '') @ a' @ post)"
    using Cons.prems(1) by (simp add: a buf_write_def hex_byte_digits)
  also have "\<dots> = Some ((pre @ hex_byte b @ '' '') @ concat (map (\<lambda>b. hex_byte b @ '' '') bs) @ post)"
    using Cons.prems(1) l by (intro Cons.IH) (simp_all add: hex_byte_def)
  finally show ?case by simp
qed simp

lemma hex_text_concat:
  "bs \<noteq> [] \<Longrightarrow> hex_text bs @ '' '' = concat (map (\<lambda>b. hex_byte b @ '' '') bs)"
  by (induction bs rule: hex_text.induct) simp_all

lemma length_hex_text: "bs \<noteq> [] \<Longrightarrow> length (hex_text bs) = length bs * 3 - 1"
  by (induction bs rule: hex_text.induct) (simp_all add: hex_byte_def)

lemma hex_byte_not_NUL: "NUL \<notin> set (hex_byte b)"
proof -
  have "unat b div 16 < 16" using unsigned_less [of b, where 'a = nat] by simp
  then show ?thesis
    using HEX_digit [of "unat b div 16"] HEX_digit [of "unat b mod 16"] by (auto simp: hex_byte_def)
qed

lemma hex_text_not_NUL: "NUL \<notin> set (hex_text bs)"
  using hex_byte_not_NUL by (induction bs rule: hex_text.induct) auto

text \<open>The array is large enough for every instruction that has at least one byte.\<close>

lemma hex_dump_text:
  assumes "bs \<noteq> []" and "length bs * 3 \<le> length hex"
  shows "\<exists>hex'. hex_dump bs hex = Some hex' \<and> c_string hex' = hex_text bs"
proof -
  define a post where "a = take (length bs * 3) hex" and "post = drop (length bs * 3) hex"
  have hex: "hex = [] @ a @ post" and l: "length a = length bs * 3"
    using assms(2) by (simp_all add: a_def post_def)
  have "hex_loop bs 0 hex = Some ((hex_text bs @ '' '') @ post)"
    using hex_loop_eq [OF _ l, of "[]" 0 post] assms(1) by (simp add: hex hex_text_concat)
  moreover have "buf_write (length bs * 3 - 1) [NUL] ((hex_text bs @ '' '') @ post) = Some (hex_text bs @ [NUL] @ post)"
  proof -
    obtain k where k: "length bs * 3 = Suc k" using assms(1) by (cases bs) auto
    with length_hex_text [OF assms(1)] have "length (hex_text bs) = k" by simp
    then show ?thesis by (simp add: buf_write_def k)
  qed
  moreover have "c_string (hex_text bs @ [NUL] @ post) = hex_text bs"
    using hex_text_not_NUL [of bs] by (simp add: c_string_def takeWhile_append)
  ultimately show ?thesis
    using assms(1) by (simp add: hex_dump_def)
qed

section \<open>What is written\<close>

text \<open>The line of an instruction at \<open>addr\<close> with the bytes \<open>bs\<close>.\<close>

definition logged_line :: "'a::len word \<Rightarrow> u8 list \<Rightarrow> string \<Rightarrow> string" where
  "logged_line addr bs insn_text = instruction_line addr (length bs) (hex_text bs) insn_text"

lemma capstone_line:
  assumes "0 < cs_size insn" and "cs_size insn \<le> length (cs_bytes insn)"
  shows "capstone_log_instruction mnemonic op_str junk insn TYPE('a::len) =
    Some (logged_line (ucast (cs_address insn) :: 'a word) (take (cs_size insn) (cs_bytes insn))
      (mnemonic insn @ (if op_str insn \<noteq> [] then '' '' else '''') @ op_str insn))"
proof -
  have "take (cs_size insn) (cs_bytes insn) \<noteq> []" using assms by auto
  from hex_dump_text [OF this, of "map junk [0..<length (cs_bytes insn) * 3]"] assms
  show ?thesis by (auto simp: capstone_log_instruction_def logged_line_def min_def)
qed

lemma zydis_line:
  assumes "0 < zy_length insn" and "zy_length insn \<le> 24"
  shows "zydis_log_instruction formatter junk m (insn, next) =
    Some (logged_line (next - of_nat (zy_length insn)) (mem_read m (next - of_nat (zy_length insn)) (zy_length insn))
      (formatter insn (next - of_nat (zy_length insn))))"
proof -
  let ?bs = "mem_read m (next - of_nat (zy_length insn)) (zy_length insn)"
  have "?bs \<noteq> []" using assms(1) by (simp add: mem_read_def)
  from hex_dump_text [OF this, of "map junk [0..<24 * 3]"] assms(2)
  show ?thesis by (auto simp: zydis_log_instruction_def logged_line_def Let_def)
qed

text \<open>The lines of a list of instructions.\<close>

fun log_lines ::
    "(nat \<Rightarrow> string \<Rightarrow> bool) \<Rightarrow> ('insn \<Rightarrow> string option) \<Rightarrow> 'insn list \<Rightarrow> log_state \<Rightarrow> log_state option" where
  "log_lines fopen_ok line [] L = Some L"
| "log_lines fopen_ok line (i # is) L =
     Option.bind (line i) (\<lambda>text. Option.bind (funchook_log fopen_ok True text L) (log_lines fopen_ok line is))"

lemma log_instructions_drain:
  "drain disasm_next fuel st = Some is \<Longrightarrow>
     log_instructions fopen_ok disasm_next line fuel st L = log_lines fopen_ok line is L"
proof (induction fuel arbitrary: st "is" L)
  case (Suc fuel)
  show ?case
  proof (cases "disasm_next st")
    case None
    with Suc.prems show ?thesis by auto
  next
    case (Some p)
    then obtain i st' where p: "disasm_next st = Some (i, st')" by (cases p) auto
    with Suc.prems obtain is' where d: "drain disasm_next fuel st' = Some is'" "is = i # is'" by auto
    from Suc.IH [OF d(1)] have "log_instructions fopen_ok disasm_next line fuel st' = log_lines fopen_ok line is'"
      by blast
    with p d(2) show ?thesis by simp
  qed
qed simp

lemma log_lines_logged:
  assumes "\<And>i. i \<in> set is \<Longrightarrow> line i = Some (text_of i)"
  shows "logged fopen_ok t L L1 \<Longrightarrow> \<exists>L2. log_lines fopen_ok line is L1 = Some L2 \<and>
    logged fopen_ok (t @ concat (map text_of is)) L L2"
  using assms
proof (induction "is" arbitrary: t L1)
  case (Cons i "is")
  obtain L2 where l: "funchook_log fopen_ok True (text_of i) L1 = Some L2" "logged fopen_ok (t @ text_of i) L L2"
    using logv_plain [OF Cons.prems(1)] unfolding funchook_log_def by metis
  from Cons.IH [OF l(2)] Cons.prems(2) l(1) show ?case by simp
qed simp

lemma log_words_logged:
  "logged fopen_ok t L L1 \<Longrightarrow> \<exists>L2. log_words fopen_ok ws L1 = Some L2 \<and>
     logged fopen_ok (t @ concat (map (\<lambda>w. '' '' @ fmt_02x w) ws)) L L2"
proof (induction ws arbitrary: t L1)
  case (Cons w ws)
  obtain L2 where l: "funchook_log fopen_ok True ('' '' @ fmt_02x w) L1 = Some L2"
    "logged fopen_ok (t @ '' '' @ fmt_02x w) L L2"
    using logv_plain [OF Cons.prems] unfolding funchook_log_def by metis
  from Cons.IH [OF l(2)] l(1) show ?case by auto
qed simp

text \<open>What a trampoline adds to the log, for any back end.\<close>

definition trampoline_text :: "'s with_message \<Rightarrow> string list \<Rightarrow> nat list \<Rightarrow> string" where
  "trampoline_text init insn_lines words =
     ''  Trampoline Instructions:'' @ newline @
     (case init of
        Inl (e, msg) \<Rightarrow> message_text True msg @ ''  Failed to decode trampoline'' @ newline @ ''    '' @
          concat (map (\<lambda>w. '' '' @ fmt_02x w) words) @ newline
      | Inr st \<Rightarrow> concat insn_lines)"

lemma log_trampoline_logged:
  assumes "log_ok L"
    and "\<And>st. init = Inr st \<Longrightarrow> drain disasm_next (fuel st) st = Some insns"
    and "\<And>st i. init = Inr st \<Longrightarrow> i \<in> set insns \<Longrightarrow> line i = Some (text_of i)"
  shows "\<exists>L'. funchook_log_trampoline fopen_ok init disasm_next line cleanup heap fuel words H L =
      Some (L', if debug_file L = [] then H else case init of Inl e \<Rightarrow> heap H | Inr st \<Rightarrow> cleanup st (heap H)) \<and>
    (debug_file L = [] \<longrightarrow> L' = L) \<and>
    logged fopen_ok (trampoline_text init (map text_of insns) words) L L'"
proof (cases "debug_file L = []")
  case True
  then show ?thesis using assms(1) by (simp add: funchook_log_trampoline_def logged_def)
next
  case False
  let ?title = "''  Trampoline Instructions:'' @ newline"
  obtain L1 where l1: "funchook_log fopen_ok True ?title L = Some L1" "logged fopen_ok ?title L L1"
    using logv_plain [OF logged_start [OF assms(1)]] unfolding funchook_log_def append_Nil by metis
  show ?thesis
  proof (cases init)
    case (Inr st)
    obtain L2 where l2: "log_lines fopen_ok line insns L1 = Some L2"
      "logged fopen_ok (?title @ concat (map text_of insns)) L L2"
      using log_lines_logged [OF _ l1(2), of insns line text_of] assms(3) [OF Inr] by blast
    show ?thesis
      using False l1(1) l2 log_instructions_drain [OF assms(2) [OF Inr], of fopen_ok line L1]
      by (intro exI [of _ L2]) (simp add: funchook_log_trampoline_def Inr trampoline_text_def)
  next
    case (Inl p)
    obtain e msg where p: "p = (e, msg)" by (cases p)
    let ?failed = "''  Failed to decode trampoline'' @ newline @ ''    ''"
    obtain L2 where l2: "funchook_logv fopen_ok True True msg L1 = Some L2"
      "logged fopen_ok (?title @ message_text True msg) L L2"
      using logv_step [OF l1(2), of True True msg] by metis
    obtain L3 where l3: "funchook_log fopen_ok True ?failed L2 = Some L3"
      "logged fopen_ok ((?title @ message_text True msg) @ ?failed) L L3"
      using logv_plain [OF l2(2)] unfolding funchook_log_def by metis
    obtain L4 where l4: "log_words fopen_ok words L3 = Some L4"
      "logged fopen_ok (((?title @ message_text True msg) @ ?failed) @ concat (map (\<lambda>w. '' '' @ fmt_02x w) words)) L L4"
      using log_words_logged [OF l3(2), of words] by blast
    obtain L5 where l5: "funchook_log fopen_ok True newline L4 = Some L5"
      "logged fopen_ok ((((?title @ message_text True msg) @ ?failed) @
        concat (map (\<lambda>w. '' '' @ fmt_02x w) words)) @ newline) L L5"
      using logv_plain [OF l4(2)] unfolding funchook_log_def by metis
    show ?thesis
      using False l1(1) l2(1) l3(1) l4(1) l5
      by (intro exI [of _ L5]) (simp add: funchook_log_trampoline_def Inl p trampoline_text_def)
  qed
qed

section \<open>Each back end\<close>

text \<open>Capstone gives back what it has taken, whether \<open>funchook_disasm_init\<close> fails or not.\<close>

lemma capstone_heap_balanced:
  "(case capstone_disasm_init lib m code n of
      Inl e \<Rightarrow> capstone_init_heap lib (mem_read m code n) (ucast code) H
    | Inr st \<Rightarrow> capstone_disasm_cleanup st (capstone_init_heap lib (mem_read m code n) (ucast code) H)) = H"
  by (simp add: capstone_disasm_init_def capstone_init_heap_def capstone_disasm_cleanup_def cs_close_def Let_def
      split: option.split)

definition cs_bytes_ok :: "cs_insn \<Rightarrow> bool" where
  "cs_bytes_ok insn \<longleftrightarrow> 0 < cs_size insn \<and> cs_size insn \<le> length (cs_bytes insn)"

definition capstone_line_text :: "(cs_insn \<Rightarrow> string) \<Rightarrow> (cs_insn \<Rightarrow> string) \<Rightarrow> 'a::len itself \<Rightarrow> cs_insn \<Rightarrow> string" where
  "capstone_line_text mnemonic op_str t insn =
     logged_line (ucast (cs_address insn) :: 'a word) (take (cs_size insn) (cs_bytes insn))
       (mnemonic insn @ (if op_str insn \<noteq> [] then '' '' else '''') @ op_str insn)"

lemma capstone_trampoline_log:
  fixes m :: "'a::len word \<Rightarrow> u8"
  assumes "log_ok L" and "list_all cs_bytes_ok (cs_disasm lib (mem_read m tramp n) (ucast tramp))"
  shows "\<exists>L'. capstone_log_trampoline fopen_ok lib mnemonic op_str junk m tramp n words H L = Some (L', H) \<and>
    (debug_file L = [] \<longrightarrow> L' = L) \<and>
    logged fopen_ok (trampoline_text (capstone_disasm_init lib m tramp n)
      (map (capstone_line_text mnemonic op_str TYPE('a)) (cs_disasm lib (mem_read m tramp n) (ucast tramp))) words) L L'"
proof -
  let ?is = "cs_disasm lib (mem_read m tramp n) (ucast tramp)"
  have r: "remaining st = ?is" if "capstone_disasm_init lib m tramp n = Inr st" for st
    using that by (auto simp: capstone_disasm_init_def remaining_def Let_def split: option.splits if_splits)
  have d: "drain capstone_disasm_next (Suc (length (ia_insns st))) st = Some ?is"
    if "capstone_disasm_init lib m tramp n = Inr st" for st
    using capstone.drain_rest [of st "Suc (length (ia_insns st))"] r [OF that]
    by (simp add: remaining_def less_Suc_eq_le del: drain.simps)
  have l: "capstone_log_instruction mnemonic op_str junk i TYPE('a) = Some (capstone_line_text mnemonic op_str TYPE('a) i)"
    if "i \<in> set ?is" for i
    using assms(2) that by (simp add: list_all_iff cs_bytes_ok_def capstone_line capstone_line_text_def)
  from log_trampoline_logged [OF assms(1), where init = "capstone_disasm_init lib m tramp n"
      and disasm_next = capstone_disasm_next and fuel = "\<lambda>st. Suc (length (ia_insns st))" and insns = ?is
      and line = "\<lambda>insn. capstone_log_instruction mnemonic op_str junk insn TYPE('a)", OF d l,
      of fopen_ok capstone_disasm_cleanup "capstone_init_heap lib (mem_read m tramp n) (ucast tramp)" words H]
    capstone_heap_balanced [of lib m tramp n H]
  show ?thesis by (auto simp: capstone_log_trampoline_def)
qed

definition distorm_line_text :: "(d_insn \<Rightarrow> d_decoded) \<Rightarrow> 'a::len itself \<Rightarrow> d_insn \<Rightarrow> string" where
  "distorm_line_text fmt t insn =
     instruction_line (ucast (dec_offset (fmt insn)) :: 'a word) (dec_size (fmt insn)) (dec_instructionHex (fmt insn))
       (dec_mnemonic (fmt insn) @ (if dec_operands (fmt insn) \<noteq> [] then '' '' else '''') @ dec_operands (fmt insn))"

definition distorm_insns :: "d_lib \<Rightarrow> ('a::len word \<Rightarrow> u8) \<Rightarrow> 'a word \<Rightarrow> nat \<Rightarrow> d_insn list" where
  "distorm_insns lib m tramp n =
     (case d_decompose lib (mem_read m tramp n) (ucast tramp) of Inl e \<Rightarrow> [] | Inr insns \<Rightarrow> insns)"

lemma distorm_trampoline_log:
  fixes m :: "'a::len word \<Rightarrow> u8"
  assumes "log_ok L"
  shows "\<exists>L'. distorm_log_trampoline fopen_ok lib fmt m tramp n words L = Some (L', ()) \<and>
    (debug_file L = [] \<longrightarrow> L' = L) \<and>
    logged fopen_ok (trampoline_text (distorm_disasm_init lib m tramp n)
      (map (distorm_line_text fmt TYPE('a)) (distorm_insns lib m tramp n)) words) L L'"
proof -
  let ?is = "distorm_insns lib m tramp n"
  have r: "remaining st = ?is" if "distorm_disasm_init lib m tramp n = Inr st" for st
    using that by (auto simp: distorm_disasm_init_def distorm_insns_def remaining_def split: sum.splits)
  have d: "drain distorm_disasm_next (Suc (length (ia_insns st))) st = Some ?is"
    if "distorm_disasm_init lib m tramp n = Inr st" for st
    using distorm.drain_rest [of st "Suc (length (ia_insns st))"] r [OF that]
    by (simp add: remaining_def less_Suc_eq_le del: drain.simps)
  have l: "distorm_log_instruction fmt i TYPE('a) = Some (distorm_line_text fmt TYPE('a) i)" for i
    by (simp add: distorm_log_instruction_def distorm_line_text_def Let_def)
  from log_trampoline_logged [OF assms(1), where init = "distorm_disasm_init lib m tramp n"
      and disasm_next = distorm_disasm_next and fuel = "\<lambda>st. Suc (length (ia_insns st))" and insns = ?is
      and line = "\<lambda>insn. distorm_log_instruction fmt insn TYPE('a)", OF d l,
      of fopen_ok distorm_disasm_cleanup id words "()"]
  show ?thesis by (auto simp: distorm_log_trampoline_def)
qed

definition zydis_line_text ::
    "(zy_insn \<Rightarrow> 'a::len word \<Rightarrow> string) \<Rightarrow> ('a word \<Rightarrow> u8) \<Rightarrow> zy_insn \<times> 'a word \<Rightarrow> string" where
  "zydis_line_text formatter m p =
     (let addr = snd p - of_nat (zy_length (fst p))
      in logged_line addr (mem_read m addr (zy_length (fst p))) (formatter (fst p) addr))"

lemma zydis_trampoline_log:
  fixes m :: "'a::len word \<Rightarrow> u8"
  assumes "log_ok L" and "zy_lib_ok lib"
  shows "\<exists>L' d. drain (zydis_disasm_next lib) (Suc n) \<lparr>zs_code = mem_read m tramp n, zs_next_address = tramp\<rparr> = Some d \<and>
    zydis_log_trampoline fopen_ok lib formatter junk m tramp n words L = Some (L', ()) \<and>
    (debug_file L = [] \<longrightarrow> L' = L) \<and>
    logged fopen_ok (trampoline_text (zydis_disasm_init lib m tramp n) (map (zydis_line_text formatter m) d) words) L L'"
proof -
  let ?st = "\<lparr>zs_code = mem_read m tramp n, zs_next_address = tramp\<rparr>"
  obtain d where dr: "drain (zydis_disasm_next lib) (Suc n) ?st = Some d"
    and ok: "list_all (\<lambda>p. zy_insn_ok n (fst p)) d"
    using zydis_drain [OF assms(2), of ?st "Suc n"] by auto
  have d: "drain (zydis_disasm_next lib) (Suc (length (zs_code st))) st = Some d"
    if "zydis_disasm_init lib m tramp n = Inr st" for st
    using that dr by (auto simp: zydis_disasm_init_def simp del: drain.simps split: if_splits)
  have l: "zydis_log_instruction formatter junk m p = Some (zydis_line_text formatter m p)" if "p \<in> set d" for p
    using ok that by (cases p) (auto simp: list_all_iff zy_insn_ok_def zydis_line zydis_line_text_def Let_def)
  from log_trampoline_logged [OF assms(1), where init = "zydis_disasm_init lib m tramp n"
      and disasm_next = "zydis_disasm_next lib" and fuel = "\<lambda>st. Suc (length (zs_code st))" and insns = d
      and line = "zydis_log_instruction formatter junk m", OF d l,
      of fopen_ok zydis_disasm_cleanup id words "()"] dr
  show ?thesis by (auto simp: zydis_log_trampoline_def simp del: drain.simps)
qed

text \<open>
  C23: \<open>trampoline_log_complete\<close>. When the debug log is switched on and its file can be opened,
  \<open>funchook_log_trampoline\<close> appends to it, with each of the three disassemblers, a title and
  one line for every decoded instruction in order, with its address, its length, all its bytes
  in hexadecimal digits and the text of the library; or the reason why nothing could be decoded
  and the words of the trampoline. The array for the digits is never overrun, no other file
  changes, and every resource taken from Capstone is given back.
\<close>

theorem trampoline_log_complete:
  fixes m :: "'a::len word \<Rightarrow> u8"
  assumes "log_ok L" and "debug_file L \<noteq> []" and "\<And>k name. fopen_ok k name"
    and "list_all cs_bytes_ok (cs_disasm cl (mem_read m tramp n) (ucast tramp))" and "zy_lib_ok zl"
  shows "(\<exists>L'. capstone_log_trampoline fopen_ok cl mnemonic op_str junk m tramp n words H L = Some (L', H) \<and>
      files L' = (files L)(debug_file L := files L (debug_file L) @
        trampoline_text (capstone_disasm_init cl m tramp n)
          (map (capstone_line_text mnemonic op_str TYPE('a)) (cs_disasm cl (mem_read m tramp n) (ucast tramp))) words)) \<and>
    (\<exists>L'. distorm_log_trampoline fopen_ok dl fmt m tramp n words L = Some (L', ()) \<and>
      files L' = (files L)(debug_file L := files L (debug_file L) @
        trampoline_text (distorm_disasm_init dl m tramp n)
          (map (distorm_line_text fmt TYPE('a)) (distorm_insns dl m tramp n)) words)) \<and>
    (\<exists>L' d. drain (zydis_disasm_next zl) (Suc n) \<lparr>zs_code = mem_read m tramp n, zs_next_address = tramp\<rparr> = Some d \<and>
      zydis_log_trampoline fopen_ok zl formatter junk m tramp n words L = Some (L', ()) \<and>
      files L' = (files L)(debug_file L := files L (debug_file L) @
        trampoline_text (zydis_disasm_init zl m tramp n) (map (zydis_line_text formatter m) d) words))"
proof -
  have f: "files L' = (files L)(debug_file L := files L (debug_file L) @ t)" if "logged fopen_ok t L L'" for t L'
    using that assms(2,3) by (simp add: logged_def)
  show ?thesis
    using capstone_trampoline_log [OF assms(1,4), of fopen_ok mnemonic op_str junk words H]
      distorm_trampoline_log [OF assms(1), of fopen_ok dl fmt m tramp n words]
      zydis_trampoline_log [OF assms(1,5), of n m tramp fopen_ok formatter junk words] f
    by (intro conjI) (elim exE conjE; intro exI conjI; assumption | blast)+
qed

text \<open>A trampoline of two instructions: \<open>push rbp\<close> and \<open>mov rbp, rsp\<close>.\<close>

definition log_mem :: "u64 \<Rightarrow> u8" where
  "log_mem a = (if a = 0x58 then 0x55 else if a = 0x59 then 0x48 else if a = 0x5a then 0x89
     else if a = 0x5b then 0xe5 else 0x90)"

definition log_cs_insn :: "u64 \<Rightarrow> u8 list \<Rightarrow> cs_insn" where
  "log_cs_insn a bs =
     \<lparr>cs_address = a, cs_size = length bs, cs_bytes = bs, cs_groups = [], cs_imm_offset = 0, cs_imm_size = 0,
      cs_disp_offset = 0, cs_disp_size = 0, cs_disp = 0, cs_operands = []\<rparr>"

definition log_cs_lib :: cs_lib where
  "log_cs_lib = \<lparr>cs_open_error = None, cs_option_error = None,
     cs_disasm = \<lambda>bs a. [log_cs_insn a [0x55], log_cs_insn (a + 1) [0x48, 0x89, 0xe5]], cs_errno_text = []\<rparr>"

definition log_zy_lib :: zy_lib where
  "log_zy_lib = \<lparr>zy_version_built = 4, zy_version = 4, zy_decode = \<lambda>bs. None\<rparr>"

definition log_d_lib :: d_lib where
  "log_d_lib = \<lparr>d_decompose = \<lambda>bs a. Inl 5, d_target = \<lambda>i. 0\<rparr>"

definition log_start :: log_state where
  "log_start = \<lparr>debug_file = ''log'', handle_fp = None, streams = \<lambda>f. None, opens = 0, files = \<lambda>f. []\<rparr>"

definition log_mnemonic :: "cs_insn \<Rightarrow> string" where
  "log_mnemonic i = (if cs_size i = 1 then ''push'' else ''mov'')"

definition log_op_str :: "cs_insn \<Rightarrow> string" where
  "log_op_str i = (if cs_size i = 1 then ''rbp'' else ''rbp, rsp'')"

theorem trampoline_log_complete_witness:
  "\<exists>L'. capstone_log_trampoline (\<lambda>k name. True) log_cs_lib log_mnemonic log_op_str (\<lambda>i. CHR ''?'') log_mem 0x58 4 []
       \<lparr>cs_handles = 0, cs_arrays = 0\<rparr> log_start = Some (L', \<lparr>cs_handles = 0, cs_arrays = 0\<rparr>) \<and>
     files L' ''log'' = ''  Trampoline Instructions:'' @ newline @
       ''    0000000000000058 (01) 55                       push rbp'' @ newline @
       ''    0000000000000059 (03) 48 89 E5                 mov rbp, rsp'' @ newline"
proof -
  have ok: "log_ok log_start" "debug_file log_start \<noteq> []" "zy_lib_ok log_zy_lib"
    by (simp_all add: log_ok_def log_start_def zy_lib_ok_def log_zy_lib_def)
  have cs: "list_all cs_bytes_ok (cs_disasm log_cs_lib (mem_read log_mem 0x58 4) (ucast (0x58 :: u64)))"
    by code_simp
  note tlc = trampoline_log_complete [where fopen_ok = "\<lambda>k name. True" and mnemonic = log_mnemonic
      and op_str = log_op_str and junk = "\<lambda>i. CHR ''?''" and words = "[]" and H = "\<lparr>cs_handles = 0, cs_arrays = 0\<rparr>"
      and dl = log_d_lib, OF ok(1,2) TrueI cs ok(3)]
  obtain L' where l: "capstone_log_trampoline (\<lambda>k name. True) log_cs_lib log_mnemonic log_op_str (\<lambda>i. CHR ''?'')
      log_mem 0x58 4 [] \<lparr>cs_handles = 0, cs_arrays = 0\<rparr> log_start = Some (L', \<lparr>cs_handles = 0, cs_arrays = 0\<rparr>)"
    and f: "files L' = (files log_start)(debug_file log_start := files log_start (debug_file log_start) @
        trampoline_text (capstone_disasm_init log_cs_lib log_mem 0x58 4)
          (map (capstone_line_text log_mnemonic log_op_str TYPE(64))
            (cs_disasm log_cs_lib (mem_read log_mem 0x58 4) (ucast (0x58 :: u64)))) [])"
    using tlc by blast
  have "trampoline_text (capstone_disasm_init log_cs_lib log_mem 0x58 4)
          (map (capstone_line_text log_mnemonic log_op_str TYPE(64))
            (cs_disasm log_cs_lib (mem_read log_mem 0x58 4) (ucast (0x58 :: u64)))) [] =
      ''  Trampoline Instructions:'' @ newline @
       ''    0000000000000058 (01) 55                       push rbp'' @ newline @
       ''    0000000000000059 (03) 48 89 E5                 mov rbp, rsp'' @ newline"
    by code_simp
  with f have "files L' ''log'' = ''  Trampoline Instructions:'' @ newline @
       ''    0000000000000058 (01) 55                       push rbp'' @ newline @
       ''    0000000000000059 (03) 48 89 E5                 mov rbp, rsp'' @ newline"
    by (simp add: log_start_def)
  with l show ?thesis by blast
qed

end
