(* ===== verification/FH_Destroy.thy ===== *)
theory FH_Destroy
  imports FH_Installed
begin

text \<open>
  \<open>funchook_destroy\<close> over a system layer that keeps books on the pages it has handed out and
  can only release those: the pages of a handle are always among them, so that releasing them
  all is safe.
\<close>

section \<open>A layer that keeps books\<close>

text \<open>
  \<open>owned s p\<close> says that the page \<open>p\<close> has been handed out. Every operation keeps what has been
  handed out: together with \<open>os_ok\<close> it is again the invariant of a system layer.
\<close>

locale owning_os = os_layer os os_ok
  for os :: "('a::len word, 'd, 'ms, ('a word, 'p, 'i) fh_state) os_ops" and os_ok +
  fixes owned :: "('a word, 'p, 'i) fh_state \<Rightarrow> 'a word \<Rightarrow> bool"
  assumes owned_layer: "os_layer os (\<lambda>s. os_ok s \<and> owned s q)"
    and alloc_owned: "os_ok s \<Longrightarrow> os_page_alloc os f d s = (Inr p, s') \<Longrightarrow> owned s' p"
    and free_owned: "os_ok s \<Longrightarrow> owned s p \<Longrightarrow> os_page_free os p s = (r, s') \<Longrightarrow>
      os_ok s' \<and> same_handle s s' \<and> mem s' = mem s \<and> r \<noteq> Inl Crash \<and>
      (\<forall>x. \<not> in_region p (unat (page_size s)) x \<longrightarrow> mprot s' x = mprot s x) \<and>
      (r = Inr () \<longrightarrow> (\<forall>x. in_region p (unat (page_size s)) x \<longrightarrow> mprot s' x = None)) \<and>
      (\<forall>q. owned s q \<longrightarrow> q \<noteq> p \<longrightarrow> owned s' q)"

section \<open>Releasing the pages of a handle\<close>

text \<open>What the calls of \<open>funchook_page_free\<close> return, which \<open>funchook_destroy\<close> does not look at.\<close>

fun free_results ::
    "('a::len word, 'd, 'ms, ('a word, 'p, 'i) fh_state) os_ops \<Rightarrow>
      ('a word, 'i) funchook_page list \<Rightarrow> ('a word, 'p, 'i) fh_state \<Rightarrow> unit result list" where
  "free_results os [] s = []"
| "free_results os (page # pages) s =
     (case os_page_free os (page_addr page) s of (r, s1) \<Rightarrow> r # free_results os pages s1)"

definition in_pages :: "nat \<Rightarrow> ('a::len word, 'i) funchook_page list \<Rightarrow> 'a word \<Rightarrow> bool" where
  "in_pages psz pages x \<longleftrightarrow> list_ex (\<lambda>page. in_region (page_addr page) psz x) pages"

lemma in_pages_simps [simp]:
  "\<not> in_pages psz [] x" "in_pages psz (p # ps) x \<longleftrightarrow> in_region (page_addr p) psz x \<or> in_pages psz ps x"
  by (simp_all add: in_pages_def)

context owning_os
begin

lemma free_pages_owned:
  "os_ok s \<Longrightarrow> list_all (\<lambda>page. owned s (page_addr page)) pages \<Longrightarrow> distinct (map page_addr pages) \<Longrightarrow>
     s' = free_pages os pages s \<Longrightarrow>
     os_ok s' \<and> same_handle s s' \<and> mem s' = mem s \<and> Inl Crash \<notin> set (free_results os pages s) \<and>
     (\<forall>x. \<not> in_pages (unat (page_size s)) pages x \<longrightarrow> mprot s' x = mprot s x) \<and>
     (set (free_results os pages s) \<subseteq> {Inr ()} \<longrightarrow>
       (\<forall>x. in_pages (unat (page_size s)) pages x \<longrightarrow> mprot s' x = None))"
proof (induction pages arbitrary: s)
  case Nil
  then show ?case by simp
next
  case (Cons page pages)
  obtain r s1 where f: "os_page_free os (page_addr page) s = (r, s1)"
    by (cases "os_page_free os (page_addr page) s")
  have o: "owned s (page_addr page)" using Cons.prems(2) by simp
  note fr = free_owned [OF Cons.prems(1) o f]
  have ps: "page_size s1 = page_size s" using fr by (simp add: same_handle_def)
  have "owned s1 (page_addr p)" if "p \<in> set pages" for p
  proof -
    have "page_addr page \<notin> page_addr ` set pages" using Cons.prems(3) by simp
    then have "page_addr p \<noteq> page_addr page" using that by (metis imageI)
    moreover have "owned s (page_addr p)" using Cons.prems(2) that by (simp add: list_all_iff)
    ultimately show ?thesis using fr by blast
  qed
  then have "list_all (\<lambda>page. owned s1 (page_addr page)) pages"
    by (simp add: list_all_iff)
  note ih = Cons.IH [OF conjunct1 [OF fr] this, unfolded ps]
  have s': "s' = free_pages os pages s1" using Cons.prems(4) f by simp
  have tail: "os_ok s' \<and> same_handle s1 s' \<and> mem s' = mem s1 \<and> Inl Crash \<notin> set (free_results os pages s1) \<and>
     (\<forall>x. \<not> in_pages (unat (page_size s)) pages x \<longrightarrow> mprot s' x = mprot s1 x) \<and>
     (set (free_results os pages s1) \<subseteq> {Inr ()} \<longrightarrow>
       (\<forall>x. in_pages (unat (page_size s)) pages x \<longrightarrow> mprot s' x = None))"
    using ih [OF _ s'] Cons.prems(3) by simp
  have un: "mprot s' x = None"
    if "r = Inr ()" "set (free_results os pages s1) \<subseteq> {Inr ()}" "in_pages (unat (page_size s)) (page # pages) x" for x
    using that tail fr by (cases "in_pages (unat (page_size s)) pages x") auto
  show ?case
    using tail fr un same_handle_trans [of s s1 s'] by (auto simp: f)
qed

end

section \<open>The pages of a handle have been handed out\<close>

lemma distinct_sorted_wrt:
  "sorted_wrt R xs \<Longrightarrow> (\<And>x y. R x y \<Longrightarrow> f x \<noteq> f y) \<Longrightarrow> distinct (map f xs)"
  by (induction xs) auto

lemma handle_inv_distinct:
  fixes s :: "('a::len word, 'p, 'b) fh_state"
  assumes "handle_inv arch s"
  shows "distinct (map page_addr (page_list s))"
proof -
  have pos: "0 < unat (page_size s)" using assms layout_sizes(2) by (auto simp: handle_inv_def)
  show ?thesis
  proof (rule distinct_sorted_wrt)
    show "sorted_wrt (\<lambda>p q. disjoint_blocks (page_addr p) (unat (page_size s))
        (page_addr q) (unat (page_size s))) (page_list s)"
      using assms by (simp add: handle_inv_def)
    show "page_addr p \<noteq> page_addr q"
      if "disjoint_blocks (page_addr p) (unat (page_size s)) (page_addr q) (unat (page_size s))"
      for p q :: "('a word, 'b) funchook_page"
      using disjoint_blocksD [OF that, of "page_addr p"] pos by (auto simp: in_region_def)
  qed
qed

locale owning_library = handle_library os os_ok arch fits + owning_os os os_ok owned
  for os :: "('a::len word, 'd, 'ms, ('a word, 'p, 'i) fh_state) os_ops" and os_ok
    and arch :: "('a word, 'i, 'd) arch_ops" and fits and owned
begin

text \<open>What has been handed out stays so: the same library over the finer invariant.\<close>

lemma keeping_library: "handle_library os (\<lambda>s. os_ok s \<and> owned s q) arch fits"
  by (intro handle_library.intro owned_layer code_generator_axioms)

lemma owned_same: "os_ok s \<Longrightarrow> owned s q \<Longrightarrow> mprot s' = mprot s \<Longrightarrow> page_size s' = page_size s \<Longrightarrow>
    os_data s' = os_data s \<Longrightarrow> owned s' q"
  using os_layer.os_ok_cong [OF owned_layer, of s q s'] by blast

lemma get_page_owned:
  assumes ok: "os_ok s" and g: "get_page arch os f d s = (Inr page, s1)"
    and all: "\<forall>page \<in> set (page_list s). owned s (page_addr page)"
  shows "owned s1 (page_addr page)"
proof (cases "find_page arch (num_entries_in_page s) f d (page_list s)")
  case (Some q)
  with g find_page_Some [OF Some] all show ?thesis by (auto simp: get_page_def)
next
  case None
  with g obtain p s' where a: "os_page_alloc os f d s = (Inr p, s')"
    and page: "page = \<lparr>page_addr = p, used = 0, entries = []\<rparr>"
    and s1: "s1 = s'\<lparr>page_list := page # page_list s'\<rparr>"
    by (auto simp: get_page_def then_ok_eq_Inr Let_def split: if_splits)
  have "os_ok s'" using alloc [OF ok a] by simp
  from owned_same [OF this alloc_owned [OF ok a], of s1] show ?thesis by (simp add: page s1)
qed

lemma reachable_owned:
  assumes "reachable arch os fits s0 s" and "fresh_handle arch s0" and "os_ok s0"
  shows "\<forall>page \<in> set (page_list s). owned s (page_addr page)"
  using assms(1)
proof induction
  case start
  then show ?case using assms(2) by (simp add: fresh_handle_def)
next
  case (prepare s target params t s')
  have "library_inv arch s" and ok: "os_ok s"
    using reachable_inv [OF prepare.hyps(1) assms(2,3)] by simp_all
  moreover have "\<not> installed s"
    using prepare.hyps(4) by (auto simp: funchook_prepare_internal_def)
  ultimately have inv: "handle_inv arch s" by (simp add: library_inv_def unpatched_mem_def)
  obtain d tramp n page s1 e where
    g: "get_page arch os (os_resolve_func os target s) d s = (Inr page, s1)"
    and s': "os_data s' = os_data s1" "mprot s' = mprot s1" "page_size s' = page_size s1"
      "page_list s' = add_entry (page_addr page) e (page_list s1)"
    using prepare.hyps(4)
    by (auto simp: funchook_prepare_internal_def Let_def then_ok_eq_Inr split: if_splits sum.splits option.splits)
  note gp = get_page_ok [OF ok inv g]
  have addrs: "page_addr ` set (page_list s') = page_addr ` set (page_list s1)"
    using add_entry_addrs [of "page_addr page" e "page_list s1"] by (metis s'(4) list.set_map)
  have "owned s' (page_addr q)" if q: "q \<in> set (page_list s')" for q
  proof (cases "page_addr q = page_addr page")
    case True
    then show ?thesis
      using owned_same [OF gp(1) get_page_owned [OF ok g prepare.IH], of s'] s' by simp
  next
    case False
    then have "page_addr q \<in> page_addr ` set (page_list s)" using q addrs gp(13) by blast
    then have "owned s (page_addr q)" using prepare.IH by auto
    then show ?thesis
      using handle_library.prepare_ok(2) [OF keeping_library _ inv refl prepare.hyps(2-4)] ok by blast
  qed
  then show ?case by blast
next
  case (install s u s')
  have ok: "os_ok s" using reachable_inv [OF install.hyps(1) assms(2,3)] by simp
  have "owned s' q" if "owned s q" for q
    using os_layer.install_ok(5) [OF owned_layer _ install.hyps(2)] ok that by blast
  with install.IH install_ok(3) [OF ok install.hyps(2)] show ?case by simp
next
  case (uninstall s u s')
  have ok: "os_ok s" using reachable_inv [OF uninstall.hyps(1) assms(2,3)] by simp
  have "owned s' q" if "owned s q" for q
    using os_layer.uninstall_ok(5) [OF owned_layer _ uninstall.hyps(2)] ok that by blast
  with uninstall.IH uninstall_ok(3) [OF ok uninstall.hyps(2)] show ?case by simp
next
  case (refused s target params r s')
  have ok: "os_ok s" using reachable_inv [OF refused.hyps(1) assms(2,3)] by simp
  have "s' = funchook_set_error_message ''Could not modify already-installed funchook handle.'' s"
    using refused.hyps(2,3) by (simp add: funchook_prepare_internal_def)
  then have "os_data s' = os_data s" "mprot s' = mprot s" "page_size s' = page_size s" "page_list s' = page_list s"
    by (simp_all add: funchook_set_error_message_def)
  with refused.IH owned_same [OF ok] show ?case by simp
next
  case (failed s target params c s')
  have ok: "os_ok s" and inv: "handle_inv arch s"
    using reachable_inv [OF failed.hyps(1) assms(2,3)] failed.hyps(2)
    by (simp_all add: library_inv_def unpatched_mem_def)
  have "owned s' q" if "owned s q" for q
    using handle_library.prepare_error(1) [OF keeping_library _ inv failed.hyps(3)] ok that by blast
  with failed.IH prepare_error(2) [OF ok inv failed.hyps(3)] show ?case by (simp add: same_handle_def)
qed

text \<open>So \<open>funchook_destroy\<close> releases pages that have been handed out, and only those.\<close>

lemma reachable_free_pages:
  assumes "reachable arch os fits s0 s" and "fresh_handle arch s0" and "os_ok s0" and "\<not> installed s"
    and "s' = free_pages os (page_list s) s"
  shows "os_ok s' \<and> same_handle s s' \<and> mem s' = mem s \<and> Inl Crash \<notin> set (free_results os (page_list s) s) \<and>
     (\<forall>x. \<not> in_pages (unat (page_size s)) (page_list s) x \<longrightarrow> mprot s' x = mprot s x) \<and>
     (set (free_results os (page_list s) s) \<subseteq> {Inr ()} \<longrightarrow>
       (\<forall>x. in_pages (unat (page_size s)) (page_list s) x \<longrightarrow> mprot s' x = None))"
proof (rule free_pages_owned [OF _ _ _ assms(5)])
  have "library_inv arch s" and "os_ok s"
    using reachable_inv [OF assms(1-3)] by simp_all
  then show "os_ok s" "distinct (map page_addr (page_list s))"
    using assms(4) handle_inv_distinct [of arch s] by (simp_all add: library_inv_def unpatched_mem_def)
  show "list_all (\<lambda>page. owned s (page_addr page)) (page_list s)"
    using reachable_owned [OF assms(1-3)] by (simp add: list_all_iff)
qed

end

end
