(* ===== verification/OS_Windows_Destroy.thy ===== *)
theory OS_Windows_Destroy
  imports OS_Windows_Correct FH_Destroy
begin

text \<open>
  The layer for Windows keeps books on its pages: the flags of the allocation units. What is in
  use stays in use until it is released, and \<open>funchook_destroy\<close> releases exactly the pages of
  the handle.
\<close>

section \<open>What is in use stays in use\<close>

lemma in_use_cong: "os_data s' = os_data s \<Longrightarrow> page_size s' = page_size s \<Longrightarrow> in_use pl i p s' = in_use pl i p s"
  by (simp add: in_use_def)

lemma protection_keeps_units:
  "funchook_page_protect_windows env p s = (r, s') \<Longrightarrow> os_data s' = os_data s \<and> page_size s' = page_size s"
  "funchook_page_unprotect_windows env p s = (r, s') \<Longrightarrow> os_data s' = os_data s \<and> page_size s' = page_size s"
  "funchook_unprotect_begin_windows env a n s = (q, s') \<Longrightarrow> os_data s' = os_data s \<and> page_size s' = page_size s"
  "funchook_unprotect_end_windows env ms s = (r, s') \<Longrightarrow> os_data s' = os_data s \<and> page_size s' = page_size s"
  by (auto simp: funchook_page_protect_windows_def funchook_page_unprotect_windows_def
      funchook_unprotect_begin_windows_def funchook_unprotect_end_windows_def sys_protect_def
      split: if_splits option.splits prod.splits)

lemma find_unit_update_unit:
  "(\<And>u. pi_addr (f u) = pi_addr u) \<Longrightarrow>
     find_unit q (update_unit pl f us) = (if q = pl then map_option f (find_unit q us) else find_unit q us)"
  by (induction us) (auto simp: find_unit_def update_unit_def)

lemma commit_page_units:
  assumes "commit_page env pl i s = (r, s')"
  shows "page_size s' = page_size s" and "allocation_unit (os_data s') = allocation_unit (os_data s)"
    and "unit_list (os_data s') = unit_list (os_data s) \<or>
      unit_list (os_data s') = update_unit pl
        (\<lambda>u. u\<lparr>pi_used := (pi_used u)[i := True], num_used := num_used u + 1\<rparr>) (unit_list (os_data s))"
    and "r = Inr p \<Longrightarrow> p = unit_page (page_size s) pl i"
  using assms
  by (auto simp: commit_page_def Let_def sys_commit_def split: option.splits if_splits)

lemma commit_page_keeps_use:
  assumes "commit_page env pl i s = (r, s')" and "in_use q j p s"
  shows "in_use q j p s'"
proof -
  have "(pi_used u)[i := True] ! j" if "pi_used u ! j" for u :: "'a word page_info"
    using that by (cases "i < length (pi_used u)") (auto simp: nth_list_update list_update_beyond)
  then show ?thesis
    using commit_page_units(1-3) [OF assms(1)] assms(2)
    by (auto simp: in_use_def find_unit_update_unit)
qed

lemma commit_page_not_in_use:
  assumes ok: "win_ok env s" and u: "find_unit pl (unit_list (os_data s)) = Some u"
    and i: "i < max_pages (allocation_unit (os_data s)) (page_size s)" and free: "\<not> pi_used u ! i"
    and use: "in_use q j p s"
  shows "p \<noteq> unit_page (page_size s) pl i"
proof
  assume p: "p = unit_page (page_size s) pl i"
  let ?au = "allocation_unit (os_data s)" and ?psz = "page_size s"
  have sz: "page_sizes ?au ?psz" and us: "units_ok ?au ?psz (mprot s) (unit_list (os_data s))"
    using ok by (simp_all add: win_ok_def)
  obtain v where v: "find_unit q (unit_list (os_data s)) = Some v" "pi_used v ! j" "j < max_pages ?au ?psz"
    and q: "p = unit_page ?psz q j"
    using use by (auto simp: in_use_def)
  have at: "unit_at ?au pl" "unit_at ?au q"
    using find_unit_Some [OF u] find_unit_Some [OF v(1)] us by (auto simp: units_ok_def unit_ok_def)
  have "0 < unat ?psz" using sz pow2_unit_pos by (auto simp: page_sizes_def)
  then have "in_region p (unat ?psz) p" by (simp add: in_region_def)
  then have "in_region (unit_page ?psz pl i) (unat ?psz) p" "in_region (unit_page ?psz q j) (unat ?psz) p"
    by (simp_all only: p [symmetric] q [symmetric])
  from unit_pages_disjoint [OF sz at i v(3) this] show False using u v free by auto
qed

lemma reserve_unit_keeps_use:
  assumes ok: "win_ok env s" and r: "reserve_unit env hint s = (r, s')" and use: "in_use q j p s"
  shows "in_use q j p s'"
proof -
  let ?pl = "win_reserve env (now s) (mprot s) (reserved s) hint (allocation_unit (os_data s))"
  have "windows_kernel env" and "allocation_unit (os_data s) = win_granularity env"
    using ok by (simp_all add: win_ok_def)
  then have new: "?pl \<noteq> 0 \<Longrightarrow> ?pl \<notin> set (reserved s)"
    using windows_kernelD(1) by metis
  obtain v where v: "find_unit q (unit_list (os_data s)) = Some v" using use by (auto simp: in_use_def)
  then have "q \<in> set (reserved s)"
    using find_unit_Some [OF v] by (auto simp: reserved_def)
  moreover have "page_size s' = page_size s \<and> allocation_unit (os_data s') = allocation_unit (os_data s) \<and>
      (unit_list (os_data s') = unit_list (os_data s) \<or>
       ?pl \<noteq> 0 \<and> (\<exists>w. pi_addr w = ?pl \<and> unit_list (os_data s') = w # unit_list (os_data s)))"
    using r by (auto simp: reserve_unit_def Let_def sys_reserve_def split: if_splits)
  ultimately show ?thesis
    using use new by (auto simp: in_use_def find_unit_def)
qed

lemma alloc_page_info_keeps_use:
  assumes "win_ok env s" and "alloc_page_info_64 env func s = Some (r, s')" and "in_use q j p s"
  shows "in_use q j p s'"
proof -
  obtain h t where f: "find_hint env func s = Some (h, t)" "quiet s t"
    using find_hint_ends [OF assms(1)] by blast
  then have t: "win_ok env t" "in_use q j p t"
    using quiet_ok [OF f(2) assms(1)] assms(3) in_use_cong [of t s] by (auto simp: quiet_def same_handle_def)
  show ?thesis
    using assms(2) t f(1) reserve_unit_keeps_use [OF t(1)] by (cases h) (auto simp: alloc_page_info_64_def)
qed

lemma page_alloc_keeps_use:
  assumes ok: "win_ok env s"
    and a: "funchook_page_alloc_windows (alloc_page_info_64 env) env avail_at func s = Some (r, s')"
    and use: "in_use q j p s"
  shows "in_use q j p s'" and "r \<noteq> Inr p"
proof -
  let ?n = "max_pages (allocation_unit (os_data s)) (page_size s)"
  have n: "unat (allocation_unit (os_data s) div page_size s - 1) = ?n" by (simp add: max_pages_def)
  have commit: "in_use q j p s' \<and> r \<noteq> Inr p"
    if "win_ok env t" "in_use q j p t" "find_unit pl (unit_list (os_data t)) = Some u" "\<not> pi_used u ! i"
      "i < max_pages (allocation_unit (os_data t)) (page_size t)" "commit_page env pl i t = (r, s')" for t pl i u
    using commit_page_keeps_use [OF that(6,2)] commit_page_not_in_use [OF that(1,3,5,4,2)]
      commit_page_units(4) [OF that(6)] by blast
  have "in_use q j p s' \<and> r \<noteq> Inr p"
  proof (cases "find_unit_page avail_at (page_size s) ?n (unit_list (os_data s))")
    case (Some c)
    obtain pl i where c: "c = (pl, i)" by (cases c)
    obtain u where u: "u \<in> set (unit_list (os_data s))" "pi_addr u = pl" "i < ?n" "\<not> pi_used u ! i"
      using find_unit_page_Some Some c by blast
    then have "find_unit pl (unit_list (os_data s)) = Some u"
      using find_unit_mem [of u "unit_list (os_data s)"] ok by (simp add: win_ok_def units_ok_def)
    then show ?thesis
      using commit [OF ok use _ u(4,3)] a Some c by (simp add: funchook_page_alloc_windows_def n)
  next
    case None
    obtain h t where i: "alloc_page_info_64 env func s = Some (h, t)" "win_ok env t" "same_handle s t"
      and new: "\<And>pl. h = Inr pl \<Longrightarrow> \<exists>u. find_unit pl (unit_list (os_data t)) = Some u \<and> pi_used u = replicate ?n False"
      using info_okE [OF info_ok_64 ok] by metis
    have t: "in_use q j p t" by (rule alloc_page_info_keeps_use [OF ok i(1) use])
    have tz: "max_pages (allocation_unit (os_data t)) (page_size t) = ?n"
      using i(2) ok by (simp add: win_ok_def)
    have z: "0 < ?n" using max_pages_size(2) ok by (auto simp: win_ok_def)
    show ?thesis
    proof (cases h)
      case (Inl e)
      with a None i(1) t show ?thesis by (auto simp: funchook_page_alloc_windows_def n)
    next
      case (Inr pl)
      then obtain u where u: "find_unit pl (unit_list (os_data t)) = Some u" "\<not> pi_used u ! 0"
        using new z by force
      then show ?thesis
        using commit [OF i(2) t u, unfolded tz, OF z] a None i(1) Inr
        by (simp add: funchook_page_alloc_windows_def n)
    qed
  qed
  then show "in_use q j p s'" "r \<noteq> Inr p" by simp_all
qed

lemma page_free_units:
  assumes ok: "win_ok env s" and use: "in_use pl i p s" and u: "find_unit pl (unit_list (os_data s)) = Some u"
    and f: "funchook_page_free_windows env p s = (r, s')"
  shows "page_size s' = page_size s" and "allocation_unit (os_data s') = allocation_unit (os_data s)"
    and "unit_list (os_data s') = unit_list (os_data s) \<or>
      unit_list (os_data s') = update_unit pl
        (\<lambda>_. u\<lparr>num_used := num_used u - 1, pi_used := (pi_used u)[i := False]\<rparr>) (unit_list (os_data s)) \<or>
      num_used u = 1 \<and> unit_list (os_data s') = filter (\<lambda>v. pi_addr v \<noteq> pl) (unit_list (os_data s))"
proof -
  let ?au = "allocation_unit (os_data s)" and ?psz = "page_size s"
  have sz: "page_sizes ?au ?psz" and us: "units_ok ?au ?psz (mprot s) (unit_list (os_data s))"
    using ok by (simp_all add: win_ok_def)
  have p: "p = unit_page ?psz pl i" and i: "i < max_pages ?au ?psz" using use by (simp_all add: in_use_def)
  have "unit_at ?au pl"
    using find_unit_Some [OF u] us by (auto simp: units_ok_def unit_ok_def)
  note idx = free_index [OF sz this i, folded p]
  have "page_size s' = page_size s \<and> allocation_unit (os_data s') = ?au \<and>
     (unit_list (os_data s') = unit_list (os_data s) \<or>
      unit_list (os_data s') = update_unit pl
        (\<lambda>_. u\<lparr>num_used := num_used u - 1, pi_used := (pi_used u)[i := False]\<rparr>) (unit_list (os_data s)) \<or>
      num_used u = 1 \<and> unit_list (os_data s') = filter (\<lambda>v. pi_addr v \<noteq> pl) (unit_list (os_data s)))"
    using f by (auto simp: funchook_page_free_windows_def Let_def sys_decommit_def idx u split: if_splits)
  then show "page_size s' = page_size s" "allocation_unit (os_data s') = ?au"
    "unit_list (os_data s') = unit_list (os_data s) \<or>
      unit_list (os_data s') = update_unit pl
        (\<lambda>_. u\<lparr>num_used := num_used u - 1, pi_used := (pi_used u)[i := False]\<rparr>) (unit_list (os_data s)) \<or>
      num_used u = 1 \<and> unit_list (os_data s') = filter (\<lambda>v. pi_addr v \<noteq> pl) (unit_list (os_data s))"
    by blast+
qed

lemma find_unit_replace:
  "pi_addr u' = pl \<Longrightarrow>
     find_unit k (update_unit pl (\<lambda>_. u') us) = (if k = pl then map_option (\<lambda>_. u') (find_unit k us) else find_unit k us)"
  by (induction us) (auto simp: find_unit_def update_unit_def)

lemma page_free_keeps_use:
  assumes ok: "win_ok env s" and use: "in_use pl i p s" and other: "in_use k j q s" "q \<noteq> p"
    and f: "funchook_page_free_windows env p s = (r, s')"
  shows "in_use k j q s'"
proof -
  let ?n = "max_pages (allocation_unit (os_data s)) (page_size s)"
  obtain u where u: "find_unit pl (unit_list (os_data s)) = Some u" "pi_used u ! i" "i < ?n"
    and p: "p = unit_page (page_size s) pl i"
    using use by (auto simp: in_use_def)
  obtain v where v: "find_unit k (unit_list (os_data s)) = Some v" "pi_used v ! j" "j < ?n"
    and q: "q = unit_page (page_size s) k j"
    using other(1) by (auto simp: in_use_def)
  let ?u' = "u\<lparr>num_used := num_used u - 1, pi_used := (pi_used u)[i := False]\<rparr>"
  have ij: "i \<noteq> j" if "k = pl" using that other(2) by (auto simp: p q)
  have uo: "length (pi_used u) = ?n" "num_used u = int (count_list (pi_used u) True)"
    using find_unit_Some [OF u(1)] ok by (auto simp: win_ok_def units_ok_def unit_ok_def)
  have "k \<noteq> pl" if n: "num_used u = 1"
  proof
    assume k: "k = pl"
    then have "(pi_used u)[i := False] ! j" using u(1) v ij by simp
    moreover have "True \<notin> set ((pi_used u)[i := False])"
      using count_list_update_False [of i "pi_used u"] u(2,3) uo n by (simp add: count_list_0_iff)
    ultimately show False
      using v(3) uo(1) nth_mem [of j "(pi_used u)[i := False]"] by simp
  qed
  moreover have "find_unit k (filter (\<lambda>v. pi_addr v \<noteq> pl) us) = find_unit k us" if "k \<noteq> pl"
    for us :: "'a word page_info list"
    using that by (induction us) (auto simp: find_unit_def)
  moreover have "find_unit k (update_unit pl (\<lambda>_. ?u') (unit_list (os_data s))) = Some (if k = pl then ?u' else v)"
    using find_unit_replace [of ?u' pl k] find_unit_Some [OF u(1)] u(1) v(1) by auto
  moreover note page_free_units(3) [OF ok use u(1) f]
  ultimately have "\<exists>w. find_unit k (unit_list (os_data s')) = Some w \<and> pi_used w ! j"
    using u(1) v ij by (cases "k = pl") auto
  then show ?thesis
    using page_free_units(1,2) [OF ok use u(1) f] v(3) by (simp add: in_use_def q)
qed

section \<open>The contract of a layer that keeps books\<close>

definition handed_out :: "('a::len word, 'a word win_data, 'z) os_state_scheme \<Rightarrow> 'a word \<Rightarrow> bool" where
  "handed_out s p \<longleftrightarrow> (\<exists>pl i. in_use pl i p s)"

lemma handed_out_cong: "os_data s' = os_data s \<Longrightarrow> page_size s' = page_size s \<Longrightarrow> handed_out s' p = handed_out s p"
  using in_use_cong [of s' s] by (simp add: handed_out_def)

lemma windows_alloc_keeps:
  fixes s :: "(u64, u64 win_data, 'i) fh_state" and avail :: "u64 \<Rightarrow> u64 \<Rightarrow> 'd \<Rightarrow> bool"
  assumes "win_ok env s" and "handed_out s q"
    and "os_page_alloc (windows_ops (alloc_page_info_64 env) avail env resolve) f d s = (r, s')"
  shows "handed_out s' q" and "r \<noteq> Inr q"
proof -
  obtain r' t where a: "funchook_page_alloc_windows (alloc_page_info_64 env) env (\<lambda>p. avail p f d) f s = Some (r', t)"
    using page_alloc_windows_ok [OF assms(1) info_ok_64] by blast
  moreover have "r' = r" "t = s'" using assms(3) a by (simp_all add: windows_ops_def)
  moreover obtain pl i where "in_use pl i q s" using assms(2) by (auto simp: handed_out_def)
  ultimately show "handed_out s' q" "r \<noteq> Inr q"
    using page_alloc_keeps_use [OF assms(1), of "\<lambda>p. avail p f d" f r s' pl i q] by (auto simp: handed_out_def)
qed

lemma windows_keeping_layer:
  fixes env :: "u64 win_env" and avail :: "u64 \<Rightarrow> u64 \<Rightarrow> 'd \<Rightarrow> bool"
    and resolve :: "u64 \<Rightarrow> (u64, u64 win_data, 'i) fh_state \<Rightarrow> u64"
  shows "os_layer (windows_ops (alloc_page_info_64 env) avail env resolve) (\<lambda>s. win_ok env s \<and> handed_out s q)"
proof (unfold_locales, goal_cases)
  case (1 s s')
  then show ?case using windows64.os_ok_cong handed_out_cong [of s' s] by blast
next
  case (2 s p r s')
  then show ?case
    using windows64.protect [of env s avail resolve p r s'] protection_keeps_units(1) [of env p s r s']
       handed_out_cong [of s' s q] by (simp add: windows_ops_def)
next
  case (3 s p r s')
  then show ?case
    using windows64.unprotect [of env s avail resolve p r s'] protection_keeps_units(2) [of env p s r s'] handed_out_cong [of s' s q]
    by (simp add: windows_ops_def)
next
  case (4 s a n ms s')
  then show ?case
    using windows64.begin_calm [of env s avail resolve a n ms s'] protection_keeps_units(3) [of env a n s ms s'] handed_out_cong [of s' s q]
    by (simp add: windows_ops_def)
next
  case (5 s a n ms s')
  then show ?case using windows64.begin_writable by blast
next
  case (6 s ms r s')
  then show ?case
    using windows64.end_calm [of env s avail resolve ms r s'] protection_keeps_units(4) [of env ms s r s'] handed_out_cong [of s' s q]
    by (simp add: windows_ops_def)
next
  case (7 s f d pr s')
  then show ?case using windows64.alloc [of env s avail resolve f d pr s']
      windows_alloc_keeps(1) [of env s q avail resolve f d pr s'] by simp
next
  case (8 s f d p s' y x)
  then show ?case using windows64.alloc_fresh [of env s avail resolve f d p s' y x] by blast
next
  case (9 s f d p s1 msg r s')
  let ?t = "funchook_set_error_message msg s1"
  note k = windows_alloc_keeps [OF _ _ 9(2)]
  have "handed_out s1 q" and ne: "q \<noteq> p" using k 9(1) by auto
  then obtain k j where uq: "in_use k j q ?t" by (auto simp: handed_out_def)
  obtain pl i where up: "in_use pl i p ?t"
    using windows_alloc [OF info_ok_64 _ 9(2)] 9(1) by auto
  have ok: "win_ok env ?t" using windows64.alloc [OF _ 9(2)] 9(1) by simp
  have "funchook_page_free_windows env p ?t = (r, s')" using 9(3) by (simp add: windows_ops_def)
  then have "in_use k j q s'" by (rule page_free_keeps_use [OF ok up uq ne])
  then show ?case
    using windows64.give_back [OF _ 9(2,3)] 9(1) by (auto simp: handed_out_def)
qed

interpretation windows64_owns: owning_os "windows_ops (alloc_page_info_64 env) avail env resolve" "win_ok env" handed_out
  for env :: "u64 win_env" and avail :: "u64 \<Rightarrow> u64 \<Rightarrow> 'd \<Rightarrow> bool"
    and resolve :: "u64 \<Rightarrow> (u64, u64 win_data, 'i) fh_state \<Rightarrow> u64"
proof (intro owning_os.intro owning_os_axioms.intro windows64.os_layer_axioms windows_keeping_layer, goal_cases)
  case (1 s f d p s')
  then show ?case using windows_alloc [OF info_ok_64 1] by (auto simp: handed_out_def)
next
  case (2 s p r s')
  obtain pl i where use: "in_use pl i p s" using 2(2) by (auto simp: handed_out_def)
  have f: "funchook_page_free_windows env p s = (r, s')" using 2(3) by (simp add: windows_ops_def)
  have "handed_out s' q" if "handed_out s q" "q \<noteq> p" for q
    using that page_free_keeps_use [OF 2(1) use _ _ f] unfolding handed_out_def by blast
  with page_free_windows_ok [OF 2(1) use f] show ?case by blast
qed

interpretation windows_x86_64_owns: owning_library
    "windows_ops (alloc_page_info_64 env) (\<lambda>p f d. funchook_page_avail p 0 f d) env resolve" "win_ok env"
    "x86_64_ops disasm hc" x86_fits handed_out
  for env :: "u64 win_env" and resolve :: "u64 \<Rightarrow> (u64, u64 win_data, u8) fh_state \<Rightarrow> u64"
    and disasm :: "(u64 \<Rightarrow> u8) \<Rightarrow> u64 \<Rightarrow> nat \<Rightarrow> u64 x86_insn list with_message" and hc :: u64
  by (intro owning_library.intro windows_x86_64.handle_library_axioms windows64_owns.owning_os_axioms)

interpretation windows_arm64_owns: owning_library
    "windows_ops (alloc_page_info_64 env) (\<lambda>p f d. True) env resolve" "win_ok env"
    "arm64_ops disasm hc" arm64_fits handed_out
  for env :: "u64 win_env" and resolve :: "u64 \<Rightarrow> (u64, u64 win_data, u32) fh_state \<Rightarrow> u64"
    and disasm :: "(u64 \<Rightarrow> u8) \<Rightarrow> u64 \<Rightarrow> nat \<Rightarrow> funchook_insn_info list with_message" and hc :: u64
  by (intro owning_library.intro windows_arm64.handle_library_axioms windows64_owns.owning_os_axioms)

section \<open>Destroying a handle\<close>

text \<open>
  C18: \<open>windows_destroy_releases\<close>. \<open>funchook_destroy\<close> on x86_64 Windows, in every state the
  calls can lead to: a null handle and an installed one are refused and nothing changes.
  Otherwise it returns 0; none of its calls of \<open>funchook_page_free\<close> touches memory that is not
  a control page; no byte of memory is changed, and outside the handle and its pages nothing
  changes its protection. When these calls return 0, no page of the handle stays committed.
\<close>

theorem windows_destroy_releases:
  assumes "reachable (x86_64_ops disasm hc) (windows_x86_64_os env resolve) x86_fits s0 s"
    and "fresh_handle (x86_64_ops disasm hc) s0" and "win_ok env s0"
    and "funchook_destroy_internal (windows_x86_64_os env resolve) (funchook_free_windows env handle_size) handle s =
      (r, s')"
  shows "if handle = 0 then r = Inl (Err ERROR_INTERNAL_ERROR) \<and> s' = s
    else if installed s then r = Inl (Err ERROR_ALREADY_INSTALLED) \<and> s' = s
    else r = Inr () \<and> mem s' = mem s \<and>
      Inl Crash \<notin> set (free_results (windows_x86_64_os env resolve) (page_list s) s) \<and>
      (\<forall>x. \<not> in_region handle (unat (ROUND_UP handle_size (page_size s))) x \<longrightarrow>
         \<not> in_pages (unat (page_size s)) (page_list s) x \<longrightarrow> mprot s' x = mprot s x) \<and>
      (set (free_results (windows_x86_64_os env resolve) (page_list s) s) \<subseteq> {Inr ()} \<longrightarrow>
         (\<forall>x. in_pages (unat (page_size s)) (page_list s) x \<longrightarrow> mprot s' x = None))"
proof (cases "handle = 0 \<or> installed s")
  case True
  then show ?thesis using assms(4) by (auto simp: funchook_destroy_internal_def)
next
  case False
  let ?t = "free_pages (windows_x86_64_os env resolve) (page_list s) s"
  note k = windows_x86_64_owns.reachable_free_pages [OF assms(1-3) _ refl]
  have t: "mem ?t = mem s" "page_size ?t = page_size s"
    using k False by (simp_all add: same_handle_def)
  have "r = Inr ()" "s' = funchook_free_windows env handle_size handle ?t"
    using assms(4) False by (simp_all add: funchook_destroy_internal_def)
  moreover have "mem (funchook_free_windows env handle_size handle ?t) = mem s"
    by (simp add: funchook_free_windows_def t)
  moreover have "mprot (funchook_free_windows env handle_size handle ?t) x = mprot ?t x"
    if "\<not> in_region handle (unat (ROUND_UP handle_size (page_size s))) x" for x
    using that by (simp add: funchook_free_windows_def t)
  moreover have "mprot (funchook_free_windows env handle_size handle ?t) x = None" if "mprot ?t x = None" for x
    using that by (simp add: funchook_free_windows_def t)
  ultimately show ?thesis using k False by simp
qed

lemma page_free_succeeds:
  assumes "win_ok env s" and "in_use pl i p s"
    and "\<And>n a sz. win_decommit env n a sz" and "\<And>n a. win_release env n a"
  shows "fst (funchook_page_free_windows env p s) = Inr ()"
proof -
  obtain r s' where f: "funchook_page_free_windows env p s = (r, s')"
    by (cases "funchook_page_free_windows env p s")
  have "r \<noteq> Inl Crash" using page_free_windows_ok [OF assms(1,2) f] by simp
  then show ?thesis
    using f assms(3,4)
    by (auto simp: funchook_page_free_windows_def Let_def sys_decommit_def split: option.splits if_splits)
qed

theorem windows_destroy_releases_witness:
  "\<exists>s s'. funchook_prepare_internal sample_arch sample_win_os 0x401000 sample_params sample_win_state =
       (Inr 0x411058, s) \<and>
     funchook_destroy_internal sample_win_os (funchook_free_windows sample_win_env 344) 0x500000 s = (Inr (), s') \<and>
     mprot s 0x411000 = Some PROT_RW \<and> mprot s' 0x411000 = None \<and> mem s' = mem s"
proof -
  have i: "page_list sample_win_state = []" "\<not> installed sample_win_state" "mem sample_win_state = sample_mem"
    by (simp_all add: sample_win_state_def)
  obtain s where p: "funchook_prepare_internal sample_arch sample_win_os 0x401000 sample_params sample_win_state =
      (Inr 0x411058, s)"
    and r: "reachable sample_arch sample_win_os x86_fits sample_win_state s"
    using sample_win_reachable .
  obtain e where "funchook_prepare_internal sample_arch sample_win_os 0x401000 sample_params sample_win_state =
      (Inr (0x411000 + 0x58), sample_committed_state
        \<lparr>mem := mem_write (mem sample_committed_state) (0x411000 + 0x10) (entry_bytes_x86_64 e),
         page_list := [\<lparr>page_addr = 0x411000, used = 1, entries = [e]\<rparr>]\<rparr>)"
    by (rule gives_page_prepare [OF sample_win_gives i])
  with p have s: "page_list s = [\<lparr>page_addr = 0x411000, used = 1, entries = [e]\<rparr>]" "\<not> installed s"
    "mprot s = mprot sample_committed_state" "page_size s = page_size sample_committed_state"
    using sample_win_gives i by (auto simp: gives_page_def same_handle_def)
  note ri = windows_x86_64.reachable_inv [OF r sample_win_fresh sample_win_ok]
  have ok: "win_ok sample_win_env s" and ps: "page_size s = 4096"
    using ri by (simp_all add: sample_win_state_def)
  have "handed_out s 0x411000"
    using windows_x86_64_owns.reachable_owned [OF r sample_win_fresh sample_win_ok] s(1) by simp
  then obtain pl j where "in_use pl j 0x411000 s" by (auto simp: handed_out_def)
  from page_free_succeeds [OF ok this]
  have "fst (funchook_page_free_windows sample_win_env 0x411000 s) = Inr ()"
    by (simp add: sample_win_env_def)
  then have all: "set (free_results sample_win_os (page_list s) s) \<subseteq> {Inr ()}"
    by (cases "funchook_page_free_windows sample_win_env 0x411000 s") (simp add: s(1) windows_ops_def)
  obtain q s' where d: "funchook_destroy_internal sample_win_os (funchook_free_windows sample_win_env 344) 0x500000 s =
      (q, s')"
    by (cases "funchook_destroy_internal sample_win_os (funchook_free_windows sample_win_env 344) 0x500000 s")
  have "in_region (0x411000 :: u64) 4096 0x411000" by (simp add: in_region_def)
  then have in_p: "in_pages (unat (page_size s)) (page_list s) 0x411000"
    and rw: "mprot s 0x411000 = Some PROT_RW"
    using sample_win_gives by (simp_all add: s(1,3) ps gives_page_def)
  from windows_destroy_releases [OF r sample_win_fresh sample_win_ok d] s(2) all in_p
  have "q = Inr ()" "mem s' = mem s" "mprot s' 0x411000 = None" by simp_all
  with p d rw show ?thesis by blast
qed

end
