(* ===== verification/OS_Windows_Resolve.thy ===== *)
theory OS_Windows_Resolve
  imports OS_Windows_Correct
begin

text \<open>
  \<open>funchook_resolve_func\<close> of src/src/os_windows.c: a function that only jumps through a slot of
  the import table of its module is replaced by the function the slot holds. The module of an
  address is what \<open>GetModuleHandleEx\<close> returns, an argument; its headers and its import table are
  read from memory, with the layout of the PE format.
\<close>

section \<open>The slot a function jumps through\<close>

definition read_ptr :: "('a::len word \<Rightarrow> u8) \<Rightarrow> 'a word \<Rightarrow> 'a word" where
  "read_ptr m a = of_le_bytes (mem_read m a (LENGTH('a) div 8))"

definition read_u32_at :: "('a::len word \<Rightarrow> u8) \<Rightarrow> 'a word \<Rightarrow> u32" where
  "read_u32_at m a = of_le_bytes (mem_read m a 4)"

text \<open>A 32-bit relative jump in front of the indirect one is followed.\<close>

definition follow_jump :: "('a::len word \<Rightarrow> u8) \<Rightarrow> 'a word \<Rightarrow> 'a word" where
  "follow_jump m func = (if m func = 0xe9 then func + 5 + scast (read_u32_at m (func + 1)) else func)"

definition import_slot_x86_64 :: "(u64 \<Rightarrow> u8) \<Rightarrow> u64 \<Rightarrow> u64" where
  "import_slot_x86_64 m func =
     (let fn = follow_jump m func in
      if m fn = 0xff \<and> m (fn + 1) = 0x25 then fn + 6 + scast (read_u32_at m (fn + 2)) else 0)"

definition import_slot_x86 :: "(u32 \<Rightarrow> u8) \<Rightarrow> u32 \<Rightarrow> u32" where
  "import_slot_x86 m func =
     (let fn = follow_jump m func in
      if m fn = 0xff \<and> m (fn + 1) = 0x25 then read_ptr m (fn + 2) else 0)"

text \<open>On ARM64: \<open>adrp xip0\<close>, \<open>ldr xip0, [xip0, imm12]\<close>, \<open>br xip0\<close>.\<close>

definition import_slot_arm64 :: "(u64 \<Rightarrow> u8) \<Rightarrow> u64 \<Rightarrow> u64" where
  "import_slot_arm64 m func =
     (let fn0 = read_u32_at m func; fn1 = read_u32_at m (func + 4); fn2 = read_u32_at m (func + 8) in
      if fn0 AND 0x9F00001F = 0x90000010 \<and> fn1 AND 0xFFC003FF = 0xF9400210 \<and> fn2 = 0xD61F0200
      then
        (let addr = func AND NOT 0xFFF;
             immhi = push_bit 14 (drop_bit 5 (ucast (fn0 AND 0x00FFFFE0) :: u64));
             immlo = push_bit 12 (drop_bit 29 (ucast (fn0 AND 0x60000000) :: u64));
             imm12 = push_bit 3 (drop_bit 10 (ucast (fn1 AND 0x003FFC00) :: u64))
         in addr + immhi + immlo + imm12)
      else 0)"

section \<open>The import table\<close>

text \<open>
  The optional header follows the signature and the file header, 24 bytes; its data directory
  starts at 112 with 64-bit addresses and at 96 with 32-bit ones, and the second of its
  entries is the import directory.
\<close>

definition import_directory :: "'a::len word \<Rightarrow> 'a word" where
  "import_directory nthdr = nthdr + 24 + (if LENGTH('a) = 64 then 112 else 96) + 8"

definition get_image_import_descriptor :: "('a::len word \<Rightarrow> u8) \<Rightarrow> 'a word \<Rightarrow> 'a word option" where
  "get_image_import_descriptor m hMod =
     (if mem_read m hMod 2 \<noteq> [0x4d, 0x5a] then None
      else
        (let nthdr = hMod + scast (read_u32_at m (hMod + 60));
             virtual_address = read_u32_at m (import_directory nthdr)
         in if virtual_address = 0 then None else Some (hMod + ucast virtual_address)))"

text \<open>The addresses of one imported module; \<open>None\<close> stands for a loop that does not end.\<close>

partial_function (option) find_thunk ::
    "('a::len word \<Rightarrow> u8) \<Rightarrow> 'a word \<Rightarrow> 'a word \<Rightarrow> 'a word option option" where
  "find_thunk m pos a =
     (if read_ptr m a = 0 then Some None
      else if pos = a then Some (Some (read_ptr m a))
      else find_thunk m pos (a + of_nat (LENGTH('a) div 8)))"

text \<open>The descriptors: 20 bytes each, with \<open>Name\<close> at 12 and \<open>FirstThunk\<close> at 16.\<close>

partial_function (option) find_import ::
    "('a::len word \<Rightarrow> u8) \<Rightarrow> 'a word \<Rightarrow> 'a word \<Rightarrow> 'a word \<Rightarrow> 'a word option option" where
  "find_import m hMod pos desc =
     (if read_u32_at m (desc + 12) = 0 then Some None
      else (case find_thunk m pos (hMod + ucast (read_u32_at m (desc + 16))) of
              None \<Rightarrow> None
            | Some (Some f) \<Rightarrow> Some (Some f)
            | Some None \<Rightarrow> find_import m hMod pos (desc + 20)))"

text \<open>
  The function; \<open>slot\<close> is one of the three above and \<open>module_of\<close> the call of
  \<open>GetModuleHandleEx\<close>.
\<close>

definition funchook_resolve_func_windows ::
    "(('a word \<Rightarrow> u8) \<Rightarrow> 'a word \<Rightarrow> 'a word) \<Rightarrow> ('a word \<Rightarrow> 'a word option) \<Rightarrow>
      'a::len word \<Rightarrow> ('a word, 'p, 'z) os_state_scheme \<Rightarrow> 'a word option" where
  "funchook_resolve_func_windows slot module_of func s =
     (let pos = slot (mem s) func in
      if pos = 0 then Some func
      else (case module_of func of
              None \<Rightarrow> Some func
            | Some hMod \<Rightarrow>
                (case get_image_import_descriptor (mem s) hMod of
                   None \<Rightarrow> Some func
                 | Some desc \<Rightarrow>
                     map_option (\<lambda>r. case r of None \<Rightarrow> func | Some f \<Rightarrow> f) (find_import (mem s) hMod pos desc))))"

section \<open>The table as a map\<close>

text \<open>The functions of each imported module, as they stand in memory.\<close>

fun thunks_at :: "('a::len word \<Rightarrow> u8) \<Rightarrow> 'a word \<Rightarrow> 'a word list \<Rightarrow> bool" where
  "thunks_at m a [] \<longleftrightarrow> read_ptr m a = 0"
| "thunks_at m a (f # fs) \<longleftrightarrow> f \<noteq> 0 \<and> read_ptr m a = f \<and> thunks_at m (a + of_nat (LENGTH('a) div 8)) fs"

fun thunk_slots :: "'a::len word \<Rightarrow> 'a word list \<Rightarrow> ('a word \<times> 'a word) list" where
  "thunk_slots a [] = []"
| "thunk_slots a (f # fs) = (a, f) # thunk_slots (a + of_nat (LENGTH('a) div 8)) fs"

fun imports_at :: "('a::len word \<Rightarrow> u8) \<Rightarrow> 'a word \<Rightarrow> 'a word \<Rightarrow> 'a word list list \<Rightarrow> bool" where
  "imports_at m hMod desc [] \<longleftrightarrow> read_u32_at m (desc + 12) = 0"
| "imports_at m hMod desc (fs # fss) \<longleftrightarrow> read_u32_at m (desc + 12) \<noteq> 0 \<and>
     thunks_at m (hMod + ucast (read_u32_at m (desc + 16))) fs \<and> imports_at m hMod (desc + 20) fss"

fun import_slots ::
    "('a::len word \<Rightarrow> u8) \<Rightarrow> 'a word \<Rightarrow> 'a word \<Rightarrow> 'a word list list \<Rightarrow> ('a word \<times> 'a word) list" where
  "import_slots m hMod desc [] = []"
| "import_slots m hMod desc (fs # fss) =
     thunk_slots (hMod + ucast (read_u32_at m (desc + 16))) fs @ import_slots m hMod (desc + 20) fss"

lemma find_thunk_slots:
  "thunks_at m a fs \<Longrightarrow> find_thunk m pos a = Some (map_of (thunk_slots a fs) pos)"
  by (induction m a fs rule: thunks_at.induct; subst find_thunk.simps) auto

lemma find_import_slots:
  "imports_at m hMod desc fss \<Longrightarrow> find_import m hMod pos desc = Some (map_of (import_slots m hMod desc fss) pos)"
  by (induction m hMod desc fss rule: imports_at.induct; subst find_import.simps)
    (auto simp: find_thunk_slots map_add_def split: option.split)

text \<open>The function looks the slot up, whatever processor it decodes the slot for.\<close>

lemma resolve_func_lookup:
  assumes "module_of func = Some hMod" and "get_image_import_descriptor (mem s) hMod = Some desc"
    and "imports_at (mem s) hMod desc fss"
  shows "funchook_resolve_func_windows slot module_of func s =
    Some (if slot (mem s) func = 0 then func
      else case map_of (import_slots (mem s) hMod desc fss) (slot (mem s) func) of None \<Rightarrow> func | Some f \<Rightarrow> f)"
  using find_import_slots [OF assms(3)]
  by (simp add: funchook_resolve_func_windows_def Let_def assms(1,2))

lemma thunk_slots_read:
  "thunks_at m a fs \<Longrightarrow> map_of (thunk_slots a fs) pos = Some f \<Longrightarrow> read_ptr m pos = f \<and> f \<in> set fs"
  by (induction m a fs rule: thunks_at.induct) (auto split: if_splits)

lemma import_slots_read:
  "imports_at m hMod desc fss \<Longrightarrow> map_of (import_slots m hMod desc fss) pos = Some f \<Longrightarrow>
     read_ptr m pos = f \<and> f \<in> set (concat fss)"
  by (induction m hMod desc fss rule: imports_at.induct)
    (auto simp: map_add_Some_iff dest: thunk_slots_read)

section \<open>The slot the processor jumps through\<close>

text \<open>
  On x86_64: \<open>FF 25\<close> is a jump through the memory word its RIP-relative operand designates;
  the processor may get there by one \<open>jmp rel32\<close>.
\<close>

definition jumps_through :: "(u64 \<Rightarrow> u8) \<Rightarrow> u64 \<Rightarrow> u64 \<Rightarrow> bool" where
  "jumps_through m func slot \<longleftrightarrow>
     (case (if m func = 0xe9 then x86_step m (func, 0) else Some (func, 0)) of
        None \<Rightarrow> False
      | Some (fn, r11) \<Rightarrow> m fn = 0xff \<and> m (fn + 1) = 0x25 \<and> rip_operand m (fn + 2) (fn + 6) = slot)"

lemma jumps_through_follow:
  "jumps_through m func slot \<longleftrightarrow> (let fn = follow_jump m func in
     m fn = 0xff \<and> m (fn + 1) = 0x25 \<and> rip_operand m (fn + 2) (fn + 6) = slot)"
proof (cases "m func = 0xe9")
  case True
  then have "x86_step m (func, 0) = Some (follow_jump m func, 0)"
    by (simp only: x86_step_def follow_jump_def rip_operand_def read_u32_at_def prod.case if_True simp_thms)
  with True show ?thesis by (simp only: jumps_through_def if_True option.case prod.case Let_def refl)
next
  case False
  then show ?thesis by (simp only: jumps_through_def follow_jump_def if_False option.case prod.case Let_def)
qed

lemma import_slot_iff:
  "slot \<noteq> 0 \<Longrightarrow> import_slot_x86_64 m func = slot \<longleftrightarrow> jumps_through m func slot"
  by (auto simp only: import_slot_x86_64_def jumps_through_follow rip_operand_def read_u32_at_def Let_def
      split: if_splits)

lemma jumps_through_run:
  assumes "jumps_through m func slot"
  shows "x86_run (if m func = 0xe9 then 2 else 1) m (func, r11) = Some (read_ptr m slot, r11)"
proof -
  let ?fn = "follow_jump m func"
  have fn: "m ?fn = 0xff" "m (?fn + 1) = 0x25" "rip_operand m (?fn + 2) (?fn + 6) = slot"
    using assms by (simp_all add: jumps_through_follow Let_def)
  have "x86_step m (?fn, r11) = Some (read_ptr m slot, r11)"
    by (simp add: x86_step_def fn(1,2)) (simp add: fn(3) read_ptr_def)
  moreover have "x86_step m (func, r11) = Some (?fn, r11)" if "m func = 0xe9"
    using that
    by (simp only: x86_step_def follow_jump_def rip_operand_def read_u32_at_def prod.case if_True simp_thms)
  moreover have "?fn = func" if "m func \<noteq> 0xe9" using that by (simp add: follow_jump_def)
  ultimately show ?thesis by (cases "m func = 0xe9") (simp_all add: numeral_2_eq_2)
qed

text \<open>
  C39: \<open>resolve_func_import\<close>. \<open>funchook_resolve_func\<close> on x86_64 Windows, for a module whose
  import table ends. When the function starts with a jump through a slot of that table,
  directly or behind one 32-bit relative jump, the result is the function held by that slot:
  one of the imported functions, and the address the processor arrives at when it executes these
  one or two jumps. Any other function is left as it is. The loops over the table end when
  the table does.
\<close>

theorem resolve_func_import:
  assumes "module_of func = Some hMod" and "get_image_import_descriptor (mem s) hMod = Some desc"
    and "imports_at (mem s) hMod desc fss"
  shows "\<exists>f. funchook_resolve_func_windows import_slot_x86_64 module_of func s = Some f \<and>
    (if \<exists>slot. slot \<noteq> 0 \<and> jumps_through (mem s) func slot \<and> slot \<in> fst ` set (import_slots (mem s) hMod desc fss)
     then f \<in> set (concat fss) \<and>
       x86_run (if mem s func = 0xe9 then 2 else 1) (mem s) (func, r) = Some (f, r)
     else f = func)"
proof -
  let ?m = "mem s" and ?slots = "import_slots (mem s) hMod desc fss"
  note look = resolve_func_lookup [where slot = import_slot_x86_64 and module_of = module_of and s = s, OF assms]
  show ?thesis
  proof (cases "\<exists>slot. slot \<noteq> 0 \<and> jumps_through ?m func slot \<and> slot \<in> fst ` set ?slots")
    case True
    then obtain slot where slot: "slot \<noteq> 0" "jumps_through ?m func slot" "slot \<in> fst ` set ?slots" by blast
    then have pos: "import_slot_x86_64 ?m func = slot" by (simp add: import_slot_iff)
    obtain f where f: "map_of ?slots slot = Some f"
      using slot(3) by (metis map_of_eq_None_iff not_None_eq)
    note f' = import_slots_read [OF assms(3) f]
    have "funchook_resolve_func_windows import_slot_x86_64 module_of func s = Some f"
      by (simp add: look pos slot(1) f)
    with True f' jumps_through_run [OF slot(2), of r] show ?thesis by simp
  next
    case False
    have "map_of ?slots (import_slot_x86_64 ?m func) = None" if "import_slot_x86_64 ?m func \<noteq> 0"
      using False that import_slot_iff [OF that] by (metis map_of_eq_None_iff)
    then have "funchook_resolve_func_windows import_slot_x86_64 module_of func s = Some func"
      by (simp add: look)
    with False show ?thesis by (simp only: if_False option.inject ex_simps simp_thms)
  qed
qed

text \<open>
  A module at 0x400000 with one import, whose slot is at 0x402000, and the function at
  0x401000 that jumps through it: \<open>ff 25\<close> with the displacement 0xffa.
\<close>

definition sample_pe :: "u64 \<Rightarrow> u8" where
  "sample_pe x =
     (if x = 0x400000 then 0x4d else if x = 0x400001 then 0x5a else if x = 0x40003C then 0x80
      else if x = 0x400111 then 0x30
      else if x = 0x40300C then 1 else if x = 0x403011 then 0x20
      else if x = 0x402000 then 0x10 else if x = 0x402005 then 0x7f
      else if x = 0x401000 then 0xff else if x = 0x401001 then 0x25
      else if x = 0x401002 then 0xfa else if x = 0x401003 then 0x0f else 0)"

definition sample_pe_state :: "(u64, unit) os_state" where
  "sample_pe_state =
     \<lparr>mem = sample_pe, mprot = (\<lambda>x. None), now = 0, page_size = 4096, error_message = [], os_data = ()\<rparr>"

theorem resolve_func_import_witness:
  "funchook_resolve_func_windows import_slot_x86_64 (\<lambda>a. Some 0x400000) 0x401000 sample_pe_state =
     Some 0x7f0000000010"
proof -
  have m: "mem sample_pe_state = sample_pe" by (simp add: sample_pe_state_def)
  have "get_image_import_descriptor sample_pe 0x400000 = Some 0x403000" by code_simp
  then have d: "get_image_import_descriptor (mem sample_pe_state) 0x400000 = Some 0x403000" by (simp add: m)
  have "imports_at sample_pe 0x400000 0x403000 [[0x7f0000000010]]" by code_simp
  then have i: "imports_at (mem sample_pe_state) 0x400000 0x403000 [[0x7f0000000010]]" by (simp add: m)
  have "jumps_through sample_pe 0x401000 0x402000" by code_simp
  moreover have "0x402000 \<in> fst ` set (import_slots sample_pe 0x400000 0x403000 [[0x7f0000000010]])" by code_simp
  moreover have "(0x402000 :: u64) \<noteq> 0" by simp
  ultimately have e: "\<exists>slot. slot \<noteq> 0 \<and> jumps_through sample_pe 0x401000 slot \<and>
      slot \<in> fst ` set (import_slots sample_pe 0x400000 0x403000 [[0x7f0000000010]])"
    by blast
  from resolve_func_import [where module_of = "\<lambda>a. Some 0x400000" and func = "0x401000" and r = 0, OF refl d i] e
  show ?thesis by (auto simp: m)
qed

section \<open>Jumps back on ARM64\<close>

text \<open>
  The immediate of \<open>adrp\<close> is read without its sign: \<open>adrp xip0, -4096\<close> at 0x400000 should
  give the page 0x3FF000, the slot computed is 2 ^ 33 higher.
\<close>

definition adrp_back_mem :: "u64 \<Rightarrow> u8" where
  "adrp_back_mem x =
     (if x = 0x400000 then 0xF0 else if x = 0x400001 then 0xFF else if x = 0x400002 then 0xFF
      else if x = 0x400003 then 0xF0 else if x = 0x400004 then 0x10 else if x = 0x400005 then 0x02
      else if x = 0x400006 then 0x40 else if x = 0x400007 then 0xF9 else if x = 0x400009 then 0x02
      else if x = 0x40000A then 0x1F else if x = 0x40000B then 0xD6 else 0)"

lemma arm64_slot_ignores_sign:
  "import_slot_arm64 adrp_back_mem 0x400000 = 0x3FF000 + 0x200000000 \<and>
   target_addr 0x400000 0xF0FFFFF0 ARM64_INSN_ADRP = 0x3FF000"
proof -
  have "import_slot_arm64 adrp_back_mem 0x400000 = 0x3FF000 + 0x200000000"
    by code_simp
  moreover have "target_addr 0x400000 0xF0FFFFF0 ARM64_INSN_ADRP = 0x3FF000"
    by code_simp
  ultimately show ?thesis by simp
qed

end
