(* ===== verification/OS_Unix_Resolve.thy ===== *)
theory OS_Unix_Resolve
  imports OS_Unix
begin

text \<open>
  \<open>funchook_resolve_func\<close> of src/src/os_unix.c for 64-bit glibc: a function pointer that is the
  address of a PLT entry is replaced by the function the dynamic linker finds for its symbol.
  The list of loaded modules and the two calls of \<open>dlsym\<close> belong to the dynamic linker and are
  arguments; the headers and tables are read from memory.
\<close>

section \<open>What is read of a module\<close>

record link_map =
  l_addr :: u64
  l_ld :: u64

definition read_u64 :: "(u64 \<Rightarrow> u8) \<Rightarrow> u64 \<Rightarrow> u64" where
  "read_u64 m a = of_le_bytes (mem_read m a 8)"

definition read_u32 :: "(u64 \<Rightarrow> u8) \<Rightarrow> u64 \<Rightarrow> u32" where
  "read_u32 m a = of_le_bytes (mem_read m a 4)"

definition read_u16 :: "(u64 \<Rightarrow> u8) \<Rightarrow> u64 \<Rightarrow> u16" where
  "read_u16 m a = of_le_bytes (mem_read m a 2)"

text \<open>\<open>ELFMAG\<close>, and the type in the ELF header: \<open>ET_EXEC\<close> is 2, \<open>ET_DYN\<close> is 3.\<close>

definition ELFMAG :: "u8 list" where
  "ELFMAG = [0x7f, 0x45, 0x4c, 0x46]"

definition valid_module :: "(u64 \<Rightarrow> u8) \<Rightarrow> u64 \<Rightarrow> bool" where
  "valid_module m a \<longleftrightarrow> a = 0 \<or> mem_read m a 4 = ELFMAG \<and> read_u16 m (a + 16) \<in> {2, 3}"

text \<open>\<open>ElfW(Sym)\<close>: 24 bytes.\<close>

record elf_sym =
  st_name :: u32
  st_info :: u8
  st_value :: u64
  st_size :: u64

definition read_sym :: "(u64 \<Rightarrow> u8) \<Rightarrow> u64 \<Rightarrow> elf_sym" where
  "read_sym m a =
     \<lparr>st_name = read_u32 m a, st_info = m (a + 4), st_value = read_u64 m (a + 8), st_size = read_u64 m (a + 16)\<rparr>"

definition ELF64_ST_TYPE :: "u8 \<Rightarrow> u8" where
  "ELF64_ST_TYPE i = i AND 0xf"

definition STT_FUNC :: u8 where "STT_FUNC = 2"

text \<open>An undefined function symbol with a value: its value is the address of its PLT entry.\<close>

definition plt_symbol :: "u64 \<Rightarrow> elf_sym \<Rightarrow> bool" where
  "plt_symbol func esym \<longleftrightarrow> ELF64_ST_TYPE (st_info esym) = STT_FUNC \<and> st_size esym = 0 \<and> st_value esym = func"

section \<open>The loops\<close>

text \<open>The module: of those loaded at or below the function the lowest.\<close>

fun find_module :: "u64 \<Rightarrow> link_map option \<Rightarrow> link_map list \<Rightarrow> link_map option" where
  "find_module func lmap [] = lmap"
| "find_module func lmap (lm # lms) =
     find_module func
       (if l_addr lm \<le> func then
          (case lmap of None \<Rightarrow> Some lm
           | Some l \<Rightarrow> if l_addr lm < l_addr l then Some lm else lmap)
        else lmap) lms"

text \<open>
  The dynamic section: entries of a tag and a value, up to the tag \<open>DT_NULL\<close>. \<open>None\<close> stands
  for a section without an end.
\<close>

definition DT_NULL :: u64 where "DT_NULL = 0"
definition DT_STRTAB :: u64 where "DT_STRTAB = 5"
definition DT_SYMTAB :: u64 where "DT_SYMTAB = 6"
definition DT_STRSZ :: u64 where "DT_STRSZ = 10"

record elf_tables =
  tab_sym :: u64
  tab_str :: u64
  tab_strsz :: u64

definition set_table :: "u64 \<Rightarrow> u64 \<Rightarrow> elf_tables \<Rightarrow> elf_tables" where
  "set_table tag v t =
     (if tag = DT_SYMTAB then t\<lparr>tab_sym := v\<rparr>
      else if tag = DT_STRTAB then t\<lparr>tab_str := v\<rparr>
      else if tag = DT_STRSZ then t\<lparr>tab_strsz := v\<rparr> else t)"

partial_function (option) read_dynamic :: "(u64 \<Rightarrow> u8) \<Rightarrow> u64 \<Rightarrow> elf_tables \<Rightarrow> elf_tables option" where
  "read_dynamic m a t =
     (if read_u64 m a = DT_NULL then Some t
      else read_dynamic m (a + 16) (set_table (read_u64 m a) (read_u64 m (a + 8)) t))"

text \<open>
  The symbols: the table ends where the strings begin. The result is the symbol found, if any;
  \<open>None\<close> stands for a loop that does not end.
\<close>

partial_function (option) find_symbol ::
    "(u64 \<Rightarrow> u8) \<Rightarrow> u64 \<Rightarrow> u64 \<Rightarrow> u64 \<Rightarrow> u64 \<Rightarrow> elf_sym option option" where
  "find_symbol m func strtab_size symtab_end a =
     (if \<not> a < symtab_end then Some None
      else if strtab_size \<le> ucast (st_name (read_sym m a)) then Some None
      else if plt_symbol func (read_sym m a) then Some (Some (read_sym m a))
      else find_symbol m func strtab_size symtab_end (a + 24))"

section \<open>The function\<close>

text \<open>
  \<open>dlsym_default\<close> and \<open>dlsym_next\<close> are \<open>dlsym\<close> with \<open>RTLD_DEFAULT\<close> and \<open>RTLD_NEXT\<close>, given
  the memory and the address of the name; they return 0 when there is no such symbol.
\<close>

definition lookup_symbol ::
    "((u64 \<Rightarrow> u8) \<Rightarrow> u64 \<Rightarrow> u64) \<Rightarrow> ((u64 \<Rightarrow> u8) \<Rightarrow> u64 \<Rightarrow> u64) \<Rightarrow> (u64 \<Rightarrow> u8) \<Rightarrow> u64 \<Rightarrow> u64 \<Rightarrow> u64" where
  "lookup_symbol dlsym_default dlsym_next m name func =
     (let fn = dlsym_default m name;
          fn' = (if fn = func then dlsym_next m name else fn)
      in if fn' \<noteq> 0 then fn' else func)"

definition funchook_resolve_func_unix ::
    "link_map list \<Rightarrow> ((u64 \<Rightarrow> u8) \<Rightarrow> u64 \<Rightarrow> u64) \<Rightarrow> ((u64 \<Rightarrow> u8) \<Rightarrow> u64 \<Rightarrow> u64) \<Rightarrow>
      u64 \<Rightarrow> (u64, 'p, 'z) os_state_scheme \<Rightarrow> u64 option" where
  "funchook_resolve_func_unix lms dlsym_default dlsym_next func s =
     (case find_module func None lms of
        None \<Rightarrow> Some func
      | Some lmap \<Rightarrow>
          if \<not> valid_module (mem s) (l_addr lmap) then Some func
          else
            (case read_dynamic (mem s) (l_ld lmap) \<lparr>tab_sym = 0, tab_str = 0, tab_strsz = 0\<rparr> of
               None \<Rightarrow> None
             | Some t \<Rightarrow>
                 (case find_symbol (mem s) func (tab_strsz t) (tab_str t) (tab_sym t) of
                    None \<Rightarrow> None
                  | Some None \<Rightarrow> Some func
                  | Some (Some esym) \<Rightarrow>
                      Some (lookup_symbol dlsym_default dlsym_next (mem s) (tab_str t + ucast (st_name esym)) func))))"

section \<open>What the loops compute\<close>

text \<open>The module chosen is the lowest of those at or below the function.\<close>

lemma find_module_lowest:
  "find_module func lmap lms = Some lm \<Longrightarrow> (\<forall>l. lmap = Some l \<longrightarrow> l_addr l \<le> func) \<Longrightarrow>
     (lm \<in> set lms \<or> lmap = Some lm) \<and> l_addr lm \<le> func \<and>
     (\<forall>l \<in> set lms. l_addr l \<le> func \<longrightarrow> l_addr lm \<le> l_addr l) \<and> (\<forall>l. lmap = Some l \<longrightarrow> l_addr lm \<le> l_addr l)"
proof (induction lms arbitrary: lmap)
  case (Cons x lms)
  let ?l = "if l_addr x \<le> func then (case lmap of None \<Rightarrow> Some x
      | Some l \<Rightarrow> if l_addr x < l_addr l then Some x else lmap) else lmap"
  have f: "find_module func ?l lms = Some lm" using Cons.prems(1) by simp
  moreover have "\<forall>l. ?l = Some l \<longrightarrow> l_addr l \<le> func" using Cons.prems(2) by (simp split: option.split)
  ultimately have "(lm \<in> set lms \<or> ?l = Some lm) \<and> l_addr lm \<le> func \<and>
      (\<forall>l \<in> set lms. l_addr l \<le> func \<longrightarrow> l_addr lm \<le> l_addr l) \<and> (\<forall>l. ?l = Some l \<longrightarrow> l_addr lm \<le> l_addr l)"
    by (rule Cons.IH)
  then show ?case
    by (cases lmap) (auto split: if_splits)
qed simp

text \<open>A dynamic section in memory.\<close>

fun dynamic_at :: "(u64 \<Rightarrow> u8) \<Rightarrow> u64 \<Rightarrow> (u64 \<times> u64) list \<Rightarrow> bool" where
  "dynamic_at m a [] \<longleftrightarrow> read_u64 m a = DT_NULL"
| "dynamic_at m a ((tag, v) # ds) \<longleftrightarrow> tag \<noteq> DT_NULL \<and> read_u64 m a = tag \<and> read_u64 m (a + 8) = v \<and>
     dynamic_at m (a + 16) ds"

lemma read_dynamic_entries:
  "dynamic_at m a ds \<Longrightarrow> read_dynamic m a t = Some (fold (\<lambda>(tag, v). set_table tag v) ds t)"
  by (induction m a ds arbitrary: t rule: dynamic_at.induct; subst read_dynamic.simps) simp_all

text \<open>The symbols of a table of \<open>n\<close> entries.\<close>

definition symbols_at :: "(u64 \<Rightarrow> u8) \<Rightarrow> u64 \<Rightarrow> nat \<Rightarrow> elf_sym list" where
  "symbols_at m a n = map (\<lambda>i. read_sym m (a + 24 * of_nat i)) [0..<n]"

lemma symbols_at_Suc: "symbols_at m a (Suc n) = read_sym m a # symbols_at m (a + 24) n"
proof -
  have "[0..<Suc n] = 0 # map Suc [0..<n]" by (simp add: map_Suc_upt upt_conv_Cons del: upt_Suc)
  then show ?thesis by (simp add: symbols_at_def comp_def algebra_simps del: upt_Suc)
qed

text \<open>
  The first symbol that is the one for the function, unless one without a proper name comes
  before it.
\<close>

definition first_plt_symbol :: "u64 \<Rightarrow> u64 \<Rightarrow> elf_sym list \<Rightarrow> elf_sym option" where
  "first_plt_symbol func size_of_strings syms =
     List.find (plt_symbol func) (takeWhile (\<lambda>esym. ucast (st_name esym) < size_of_strings) syms)"

definition table_size :: "u64 \<Rightarrow> u64 \<Rightarrow> nat" where
  "table_size a symtab_end = (unat symtab_end - unat a + 23) div 24"

lemma div24: "0 < (d :: nat) \<Longrightarrow> (d + 23) div 24 = Suc ((d - 24 + 23) div 24)"
  by (cases "d < 24") (simp_all add: div_nat_eqI le_div_geq)

lemma find_symbol_first:
  assumes "unat symtab_end + 24 < 2 ^ 64"
  shows "find_symbol m func sz symtab_end a =
    Some (first_plt_symbol func sz (symbols_at m a (table_size a symtab_end)))"
proof (induction "unat symtab_end - unat a" arbitrary: a rule: less_induct)
  case less
  show ?case
  proof (cases "a < symtab_end")
    case False
    then have "table_size a symtab_end = 0" by (simp add: table_size_def word_less_nat_alt)
    then show ?thesis
      using False by (subst find_symbol.simps) (simp add: first_plt_symbol_def symbols_at_def)
  next
    case True
    then have lt: "unat a < unat symtab_end" by (simp add: word_less_nat_alt)
    then have ua: "unat (a + 24) = unat a + 24" using assms by (simp add: unat_word_ariths)
    then have n: "table_size a symtab_end = Suc (table_size (a + 24) symtab_end)"
      using lt div24 [of "unat symtab_end - unat a"] by (simp add: table_size_def)
    have "unat symtab_end - unat (a + 24) < unat symtab_end - unat a" using lt ua by linarith
    from less.hyps [OF this] show ?thesis
      using True by (subst find_symbol.simps) (auto simp: n symbols_at_Suc first_plt_symbol_def not_le)
  qed
qed

text \<open>
  C38: \<open>resolve_func_plt\<close>. When the dynamic section of the lowest module at or below the
  function ends, \<open>funchook_resolve_func\<close> returns. The result is the function unless the symbol
  table of that module holds, before any symbol whose name is out of bounds, an undefined
  function symbol with the address of the function as its value: then it is what \<open>dlsym\<close> finds
  for the name of the first such symbol, and the next definition when that is the function.
\<close>

theorem resolve_func_plt:
  assumes "find_module func None lms = Some lmap" and "valid_module (mem s) (l_addr lmap)"
    and "dynamic_at (mem s) (l_ld lmap) ds"
    and "t = fold (\<lambda>(tag, v). set_table tag v) ds \<lparr>tab_sym = 0, tab_str = 0, tab_strsz = 0\<rparr>"
    and "unat (tab_str t) + 24 < 2 ^ 64"
  shows "funchook_resolve_func_unix lms dlsym_default dlsym_next func s =
      Some (case first_plt_symbol func (tab_strsz t)
              (symbols_at (mem s) (tab_sym t) (table_size (tab_sym t) (tab_str t))) of
          None \<Rightarrow> func
        | Some esym \<Rightarrow> lookup_symbol dlsym_default dlsym_next (mem s) (tab_str t + ucast (st_name esym)) func) \<and>
    lmap \<in> set lms \<and> l_addr lmap \<le> func \<and> (\<forall>l \<in> set lms. l_addr l \<le> func \<longrightarrow> l_addr lmap \<le> l_addr l)"
  using find_module_lowest [OF assms(1)] assms(1,2) read_dynamic_entries [OF assms(3)]
    find_symbol_first [OF assms(5)]
  by (simp add: funchook_resolve_func_unix_def assms(4) [symmetric] split: option.split)

text \<open>
  A program that is not position independent, whose symbol table holds one symbol: the PLT
  entry at 0x401030.
\<close>

definition sample_elf :: "u64 \<Rightarrow> u8" where
  "sample_elf x =
     (if x = 0x1000 then 1 else if x = 0x1004 then 0x12
      else if x = 0x1008 then 0x30 else if x = 0x1009 then 0x10 else if x = 0x100A then 0x40
      else if x = 0x3000 then 6 else if x = 0x3009 then 0x10
      else if x = 0x3010 then 5 else if x = 0x3018 then 0x18 else if x = 0x3019 then 0x10
      else if x = 0x3020 then 10 else if x = 0x3028 then 8 else 0)"

definition sample_elf_state :: "(u64, unit) os_state" where
  "sample_elf_state =
     \<lparr>mem = sample_elf, mprot = (\<lambda>x. None), now = 0, page_size = 4096, error_message = [], os_data = ()\<rparr>"

lemma sample_dynamic: "dynamic_at sample_elf 0x3000 [(6, 0x1000), (5, 0x1018), (10, 8)]"
  by code_simp

lemma sample_symbol:
  "first_plt_symbol 0x401030 8 (symbols_at sample_elf 0x1000 1) =
     Some \<lparr>st_name = 1, st_info = 0x12, st_value = 0x401030, st_size = 0\<rparr>"
  by code_simp

theorem resolve_func_plt_witness:
  "funchook_resolve_func_unix [\<lparr>l_addr = 0, l_ld = 0x3000\<rparr>] (\<lambda>m a. 0x7f0000) (\<lambda>m a. 0) 0x401030 sample_elf_state =
     Some 0x7f0000"
proof -
  have m: "mem sample_elf_state = sample_elf" by (simp add: sample_elf_state_def)
  have f: "find_module 0x401030 None [\<lparr>l_addr = 0, l_ld = 0x3000\<rparr>] = Some \<lparr>l_addr = 0, l_ld = 0x3000\<rparr>" by simp
  have v: "valid_module (mem sample_elf_state) (l_addr \<lparr>l_addr = 0, l_ld = 0x3000\<rparr>)" by (simp add: valid_module_def)
  have d: "dynamic_at (mem sample_elf_state) (l_ld \<lparr>l_addr = 0, l_ld = 0x3000\<rparr>) [(6, 0x1000), (5, 0x1018), (10, 8)]"
    using sample_dynamic by (simp add: m)
  let ?t = "\<lparr>tab_sym = 0x1000, tab_str = 0x1018, tab_strsz = 8\<rparr>"
  have t: "?t = fold (\<lambda>(tag, v). set_table tag v) [(6, 0x1000), (5, 0x1018), (10, 8)]
      \<lparr>tab_sym = 0, tab_str = 0, tab_strsz = 0\<rparr>"
    by (simp add: set_table_def DT_SYMTAB_def DT_STRTAB_def DT_STRSZ_def)
  have e: "unat (tab_str ?t) + 24 < 2 ^ 64" by simp
  have "table_size 0x1000 0x1018 = 1" by (simp add: table_size_def)
  then show ?thesis
    using resolve_func_plt [OF f v d t e, of "\<lambda>m a. 0x7f0000" "\<lambda>m a. 0"] sample_symbol
    by (simp add: m lookup_symbol_def)
qed

end
