(* ===== verification/OS_Unix_Mac.thy ===== *)
theory OS_Unix_Mac
  imports OS_Unix_Correct
begin

text \<open>
  The memory map on macOS (src/src/os_unix.c): \<open>memory_map_next\<close> asks \<open>vm_region_64\<close> for the first
  region at or above an address, and \<open>get_free_address\<close> searches those regions. The search makes
  the choice it makes on Linux when the kernel lists the same regions there.
\<close>

section \<open>The search over regions\<close>

text \<open>
  \<open>vm\<close> is \<open>vm_region_64\<close>: the start and the size of a region, or failure. The state of the
  iteration is the address for the next call.
\<close>

definition memory_map_next_mac :: "(u64 \<Rightarrow> (u64 \<times> u64) option) \<Rightarrow> u64 \<Rightarrow> (u64 \<times> u64 \<times> u64) option" where
  "memory_map_next_mac vm addr =
     (case vm addr of None \<Rightarrow> None | Some (start, sz) \<Rightarrow> Some (start, start + sz, start + sz))"

text \<open>\<open>None\<close> stands for a search that does not end.\<close>

partial_function (option) free_address_loop_mac ::
    "(u64 \<Rightarrow> (u64 \<times> u64) option) \<Rightarrow> u64 \<Rightarrow> u64 \<Rightarrow> u64 \<Rightarrow> u64 \<Rightarrow> u64 \<Rightarrow> u64 \<Rightarrow> (u64 \<times> u64) option option" where
  "free_address_loop_mac vm psz func addr prev_end a0 a1 =
     (case memory_map_next_mac vm addr of
        None \<Rightarrow>
          Some (if func < prev_end
            then Some (a0, if prev_end - func < INT32_MAX then prev_end else a1) else None)
      | Some (start, end, addr') \<Rightarrow>
          if prev_end + psz \<le> start then
            if func < prev_end
            then Some (Some (if start < func \<and> func - (start - psz) < INT32_MAX then start - psz else a0,
                             if prev_end - func < INT32_MAX then prev_end else a1))
            else free_address_loop_mac vm psz func addr' end
                   (if start < func \<and> func - (start - psz) < INT32_MAX then start - psz else a0) a1
          else free_address_loop_mac vm psz func addr' end a0 a1)"

definition get_free_address_mac ::
    "(nat \<Rightarrow> (u64 \<Rightarrow> prot option) \<Rightarrow> u64 \<Rightarrow> (u64 \<times> u64) option) \<Rightarrow> u64 \<Rightarrow> (u64, 'p, 'z) os_state_scheme \<Rightarrow>
      ((u64 \<times> u64) result \<times> (u64, 'p, 'z) os_state_scheme) option" where
  "get_free_address_mac vm func s =
     (case free_address_loop_mac (vm (now s) (mprot s)) (page_size s) func 0 0 0 0 of
        None \<Rightarrow> None
      | Some (Some addrs) \<Rightarrow> Some (Inr addrs, tick s)
      | Some None \<Rightarrow>
          Some (Inl (Err ERROR_MEMORY_ALLOCATION),
            funchook_set_error_message (''Could not find a free region near '' @ fmt_p func) (tick s)))"

section \<open>The same choice as on Linux\<close>

text \<open>What \<open>vm_region_64\<close> answers from an address on.\<close>

fun regions_from :: "(u64 \<Rightarrow> (u64 \<times> u64) option) \<Rightarrow> u64 \<Rightarrow> (u64 \<times> u64) list \<Rightarrow> bool" where
  "regions_from vm addr [] \<longleftrightarrow> vm addr = None"
| "regions_from vm addr ((start, end) # rs) \<longleftrightarrow> vm addr = Some (start, end - start) \<and> regions_from vm end rs"

lemma map_lines_Cons: "map_lines ((start, end, t) # ms) = map_line start end t # map_lines ms"
  and bounds_of_Cons: "bounds_of ((start, end, t) # ms) = (start, end) # bounds_of ms"
  by (simp_all add: map_lines_def bounds_of_def)

lemma free_address_loop_mac_lines:
  "regions_from vm addr (bounds_of ms) \<Longrightarrow> list_all short_line (map_lines ms) \<Longrightarrow>
     free_address_loop_mac vm psz func addr prev_end a0 a1 =
     Some (free_address_loop psz func (file_of (map_lines ms)) prev_end a0 a1)"
proof (induction ms arbitrary: addr prev_end a0 a1)
  case Nil
  then show ?case
    by (subst free_address_loop_mac.simps)
      (simp add: memory_map_next_mac_def bounds_of_def map_lines_def free_address_loop_end)
next
  case (Cons r ms)
  obtain start "end" t where r: "r = (start, end, t)" by (cases r)
  have m: "memory_map_next_mac vm addr = Some (start, end, end)"
    and rs: "regions_from vm end (bounds_of ms)"
    and short: "short_line (map_line start end t)" "list_all short_line (map_lines ms)"
    using Cons.prems by (simp_all add: r bounds_of_Cons map_lines_Cons memory_map_next_mac_def)
  have fl: "file_of (map_lines (r # ms)) = map_line start end t @ newline @ file_of (map_lines ms)"
    by (simp add: r map_lines_Cons)
  show ?case
    unfolding fl free_address_loop_line [OF short(1) parse_map_line_line]
    using Cons.IH [OF rs short(2)] m by (subst free_address_loop_mac.simps) (simp add: Let_def)
qed

text \<open>
  Both systems find the same addresses, and fail with the same message, for the same mappings,
  as long as the lines of the file fit into the buffer.
\<close>

lemma get_free_address_mac_linux:
  assumes "regions_from (vm (now s) (mprot s)) 0 (bounds_of ms)"
    and "env_maps env (now s) (mprot s) = Inr (file_of (map_lines ms))" and "list_all short_line (map_lines ms)"
  shows "get_free_address_mac vm func s = Some (get_free_address env func s)"
  using free_address_loop_mac_lines [OF assms(1,3), of "page_size s" func 0 0 0]
  by (simp add: get_free_address_mac_def get_free_address_def assms(2) split: option.split)

end
