(* ===== verification/OS_Unix_Maps.thy ===== *)
theory OS_Unix_Maps
  imports OS_Unix_Correct FH_Log
begin

text \<open>
  The file \<open>/proc/self/maps\<close> as the code reads it (src/src/os_unix.c): \<open>memory_map_open\<close>,
  \<open>memory_map_next\<close> on an open stream, \<open>memory_map_close\<close>, and \<open>get_free_address\<close> over them.
  \<open>OS_Unix\<close> describes the same search over the content of the file; here the stream is opened,
  read and closed. The lemmas show that this makes no difference, what the search finds over a
  file whose lines fit into the buffer of \<open>PATH_MAX\<close> bytes, and what happens behind a line that
  does not.
\<close>

section \<open>Error texts\<close>

text \<open>
  \<open>funchook_strerror\<close>: \<open>strerror_r\<close> is an argument. The GNU variant returns the text, the XSI
  variant returns a code and fills the buffer.
\<close>

definition funchook_strerror :: "(nat \<Rightarrow> nat \<Rightarrow> string) + (nat \<Rightarrow> nat \<Rightarrow> int \<times> string) \<Rightarrow> nat \<Rightarrow> nat \<Rightarrow> string" where
  "funchook_strerror strerror_r errnum buflen =
     (case strerror_r of
        Inl gnu \<Rightarrow> gnu errnum buflen
      | Inr xsi \<Rightarrow>
          (case xsi errnum buflen of (rv, buf) \<Rightarrow>
             if rv \<noteq> 0 then take (buflen - 1) (''errno '' @ fmt_d (int errnum)) else buf))"

section \<open>The stream\<close>

text \<open>An open stream holds what has not been read yet. \<open>None\<close>: use of a closed stream.\<close>

record map_files =
  mf_streams :: "nat \<Rightarrow> string option"
  mf_opens :: nat

text \<open>The argument of \<open>memory_map_open\<close> is the error number of \<open>fopen\<close> or the content of the file.\<close>

definition memory_map_open :: "nat + string \<Rightarrow> map_files \<Rightarrow> (nat + nat) \<times> map_files" where
  "memory_map_open file F =
     (case file of
        Inl errno \<Rightarrow> (Inl errno, F)
      | Inr content \<Rightarrow>
          (Inr (mf_opens F),
           F\<lparr>mf_streams := (mf_streams F)(mf_opens F \<mapsto> content), mf_opens := Suc (mf_opens F)\<rparr>))"

definition memory_map_next_file :: "nat \<Rightarrow> map_files \<Rightarrow> ((u64 \<times> u64) option \<times> map_files) option" where
  "memory_map_next_file f F =
     map_option (\<lambda>content. case memory_map_next content of (r, rest) \<Rightarrow>
         (r, F\<lparr>mf_streams := (mf_streams F)(f \<mapsto> rest)\<rparr>)) (mf_streams F f)"

definition memory_map_close :: "nat \<Rightarrow> map_files \<Rightarrow> map_files option" where
  "memory_map_close f F =
     (if mf_streams F f = None then None else Some (F\<lparr>mf_streams := (mf_streams F)(f := None)\<rparr>))"

section \<open>The search\<close>

partial_function (option) free_address_loop_file ::
    "u64 \<Rightarrow> u64 \<Rightarrow> nat \<Rightarrow> map_files \<Rightarrow> u64 \<Rightarrow> u64 \<Rightarrow> u64 \<Rightarrow> ((u64 \<times> u64) option \<times> map_files) option" where
  "free_address_loop_file psz func f F prev_end a0 a1 =
     Option.bind (memory_map_next_file f F) (\<lambda>(r, F1).
       case r of
         None \<Rightarrow>
           map_option (Pair (if func < prev_end
               then Some (a0, if prev_end - func < INT32_MAX then prev_end else a1) else None))
             (memory_map_close f F1)
       | Some (start, end) \<Rightarrow>
           if prev_end + psz \<le> start then
             if func < prev_end then
               map_option (Pair (Some (if start < func \<and> func - (start - psz) < INT32_MAX then start - psz else a0,
                   if prev_end - func < INT32_MAX then prev_end else a1)))
                 (memory_map_close f F1)
             else free_address_loop_file psz func f F1 end
                    (if start < func \<and> func - (start - psz) < INT32_MAX then start - psz else a0) a1
           else free_address_loop_file psz func f F1 end a0 a1)"

definition get_free_address_file ::
    "(nat \<Rightarrow> string) \<Rightarrow> nat + string \<Rightarrow> u64 \<Rightarrow> (u64, 'p, 'z) os_state_scheme \<Rightarrow> map_files \<Rightarrow>
      (((u64 \<times> u64) result \<times> (u64, 'p, 'z) os_state_scheme) \<times> map_files) option" where
  "get_free_address_file strerror file func s F =
     (case memory_map_open file F of
        (Inl errno, F1) \<Rightarrow>
          Some ((Inl (Err ERROR_INTERNAL_ERROR),
             funchook_set_error_message (''Failed to open /proc/self/maps ('' @ strerror errno @ '')'') (tick s)), F1)
      | (Inr f, F1) \<Rightarrow>
          map_option (\<lambda>(r, F2).
            (case r of
               Some addrs \<Rightarrow> (Inr addrs, tick s)
             | None \<Rightarrow>
                 (Inl (Err ERROR_MEMORY_ALLOCATION),
                  funchook_set_error_message (''Could not find a free region near '' @ fmt_p func) (tick s)), F2))
            (free_address_loop_file (page_size s) func f F1 0 0 0))"

section \<open>The stream makes no difference\<close>

definition closed :: "nat \<Rightarrow> map_files \<Rightarrow> map_files" where
  "closed f F = F\<lparr>mf_streams := (mf_streams F)(f := None)\<rparr>"

lemma closed_update [simp]: "closed f (F\<lparr>mf_streams := (mf_streams F)(f \<mapsto> x)\<rparr>) = closed f F"
  by (simp add: closed_def fun_eq_iff)

lemma memory_map_close_open: "mf_streams F f = Some x \<Longrightarrow> memory_map_close f F = Some (closed f F)"
  by (simp add: memory_map_close_def closed_def)

lemma free_address_loop_file_content:
  "mf_streams F f = Some content \<Longrightarrow>
     free_address_loop_file psz func f F prev_end a0 a1 =
       Some (free_address_loop psz func content prev_end a0 a1, closed f F)"
proof (induction psz func content prev_end a0 a1 arbitrary: F rule: free_address_loop.induct)
  case (1 psz func content prev_end a0 a1)
  obtain r rest where n: "memory_map_next content = (r, rest)" by (cases "memory_map_next content")
  let ?F = "F\<lparr>mf_streams := (mf_streams F)(f \<mapsto> rest)\<rparr>"
  have nf: "memory_map_next_file f F = Some (r, ?F)"
    using 1(3) n by (simp add: memory_map_next_file_def)
  have c: "memory_map_close f ?F = Some (closed f F)"
    by (simp add: memory_map_close_open)
  show ?case
  proof (cases r)
    case None
    then show ?thesis
      using n nf c by (subst free_address_loop_file.simps, subst free_address_loop.simps) simp
  next
    case (Some b)
    obtain start "end" where b: "b = (start, end)" by (cases b)
    have n': "memory_map_next content = (Some (start, end), rest)" using n Some b by simp
    have ih: "free_address_loop_file psz func f ?F end a a1 =
        Some (free_address_loop psz func rest end a a1, closed f F)"
      if "if prev_end + psz \<le> start then \<not> func < prev_end \<and>
          a = (if start < func \<and> func - (start - psz) < INT32_MAX then start - psz else a0) else a = a0" for a
      using that 1(1) [OF n' [symmetric] refl refl, of _ ?F] 1(2) [OF n' [symmetric] refl refl, of ?F]
      by (auto split: if_splits)
    show ?thesis
      using n' nf c Some b ih
      by (subst free_address_loop_file.simps, subst free_address_loop.simps) (auto simp: Let_def)
  qed
qed

lemma get_free_address_content:
  assumes "file = env_maps env (now s) (mprot s)" and "mf_streams F (mf_opens F) = None"
  shows "get_free_address_file (env_strerror env) file func s F =
    Some (get_free_address env func s, F\<lparr>mf_opens := mf_opens F + (case file of Inl e \<Rightarrow> 0 | Inr c \<Rightarrow> 1)\<rparr>)"
proof (cases "file")
  case (Inl e)
  with assms(1) [symmetric] show ?thesis
    by (simp add: get_free_address_file_def get_free_address_def memory_map_open_def)
next
  case (Inr content)
  let ?F = "F\<lparr>mf_streams := (mf_streams F)(mf_opens F \<mapsto> content), mf_opens := Suc (mf_opens F)\<rparr>"
  have "(mf_streams F)(mf_opens F := None) = mf_streams F"
    using assms(2) by auto
  then have "closed (mf_opens F) ?F = F\<lparr>mf_opens := Suc (mf_opens F)\<rparr>"
    by (simp add: closed_def)
  then have "free_address_loop_file (page_size s) func (mf_opens F) ?F 0 0 0 =
      Some (free_address_loop (page_size s) func content 0 0 0, F\<lparr>mf_opens := Suc (mf_opens F)\<rparr>)"
    using free_address_loop_file_content [of ?F "mf_opens F" content] by simp
  with Inr assms(1) [symmetric] show ?thesis
    by (simp add: get_free_address_file_def get_free_address_def memory_map_open_def split: option.split)
qed

section \<open>The search over lines\<close>

text \<open>The same search over lines, without a buffer: a line that does not parse ends the list.\<close>

fun search_lines :: "u64 \<Rightarrow> u64 \<Rightarrow> string list \<Rightarrow> u64 \<Rightarrow> u64 \<Rightarrow> u64 \<Rightarrow> (u64 \<times> u64) option" where
  "search_lines psz func [] prev_end a0 a1 =
     (if func < prev_end
      then Some (a0, if prev_end - func < INT32_MAX then prev_end else a1) else None)"
| "search_lines psz func (l # ls) prev_end a0 a1 =
     (case parse_map_line l of
        None \<Rightarrow> search_lines psz func [] prev_end a0 a1
      | Some (start, end) \<Rightarrow>
          if prev_end + psz \<le> start then
            (let a0' = (if start < func \<and> func - (start - psz) < INT32_MAX then start - psz else a0)
             in if func < prev_end
                then Some (a0', if prev_end - func < INT32_MAX then prev_end else a1)
                else search_lines psz func ls end a0' a1)
          else search_lines psz func ls end a0 a1)"

text \<open>What the search over the content finds, given what it finds behind the first lines.\<close>

definition searches :: "u64 \<Rightarrow> u64 \<Rightarrow> string \<Rightarrow> string list \<Rightarrow> bool" where
  "searches psz func content ls \<longleftrightarrow>
     (\<forall>prev_end a0 a1. free_address_loop psz func content prev_end a0 a1 = search_lines psz func ls prev_end a0 a1)"

lemma searches_line:
  assumes "memory_map_next content = (parse_map_line l, rest)" and "searches psz func rest ls"
  shows "searches psz func content (l # ls)"
  using assms unfolding searches_def
  by (intro allI, subst free_address_loop.simps) (simp add: Let_def split: option.split)

lemma searches_end:
  assumes "fst (memory_map_next content) = None"
  shows "searches psz func content []"
  using assms unfolding searches_def
  by (intro allI, subst free_address_loop.simps) (auto split: prod.split)

lemma searches_short:
  "list_all short_line ls \<Longrightarrow> searches psz func tail ls' \<Longrightarrow> searches psz func (file_of ls @ tail) (ls @ ls')"
proof (induction ls)
  case (Cons l ls)
  then have "searches psz func (file_of ls @ tail) (ls @ ls')" and "short_line l" by simp_all
  then have "searches psz func (l @ newline @ file_of ls @ tail) (l # ls @ ls')"
    using next_short_line by (intro searches_line) blast+
  then show ?case by simp
qed simp

definition lines_result ::
    "(u64 \<times> u64) option \<Rightarrow> u64 \<Rightarrow> (u64, 'p, 'z) os_state_scheme \<Rightarrow>
      (u64 \<times> u64) result \<times> (u64, 'p, 'z) os_state_scheme" where
  "lines_result r func s =
     (case r of
        Some addrs \<Rightarrow> (Inr addrs, tick s)
      | None \<Rightarrow>
          (Inl (Err ERROR_MEMORY_ALLOCATION),
           funchook_set_error_message (''Could not find a free region near '' @ fmt_p func) (tick s)))"

lemma get_free_address_searches:
  assumes "searches (page_size s) func content ls" and "env_maps env (now s) (mprot s) = Inr content"
  shows "get_free_address env func s = lines_result (search_lines (page_size s) func ls 0 0 0) func s"
  using assms by (simp add: get_free_address_def searches_def lines_result_def split: option.split)

text \<open>
  C33: \<open>maps_file_search\<close>. Reading \<open>/proc/self/maps\<close> through a stream and a buffer of \<open>PATH_MAX\<close>
  bytes: whatever the file holds, \<open>get_free_address\<close> returns, with the result and the state of
  the search over the content, whether it finds addresses, finds none or cannot open the file;
  it never uses a closed stream, and closes the stream it has opened on every path. When every
  line fits into the buffer, this is the search over the lines of the file.
\<close>

theorem maps_file_search:
  assumes "file = env_maps env (now s) (mprot s)" and "mf_streams F (mf_opens F) = None"
  shows "get_free_address_file (env_strerror env) file func s F =
      Some (get_free_address env func s, F\<lparr>mf_opens := mf_opens F + (case file of Inl e \<Rightarrow> 0 | Inr c \<Rightarrow> 1)\<rparr>) \<and>
    (\<forall>ls. file = Inr (file_of ls) \<and> list_all short_line ls \<longrightarrow>
      get_free_address env func s = lines_result (search_lines (page_size s) func ls 0 0 0) func s)"
proof (intro conjI allI impI)
  fix ls assume ls: "file = Inr (file_of ls) \<and> list_all short_line ls"
  have "searches (page_size s) func [] []" by (rule searches_end) simp
  then have "searches (page_size s) func (file_of ls) ls"
    using searches_short [of ls _ _ "[]" "[]"] ls by simp
  then show "get_free_address env func s = lines_result (search_lines (page_size s) func ls 0 0 0) func s"
    using get_free_address_searches ls assms(1) by metis
qed (rule get_free_address_content [OF assms])

definition no_files :: map_files where
  "no_files = \<lparr>mf_streams = \<lambda>f. None, mf_opens = 0\<rparr>"

theorem maps_file_search_witness:
  "get_free_address_file (env_strerror sample_env) (Inr (file_of [''401000-402000 r-xp'']))
     0x401500 (sample_state\<lparr>page_size := 4096\<rparr>) no_files =
   Some ((Inr (0x400000, 0x402000), tick (sample_state\<lparr>page_size := 4096\<rparr>)), no_files\<lparr>mf_opens := 1\<rparr>)"
proof -
  let ?ls = "[''401000-402000 r-xp'']" and ?s = "sample_state\<lparr>page_size := 4096\<rparr>"
  let ?env = "sample_env\<lparr>env_maps := (\<lambda>n pr. Inr (file_of ?ls))\<rparr>"
  have "list_all short_line ?ls" by (simp add: short_line_def PATH_MAX_def)
  moreover have "search_lines 4096 0x401500 ?ls 0 0 0 = Some (0x400000, 0x402000)" by code_simp
  moreover have "get_free_address_file (env_strerror ?env) (Inr (file_of ?ls)) 0x401500 ?s no_files =
      Some (get_free_address ?env 0x401500 ?s,
        no_files\<lparr>mf_opens := mf_opens no_files + (case Inr (file_of ?ls) :: nat + string of Inl e \<Rightarrow> 0 | Inr c \<Rightarrow> 1)\<rparr>) \<and>
    (\<forall>ls. Inr (file_of ?ls) = (Inr (file_of ls) :: nat + string) \<and> list_all short_line ls \<longrightarrow>
      get_free_address ?env 0x401500 ?s = lines_result (search_lines (page_size ?s) 0x401500 ls 0 0 0) 0x401500 ?s)"
    by (rule maps_file_search) (simp_all add: no_files_def)
  ultimately show ?thesis by (simp add: no_files_def lines_result_def del: search_lines.simps file_of_simps)
qed

section \<open>A line that does not fit\<close>

text \<open>What is left of a long line is taken for a line; it must not look like one.\<close>

definition address_char :: "char \<Rightarrow> bool" where
  "address_char c \<longleftrightarrow> 48 \<le> (of_char c :: nat) \<and> (of_char c :: nat) \<le> 57 \<or>
     97 \<le> (of_char c :: nat) \<and> (of_char c :: nat) \<le> 102 \<or> c = CHR ''-''"

lemma parse_no_address: "\<not> address_char c \<Longrightarrow> parse_map_line (c # l) = None"
  by (auto simp: address_char_def parse_map_line_def)

lemma searches_long:
  assumes "CHR 0x0A \<notin> set l" and "PATH_MAX \<le> length l" and "\<not> address_char (l ! (PATH_MAX - 1))"
  shows "searches psz func (l @ newline @ rest) [take (PATH_MAX - 1) l]"
proof (rule searches_line)
  show "memory_map_next (l @ newline @ rest) =
      (parse_map_line (take (PATH_MAX - 1) l), drop (PATH_MAX - 1) l @ newline @ rest)"
    using assms(2) by (intro next_long_line [OF assms(1)]) simp
  have l: "drop (PATH_MAX - 1) l = l ! (PATH_MAX - 1) # drop PATH_MAX l"
    using assms(2) Cons_nth_drop_Suc [of "PATH_MAX - 1" l] by (simp add: PATH_MAX_def)
  have "l ! (PATH_MAX - 1) \<in> set l" using assms(2) by (intro nth_mem) (simp add: PATH_MAX_def)
  then have "l ! (PATH_MAX - 1) \<noteq> CHR 0x0A" using assms(1) by auto
  then have "\<exists>buf k. fgets PATH_MAX (drop (PATH_MAX - 1) l @ newline @ rest) = Some (l ! (PATH_MAX - 1) # buf, k)"
    unfolding l by (simp add: fgets_def Let_def PATH_MAX_def)
  then show "searches psz func (drop (PATH_MAX - 1) l @ newline @ rest) []"
    using parse_no_address [OF assms(3)] by (intro searches_end) (auto simp: memory_map_next_def)
qed

text \<open>
  A line of \<open>/proc/self/maps\<close> that does not fit into the buffer
  (a mapped file with a path of about 4000 characters): the rest of the line is read as the next
  line, fails to parse and is taken for the end of the file. \<open>get_free_address\<close> behaves as if the
  mapping of the long line were the last one, whatever follows; in particular it fails for every
  function mapped behind it.
\<close>

theorem long_map_line_hides_rest:
  assumes "list_all short_line ls" and "l = map_line start end t" and "CHR 0x0A \<notin> set l"
    and "PATH_MAX \<le> length l" and "\<not> address_char (l ! (PATH_MAX - 1))"
    and "env_maps env (now s) (mprot s) = Inr (file_of (ls @ l # ls'))"
  shows "get_free_address env func s =
      lines_result (search_lines (page_size s) func (ls @ [take (PATH_MAX - 1) l]) 0 0 0) func s \<and>
    (ls = [] \<and> end \<le> func \<longrightarrow> fst (get_free_address env func s) = Inl (Err ERROR_MEMORY_ALLOCATION))"
proof -
  have "searches (page_size s) func (file_of ls @ l @ newline @ file_of ls') (ls @ [take (PATH_MAX - 1) l])"
    by (rule searches_short [OF assms(1) searches_long [OF assms(3-5)]])
  then have r: "get_free_address env func s =
      lines_result (search_lines (page_size s) func (ls @ [take (PATH_MAX - 1) l]) 0 0 0) func s"
    using assms(6) by (intro get_free_address_searches) simp_all
  obtain u where u: "take (PATH_MAX - 1) l = map_line start end u"
    using take_map_line assms(2) by blast
  have "search_lines (page_size s) func [take (PATH_MAX - 1) l] 0 0 0 = None" if "end \<le> func"
  proof -
    have "\<not> func < end" using that by (simp add: not_less)
    then show ?thesis unfolding u by (simp add: parse_map_line_line Let_def)
  qed
  with r show ?thesis by (auto simp: lines_result_def)
qed

definition long_path :: string where
  "long_path = ''r-xp /'' @ replicate 4200 CHR ''x''"

theorem long_map_line_hides_rest_witness:
  "fst (get_free_address (sample_env\<lparr>env_maps := (\<lambda>n pr. Inr (file_of [map_line 0x10 0x20 long_path, ''00005000-00009000 r-xp'']))\<rparr>)
     0x5500 (sample_state\<lparr>page_size := 0x1000\<rparr>)) = Inl (Err ERROR_MEMORY_ALLOCATION)"
proof -
  let ?l = "map_line 0x10 0x20 long_path" and ?s = "sample_state\<lparr>page_size := 0x1000\<rparr>"
  let ?env = "sample_env\<lparr>env_maps := (\<lambda>n pr. Inr (file_of [?l, ''00005000-00009000 r-xp'']))\<rparr>"
  have "map_line 0x10 0x20 [] = ''00000010-00000020 ''" by code_simp
  then have l: "?l = ''00000010-00000020 r-xp /'' @ replicate 4200 CHR ''x''"
    by (simp add: map_line_def long_path_def)
  have nl: "CHR 0x0A \<notin> set ?l" unfolding l by simp
  have len: "PATH_MAX \<le> length ?l" unfolding l by (simp add: PATH_MAX_def)
  have "?l ! (PATH_MAX - 1) = CHR ''x''" unfolding l by (simp add: PATH_MAX_def nth_append)
  then have c: "\<not> address_char (?l ! (PATH_MAX - 1))" by (simp add: address_char_def)
  have "get_free_address ?env 0x5500 ?s =
      lines_result (search_lines (page_size ?s) 0x5500 ([] @ [take (PATH_MAX - 1) ?l]) 0 0 0) 0x5500 ?s \<and>
    ([] = ([] :: string list) \<and> 0x20 \<le> (0x5500 :: u64) \<longrightarrow>
      fst (get_free_address ?env 0x5500 ?s) = Inl (Err ERROR_MEMORY_ALLOCATION))"
    by (rule long_map_line_hides_rest [OF _ refl nl len c]) (simp_all del: file_of_simps)
  moreover have "[] = ([] :: string list) \<and> 0x20 \<le> (0x5500 :: u64)" by simp
  ultimately show ?thesis by blast
qed

end
