(* ===== verification/Spec2Isabelle.thy ===== *)
theory Spec2Isabelle
  imports Session_Windows Session_ARM64 Hook_Caller_ARM64 Disasm_X86_Correct Disasm_Log OS_Windows_Destroy OS_Windows_Resolve
    OS_Unix_Resolve OS_Unix_Mac OS_Unix_Maps
begin

text \<open>
  Funchook intercepts calls of C functions at run time. \<open>funchook_prepare\<close> disassembles the
  first instructions of a function, moves them into a trampoline in a page near the function and
  makes a patch that jumps to the hook; \<open>funchook_install\<close> writes the patches,
  \<open>funchook_uninstall\<close> writes the saved bytes back, \<open>funchook_destroy\<close> gives the pages back.
  This development models the C code of the repository and proves that it does so.

  \<^bold>\<open>Parts and theories.\<close>

  \<^item> \<open>FH_Prelude\<close>: words, little-endian bytes, bounded writes into arrays, the rounding macros,
    byte-addressed memory. \<open>FH_Base\<close>: error codes, entries, pages, the state, error messages.
  \<^item> \<open>FH_Core\<close>: src/src/funchook.c. The records \<open>arch_ops\<close> and \<open>os_ops\<close> stand for the functions of
    the processor and system layers it calls. \<open>FH_Handle\<close> states what it relies on of them as the
    locales \<open>os_layer\<close> and \<open>granting_os\<close> and proves what installing and uninstalling do;
    \<open>FH_Invariant\<close> has \<open>code_generator\<close>, \<open>handle_library\<close> and \<open>freeing_os\<close>, the invariant of a
    handle, and \<open>reachable\<close>, the states after calls without a failed install or uninstall;
    \<open>FH_Installed\<close> goes from a prepared to an installed hook; \<open>FH_Calls\<close> has \<open>called\<close>, the states
    after calls that return 0 or an error code, with the patches that a failed call leaves; \<open>FH_Destroy\<close> has \<open>owning_os\<close>, a layer that can only release the
    pages it has handed out. \<open>FH_Log\<close>: the debug log and the public functions around it.
  \<^item> \<open>FH_Disasm\<close>: what the builders see of a disassembler (src/src/disasm.h). \<open>Disasm_X86\<close> and
    \<open>Disasm_X86_Correct\<close>: src/src/disasm_capstone.c, disasm_distorm.c and disasm_Zydis.c.
    \<open>Disasm_Log\<close>: the lines they log for an instruction and \<open>funchook_log_trampoline\<close>.
  \<^item> \<open>Arch_X86\<close>: src/src/arch_x86.c, arch_x86.h and template.inc. \<open>Arch_X86_Safety\<close> (bounds; the
    locales \<open>pc_rewriter\<close> and \<open>trampoline_builder\<close>, interpreted for x86_64 and i386),
    \<open>Arch_X86_Trampoline\<close>, \<open>Arch_X86_Exec\<close> (the instructions that generated code uses, as a step
    function), \<open>Arch_X86_Entry\<close>, \<open>Arch_X86_Correct\<close> and \<open>Arch_X86_Contract\<close>, which interprets
    \<open>code_generator\<close> and, with the Unix layer, \<open>handle_library\<close>.
  \<^item> \<open>Arch_ARM64\<close>: src/src/arch_arm64.c and arch_arm64.h. \<open>Arch_ARM64_Exec\<close> decodes and runs the
    part of A64 that trampolines consist of; \<open>Arch_ARM64_Trampoline\<close>, \<open>Arch_ARM64_Sim\<close>,
    \<open>Arch_ARM64_Build\<close>, \<open>Arch_ARM64_Entry\<close>, \<open>Arch_ARM64_Correct\<close>, \<open>Arch_ARM64_Contract\<close> follow
    the order of the x86 theories.
  \<^item> \<open>Hook_Caller\<close>: the assembly of the hook callers (src/src/prehook-*.S and .asm) as instructions
    of two small machines. \<open>Hook_Caller_Correct\<close> (x86_64 and i686) and \<open>Hook_Caller_ARM64\<close>: the state
    in which they call \<open>funchook_hook_caller\<close> and the state in which they enter the hook.
  \<^item> \<open>OS_Unix\<close>: src/src/os_unix.c on Linux, with /proc/self/maps as its content, read line by line
    into a buffer of \<open>PATH_MAX\<close> bytes; with \<open>OS_Unix_Contract\<close> (it is an \<open>os_layer\<close>, a
    \<open>freeing_os\<close> and a \<open>granting_os\<close>), \<open>OS_Unix_Correct\<close> (the search for memory near a function),
    \<open>OS_Unix_Maps\<close> (the file as a stream, the errors of opening it, and what long lines do),
    \<open>OS_Unix_Mac\<close> (the same search on macOS) and \<open>OS_Unix_Resolve\<close> (PLT entries).
  \<^item> \<open>OS_Windows\<close>: src/src/os_windows.c, with \<open>OS_Windows_Contract\<close>, \<open>OS_Windows_Correct\<close> (the
    library on Windows for the three processors), \<open>OS_Windows_Destroy\<close> (it is an \<open>owning_os\<close>) and
    \<open>OS_Windows_Resolve\<close> (import tables).
  \<^item> \<open>Sample_Session\<close>, \<open>Session_Correct\<close>, \<open>Session_X86\<close> (running a hook, and a prehook from C to
    assembly and back), \<open>Session_Windows\<close>, \<open>Session_ARM64\<close> and this theory: properties of whole
    sequences of calls, and the concrete runs that show their hypotheses can hold.

  \<^bold>\<open>Correspondence.\<close> A definition has the name of the C function it translates, with a suffix for
  the processor or the system where several exist. A struct is a record, an address a 64-bit or
  32-bit word, an integer of C a word of its size where it can wrap around. The state of a call
  (\<open>fh_state\<close>) holds memory, its protection, the number of system calls made so far, the static
  data of the system layer and the members of \<open>struct funchook\<close>. A page is a list of the entries
  in use, and memory holds their bytes. Functions that return an error code return a sum:
  \<open>Inr\<close> for 0, \<open>Inl (Err e)\<close> for a code, \<open>Inl Crash\<close> where the C program has undefined
  behaviour; the safety properties exclude \<open>Crash\<close>. In the builders and the log undefined
  behaviour is \<open>None\<close>.

  \<^bold>\<open>What is assumed.\<close> The decoders of Capstone, distorm and Zydis are arguments; a property that
  needs a decoder to work assumes well-formed instructions (\<open>wf_insn\<close>: 1 to 15 bytes, operand
  fields inside the instruction), or, on ARM64, that it classifies as the architecture decodes.
  The kernel is an argument whose answers may depend on the number of calls made and on the
  memory map: \<open>unix_kernel\<close> and \<open>windows_kernel\<close> say that fresh mappings are where nothing was
  mapped and that protection changes only mapped memory. The compiled code of the C function \<open>funchook_hook_caller\<close>, which the hook callers call, is
  a function of the machine state that keeps its caller's frame and returns what the C function
  returns (\<open>runs_hook_caller\<close>). The address of the hook caller, the dynamic linker's data and \<open>dlsym\<close>, and \<open>GetModuleHandleEx\<close> are arguments.
  \<open>apart\<close> and \<open>disjoint_blocks\<close> say that functions hooked together do not overlap, \<open>own_code\<close> that a
  function to be hooked is free of patches left by a failed call. Sequences of calls go on from a
  successful \<open>funchook_prepare\<close> only when the trampoline is complete (\<open>x86_fits\<close>): a function
  of fewer than five bytes padded with NOPs, whose entry is corrupt
  (\<open>nop_padded_entry_overwritten\<close>), is outside. \<open>short_line\<close> says that a line of the memory map
  fits the buffer. Properties that need one of these name it.

  \<^bold>\<open>What the lemmas show.\<close> The builders never leave their buffers, a trampoline has the effect of
  the moved instructions, and a patched function runs its hook. The calls keep the invariant of the
  handle, change the program's memory only under installed patches, and restore it. Errors leave
  the handle usable, or the property says what they leave. The system layers keep the contract
  that funchook.c relies on, and find memory in reach. Where the code does something else
  than it means to, a theorem states what it does.

  \<^bold>\<open>Bounds and loops.\<close> Loops over lists and arrays are structural. The loops of the builders take the
  disassembled instructions as a list, at most 256 bytes or 64 words of code; the iterators of
  the back ends have fuel for one round more than there are instructions or bytes of code, which
  \<open>insn_iterator.drain_rest\<close> and \<open>zydis_disasm_total\<close> show to be enough. The
  runs of generated code take the number of steps as an argument, and each property names
  a number that is enough. The loop over the memory map ends because each
  round reads at least one character. Loops that need not end (\<open>find_hint\<close>, \<open>free_address_loop_mac\<close>,
  \<open>read_dynamic\<close>, \<open>find_symbol\<close>, \<open>find_thunk\<close>, \<open>find_import\<close>) are partial functions, whose lemmas
  include that they return.

  \<^bold>\<open>Not modelled.\<close> The messages that functions log while they run, except those of a trampoline
  (the log itself, and the error messages in the handle, are modelled); so the lines logged while
  patches are written are left out. Faults of reading memory: memory is a total function, and
  only writes and calls need a protection. The list of pages of a handle and the control
  page of a Windows allocation unit are lists and not bytes, so that \<open>page->next\<close> is read before the page is
  freed, and that the bits of a unit lie in its first page, is not checked. The detail log of
  disasm_capstone.c, which the source switches off. The generator of template.inc. ELF
  tables of 32-bit programs. The Rust bindings, the build files and the tests. Other threads: the
  calls run alone.
\<close>

text \<open>
  C1: \<open>hooked_function_runs_hook\<close>. The library on x86_64 Linux from end to end: a function
  with at least five bytes of instructions is prepared and the handle installed, both
  returning 0, while no other prepared function overlaps it. Then executing the function
  reaches, in at most three instructions, the hook (the trampoline itself when there is no
  hook function; with a prehook the hook caller, with the transit address in R11), and the
  jump at the end of the trampoline whose address \<open>funchook_prepare\<close> returned continues in
  the function behind the replaced instructions.
\<close>

theorem hooked_function_runs_hook:
  assumes "unix_ok env s" and "handle_inv (x86_64_ops disasm hc) s"
    and "func = resolve target s" and "apart (x86_64_ops disasm hc) s func"
    and "disasm (mem s) func MAX_INSN_CHECK_SIZE = Inr insns" and "list_all wf_insn insns"
    and "REL2G_JUMP_SIZE \<le> insns_size insns"
    and "list_all (\<lambda>e. disjoint_blocks func MAX_PATCH_CODE_SIZE (target_func e) MAX_PATCH_CODE_SIZE)
      (entries_of (page_list s))"
    and "funchook_prepare_internal (x86_64_ops disasm hc) (unix_ops_64 env resolve) target params s = (Inr t, s1)"
    and "funchook_install_internal (x86_64_ops disasm hc) (unix_ops_64 env resolve) s1 = (Inr u, s2)"
  shows "(\<exists>n \<le> 3. x86_run n (mem s2) (func, r) = Some
      (if p_prehook params \<noteq> 0 then (hc, t - 72)
       else if p_hook_func params \<noteq> 0 then (p_hook_func params, r) else (t, r)))
    \<and> x86_step (mem s2) (t + of_nat (patch_size insns), r) = Some (func + of_nat (patch_size insns), r)"
  using hooked_function_runs [OF linux_x86_64.handle_library_axioms assms(1,2) _ assms(4-10)] assms(3)
  by (simp add: unix_ops_64_def)

theorem hooked_function_runs_hook_witness:
  "\<exists>s1 s2 n. funchook_prepare_internal sample_arch sample_os 0x401000 sample_params sample_state = (Inr 0x402058, s1)
     \<and> funchook_install_internal sample_arch sample_os s1 = (Inr (), s2)
     \<and> n \<le> 3 \<and> x86_run n (mem s2) (0x401000, 0) = Some (0x600000, 0)
     \<and> x86_step (mem s2) (0x402063, 0) = Some (0x40100b, 0)"
proof -
  obtain s1 s2 where
    p: "funchook_prepare_internal sample_arch sample_os 0x401000 sample_params sample_state = (Inr 0x402058, s1)"
    and i: "funchook_install_internal sample_arch sample_os s1 = (Inr (), s2)"
    using sample_installed .
  have m: "mem sample_state = sample_mem" and pl: "page_list sample_state = []"
    by (simp_all add: sample_state_def)
  have sz: "REL2G_JUMP_SIZE \<le> insns_size sample_insns" "patch_size sample_insns = 11"
    by code_simp+
  have "p_prehook sample_params = 0" "p_hook_func sample_params = 0x600000"
    by (simp_all add: sample_params_def)
  then show ?thesis
    using hooked_function_runs_hook [where s = sample_state and disasm = sample_disasm and env = sample_env
        and hc = "0x700000" and func = "0x401000" and target = "0x401000" and resolve = "\<lambda>f s. f"
        and insns = sample_insns and params = sample_params and t = "0x402058" and r = 0,
        OF sample_unix_ok sample_inv refl sample_apart _ sample_wf sz(1) _ p i]
      p i sample_disasm_ok
    by (auto simp: m pl sz(2))
qed

end
